(* ===== verification/Prelude.thy ===== *)
theory Prelude
  imports Complex_Main
begin

text \<open>
  Shared lemmas and fact collections of the development: the collections the component
  theories declare their rewrite rules into, integer division facts for rounding, and the
  list facts that several components use.
\<close>

named_theorems float_simps "evaluation and exactness of the binary64 operations"
named_theorems time_simps "evaluation of the calendar and time operations"
named_theorems money_simps "cent-level reading of the money operations"
named_theorems step_simps "unfolding of the operations of the state machines"

subsection \<open>Integers\<close>

lemma floor_half_up_div:
  fixes a b :: int
  assumes "0 < b"
  shows "\<lfloor>(of_int a :: rat) / of_int b + 1 / 2\<rfloor> = (2 * a + b) div (2 * b)"
proof -
  have "(of_int a :: rat) / of_int b + 1 / 2 = of_int (2 * a + b) / of_int (2 * b)"
    using assms by (simp add: field_simps)
  then show ?thesis
    by (simp only: floor_divide_of_int_eq)
qed

lemma div_unique_bounds:
  fixes a b q :: int
  assumes "0 < b" "q * b \<le> a" "a < (q + 1) * b"
  shows "a div b = q"
  using assms by (metis div_pos_pos_trivial int_div_pos_eq diff_ge_0_iff_ge add.commute
    diff_add_cancel distrib_right diff_less_eq mult.commute mult_1)

subsection \<open>Lists\<close>

lemma sum_list_int_nonneg: "(\<And>x. x \<in> set xs \<Longrightarrow> (0::int) \<le> x) \<Longrightarrow> 0 \<le> sum_list xs"
  by (induction xs) auto

lemma sum_list_map_mono_int:
  "(\<And>x. x \<in> set xs \<Longrightarrow> (f x :: int) \<le> g x) \<Longrightarrow> sum_list (map f xs) \<le> sum_list (map g xs)"
  by (induction xs) (auto intro: add_mono)

end
