(* ===== verification/Go_Float.thy ===== *)
theory Go_Float
  imports Prelude
begin

text \<open>
  Go's \<^verbatim>\<open>float64\<close> on the money path, as rationals with the rounding written out.
  A finite double is the rational it denotes; \<open>fl\<close> rounds a rational to the nearest
  double (53 significant bits, ties to even), and every Go operation on doubles is the exact
  operation followed by \<open>fl\<close>. Overflow, NaN, infinities and the sign of zero are outside the
  model (money columns are NUMERIC(12,2), so no value the code computes here leaves
  the normal range). \<open>go_round\<close> is \<^verbatim>\<open>math.Round\<close>: nearest integer, halves away from zero.
\<close>

type_synonym float64 = rat

subsection \<open>The binary exponent\<close>

fun ilog2 :: "nat \<Rightarrow> nat" where
  "ilog2 n = (if n < 2 then 0 else Suc (ilog2 (n div 2)))"

declare ilog2.simps [simp del]

lemma ilog2_bounds: "0 < n \<Longrightarrow> 2 ^ ilog2 n \<le> n \<and> n < 2 ^ Suc (ilog2 n)"
proof (induction n rule: ilog2.induct)
  case (1 n)
  show ?case
  proof (cases "n < 2")
    case True
    with "1.prems" show ?thesis by (simp add: ilog2.simps [of n])
  next
    case False
    with "1.IH" have "2 ^ ilog2 (n div 2) \<le> n div 2 \<and> n div 2 < 2 ^ Suc (ilog2 (n div 2))"
      by simp
    then have "2 * 2 ^ ilog2 (n div 2) \<le> n \<and> n < 2 * 2 ^ Suc (ilog2 (n div 2))"
      by linarith
    with False show ?thesis by (simp add: ilog2.simps [of n])
  qed
qed

lemma ilog2_int:
  assumes "0 < k"
  shows "2 ^ ilog2 (nat k) \<le> k" and "k < 2 ^ Suc (ilog2 (nat k))"
proof -
  have b: "2 ^ ilog2 (nat k) \<le> nat k \<and> nat k < 2 ^ Suc (ilog2 (nat k))"
    using ilog2_bounds [of "nat k"] assms by simp
  then have "int (2 ^ ilog2 (nat k)) \<le> int (nat k)" "int (nat k) < int (2 ^ Suc (ilog2 (nat k)))"
    by (simp_all only: of_nat_le_iff of_nat_less_iff)
  then show "2 ^ ilog2 (nat k) \<le> k" "k < 2 ^ Suc (ilog2 (nat k))"
    using assms by simp_all
qed

definition fexp :: "rat \<Rightarrow> int" where
  "fexp x = (let (n, d) = quotient_of \<bar>x\<bar>;
                 e = int (ilog2 (nat n)) - int (ilog2 (nat d))
             in if 2 powi e \<le> \<bar>x\<bar> then e else e - 1)"

lemma powi_diff_nat: "(2::rat) powi (int a - int b) = 2 ^ a / 2 ^ b"
  by (simp add: power_int_diff)

lemma fexp_bounds:
  assumes "x \<noteq> 0"
  shows "2 powi (fexp x) \<le> \<bar>x\<bar>" and "\<bar>x\<bar> < 2 powi (fexp x + 1)"
proof -
  obtain n d where nd: "quotient_of \<bar>x\<bar> = (n, d)" by fastforce
  then have d: "0 < d" and x: "\<bar>x\<bar> = of_int n / of_int d"
    by (auto simp: quotient_of_denom_pos quotient_of_div)
  with assms have n: "0 < n"
    by (metis abs_ge_zero abs_of_nonneg divide_eq_0_iff linorder_neqE_linordered_idom
        of_int_0_eq_iff of_int_0_less_iff zero_less_abs_iff zero_less_divide_iff order_less_asym)
  define a b where "a = ilog2 (nat n)" and "b = ilog2 (nat d)"
  have na: "2 ^ a \<le> n" "n < 2 ^ Suc a" and db: "2 ^ b \<le> d" "d < 2 ^ Suc b"
    using ilog2_int [OF n] ilog2_int [OF d] by (simp_all add: a_def b_def)
  have ra: "(2::rat) ^ a \<le> of_int n" "of_int n < (2::rat) ^ Suc a"
    and rb: "(2::rat) ^ b \<le> of_int d" "of_int d < (2::rat) ^ Suc b"
    using na db by (simp_all only: of_int_power_le_of_int_cancel_iff of_int_less_of_int_power_cancel_iff
        numeral_power_le_of_int_cancel_iff of_int_less_numeral_power_cancel_iff)
  have up: "\<bar>x\<bar> < 2 powi (int a - int b + 1)"
  proof -
    have "(of_int n :: rat) / of_int d < 2 ^ Suc a / 2 ^ b"
      using ra rb n by (intro frac_less) auto
    then show ?thesis using x by (simp add: power_int_add powi_diff_nat mult.commute)
  qed
  have lo: "2 powi (int a - int b - 1) \<le> \<bar>x\<bar>"
  proof -
    have "(2::rat) ^ a / 2 ^ Suc b \<le> of_int n / of_int d"
      using ra rb n d by (intro frac_le) auto
    then show ?thesis using x by (simp add: power_int_diff powi_diff_nat)
  qed
  have fe: "fexp x = (if 2 powi (int a - int b) \<le> \<bar>x\<bar> then int a - int b else int a - int b - 1)"
    by (simp add: fexp_def nd a_def b_def)
  show "2 powi (fexp x) \<le> \<bar>x\<bar>" using lo by (simp add: fe)
  show "\<bar>x\<bar> < 2 powi (fexp x + 1)" using up by (auto simp: fe not_le)
qed

subsection \<open>Rounding\<close>

definition rne :: "rat \<Rightarrow> int" where
  "rne x = (let f = \<lfloor>x\<rfloor>; r = x - of_int f
            in if r < 1 / 2 then f else if 1 / 2 < r then f + 1 else if even f then f else f + 1)"

definition fl :: "rat \<Rightarrow> float64" where
  "fl x = (if x = 0 then 0
           else let u = 2 powi (fexp x - 52) in of_int (rne (x / u)) * u)"

definition go_round :: "rat \<Rightarrow> int" where
  "go_round x = (if 0 \<le> x then \<lfloor>x + 1 / 2\<rfloor> else - \<lfloor>- x + 1 / 2\<rfloor>)"

lemma rne_error: "\<bar>of_int (rne x) - x\<bar> \<le> 1 / 2"
proof -
  have "of_int \<lfloor>x\<rfloor> \<le> x" "x < of_int \<lfloor>x\<rfloor> + 1" by linarith+
  then show ?thesis by (auto simp: rne_def Let_def)
qed

lemma rne_of_int [simp]: "rne (of_int k) = k"
  by (simp add: rne_def)

lemma fl_0 [simp]: "fl 0 = 0"
  by (simp add: fl_def)

lemma fl_error: "\<bar>fl x - x\<bar> \<le> \<bar>x\<bar> / 2 ^ 53"
proof (cases "x = 0")
  case False
  define u where "u = (2::rat) powi (fexp x - 52)"
  have u: "0 < u" by (simp add: u_def)
  have "fl x - x = (of_int (rne (x / u)) - x / u) * u"
    using False u by (simp add: fl_def u_def Let_def algebra_simps)
  then have "\<bar>fl x - x\<bar> = \<bar>of_int (rne (x / u)) - x / u\<bar> * u"
    using u by (simp add: abs_mult)
  also have "\<dots> \<le> 1 / 2 * u"
    using u rne_error by (intro mult_right_mono) auto
  also have "\<dots> = 2 powi (fexp x) / 2 ^ 53"
    by (simp add: u_def power_int_diff)
  also have "\<dots> \<le> \<bar>x\<bar> / 2 ^ 53"
    using fexp_bounds [OF False] by (simp add: divide_right_mono)
  finally show ?thesis .
qed simp

text \<open>A dyadic rational with at most 53 significant bits is a double: \<open>fl\<close> leaves it alone.\<close>

lemma fl_dyadic:
  assumes "\<bar>m\<bar> \<le> 2 ^ 53"
  shows "fl (of_int m / 2 ^ k) = of_int m / 2 ^ k"
proof (cases "m = 0")
  case False
  define x :: rat where "x = of_int m / 2 ^ k"
  have x0: "x \<noteq> 0" using False by (simp add: x_def)
  define u where "u = (2::rat) powi (fexp x - 52)"
  have u: "0 < u" by (simp add: u_def)
  have mr: "\<bar>(of_int m :: rat)\<bar> \<le> 2 ^ 53"
    using assms by (metis of_int_abs of_int_le_iff of_int_numeral of_int_power)
  have "(2::rat) powi (fexp x) \<le> 2 ^ 53 / 2 ^ k"
  proof -
    have "2 powi (fexp x) \<le> \<bar>x\<bar>" by (rule fexp_bounds [OF x0])
    also have "\<dots> \<le> 2 ^ 53 / 2 ^ k" using mr by (simp add: x_def divide_right_mono)
    finally show ?thesis .
  qed
  then have "(2::rat) powi (fexp x) \<le> 2 powi (int 53 - int k)"
    by (simp only: powi_diff_nat)
  then have e: "fexp x \<le> 53 - int k"
    by (metis linorder_not_le of_nat_numeral power_int_strict_increasing one_less_numeral_iff
        semiring_norm(76))
  show ?thesis
  proof (cases "fexp x = 53 - int k")
    case True
    have "(2::rat) ^ 53 / 2 ^ k \<le> \<bar>x\<bar>"
      using fexp_bounds(1) [OF x0] True powi_diff_nat [of 53 k] by simp
    then have "2 ^ 53 \<le> \<bar>(of_int m :: rat)\<bar>"
      by (simp add: x_def divide_le_cancel)
    with mr have "\<bar>(of_int m :: rat)\<bar> = 2 ^ 53" by simp
    then have ma: "\<bar>m\<bar> = 2 ^ 53"
      by (metis of_int_abs of_int_eq_iff of_int_numeral of_int_power)
    have "u = 2 / 2 ^ k"
      using powi_diff_nat [of 1 k] True by (simp add: u_def)
    moreover from ma have "even m"
      by (metis dvd_abs_iff even_numeral even_power zero_less_numeral)
    ultimately have "x / u = of_int (m div 2)"
      by (auto simp: x_def elim!: evenE)
    then have "fl x = of_int (m div 2) * u"
      using x0 by (simp add: fl_def u_def [symmetric] Let_def)
    also have "\<dots> = x" using \<open>x / u = of_int (m div 2)\<close> u by (simp add: field_simps)
    finally show ?thesis by (simp add: x_def)
  next
    case False
    with e have le: "fexp x - 52 \<le> - int k" by simp
    define j where "j = nat (- int k - (fexp x - 52))"
    have "fexp x - 52 = - int (k + j)" using le by (simp add: j_def)
    then have "u = 1 / 2 ^ (k + j)"
      by (simp only: u_def power_int_minus power_int_of_nat inverse_eq_divide)
    then have "x / u = of_int (m * 2 ^ j)"
      by (simp add: x_def power_add)
    then have "rne (x / u) = m * 2 ^ j" by (simp only: rne_of_int)
    then have "fl x = of_int (m * 2 ^ j) * u"
      using x0 by (simp only: fl_def u_def [symmetric] Let_def if_False)
    also have "\<dots> = x / u * u" by (simp only: \<open>x / u = of_int (m * 2 ^ j)\<close>)
    finally have "fl x = x" using u by simp
    then show ?thesis by (simp add: x_def)
  qed
qed simp

lemma fl_of_int: "\<bar>m\<bar> \<le> 2 ^ 53 \<Longrightarrow> fl (of_int m) = of_int m"
  using fl_dyadic [of m 0] by simp

lemma fl_half: "\<bar>m\<bar> \<le> 2 ^ 53 \<Longrightarrow> fl (of_int m / 2) = of_int m / 2"
  using fl_dyadic [of m 1] by simp

lemma rne_bound: "\<bar>x\<bar> \<le> of_int k \<Longrightarrow> \<bar>rne x\<bar> \<le> k"
proof -
  assume x: "\<bar>x\<bar> \<le> of_int k"
  have "\<bar>of_int (rne x)\<bar> < (of_int (k + 1) :: rat)"
    unfolding of_int_add of_int_1 using rne_error [of x] x by linarith
  then have "\<bar>rne x\<bar> < k + 1" by (metis of_int_abs of_int_less_iff)
  then show ?thesis by simp
qed

text \<open>Rounding twice is rounding once, below the range where every double is an integer.\<close>

lemma fl_fl:
  assumes "\<bar>x\<bar> < 2 ^ 53"
  shows "fl (fl x) = fl x"
proof (cases "x = 0")
  case False
  define u where "u = (2::rat) powi (fexp x - 52)"
  have u: "0 < u" by (simp add: u_def)
  have "(2::rat) powi (fexp x) < 2 powi (int 53)"
    using fexp_bounds(1) [OF False] assms by simp
  then have "fexp x < 53"
    by (metis linorder_not_le of_nat_numeral power_int_increasing one_le_numeral)
  then have e: "fexp x - 52 = - int (nat (52 - fexp x))" by simp
  have ud: "u = 1 / 2 ^ nat (52 - fexp x)"
    unfolding u_def by (subst e) (simp only: power_int_minus power_int_of_nat inverse_eq_divide)
  have "fexp x + 1 = 53 + (fexp x - 52)" by simp
  then have "(2::rat) powi (fexp x + 1) = 2 powi 53 * u"
    unfolding u_def by (simp only: power_int_add zero_neq_numeral [symmetric] not_False_eq_True simp_thms)
  with fexp_bounds(2) [OF False] have "\<bar>x\<bar> < 2 ^ 53 * u" by simp
  then have "\<bar>x / u\<bar> \<le> of_int (2 ^ 53)"
    using u by (simp add: abs_divide divide_le_eq)
  then have m: "\<bar>rne (x / u)\<bar> \<le> 2 ^ 53" by (rule rne_bound)
  have "fl x = of_int (rne (x / u)) / 2 ^ nat (52 - fexp x)"
    using False by (simp add: fl_def u_def [symmetric] Let_def) (simp add: ud)
  then show ?thesis using fl_dyadic [OF m] by simp
qed simp

subsection \<open>Operations on doubles\<close>

text \<open>\<^verbatim>\<open>float64(n)\<close> of an int64, and the four operations, each rounded once.\<close>

definition f_of_int :: "int \<Rightarrow> float64" where
  "f_of_int n = fl (of_int n)"

definition f_add :: "float64 \<Rightarrow> float64 \<Rightarrow> float64" where
  "f_add a b = fl (a + b)"

definition f_sub :: "float64 \<Rightarrow> float64 \<Rightarrow> float64" where
  "f_sub a b = fl (a - b)"

definition f_mul :: "float64 \<Rightarrow> float64 \<Rightarrow> float64" where
  "f_mul a b = fl (a * b)"

definition f_div :: "float64 \<Rightarrow> float64 \<Rightarrow> float64" where
  "f_div a b = fl (a / b)"

subsection \<open>math.Round\<close>

lemma go_round_of_int [simp]: "go_round (of_int k) = k"
proof -
  have "\<lfloor>(of_int k :: rat) + 1 / 2\<rfloor> = k" "\<lfloor>- (of_int k :: rat) + 1 / 2\<rfloor> = - k"
    by linarith+
  then show ?thesis by (simp add: go_round_def)
qed

lemma go_round_0 [simp]: "go_round 0 = 0"
  using go_round_of_int [of 0] by simp

lemma go_round_near:
  assumes "\<bar>of_int k - x\<bar> < 1 / 2"
  shows "go_round x = k"
proof -
  have "\<lfloor>x + 1 / 2\<rfloor> = k" "\<lfloor>- x + 1 / 2\<rfloor> = - k"
    using assms by (simp_all only: floor_eq_iff of_int_minus) linarith+
  then show ?thesis by (simp add: go_round_def)
qed

lemma go_round_error: "\<bar>of_int (go_round x) - x\<bar> \<le> 1 / 2"
proof -
  have "of_int \<lfloor>x + 1 / 2\<rfloor> \<le> x + 1 / 2" "x + 1 / 2 < of_int \<lfloor>x + 1 / 2\<rfloor> + 1"
    "of_int \<lfloor>- x + 1 / 2\<rfloor> \<le> - x + 1 / 2" "- x + 1 / 2 < of_int \<lfloor>- x + 1 / 2\<rfloor> + 1"
    by linarith+
  then show ?thesis unfolding go_round_def by (cases "0 \<le> x"; simp only: if_True if_False of_int_minus; linarith)
qed

lemma go_round_nonneg: "0 \<le> x \<Longrightarrow> 0 \<le> go_round x"
  unfolding go_round_def by simp

lemma go_round_mono:
  assumes "x \<le> y" shows "go_round x \<le> go_round y"
proof -
  have "\<lfloor>x + 1 / 2\<rfloor> \<le> \<lfloor>y + 1 / 2\<rfloor>" "\<lfloor>- y + 1 / 2\<rfloor> \<le> \<lfloor>- x + 1 / 2\<rfloor>"
    using assms by (intro floor_mono; simp)+
  moreover have "0 \<le> \<lfloor>y + 1 / 2\<rfloor>" if "0 \<le> y" using that by linarith
  moreover have "0 \<le> \<lfloor>- x + 1 / 2\<rfloor>" if "x < 0" using that by linarith
  ultimately show ?thesis using assms unfolding go_round_def
    by (cases "0 \<le> x"; cases "0 \<le> y"; simp only: if_True if_False; linarith)
qed

lemma go_round_frac:
  fixes n d :: int
  assumes "0 \<le> n" "0 < d"
  shows "go_round (of_int n / of_int d) = (2 * n + d) div (2 * d)"
  using assms floor_half_up_div [of d n] by (simp add: go_round_def)

text \<open>
  Rounding a quotient of integers is not disturbed by the binary rounding of the quotient:
  the exact value is either a half-integer, which is a double, or at least \<open>1 / (2 * d)\<close>
  away from one, which is more than the rounding error.
\<close>

lemma go_round_fl_div:
  fixes n d :: int
  assumes d: "0 < d" and n: "\<bar>n\<bar> < 2 ^ 52"
  shows "go_round (fl (of_int n / of_int d)) = go_round (of_int n / of_int d)"
proof -
  define q :: rat where "q = of_int n / of_int d"
  define k where "k = go_round q"
  have nr: "\<bar>(of_int n :: rat)\<bar> < 2 ^ 52"
    using n by (metis of_int_abs of_int_less_iff of_int_numeral of_int_power)
  have dr: "1 \<le> (of_int d :: rat)" using d by simp
  have kq: "\<bar>of_int k - q\<bar> = of_int \<bar>k * d - n\<bar> / of_int d"
  proof -
    have "of_int k - q = of_int (k * d - n) / of_int d"
      using d by (simp add: q_def diff_divide_distrib)
    then show ?thesis using d by (simp add: abs_divide)
  qed
  have le: "\<bar>of_int k - q\<bar> \<le> 1 / 2" unfolding k_def by (rule go_round_error)
  show ?thesis
  proof (cases "\<bar>of_int k - q\<bar> = 1 / 2")
    case True
    then have "q = of_int (2 * k - 1) / 2 \<or> q = of_int (2 * k + 1) / 2"
      by (simp add: abs_if split: if_splits)
    then obtain m where m: "q = of_int m / 2" by blast
    have "\<bar>q\<bar> = \<bar>of_int n\<bar> / of_int d"
      using d by (simp add: q_def abs_divide)
    also have "\<dots> \<le> \<bar>of_int n\<bar> / 1"
      using dr by (intro divide_left_mono) auto
    finally have "\<bar>q\<bar> \<le> \<bar>of_int n\<bar>" by simp
    with m nr have "\<bar>(of_int m :: rat)\<bar> \<le> 2 ^ 53" by simp
    then have "\<bar>m\<bar> \<le> 2 ^ 53"
      by (metis of_int_abs of_int_le_iff of_int_numeral of_int_power)
    then have "fl q = q" by (simp add: m fl_half)
    then show ?thesis by (simp add: q_def)
  next
    case False
    with le have "\<bar>of_int k - q\<bar> < 1 / 2" by simp
    with kq d have "(of_int (2 * \<bar>k * d - n\<bar>) :: rat) < of_int d"
      by (simp add: divide_less_eq)
    then have "2 * \<bar>k * d - n\<bar> < d" by (simp only: of_int_less_iff)
    then have "2 * \<bar>k * d - n\<bar> + 1 \<le> d" by simp
    then have "(of_int (2 * \<bar>k * d - n\<bar> + 1) :: rat) \<le> of_int d" by (simp only: of_int_le_iff)
    then have gap: "\<bar>of_int k - q\<bar> \<le> 1 / 2 - 1 / (2 * of_int d)"
      using d by (simp add: kq field_simps)
    have "\<bar>fl q - q\<bar> \<le> \<bar>q\<bar> / 2 ^ 53" by (rule fl_error)
    also have "\<dots> < 1 / (2 * of_int d)"
      using nr d by (simp add: q_def abs_divide divide_less_eq)
    finally have "\<bar>of_int k - fl q\<bar> < 1 / 2" using gap by linarith
    then show ?thesis by (simp add: q_def [symmetric] k_def go_round_near)
  qed
qed

subsection \<open>Euro amounts and cents\<close>

text \<open>\<open>euros c\<close> is \<^verbatim>\<open>float64(c) / 100\<close>: the double nearest to \<open>c\<close> cents.\<close>

definition euros :: "int \<Rightarrow> float64" where
  "euros c = f_div (f_of_int c) 100"

lemma euros_0 [simp]: "euros 0 = 0"
  by (simp add: euros_def f_div_def f_of_int_def)

lemma euros_eq: "\<bar>c\<bar> \<le> 2 ^ 53 \<Longrightarrow> euros c = fl (of_int c / 100)"
  by (simp add: euros_def f_div_def f_of_int_def fl_of_int)

lemma euros_error:
  assumes "\<bar>c\<bar> \<le> 2 ^ 53"
  shows "\<bar>euros c - of_int c / 100\<bar> \<le> \<bar>of_int c\<bar> / (100 * 2 ^ 53)"
  using fl_error [of "of_int c / 100"] assms by (simp add: euros_eq)

text \<open>
  The reading a cent amount gets back from a double near it: scaling by 100 and rounding
  returns the cent count for every double within a quarter of a cent, in a range far above
  what the columns hold.
\<close>

lemma cents_near:
  fixes x :: rat
  assumes x: "\<bar>x - of_int c / 100\<bar> \<le> 1 / 400" and c: "\<bar>c\<bar> \<le> 2 ^ 50"
  shows "go_round (f_mul x 100) = c"
proof -
  have cr: "\<bar>(of_int c :: rat)\<bar> \<le> 2 ^ 50"
    using c by (metis of_int_abs of_int_le_iff of_int_numeral of_int_power)
  have near: "\<bar>x * 100 - of_int c\<bar> \<le> 1 / 4" using x by linarith
  have "\<bar>fl (x * 100) - x * 100\<bar> \<le> \<bar>x * 100\<bar> / 2 ^ 53" by (rule fl_error)
  moreover have "\<bar>x * 100\<bar> \<le> 2 ^ 50 + 1" using near cr by linarith
  ultimately have "\<bar>fl (x * 100) - x * 100\<bar> < 1 / 4" by simp
  with near have "\<bar>of_int c - fl (x * 100)\<bar> < 1 / 2" by linarith
  then show ?thesis by (simp add: f_mul_def go_round_near)
qed

lemma euros_near:
  assumes "\<bar>c\<bar> \<le> 2 ^ 50"
  shows "\<bar>euros c - of_int c / 100\<bar> \<le> 1 / 800"
proof -
  have cr: "\<bar>(of_int c :: rat)\<bar> \<le> 2 ^ 50"
    using assms by (metis of_int_abs of_int_le_iff of_int_numeral of_int_power)
  have "\<bar>euros c - of_int c / 100\<bar> \<le> \<bar>of_int c\<bar> / (100 * 2 ^ 53)"
    using assms by (intro euros_error) simp
  also have "\<dots> \<le> 2 ^ 50 / (100 * 2 ^ 53)" using cr by (simp add: divide_right_mono)
  finally show ?thesis by simp
qed

lemma cents_euros:
  assumes "\<bar>c\<bar> \<le> 2 ^ 50"
  shows "go_round (f_mul (euros c) 100) = c"
proof -
  have "\<bar>euros c - of_int c / 100\<bar> \<le> 1 / 400"
    using euros_near [OF assms] by linarith
  then show ?thesis using assms by (rule cents_near)
qed

end
