(* ===== verification/Go_Calendar.thy ===== *)
theory Go_Calendar
  imports Go_Float
begin

text \<open>
  The proleptic Gregorian calendar as Go's package time computes with it: the day number of a
  date with months and days normalised (\<^verbatim>\<open>time.Date\<close>), the date of a day number
  (\<^verbatim>\<open>Time.Date\<close>), the two as inverses, and the consecutive months and years that the
  billing periods are cut along.
\<close>

subsection \<open>The calendar\<close>

definition is_leap :: "int \<Rightarrow> bool" where
  "is_leap y \<longleftrightarrow> y mod 4 = 0 \<and> (y mod 100 \<noteq> 0 \<or> y mod 400 = 0)"

definition days_before_year :: "int \<Rightarrow> int" where
  "days_before_year y =
     (let k = y - 1 in 365 * k + k div 4 - k div 100 + k div 400)"

definition days_before_month :: "bool \<Rightarrow> int \<Rightarrow> int" where
  "days_before_month leap m =
     (let l = (if leap then 1 else 0) in
      if m \<le> 1 then 0 else if m = 2 then 31 else if m = 3 then 59 + l else if m = 4 then 90 + l
      else if m = 5 then 120 + l else if m = 6 then 151 + l else if m = 7 then 181 + l
      else if m = 8 then 212 + l else if m = 9 then 243 + l else if m = 10 then 273 + l
      else if m = 11 then 304 + l else if m = 12 then 334 + l else 365 + l)"

definition month_len :: "int \<Rightarrow> int \<Rightarrow> int" where
  "month_len y m = days_before_month (is_leap y) (m + 1) - days_before_month (is_leap y) m"

text \<open>Day number (since 1970-01-01) of a date, months outside 1..12 and days outside the month
  normalised as \<^verbatim>\<open>time.Date\<close> does.\<close>

definition date_days :: "int \<Rightarrow> int \<Rightarrow> int \<Rightarrow> int" where
  "date_days y m d =
     (let y' = y + (m - 1) div 12; m' = (m - 1) mod 12 + 1
      in days_before_year y' + days_before_month (is_leap y') m' + (d - 1) - 719162)"

definition year_of_day :: "int \<Rightarrow> int" where
  "year_of_day n =
     (let k = n + 719162; y = (400 * k) div 146097 + 1
      in if k < days_before_year y then y - 1
         else if days_before_year (y + 1) \<le> k then y + 1 else y)"

definition month_of_yday :: "bool \<Rightarrow> int \<Rightarrow> int" where
  "month_of_yday leap k =
     (if k < days_before_month leap 2 then 1 else if k < days_before_month leap 3 then 2
      else if k < days_before_month leap 4 then 3 else if k < days_before_month leap 5 then 4
      else if k < days_before_month leap 6 then 5 else if k < days_before_month leap 7 then 6
      else if k < days_before_month leap 8 then 7 else if k < days_before_month leap 9 then 8
      else if k < days_before_month leap 10 then 9 else if k < days_before_month leap 11 then 10
      else if k < days_before_month leap 12 then 11 else 12)"

definition civil_of_day :: "int \<Rightarrow> int \<times> int \<times> int" where
  "civil_of_day n =
     (let y = year_of_day n; k = n + 719162 - days_before_year y;
          m = month_of_yday (is_leap y) k
      in (y, m, k - days_before_month (is_leap y) m + 1))"

lemma div_step:
  fixes k n :: int
  assumes n: "0 < n"
  shows "(k + 1) div n = k div n + (if (k + 1) mod n = 0 then 1 else 0)"
proof -
  define q where "q = (k + 1) div n"
  define r where "r = (k + 1) mod n"
  have k: "k + 1 = q * n + r" by (simp add: q_def r_def)
  have r: "0 \<le> r" "r < n" using n by (auto simp: r_def)
  have "k div n = (if r = 0 then q - 1 else q)"
    using k r n by (intro div_unique_bounds) (auto simp: algebra_simps)
  then show ?thesis by (simp add: q_def r_def)
qed

lemma days_before_year_step:
  "days_before_year (y + 1) = days_before_year y + (if is_leap y then 366 else 365)"
proof -
  define A B C where "A = (y - 1) div 4" and "B = (y - 1) div 100" and "C = (y - 1) div 400"
  define P Q R where "P \<longleftrightarrow> y mod 4 = 0" and "Q \<longleftrightarrow> y mod 100 = 0" and "R \<longleftrightarrow> y mod 400 = 0"
  have a: "y div n = (y - 1) div n + (if y mod n = 0 then 1 else 0)" if "0 < n" for n
    using div_step [OF that, of "y - 1"] by simp
  have e: "y div 4 = A + (if P then 1 else 0)" "y div 100 = B + (if Q then 1 else 0)"
    "y div 400 = C + (if R then 1 else 0)"
    unfolding A_def B_def C_def P_def Q_def R_def by (rule a; simp)+
  have up: "days_before_year (y + 1) = 365 * y + (A + (if P then 1 else 0))
      - (B + (if Q then 1 else 0)) + (C + (if R then 1 else 0))"
    unfolding e [symmetric] by (simp add: days_before_year_def)
  have lo: "days_before_year y = 365 * (y - 1) + A - B + C"
    by (simp add: days_before_year_def A_def B_def C_def Let_def)
  have "R \<Longrightarrow> Q" "Q \<Longrightarrow> P"
    using dvd_trans [of 100 400 y] dvd_trans [of 4 100 y]
    by (simp_all add: P_def Q_def R_def mod_eq_0_iff_dvd)
  moreover have "is_leap y \<longleftrightarrow> P \<and> (\<not> Q \<or> R)"
    by (simp add: is_leap_def P_def Q_def R_def)
  ultimately show ?thesis
    unfolding up lo by (cases P; cases Q; cases R; simp only: if_True if_False simp_thms; simp)
qed

lemma days_before_year_bounds:
  "400 * days_before_year y \<le> 146097 * (y - 1) + 396"
  "146097 * (y - 1) - 699 \<le> 400 * days_before_year y"
proof -
  define k A B C where "k = y - 1" and "A = k div 4" and "B = k div 100" and "C = k div 400"
  have r: "0 \<le> k - n * (k div n) \<and> k - n * (k div n) < n" if "0 < n" for n
    using that pos_mod_bound [of n k] pos_mod_sign [of n k] by (simp add: minus_mult_div_eq_mod)
  have f: "0 \<le> k - 4 * A \<and> k - 4 * A < 4" "0 \<le> k - 100 * B \<and> k - 100 * B < 100"
    "0 \<le> k - 400 * C \<and> k - 400 * C < 400"
    unfolding A_def B_def C_def by (rule r; simp)+
  have d: "days_before_year y = 365 * k + A - B + C"
    by (simp add: days_before_year_def k_def A_def B_def C_def Let_def)
  show "400 * days_before_year y \<le> 146097 * (y - 1) + 396"
    "146097 * (y - 1) - 699 \<le> 400 * days_before_year y"
    using f by (simp_all add: d k_def [symmetric])
qed

lemma days_before_year_mono:
  assumes "y \<le> z" shows "days_before_year y + 365 * (z - y) \<le> days_before_year z"
proof -
  have "days_before_year y + 365 * int n \<le> days_before_year (y + int n)" for n
  proof (induction n)
    case (Suc n)
    have "days_before_year (y + int (Suc n)) = days_before_year (y + int n + 1)"
      by (simp add: ac_simps)
    with Suc days_before_year_step [of "y + int n"] show ?case by (simp split: if_splits)
  qed simp
  from this [of "nat (z - y)"] show ?thesis using assms by simp
qed

lemma year_of_day_bounds:
  "days_before_year (year_of_day n) \<le> n + 719162"
  "n + 719162 < days_before_year (year_of_day n + 1)"
proof -
  define k where "k = n + 719162"
  define q where "q = (400 * k) div 146097"
  have q: "146097 * q \<le> 400 * k" "400 * k < 146097 * (q + 1)"
  proof -
    define r where "r = (400 * k) mod 146097"
    have "400 * k = 146097 * q + r" "0 \<le> r" "r < 146097" by (simp_all add: q_def r_def)
    then show "146097 * q \<le> 400 * k" "400 * k < 146097 * (q + 1)" by simp_all
  qed
  have lo: "days_before_year q \<le> k" and hi: "k < days_before_year (q + 3)"
    using q days_before_year_bounds [of q] days_before_year_bounds [of "q + 3"] by simp_all
  have "year_of_day n = (if k < days_before_year (q + 1) then q
      else if days_before_year (q + 2) \<le> k then q + 2 else q + 1)"
    by (simp add: year_of_day_def k_def q_def Let_def add.assoc)
  with lo hi show "days_before_year (year_of_day n) \<le> n + 719162"
    "n + 719162 < days_before_year (year_of_day n + 1)"
    by (auto simp: k_def add.assoc)
qed

lemma year_of_day_unique:
  assumes "days_before_year y \<le> n + 719162" "n + 719162 < days_before_year (y + 1)"
  shows "year_of_day n = y"
proof (rule ccontr)
  assume ne: "year_of_day n \<noteq> y"
  let ?z = "year_of_day n"
  from ne consider "?z + 1 \<le> y" | "y + 1 \<le> ?z" by linarith
  then show False
    using days_before_year_mono [of "?z + 1" y] days_before_year_mono [of "y + 1" ?z]
      year_of_day_bounds [of n] assms by cases auto
qed

lemma days_before_month_table [time_simps]:
  "days_before_month l 1 = 0" "days_before_month l 2 = 31"
  "days_before_month l 3 = 59 + of_bool l" "days_before_month l 4 = 90 + of_bool l"
  "days_before_month l 5 = 120 + of_bool l" "days_before_month l 6 = 151 + of_bool l"
  "days_before_month l 7 = 181 + of_bool l" "days_before_month l 8 = 212 + of_bool l"
  "days_before_month l 9 = 243 + of_bool l" "days_before_month l 10 = 273 + of_bool l"
  "days_before_month l 11 = 304 + of_bool l" "days_before_month l 12 = 334 + of_bool l"
  "days_before_month l 13 = 365 + of_bool l"
  by (simp_all add: days_before_month_def)

lemma month_of_yday_bounds:
  assumes "0 \<le> k" "k < days_before_month l 13"
  shows "1 \<le> month_of_yday l k" "month_of_yday l k \<le> 12"
    "days_before_month l (month_of_yday l k) \<le> k"
    "k < days_before_month l (month_of_yday l k + 1)"
  using assms by (cases l; simp add: month_of_yday_def time_simps)+

lemma month_range_cases:
  assumes "1 \<le> m" "m \<le> (12::int)"
  shows "m = 1 \<or> m = 2 \<or> m = 3 \<or> m = 4 \<or> m = 5 \<or> m = 6 \<or> m = 7 \<or> m = 8 \<or> m = 9 \<or>
    m = 10 \<or> m = 11 \<or> m = 12"
  using assms by presburger

lemma month_len_bounds:
  assumes "1 \<le> m" "m \<le> 12"
  shows "28 \<le> month_len y m" "month_len y m \<le> 31"
  using month_range_cases [OF assms] by (auto simp: month_len_def time_simps)

lemma days_before_month_mono:
  assumes "1 \<le> a" "a \<le> b" "b \<le> 13"
  shows "days_before_month l a \<le> days_before_month l b"
proof -
  have st: "days_before_month l m \<le> days_before_month l (m + 1)" if "1 \<le> m" "m \<le> 12" for m
    using month_range_cases [OF that] by (elim disjE) (simp_all add: time_simps)
  have "a + int j \<le> 13 \<Longrightarrow> days_before_month l a \<le> days_before_month l (a + int j)" for j
  proof (induction j)
    case (Suc j)
    then have "days_before_month l a \<le> days_before_month l (a + int j)" by simp
    also have "\<dots> \<le> days_before_month l (a + int j + 1)"
      using Suc.prems assms by (intro st) auto
    finally show ?case by (simp add: ac_simps)
  qed simp
  from this [of "nat (b - a)"] show ?thesis using assms by simp
qed

lemma month_of_yday_unique:
  assumes m: "1 \<le> m" "m \<le> 12" and k: "days_before_month l m \<le> k" "k < days_before_month l (m + 1)"
  shows "month_of_yday l k = m"
proof -
  let ?m = "month_of_yday l k"
  have "0 \<le> k" "k < days_before_month l 13"
    using days_before_month_mono [of 1 m l] days_before_month_mono [of "m + 1" 13 l] m k
    by (simp_all add: time_simps)
  note b = month_of_yday_bounds [OF this]
  have "\<not> ?m + 1 \<le> m" using days_before_month_mono [of "?m + 1" m l] b m k by auto
  moreover have "\<not> m + 1 \<le> ?m" using days_before_month_mono [of "m + 1" ?m l] b m k by auto
  ultimately show ?thesis by linarith
qed

subsection \<open>Dates and day numbers\<close>

text \<open>Months are numbered consecutively: \<open>mstart i\<close> is the day number of the first of month
  \<open>i mod 12 + 1\<close> of year \<open>i div 12\<close>.\<close>

definition mstart :: "int \<Rightarrow> int" where
  "mstart i = date_days (i div 12) (i mod 12 + 1) 1"

definition ystart :: "int \<Rightarrow> int" where
  "ystart y = date_days y 1 1"

definition month_index :: "int \<Rightarrow> int" where
  "month_index n = (case civil_of_day n of (y, m, d) \<Rightarrow> 12 * y + m - 1)"

lemma date_days_mstart: "date_days y m d = mstart (12 * y + m - 1) + d - 1"
proof -
  have "(12 * y + m - 1) div 12 = y + (m - 1) div 12" "(12 * y + m - 1) mod 12 = (m - 1) mod 12"
    by (simp_all add: add_diff_eq [symmetric])
  then show ?thesis by (simp add: mstart_def date_days_def Let_def)
qed

lemma mstart_eq:
  "mstart i = days_before_year (i div 12) + days_before_month (is_leap (i div 12)) (i mod 12 + 1)
     - 719162"
  by (simp add: mstart_def date_days_def Let_def)

lemma mstart_step: "mstart (i + 1) = mstart i + month_len (i div 12) (i mod 12 + 1)"
proof -
  define q r where "q = i div 12" and "r = i mod 12"
  have i: "i = 12 * q + r" by (simp add: q_def r_def)
  have r: "0 \<le> r" "r < 12" by (simp_all add: r_def)
  show ?thesis
  proof (cases "r = 11")
    case True
    have "i + 1 = 12 * (q + 1)" by (simp add: i True)
    then have "(i + 1) div 12 = q + 1" "(i + 1) mod 12 = 0" by simp_all
    then show ?thesis using True
      by (simp add: mstart_eq month_len_def days_before_year_step time_simps q_def [symmetric]
        r_def [symmetric])
  next
    case False
    with r have "(r + 1) div 12 = 0" "(r + 1) mod 12 = r + 1" by auto
    moreover have "i + 1 = r + 1 + 12 * q" by (simp add: i)
    ultimately have "(i + 1) div 12 = q" "(i + 1) mod 12 = r + 1"
      by (simp_all only: div_mult_self2 mod_mult_self2 zero_neq_numeral not_False_eq_True)
    then show ?thesis
      by (simp add: mstart_eq month_len_def add.assoc q_def [symmetric] r_def [symmetric])
  qed
qed

lemma mstart_step_bounds: "mstart i + 28 \<le> mstart (i + 1)" "mstart (i + 1) \<le> mstart i + 31"
proof -
  have "1 \<le> i mod 12 + 1" "i mod 12 + 1 \<le> 12" by simp_all
  then show "mstart i + 28 \<le> mstart (i + 1)" "mstart (i + 1) \<le> mstart i + 31"
    using month_len_bounds [of "i mod 12 + 1" "i div 12"] by (simp_all add: mstart_step)
qed

lemma mstart_mono: "i \<le> j \<Longrightarrow> mstart i + 28 * (j - i) \<le> mstart j"
proof -
  have "mstart i + 28 * int n \<le> mstart (i + int n)" for n
  proof (induction n)
    case (Suc n)
    have "mstart (i + int (Suc n)) = mstart (i + int n + 1)" by (simp add: ac_simps)
    with Suc mstart_step_bounds(1) [of "i + int n"] show ?case by simp
  qed simp
  from this [of "nat (j - i)"] show "i \<le> j \<Longrightarrow> ?thesis" by simp
qed

lemma mstart_less_iff [simp]: "mstart i < mstart j \<longleftrightarrow> i < j"
  using mstart_mono [of i j] mstart_mono [of j i] by (cases "i < j") auto

lemma mstart_le_iff [simp]: "mstart i \<le> mstart j \<longleftrightarrow> i \<le> j"
  by (simp add: linorder_not_less [symmetric])

lemma ystart_mstart: "ystart y = mstart (12 * y)"
  by (simp add: ystart_def date_days_mstart)

lemma ystart_eq: "ystart y = days_before_year y - 719162"
  by (simp add: ystart_mstart mstart_eq time_simps)

lemma ystart_step: "ystart (y + 1) = ystart y + (if is_leap y then 366 else 365)"
  by (simp add: ystart_eq days_before_year_step)

lemma ystart_less_iff [simp]: "ystart y < ystart z \<longleftrightarrow> y < z"
  by (simp add: ystart_mstart)

lemma ystart_le_iff [simp]: "ystart y \<le> ystart z \<longleftrightarrow> y \<le> z"
  by (simp add: ystart_mstart)

lemma year_of_day_iff: "year_of_day n = y \<longleftrightarrow> ystart y \<le> n \<and> n < ystart (y + 1)"
  using year_of_day_bounds [of n] year_of_day_unique [of y n] by (auto simp: ystart_eq)

lemma civil_of_day_props:
  assumes "civil_of_day n = (y, m, d)"
  shows "y = year_of_day n" "1 \<le> m" "m \<le> 12" "1 \<le> d" "d \<le> month_len y m"
    "date_days y m d = n"
proof -
  let ?k = "n + 719162 - days_before_year y"
  from assms have y: "y = year_of_day n" and m: "m = month_of_yday (is_leap y) ?k"
    and d: "d = ?k - days_before_month (is_leap y) m + 1"
    by (auto simp: civil_of_day_def Let_def)
  have "0 \<le> ?k" "?k < days_before_month (is_leap y) 13"
    using year_of_day_bounds [of n] days_before_year_step [of y] y by (auto simp: time_simps)
  note b = month_of_yday_bounds [OF this, folded m]
  show "y = year_of_day n" "1 \<le> m" "m \<le> 12" "1 \<le> d" "d \<le> month_len y m"
    using y b d by (auto simp: month_len_def)
  have "(m - 1) div 12 = 0" "(m - 1) mod 12 = m - 1" using b by auto
  then show "date_days y m d = n" by (simp add: date_days_def d)
qed

lemma civil_of_day_date:
  assumes "1 \<le> m" "m \<le> 12" "1 \<le> d" "d \<le> month_len y m"
  shows "civil_of_day (date_days y m d) = (y, m, d)"
proof -
  have z: "(m - 1) div 12 = 0" "(m - 1) mod 12 = m - 1" using assms by auto
  have n: "date_days y m d = days_before_year y + days_before_month (is_leap y) m + (d - 1) - 719162"
    by (simp add: date_days_def z)
  have dbm: "0 \<le> days_before_month (is_leap y) m"
    "days_before_month (is_leap y) (m + 1) \<le> days_before_month (is_leap y) 13"
    using month_range_cases [OF assms(1,2)] by (auto simp: time_simps)
  have yr: "year_of_day (date_days y m d) = y"
    using assms dbm days_before_year_step [of y]
    by (intro year_of_day_unique) (auto simp: n month_len_def time_simps)
  have mo: "month_of_yday (is_leap y) (days_before_month (is_leap y) m + (d - 1)) = m"
    using assms by (intro month_of_yday_unique) (auto simp: month_len_def)
  have k: "date_days y m d + 719162 - days_before_year y
      = days_before_month (is_leap y) m + (d - 1)" by (simp add: n)
  show ?thesis
    unfolding civil_of_day_def yr Let_def k mo by simp
qed

lemma month_index_bounds: "mstart (month_index n) \<le> n" "n < mstart (month_index n + 1)"
proof -
  obtain y m d where c: "civil_of_day n = (y, m, d)" by (cases "civil_of_day n")
  note p = civil_of_day_props [OF c]
  have n: "n = mstart (12 * y + m - 1) + d - 1" using p(6) by (simp add: date_days_mstart)
  have e: "12 * y + m - 1 = (m - 1) + 12 * y" by simp
  have "(m - 1) div 12 = 0" "(m - 1) mod 12 = m - 1" using p by auto
  then have "(12 * y + m - 1) div 12 = y" "(12 * y + m - 1) mod 12 + 1 = m"
    unfolding e by simp_all
  then have st: "mstart (12 * y + m - 1 + 1) = mstart (12 * y + m - 1) + month_len y m"
    by (simp only: mstart_step)
  have mi: "month_index n = 12 * y + m - 1" by (simp add: month_index_def c)
  show "mstart (month_index n) \<le> n" "n < mstart (month_index n + 1)"
    unfolding mi st using n p(4,5) by linarith+
qed

lemma month_index_iff: "month_index n = i \<longleftrightarrow> mstart i \<le> n \<and> n < mstart (i + 1)"
proof
  assume "mstart i \<le> n \<and> n < mstart (i + 1)"
  with month_index_bounds [of n]
  have "mstart i < mstart (month_index n + 1)" "mstart (month_index n) < mstart (i + 1)"
    by linarith+
  then show "month_index n = i" by simp
qed (use month_index_bounds in auto)

end
