(* ===== verification/Go_Time.thy ===== *)
theory Go_Time
  imports Go_Calendar
begin

text \<open>
  The part of Go's package time the program uses: instants with a zone offset, the proleptic
  Gregorian calendar, \<^verbatim>\<open>time.Date\<close>, \<^verbatim>\<open>Time.AddDate\<close>, \<^verbatim>\<open>Time.Date\<close>, comparisons, and
  \<^verbatim>\<open>Sub\<close> with \<^verbatim>\<open>Duration.Hours\<close>. An instant is a count of nanoseconds since
  1970-01-01T00:00:00Z; a location is represented by its offset at that instant, so zone
  changes inside one value (daylight saving) are outside the model. Every value the billing
  code shifts with AddDate is a UTC midnight (DATE columns and values built with time.UTC).
\<close>

record time =
  t_inst :: int
  t_zone :: int


subsection \<open>Operations on times\<close>

abbreviation day_ns :: int where
  "day_ns \<equiv> 86400000000000"

definition utc_midnight :: "int \<Rightarrow> time" where
  "utc_midnight n = \<lparr>t_inst = n * day_ns, t_zone = 0\<rparr>"

definition zero_time :: time where
  "zero_time = utc_midnight (- 719162)"

definition before :: "time \<Rightarrow> time \<Rightarrow> bool" where
  "before t u \<longleftrightarrow> t_inst t < t_inst u"

definition after :: "time \<Rightarrow> time \<Rightarrow> bool" where
  "after t u \<longleftrightarrow> t_inst u < t_inst t"

definition same_instant :: "time \<Rightarrow> time \<Rightarrow> bool" where
  "same_instant t u \<longleftrightarrow> t_inst t = t_inst u"

definition is_zero_time :: "time \<Rightarrow> bool" where
  "is_zero_time t \<longleftrightarrow> same_instant t zero_time"

text \<open>The calendar day in the value's own zone, and \<^verbatim>\<open>Time.Date\<close>.\<close>

definition local_day :: "time \<Rightarrow> int" where
  "local_day t = (t_inst t + t_zone t) div day_ns"

definition time_date :: "time \<Rightarrow> int \<times> int \<times> int" where
  "time_date t = civil_of_day (local_day t)"

definition time_year :: "time \<Rightarrow> int" where
  "time_year t = fst (time_date t)"

definition time_month :: "time \<Rightarrow> int" where
  "time_month t = fst (snd (time_date t))"

definition time_day :: "time \<Rightarrow> int" where
  "time_day t = snd (snd (time_date t))"

definition date_utc :: "int \<Rightarrow> int \<Rightarrow> int \<Rightarrow> time" where
  "date_utc y m d = utc_midnight (date_days y m d)"

definition add_date :: "time \<Rightarrow> int \<Rightarrow> int \<Rightarrow> int \<Rightarrow> time" where
  "add_date t dy dm dd =
     (case time_date t of (y, m, d) \<Rightarrow>
       t\<lparr>t_inst := date_days (y + dy) (m + dm) (d + dd) * day_ns
           + (t_inst t + t_zone t) mod day_ns - t_zone t\<rparr>)"

text \<open>\<^verbatim>\<open>Sub\<close> saturates at the range of an int64 duration.\<close>

definition time_sub :: "time \<Rightarrow> time \<Rightarrow> int" where
  "time_sub t u = max (- (2 ^ 63)) (min (2 ^ 63 - 1) (t_inst t - t_inst u))"

definition time_add :: "time \<Rightarrow> int \<Rightarrow> time" where
  "time_add t d = t\<lparr>t_inst := t_inst t + d\<rparr>"

definition trunc_div :: "int \<Rightarrow> int \<Rightarrow> int" where
  "trunc_div a b = sgn a * sgn b * (\<bar>a\<bar> div \<bar>b\<bar>)"

definition duration_hours :: "int \<Rightarrow> float64" where
  "duration_hours d =
     (let h = trunc_div d 3600000000000; ns = d - h * 3600000000000
      in f_add (f_of_int h) (f_div (f_of_int ns) 3600000000000))"

definition max_time :: "time \<Rightarrow> time \<Rightarrow> time" where
  "max_time a b = (if after a b then a else b)"

definition min_time :: "time \<Rightarrow> time \<Rightarrow> time" where
  "min_time a b = (if before a b then a else b)"

subsection \<open>Facts\<close>

lemma utc_midnight_inst [simp]: "t_inst (utc_midnight n) = n * day_ns"
  and utc_midnight_zone [simp]: "t_zone (utc_midnight n) = 0"
  by (simp_all add: utc_midnight_def)

lemma utc_midnight_eq_iff [simp]: "utc_midnight m = utc_midnight n \<longleftrightarrow> m = n"
  by (simp add: utc_midnight_def)

lemma local_day_midnight [simp]: "local_day (utc_midnight n) = n"
  by (simp add: local_day_def)

lemma before_midnight [simp]: "before (utc_midnight m) (utc_midnight n) \<longleftrightarrow> m < n"
  by (simp add: before_def)

lemma after_midnight [simp]: "after (utc_midnight m) (utc_midnight n) \<longleftrightarrow> n < m"
  by (simp add: after_def)

lemma max_time_midnight [simp]: "max_time (utc_midnight m) (utc_midnight n) = utc_midnight (max m n)"
  by (simp add: max_time_def)

lemma min_time_midnight [simp]: "min_time (utc_midnight m) (utc_midnight n) = utc_midnight (min m n)"
  by (simp add: min_time_def)

lemma time_date_date: "time_date t = (y, m, d) \<Longrightarrow> date_days y m d = local_day t"
  unfolding time_date_def by (rule civil_of_day_props)

lemma add_date_zone [simp]: "t_zone (add_date t y m d) = t_zone t"
  by (simp add: add_date_def split: prod.splits)

lemma add_date_inst:
  assumes "time_date t = (y, m, d)"
  shows "t_inst (add_date t dy dm dd)
    = t_inst t + (date_days (y + dy) (m + dm) (d + dd) - date_days y m d) * day_ns"
proof -
  have "t_inst t + t_zone t = local_day t * day_ns + (t_inst t + t_zone t) mod day_ns"
    by (simp add: local_day_def)
  with time_date_date [OF assms] assms show ?thesis
    by (simp add: add_date_def left_diff_distrib)
qed

lemma add_date_midnight:
  assumes "civil_of_day n = (y, m, d)"
  shows "add_date (utc_midnight n) dy dm dd = utc_midnight (date_days (y + dy) (m + dm) (d + dd))"
proof -
  have "time_date (utc_midnight n) = (y, m, d)" using assms by (simp add: time_date_def)
  then show ?thesis by (simp add: add_date_def utc_midnight_def)
qed

lemma date_days_add_day: "date_days y m (d + k) = date_days y m d + k"
  by (simp add: date_days_mstart)

lemma add_days_midnight [simp]: "add_date (utc_midnight n) 0 0 k = utc_midnight (n + k)"
proof -
  obtain y m d where c: "civil_of_day n = (y, m, d)" by (cases "civil_of_day n")
  from civil_of_day_props(6) [OF c] show ?thesis
    by (simp add: add_date_midnight [OF c] date_days_add_day)
qed

lemma civil_of_mstart: "civil_of_day (mstart i) = (i div 12, i mod 12 + 1, 1)"
proof -
  have m: "1 \<le> i mod 12 + 1" "i mod 12 + 1 \<le> 12" by simp_all
  then show ?thesis
    unfolding mstart_def using month_len_bounds [OF m, of "i div 12"]
    by (intro civil_of_day_date) auto
qed

lemma add_month_mstart: "add_date (utc_midnight (mstart i)) 0 1 0 = utc_midnight (mstart (i + 1))"
  by (simp add: add_date_midnight [OF civil_of_mstart] date_days_mstart add.commute)

lemma civil_of_ystart: "civil_of_day (ystart y) = (y, 1, 1)"
  by (simp add: ystart_mstart civil_of_mstart)

lemma add_year_ystart: "add_date (utc_midnight (ystart y)) 1 0 0 = utc_midnight (ystart (y + 1))"
proof -
  have "add_date (utc_midnight (ystart y)) 1 0 0 = utc_midnight (date_days (y + 1) (1 + 0) (1 + 0))"
    by (rule add_date_midnight [OF civil_of_ystart])
  then show ?thesis by (simp add: ystart_def)
qed

lemma date_utc_ystart: "date_utc y 1 1 = utc_midnight (ystart y)"
  by (simp add: date_utc_def ystart_def)

lemma date_utc_mstart: "date_utc y m 1 = utc_midnight (mstart (12 * y + m - 1))"
  by (simp add: date_utc_def date_days_mstart)

text \<open>\<^verbatim>\<open>AddDate(0, 1, 0)\<close> and \<^verbatim>\<open>AddDate(1, 0, 0)\<close> always move forward.\<close>

lemma add_month_later: "t_inst t < t_inst (add_date t 0 1 0)"
proof -
  obtain y m d where td: "time_date t = (y, m, d)" by (cases "time_date t")
  have "date_days y m d < date_days y (m + 1) d"
    using mstart_step_bounds(1) [of "12 * y + m - 1"] by (simp add: date_days_mstart add_diff_eq)
  then show ?thesis using add_date_inst [OF td, of 0 1 0] by simp
qed

lemma time_year_midnight: "time_year (utc_midnight n) = year_of_day n"
  by (simp add: time_year_def time_date_def civil_of_day_def Let_def)

text \<open>Whole days between midnights are computed exactly.\<close>

lemma hours_of_days:
  assumes "\<bar>n\<bar> \<le> 100000"
  shows "duration_hours (n * day_ns) = of_int (24 * n)"
proof -
  have t: "trunc_div (n * day_ns) 3600000000000 = 24 * n"
    by (cases "0 \<le> n") (auto simp: trunc_div_def sgn_if abs_mult)
  have z: "n * day_ns - 24 * n * 3600000000000 = 0" by simp
  have "\<bar>24 * n\<bar> \<le> 2 ^ 53" using assms by (simp add: abs_mult)
  then have "f_of_int (24 * n) = of_int (24 * n)" "fl (of_int (24 * n)) = of_int (24 * n)"
    by (simp_all only: f_of_int_def fl_of_int)
  moreover have "f_of_int 0 = 0" by (simp add: f_of_int_def)
  ultimately show ?thesis
    unfolding duration_hours_def t Let_def z f_add_def f_div_def
    by (simp only: div_0 fl_0 add_0_right)
qed

end
