(* ===== verification/Go_String.thy ===== *)
theory Go_String
  imports Prelude
begin

text \<open>
  Strings as the code handles them: a Go string is its list of bytes. Decimal rendering
  (\<^verbatim>\<open>%d\<close>, \<^verbatim>\<open>%02d\<close>, \<^verbatim>\<open>%04d\<close>), with the reading back that makes rendered keys injective.
\<close>

subsection \<open>Decimal rendering\<close>

definition digit_char :: "nat \<Rightarrow> char" where
  "digit_char d = ''0123456789'' ! d"

fun digits :: "nat \<Rightarrow> string" where
  "digits n = (if n < 10 then [digit_char n] else digits (n div 10) @ [digit_char (n mod 10)])"

declare digits.simps [simp del]

definition zero_pad :: "nat \<Rightarrow> string \<Rightarrow> string" where
  "zero_pad w s = replicate (w - length s) (CHR ''0'') @ s"

definition fmt_int :: "int \<Rightarrow> string" where
  "fmt_int k = (if k < 0 then CHR ''-'' # digits (nat (- k)) else digits (nat k))"

text \<open>\<^verbatim>\<open>%0wd\<close>: the sign counts towards the width.\<close>

definition fmt_0d :: "nat \<Rightarrow> int \<Rightarrow> string" where
  "fmt_0d w k =
     (if k < 0 then CHR ''-'' # zero_pad (w - 1) (digits (nat (- k)))
      else zero_pad w (digits (nat k)))"

definition digits_value :: "string \<Rightarrow> nat" where
  "digits_value s = foldl (\<lambda>a c. 10 * a + (of_char c - 48)) 0 s"

lemma digit_char_table [simp]:
  "digit_char 0 = CHR ''0''" "digit_char 1 = CHR ''1''" "digit_char (Suc 0) = CHR ''1''"
  "digit_char 2 = CHR ''2''" "digit_char 3 = CHR ''3''" "digit_char 4 = CHR ''4''"
  "digit_char 5 = CHR ''5''" "digit_char 6 = CHR ''6''" "digit_char 7 = CHR ''7''"
  "digit_char 8 = CHR ''8''" "digit_char 9 = CHR ''9''"
  by (simp_all add: digit_char_def)

lemma of_char_digit: "d < 10 \<Longrightarrow> of_char (digit_char d) = (48 + d :: nat)"
proof -
  assume "d < 10"
  then have "d \<in> {0, 1, 2, 3, 4, 5, 6, 7, 8, 9}" by auto
  then show ?thesis by (elim insertE emptyE; simp)
qed

lemma digits_value_digits: "digits_value (digits n) = n"
proof (induction n rule: digits.induct)
  case (1 n)
  show ?case
  proof (cases "n < 10")
    case True
    then show ?thesis
      by (simp add: digits.simps [of n] digits_value_def of_char_digit)
  next
    case False
    with 1 have "digits_value (digits (n div 10)) = n div 10" by simp
    with False show ?thesis
      by (simp add: digits.simps [of n] digits_value_def of_char_digit)
  qed
qed

lemma digits_value_zero_pad: "digits_value (zero_pad w s) = digits_value s"
proof -
  have "foldl (\<lambda>a c. 10 * a + (of_char c - 48)) (0::nat) (replicate k (CHR ''0'')) = 0" for k
    by (induction k) simp_all
  then show ?thesis by (simp add: zero_pad_def digits_value_def)
qed

lemma digits_range: "c \<in> set (digits n) \<Longrightarrow> 48 \<le> (of_char c :: nat) \<and> (of_char c :: nat) \<le> 57"
proof (induction n rule: digits.induct)
  case (1 n)
  then show ?case
    by (cases "n < 10") (auto simp: digits.simps [of n] of_char_digit)
qed

lemma zero_pad_range:
  "c \<in> set (zero_pad w (digits n)) \<Longrightarrow> 48 \<le> (of_char c :: nat) \<and> (of_char c :: nat) \<le> 57"
  using digits_range [of c n] by (auto simp: zero_pad_def)

lemma zero_pad_digits_inj: "zero_pad w (digits m) = zero_pad w (digits n) \<longleftrightarrow> m = n"
  by (metis digits_value_digits digits_value_zero_pad)

lemma digits_nonempty: "digits n \<noteq> []"
  by (simp add: digits.simps [of n])

lemma zero_pad_nonempty: "zero_pad w (digits n) \<noteq> []"
  by (simp add: zero_pad_def digits_nonempty)

lemma fmt_0d_inj: "fmt_0d w j = fmt_0d w k \<longleftrightarrow> j = k"
proof -
  have no_sign: "zero_pad u (digits n) \<noteq> CHR ''-'' # xs" for u n xs
  proof
    assume "zero_pad u (digits n) = CHR ''-'' # xs"
    then have "CHR ''-'' \<in> set (zero_pad u (digits n))" by simp
    from zero_pad_range [OF this] show False by simp
  qed
  show ?thesis
    using no_sign no_sign [symmetric] by (auto simp: fmt_0d_def zero_pad_digits_inj)
qed

lemma length_fmt_02d: "0 \<le> k \<Longrightarrow> k < 100 \<Longrightarrow> length (fmt_0d 2 k) = 2"
  by (auto simp: fmt_0d_def zero_pad_def digits.simps)

subsection \<open>White space\<close>

text \<open>\<^verbatim>\<open>strings.TrimSpace\<close>: the Unicode white space at both ends, as UTF-8 bytes.\<close>

definition utf8_text :: "nat list \<Rightarrow> string" where
  "utf8_text ns = map (\<lambda>n. char_of n) ns"

definition white_space :: "string list" where
  "white_space =
     map utf8_text ([[9], [10], [11], [12], [13], [32], [194, 133], [194, 160], [225, 154, 128],
       [226, 128, 168], [226, 128, 169], [226, 128, 175], [226, 129, 159], [227, 128, 128]]
       @ map (\<lambda>n. [226, 128, n]) [128..<139])"

definition starts_with :: "string \<Rightarrow> string \<Rightarrow> bool" where
  "starts_with s w \<longleftrightarrow> take (length w) s = w"

function trim_front :: "string list \<Rightarrow> string \<Rightarrow> string" where
  "trim_front ws s =
     (case find (\<lambda>w. w \<noteq> [] \<and> starts_with s w) ws of
        None \<Rightarrow> s
      | Some w \<Rightarrow> trim_front ws (drop (length w) s))"
  by pat_completeness auto
termination
proof (relation "measure (\<lambda>(ws, s). length s)")
  fix ws s w
  assume "find (\<lambda>w. w \<noteq> [] \<and> starts_with s w) ws = Some w"
  then have w: "w \<noteq> []" "starts_with s w" by (auto simp: find_Some_iff)
  then have "s \<noteq> []" by (auto simp: starts_with_def)
  with w show "((ws, drop (length w) s), ws, s) \<in> measure (\<lambda>(ws, s). length s)"
    by simp
qed simp

declare trim_front.simps [simp del]

definition trim_space :: "string \<Rightarrow> string" where
  "trim_space s = rev (trim_front (map rev white_space) (rev (trim_front white_space s)))"

lemma trim_plain:
  assumes "list_all (\<lambda>w. w \<noteq> [] \<longrightarrow> \<not> starts_with s w) ws" shows "trim_front ws s = s"
proof -
  have "find (\<lambda>w. w \<noteq> [] \<and> starts_with s w) ws = None"
    using assms by (auto simp: find_None_iff list_all_iff)
  then show ?thesis by (simp add: trim_front.simps [of ws s])
qed

lemma trim_space_examples:
  "trim_space ''paypal'' = ''paypal''" "trim_space [] = []" "trim_space ''k-2023-05'' = ''k-2023-05''"
proof -
  have plain: "list_all (\<lambda>w. w \<noteq> [] \<longrightarrow> \<not> starts_with s w) white_space"
    "list_all (\<lambda>w. w \<noteq> [] \<longrightarrow> \<not> starts_with (rev s) w) (map rev white_space)"
    if "s = [] \<or> s = ''paypal'' \<or> s = ''k-2023-05''" for s
    using that by (auto simp: white_space_def starts_with_def utf8_text_def char_of_def upt_rec)
  show "trim_space ''paypal'' = ''paypal''" "trim_space [] = []" "trim_space ''k-2023-05'' = ''k-2023-05''"
    using plain [of "''paypal''"] plain [of "[]"] plain [of "''k-2023-05''"] by (simp_all add: trim_space_def trim_plain)
qed

end
