(* ===== verification/Billing_Model.thy ===== *)
theory Billing_Model
  imports Go_Time Go_String
begin

text \<open>
  The domain types and the accrual arithmetic of \<^verbatim>\<open>internal/models/models.go\<close>: proration by
  calendar sub-period, flat-rate agreements (Pauschalen) with rate changes and pauses, recurring
  charges and vehicles as views of the same period arithmetic. A loop that calls a function on
  each sub-period is the list of the calls' arguments, in order. Timestamps of the rows
  (CreatedAt, UpdatedAt) play no part in the arithmetic and are left out of the records.
\<close>

subsection \<open>Constants\<close>

definition BillingMonthly :: string where "BillingMonthly = ''monthly''"
definition BillingYearly :: string where "BillingYearly = ''yearly''"

definition RoleAdmin :: string where "RoleAdmin = ''admin''"
definition RoleEditor :: string where "RoleEditor = ''editor''"
definition RoleReader :: string where "RoleReader = ''reader''"
definition RoleAccounting :: string where "RoleAccounting = ''buchhaltung''"
definition RoleHall :: string where "RoleHall = ''hallendienst''"

definition ValidRoles :: "string \<Rightarrow> bool" where
  "ValidRoles r \<longleftrightarrow> r \<in> set [RoleAdmin, RoleEditor, RoleReader, RoleAccounting, RoleHall]"

definition StatusReserved :: string where "StatusReserved = ''reserved''"
definition StatusStored :: string where "StatusStored = ''stored''"
definition StatusCollected :: string where "StatusCollected = ''collected''"
definition StatusCancelled :: string where "StatusCancelled = ''cancelled''"

definition ValidStatuses :: "string \<Rightarrow> bool" where
  "ValidStatuses s \<longleftrightarrow> s \<in> set [StatusReserved, StatusStored, StatusCollected, StatusCancelled]"

subsection \<open>Proration\<close>

definition toCents :: "float64 \<Rightarrow> int" where
  "toCents e = go_round (f_mul e 100)"

definition fractionCents :: "int \<Rightarrow> float64 \<Rightarrow> float64 \<Rightarrow> int" where
  "fractionCents cents num den =
     (if den \<le> 0 then 0 else go_round (f_div (f_mul (f_of_int cents) num) den))"

definition days :: "time \<Rightarrow> time \<Rightarrow> float64" where
  "days a b = f_div (duration_hours (time_sub b a)) 24"

definition DayAfter :: "time \<Rightarrow> time" where
  "DayAfter t = (case time_date t of (y, m, d) \<Rightarrow> add_date (date_utc y m d) 0 0 1)"

text \<open>One call of the walk: the slice \<open>[s, e)\<close> and its sub-period \<open>[pStart, pEnd)\<close>.\<close>

type_synonym slice = "time \<times> time \<times> time \<times> time"

definition emit :: "time \<Rightarrow> time \<Rightarrow> time \<Rightarrow> time \<Rightarrow> slice list" where
  "emit frm to pStart pEnd =
     (let s = max_time frm pStart; e = min_time to pEnd
      in if after e s then [(s, e, pStart, pEnd)] else [])"

function walk_years :: "time \<Rightarrow> time \<Rightarrow> int \<Rightarrow> slice list" where
  "walk_years frm to y =
     (let pStart = date_utc y 1 1; pEnd = add_date pStart 1 0 0
      in emit frm to pStart pEnd @ (if before pEnd to then walk_years frm to (y + 1) else []))"
  by pat_completeness auto
termination
proof (relation "measure (\<lambda>(frm, to, y). nat (t_inst to - t_inst (date_utc y 1 1)))")
  fix frm to :: time and y :: int and pStart pEnd
  assume "pStart = date_utc y 1 1" "pEnd = add_date pStart 1 0 0" "before pEnd to"
  then have to: "ystart (y + 1) * day_ns < t_inst to"
    by (simp add: date_utc_ystart add_year_ystart before_def)
  have "ystart y * day_ns < ystart (y + 1) * day_ns" by simp
  also note to
  finally have "ystart y * day_ns < t_inst to" .
  with to show "((frm, to, y + 1), frm, to, y)
      \<in> measure (\<lambda>(frm, to, y). nat (t_inst to - t_inst (date_utc y 1 1)))"
    by (simp add: date_utc_ystart)
qed simp

function walk_months :: "time \<Rightarrow> time \<Rightarrow> time \<Rightarrow> slice list" where
  "walk_months frm to cur =
     (if before cur to
      then let pEnd = add_date cur 0 1 0 in emit frm to cur pEnd @ walk_months frm to pEnd
      else [])"
  by pat_completeness auto
termination
proof (relation "measure (\<lambda>(frm, to, cur). nat (t_inst to - t_inst cur))")
  fix frm to cur pEnd
  assume "before cur to" "pEnd = add_date cur 0 1 0"
  then show "((frm, to, pEnd), frm, to, cur) \<in> measure (\<lambda>(frm, to, cur). nat (t_inst to - t_inst cur))"
    using add_month_later [of cur] by (simp add: before_def)
qed simp

declare walk_years.simps [simp del] walk_months.simps [simp del]

definition walkSubPeriods :: "string \<Rightarrow> time \<Rightarrow> time \<Rightarrow> slice list" where
  "walkSubPeriods period frm to =
     (if \<not> after to frm then []
      else if period = BillingYearly then walk_years frm to (time_year frm)
      else walk_months frm to (date_utc (time_year frm) (time_month frm) 1))"

definition prorate :: "float64 \<Rightarrow> string \<Rightarrow> time \<Rightarrow> time \<Rightarrow> float64" where
  "prorate amount period frm to =
     (let cents = toCents amount;
          total = (\<Sum>(s, e, pStart, pEnd) \<leftarrow> walkSubPeriods period frm to.
                     fractionCents cents (days s e) (days pStart pEnd))
      in f_div (f_of_int total) 100)"

subsection \<open>Flat-rate agreements\<close>

record rate_change =
  rc_From :: time
  rc_Amount :: float64

record pause =
  ps_From :: time
  ps_Until :: time

record flat_rate_period =
  fp_ID :: int
  fp_PersonID :: int
  fp_Amount :: float64
  fp_Period :: string
  fp_StartDate :: time
  fp_EndDate :: "time option"
  fp_Paid :: bool
  fp_Note :: string
  fp_VehicleIDs :: "int list"
  fp_PaidPeriods :: "string list"
  fp_PaidFixed :: "string \<rightharpoonup> float64"
  fp_RateChanges :: "rate_change list"
  fp_Pauses :: "pause list"

fun rate_scan :: "time \<Rightarrow> rate_change list \<Rightarrow> float64 \<Rightarrow> time \<Rightarrow> float64" where
  "rate_scan t [] amount best = amount"
| "rate_scan t (rc # rcs) amount best =
     (if \<not> after (rc_From rc) t \<and> \<not> before (rc_From rc) best
      then rate_scan t rcs (rc_Amount rc) (rc_From rc)
      else rate_scan t rcs amount best)"

definition rateAt :: "flat_rate_period \<Rightarrow> time \<Rightarrow> float64" where
  "rateAt a t = rate_scan t (fp_RateChanges a) (fp_Amount a) zero_time"

definition pausedAt :: "flat_rate_period \<Rightarrow> time \<Rightarrow> bool" where
  "pausedAt a t \<longleftrightarrow>
     (\<exists>p \<in> set (fp_Pauses a). \<not> before t (ps_From p) \<and> before t (DayAfter (ps_Until p)))"

definition slice_cuts :: "flat_rate_period \<Rightarrow> time \<Rightarrow> time \<Rightarrow> time list" where
  "slice_cuts a s e =
     (let add = filter (\<lambda>t. after t s \<and> before t e)
      in sort_key t_inst
           ([s, e] @ add (map rc_From (fp_RateChanges a))
             @ add (concat (map (\<lambda>p. [ps_From p, DayAfter (ps_Until p)]) (fp_Pauses a)))))"

fun cut_total :: "flat_rate_period \<Rightarrow> float64 \<Rightarrow> time list \<Rightarrow> int" where
  "cut_total a den (ps # pe # cuts) =
     (if \<not> after pe ps \<or> pausedAt a ps then 0
      else fractionCents (toCents (rateAt a ps)) (days ps pe) den) + cut_total a den (pe # cuts)"
| "cut_total a den _ = 0"

definition sliceCents :: "flat_rate_period \<Rightarrow> slice \<Rightarrow> int" where
  "sliceCents a sl =
     (case sl of (s, e, pStart, pEnd) \<Rightarrow>
       if fp_RateChanges a = [] \<and> fp_Pauses a = []
       then fractionCents (toCents (fp_Amount a)) (days s e) (days pStart pEnd)
       else cut_total a (days pStart pEnd) (slice_cuts a s e))"

definition paidKeySet :: "flat_rate_period \<Rightarrow> string \<Rightarrow> bool" where
  "paidKeySet a k \<longleftrightarrow> k \<in> set (fp_PaidPeriods a)"

definition ActiveAt :: "flat_rate_period \<Rightarrow> time \<Rightarrow> bool" where
  "ActiveAt a t =
     (if before t (fp_StartDate a) then False
      else case fp_EndDate a of None \<Rightarrow> True | Some ed \<Rightarrow> before t (DayAfter ed))"

definition Ended :: "flat_rate_period \<Rightarrow> time \<Rightarrow> bool" where
  "Ended a asOf = (case fp_EndDate a of None \<Rightarrow> False | Some ed \<Rightarrow> \<not> before asOf (DayAfter ed))"

definition PeriodKey :: "flat_rate_period \<Rightarrow> time \<Rightarrow> string" where
  "PeriodKey a t =
     (if fp_Period a = BillingYearly then fmt_0d 4 (time_year t)
      else fmt_0d 4 (time_year t) @ ''-'' @ fmt_0d 2 (time_month t))"

definition PeriodPaidAt :: "flat_rate_period \<Rightarrow> time \<Rightarrow> bool" where
  "PeriodPaidAt a t \<longleftrightarrow> fp_Paid a \<or> paidKeySet a (PeriodKey a t)"

definition window :: "flat_rate_period \<Rightarrow> time \<Rightarrow> time \<Rightarrow> time \<times> time" where
  "window a frm to =
     (let s = max_time (fp_StartDate a) frm
      in case fp_EndDate a of
           None \<Rightarrow> (s, to)
         | Some ed \<Rightarrow> (let endIncl = add_date ed 0 0 1
                       in if before endIncl to then (s, endIncl) else (s, to)))"

definition subPeriods :: "flat_rate_period \<Rightarrow> time \<Rightarrow> time \<Rightarrow> (slice \<times> string) list" where
  "subPeriods a frm to =
     (case window a frm to of (s, e) \<Rightarrow>
       map (\<lambda>sl. case sl of (ss, ee, pStart, pEnd) \<Rightarrow> (sl, PeriodKey a pStart))
         (walkSubPeriods (fp_Period a) s e))"

definition paid_slice_cents :: "flat_rate_period \<Rightarrow> slice \<Rightarrow> string \<Rightarrow> int" where
  "paid_slice_cents a sl key =
     (if fp_Paid a \<or> paidKeySet a key then sliceCents a sl
      else case fp_PaidFixed a key of
             Some fx \<Rightarrow>
               (let periodCents = sliceCents a sl
                in if toCents fx < periodCents then toCents fx else periodCents)
           | None \<Rightarrow> 0)"

definition PaidCentsInRange :: "flat_rate_period \<Rightarrow> time \<Rightarrow> time \<Rightarrow> int" where
  "PaidCentsInRange a frm to =
     (\<Sum>(sl, key) \<leftarrow> subPeriods a frm to. paid_slice_cents a sl key)"

definition CostInRange :: "flat_rate_period \<Rightarrow> time \<Rightarrow> time \<Rightarrow> float64" where
  "CostInRange a frm to =
     (case window a frm to of (s, e) \<Rightarrow>
       if \<not> after e s then 0
       else if fp_RateChanges a = [] \<and> fp_Pauses a = []
       then prorate (fp_Amount a) (fp_Period a) s e
       else let total = (\<Sum>sl \<leftarrow> walkSubPeriods (fp_Period a) s e. sliceCents a sl)
            in f_div (f_of_int total) 100)"

definition SettledAsOf :: "flat_rate_period \<Rightarrow> time \<Rightarrow> bool" where
  "SettledAsOf a asOf =
     (let until = DayAfter asOf
      in PaidCentsInRange a (fp_StartDate a) until
           \<ge> toCents (CostInRange a (fp_StartDate a) until))"

definition AccruedAsOf :: "flat_rate_period \<Rightarrow> time \<Rightarrow> float64" where
  "AccruedAsOf a asOf = CostInRange a (fp_StartDate a) (DayAfter asOf)"

definition ElapsedPeriodKeys :: "flat_rate_period \<Rightarrow> time \<Rightarrow> string list" where
  "ElapsedPeriodKeys a asOf = map snd (subPeriods a (fp_StartDate a) (DayAfter asOf))"

definition ElapsedPeriodCosts :: "flat_rate_period \<Rightarrow> time \<Rightarrow> (string \<rightharpoonup> float64)" where
  "ElapsedPeriodCosts a asOf =
     foldl (\<lambda>out (sl, key). out(key \<mapsto>
         f_add (case out key of None \<Rightarrow> 0 | Some c \<Rightarrow> c)
               (f_div (f_of_int (sliceCents a sl)) 100)))
       Map.empty (subPeriods a (fp_StartDate a) (DayAfter asOf))"

record open_period =
  op_Key :: string
  op_Start :: time
  op_Cost :: float64
  op_Complete :: bool

definition ElapsedPeriodsDetailed :: "flat_rate_period \<Rightarrow> time \<Rightarrow> open_period list" where
  "ElapsedPeriodsDetailed a asOf =
     map (\<lambda>(sl, key). case sl of (s, e, pStart, pEnd) \<Rightarrow>
         (let end' = (case fp_EndDate a of
                        None \<Rightarrow> pEnd
                      | Some ed \<Rightarrow> (let endIncl = DayAfter ed
                                    in if before endIncl pEnd then endIncl else pEnd))
          in \<lparr>op_Key = key, op_Start = s,
              op_Cost = f_div (f_of_int (sliceCents a sl)) 100,
              op_Complete = before end' (DayAfter asOf)\<rparr>))
       (subPeriods a (fp_StartDate a) (DayAfter asOf))"

definition Covers :: "flat_rate_period \<Rightarrow> int \<Rightarrow> bool" where
  "Covers a vehicleID \<longleftrightarrow> fp_VehicleIDs a = [] \<or> vehicleID \<in> set (fp_VehicleIDs a)"

fun complete_scan :: "flat_rate_period \<Rightarrow> open_period list \<Rightarrow> bool \<Rightarrow> bool" where
  "complete_scan a [] seen = seen"
| "complete_scan a (per # pers) seen =
     (if \<not> op_Complete per then complete_scan a pers seen
      else if \<not> fp_Paid a \<and> \<not> paidKeySet a (op_Key per) \<and> 0 < toCents (op_Cost per) then False
      else complete_scan a pers True)"

definition CompletePeriodsPaid :: "flat_rate_period \<Rightarrow> time \<Rightarrow> bool" where
  "CompletePeriodsPaid a asOf = complete_scan a (ElapsedPeriodsDetailed a asOf) False"

subsection \<open>Recurring charges and vehicles as periods\<close>

record recurring_charge =
  rg_ID :: int
  rg_PersonID :: int
  rg_VehicleID :: "int option"
  rg_Description :: string
  rg_Amount :: float64
  rg_Period :: string
  rg_StartDate :: time
  rg_EndDate :: "time option"
  rg_Paid :: bool
  rg_PaidPeriods :: "string list"
  rg_PaidFixed :: "string \<rightharpoonup> float64"
  rg_Pauses :: "pause list"

definition recurring_AsPeriod :: "recurring_charge \<Rightarrow> flat_rate_period" where
  "recurring_AsPeriod rc =
     \<lparr>fp_ID = 0, fp_PersonID = 0, fp_Amount = rg_Amount rc, fp_Period = rg_Period rc,
      fp_StartDate = rg_StartDate rc, fp_EndDate = rg_EndDate rc, fp_Paid = False, fp_Note = '''',
      fp_VehicleIDs = (case rg_VehicleID rc of None \<Rightarrow> [] | Some v \<Rightarrow> [v]),
      fp_PaidPeriods = rg_PaidPeriods rc, fp_PaidFixed = rg_PaidFixed rc,
      fp_RateChanges = [], fp_Pauses = rg_Pauses rc\<rparr>"

record category =
  cat_ID :: int
  cat_Name :: string
  cat_DefaultMonthlyCost :: float64
  cat_DefaultYearlyCost :: float64

record vehicle =
  vh_ID :: int
  vh_PersonID :: int
  vh_CategoryID :: int
  vh_Label :: string
  vh_LicensePlate :: string
  vh_BillingPeriod :: string
  vh_Rate :: float64
  vh_CostOverride :: "float64 option"
  vh_StartDate :: time
  vh_EndDate :: "time option"
  vh_Status :: string
  vh_Paid :: bool
  vh_PaidThrough :: "time option"
  vh_Archived :: bool
  vh_CategoryName :: string
  vh_AccruedCost :: float64
  vh_EffectiveRate :: float64
  vh_IsActive :: bool
  vh_RateChanges :: "rate_change list"
  vh_Pauses :: "pause list"

definition EffectiveRateFor :: "vehicle \<Rightarrow> category \<Rightarrow> float64" where
  "EffectiveRateFor v cat =
     (if vh_Rate v \<noteq> 0 then vh_Rate v
      else case vh_CostOverride v of
             Some c \<Rightarrow> c
           | None \<Rightarrow> if vh_BillingPeriod v = BillingYearly then cat_DefaultYearlyCost cat
                     else cat_DefaultMonthlyCost cat)"

definition vehicle_AsPeriod :: "vehicle \<Rightarrow> category \<Rightarrow> flat_rate_period" where
  "vehicle_AsPeriod v cat =
     \<lparr>fp_ID = 0, fp_PersonID = 0, fp_Amount = EffectiveRateFor v cat,
      fp_Period = vh_BillingPeriod v, fp_StartDate = vh_StartDate v, fp_EndDate = vh_EndDate v,
      fp_Paid = False, fp_Note = '''', fp_VehicleIDs = [], fp_PaidPeriods = [],
      fp_PaidFixed = Map.empty, fp_RateChanges = vh_RateChanges v, fp_Pauses = vh_Pauses v\<rparr>"

definition vehicle_RateAt :: "vehicle \<Rightarrow> category \<Rightarrow> time \<Rightarrow> float64" where
  "vehicle_RateAt v cat t = rateAt (vehicle_AsPeriod v cat) t"

definition vehicle_CostInRange :: "vehicle \<Rightarrow> category \<Rightarrow> time \<Rightarrow> time \<Rightarrow> float64" where
  "vehicle_CostInRange v cat frm to = CostInRange (vehicle_AsPeriod v cat) frm to"

definition AccruedCostAsOf :: "vehicle \<Rightarrow> category \<Rightarrow> time \<Rightarrow> float64" where
  "AccruedCostAsOf v cat asOf = vehicle_CostInRange v cat (vh_StartDate v) (DayAfter asOf)"

end
