(* ===== verification/Billing_Accrual.thy ===== *)
theory Billing_Accrual
  imports Billing_Model
begin

text \<open>
  The accrual arithmetic is exact: the double computations of \<^verbatim>\<open>fractionCents\<close> and
  \<^verbatim>\<open>days\<close> return what integer arithmetic returns, and the calendar walk cuts an interval
  into slices that meet, stay inside their sub-period and cover the interval. The interface
  between the walk and the arithmetic is the locale \<open>calendar_grid\<close>, which the months and
  the years both provide.
\<close>

subsection \<open>Whole days and cents\<close>

definition share :: "int \<Rightarrow> int \<Rightarrow> int \<Rightarrow> int" where
  "share c n d = go_round (of_int (c * n) / of_int d)"

lemma share_full [simp]: "0 < d \<Longrightarrow> share c d d = c"
  by (simp add: share_def)

lemma share_0 [simp]: "share c 0 d = 0"
  by (simp add: share_def)

lemma share_int:
  "0 \<le> c \<Longrightarrow> 0 \<le> n \<Longrightarrow> 0 < d \<Longrightarrow> share c n d = (2 * (c * n) + d) div (2 * d)"
  unfolding share_def by (intro go_round_frac) auto

lemma share_nonneg: "0 \<le> c \<Longrightarrow> 0 \<le> n \<Longrightarrow> 0 < d \<Longrightarrow> 0 \<le> share c n d"
  unfolding share_def by (intro go_round_nonneg) simp

lemma share_mono:
  assumes "0 \<le> c" "n \<le> m" "0 < d" shows "share c n d \<le> share c m d"
proof -
  have "(of_int (c * n) :: rat) \<le> of_int (c * m)"
    using assms by (simp only: of_int_le_iff mult_left_mono)
  then show ?thesis
    unfolding share_def using assms by (intro go_round_mono divide_right_mono) auto
qed

lemma share_le: "0 \<le> c \<Longrightarrow> n \<le> d \<Longrightarrow> 0 < d \<Longrightarrow> share c n d \<le> c"
  using share_mono [of c n d d] by simp

lemma days_midnight:
  assumes "\<bar>n - m\<bar> \<le> 100000"
  shows "days (utc_midnight m) (utc_midnight n) = of_int (n - m)"
proof -
  have "time_sub (utc_midnight n) (utc_midnight m)
      = max (- (2 ^ 63)) (min (2 ^ 63 - 1) ((n - m) * day_ns))"
    by (simp add: time_sub_def left_diff_distrib)
  also have "\<dots> = (n - m) * day_ns"
    using assms by (simp add: max_def min_def abs_le_iff)
  finally have "time_sub (utc_midnight n) (utc_midnight m) = (n - m) * day_ns" .
  then have "days (utc_midnight m) (utc_midnight n) = fl (of_int (24 * (n - m)) / 24)"
    using hours_of_days [OF assms] by (simp only: days_def f_div_def)
  also have "(of_int (24 * (n - m)) :: rat) / 24 = of_int (n - m)" by simp
  also have "fl (of_int (n - m)) = of_int (n - m)" using assms by (intro fl_of_int) simp
  finally show ?thesis .
qed

lemma fractionCents_int:
  assumes "0 < d" "\<bar>c\<bar> \<le> 2 ^ 53" "\<bar>c * n\<bar> < 2 ^ 52"
  shows "fractionCents c (of_int n) (of_int d) = share c n d"
proof -
  have "f_mul (f_of_int c) (of_int n) = fl (of_int (c * n))"
    using assms by (simp add: f_mul_def f_of_int_def fl_of_int)
  also have "\<dots> = of_int (c * n)" using assms by (intro fl_of_int) simp
  finally show ?thesis
    using assms go_round_fl_div [of d "c * n"]
    by (simp add: fractionCents_def f_div_def share_def)
qed

lemma fractionCents_days:
  assumes "s \<le> e" "e - s \<le> 366" "p < q" "q - p \<le> 366" "\<bar>c\<bar> \<le> 10 ^ 12"
  shows "fractionCents c (days (utc_midnight s) (utc_midnight e))
           (days (utc_midnight p) (utc_midnight q)) = share c (e - s) (q - p)"
proof -
  have "\<bar>c * (e - s)\<bar> \<le> 10 ^ 12 * 366"
    unfolding abs_mult using assms by (intro mult_mono) auto
  then have "\<bar>c * (e - s)\<bar> < 2 ^ 52" by simp
  then have "fractionCents c (of_int (e - s)) (of_int (q - p)) = share c (e - s) (q - p)"
    using assms by (intro fractionCents_int) auto
  then show ?thesis using assms by (simp add: days_midnight)
qed

lemma DayAfter_eq: "DayAfter t = utc_midnight (local_day t + 1)"
proof -
  obtain y m d where td: "time_date t = (y, m, d)" by (cases "time_date t")
  then show ?thesis
    by (simp add: DayAfter_def date_utc_def time_date_date [OF td])
qed

lemma DayAfter_midnight [simp]: "DayAfter (utc_midnight n) = utc_midnight (n + 1)"
  by (simp add: DayAfter_eq)

lemma toCents_euros: "\<bar>c\<bar> \<le> 2 ^ 50 \<Longrightarrow> toCents (euros c) = c"
  unfolding toCents_def by (rule cents_euros)

subsection \<open>Tilings\<close>

text \<open>
  \<open>tiles g i a b xs\<close>: the slices \<open>xs\<close> cut the days \<open>[a, b)\<close> along the grid \<open>g\<close>,
  starting in cell \<open>i\<close>.
\<close>

fun tiles :: "(int \<Rightarrow> int) \<Rightarrow> int \<Rightarrow> int \<Rightarrow> int \<Rightarrow> slice list \<Rightarrow> bool" where
  "tiles g i a b [] \<longleftrightarrow> a = b"
| "tiles g i a b (x # xs) \<longleftrightarrow>
     g i \<le> a \<and> a < g (i + 1) \<and> a < b \<and>
     x = (utc_midnight a, utc_midnight (min b (g (i + 1))), utc_midnight (g i), utc_midnight (g (i + 1))) \<and>
     tiles g (i + 1) (min b (g (i + 1))) b xs"

lemma tiles_unique: "tiles g i a b xs \<Longrightarrow> tiles g i a b ys \<Longrightarrow> xs = ys"
proof (induction xs arbitrary: i a ys)
  case Nil
  then show ?case by (cases ys) auto
next
  case (Cons x xs)
  then obtain y ys' where "ys = y # ys'" by (cases ys) auto
  with Cons show ?case by auto
qed

fun slice_len :: "slice \<Rightarrow> int" where
  "slice_len (s, e, p, q) = (t_inst e - t_inst s) div day_ns"

declare slice_len.simps [simp del]

lemma slice_len_midnight [simp]: "slice_len (utc_midnight s, utc_midnight e, p, q) = e - s"
proof -
  have "t_inst (utc_midnight e) - t_inst (utc_midnight s) = (e - s) * day_ns"
    by (simp add: left_diff_distrib)
  then show ?thesis
    by (simp only: slice_len.simps nonzero_mult_div_cancel_right zero_neq_numeral [symmetric]
      not_False_eq_True)
qed

fun slice_share :: "int \<Rightarrow> slice \<Rightarrow> int" where
  "slice_share c (s, e, p, q) = fractionCents c (days s e) (days p q)"

locale calendar_grid =
  fixes g :: "int \<Rightarrow> int" and idx :: "int \<Rightarrow> int" and walk :: "time \<Rightarrow> time \<Rightarrow> int \<Rightarrow> slice list"
  assumes g_step: "g i < g (i + 1)"
    and g_len: "g (i + 1) \<le> g i + 366"
    and idx_le: "g (idx n) \<le> n"
    and idx_less: "n < g (idx n + 1)"
    and walk_cons: "f < g (i + 1) \<Longrightarrow> max f (g i) < t \<Longrightarrow>
      walk (utc_midnight f) (utc_midnight t) i =
        (utc_midnight (max f (g i)), utc_midnight (min t (g (i + 1))),
         utc_midnight (g i), utc_midnight (g (i + 1)))
        # (if g (i + 1) < t then walk (utc_midnight f) (utc_midnight t) (i + 1) else [])"
begin

lemma g_mono: "i \<le> j \<Longrightarrow> g i + (j - i) \<le> g j"
proof -
  have "g i + int n \<le> g (i + int n)" for n
  proof (induction n)
    case (Suc n)
    have "g (i + int (Suc n)) = g (i + int n + 1)" by (simp add: ac_simps)
    with Suc g_step [of "i + int n"] show ?case by simp
  qed simp
  from this [of "nat (j - i)"] show "i \<le> j \<Longrightarrow> ?thesis" by simp
qed

lemma g_less_iff: "g i < g j \<longleftrightarrow> i < j"
  using g_mono [of i j] g_mono [of j i] by (cases "i < j") auto

lemma g_le_iff: "g i \<le> g j \<longleftrightarrow> i \<le> j"
  using g_less_iff [of j i] by auto

lemma g_inj: "g i = g j \<longleftrightarrow> i = j"
  using g_le_iff [of i j] g_le_iff [of j i] by auto

lemma walk_tiles:
  "f < g (i + 1) \<Longrightarrow> max f (g i) < t \<Longrightarrow>
    tiles g i (max f (g i)) t (walk (utc_midnight f) (utc_midnight t) i)"
proof (induction "nat (t - g i)" arbitrary: i rule: less_induct)
  case less
  have rest: "tiles g (i + 1) (g (i + 1)) t (walk (utc_midnight f) (utc_midnight t) (i + 1))"
    if lt: "g (i + 1) < t"
  proof -
    have f: "f < g (i + 1 + 1)" using less.prems g_step [of "i + 1"] by simp
    have mx: "max f (g (i + 1)) = g (i + 1)" using less.prems by simp
    have "nat (t - g (i + 1)) < nat (t - g i)" using less.prems g_step [of i] lt by simp
    from less.hyps [OF this f] mx lt show ?thesis by simp
  qed
  show ?case
    unfolding walk_cons [OF less.prems]
    using less.prems rest g_step [of i] by (cases "g (i + 1) < t") (auto simp: min_def)
qed

lemma tiles_idx: "tiles g i a b (x # xs) \<Longrightarrow> idx a = i"
proof -
  assume "tiles g i a b (x # xs)"
  then have a: "g i \<le> a" "a < g (i + 1)" by auto
  have "g (idx a) < g (i + 1)" "g i < g (idx a + 1)"
    using a idx_le [of a] idx_less [of a] by linarith+
  then show ?thesis by (simp add: g_less_iff)
qed

lemma tiles_unique_idx:
  assumes "tiles g i a b xs" "tiles g j a b ys" shows "xs = ys"
proof (cases xs)
  case Nil
  with assms show ?thesis by (cases ys) auto
next
  case (Cons x xs')
  with assms obtain y ys' where "ys = y # ys'" by (cases ys) auto
  with Cons assms have "i = j" using tiles_idx [of i a b] tiles_idx [of j a b] by auto
  with assms show ?thesis by (auto intro: tiles_unique)
qed

lemma tiles_len: "tiles g i a b xs \<Longrightarrow> (\<Sum>x \<leftarrow> xs. slice_len x) = b - a"
proof (induction xs arbitrary: i a)
  case (Cons x xs)
  then have "tiles g (i + 1) (min b (g (i + 1))) b xs" by simp
  from Cons.IH [OF this] Cons.prems show ?case by simp
qed simp

lemma tiles_end: "tiles g i a b xs \<Longrightarrow> a \<le> b"
  by (cases xs) auto

lemma tiles_slice:
  assumes "tiles g i a b xs" "x \<in> set xs"
  shows "\<exists>s e j. x = (utc_midnight s, utc_midnight e, utc_midnight (g j), utc_midnight (g (j + 1)))
    \<and> i \<le> j \<and> a \<le> s \<and> g j \<le> s \<and> s < e \<and> e \<le> g (j + 1) \<and> e \<le> b \<and> (e = g (j + 1) \<or> e = b)
    \<and> (s = a \<or> s = g j)"
  using assms
proof (induction xs arbitrary: i a)
  case (Cons y ys)
  show ?case
  proof (cases "x = y")
    case True
    with Cons.prems g_step [of i] show ?thesis
      by (intro exI [of _ a] exI [of _ "min b (g (i + 1))"] exI [of _ i]) auto
  next
    case False
    with Cons.prems have t: "tiles g (i + 1) (min b (g (i + 1))) b ys" and x: "x \<in> set ys" by auto
    from Cons.IH [OF t x] obtain s e j where se:
      "x = (utc_midnight s, utc_midnight e, utc_midnight (g j), utc_midnight (g (j + 1)))"
      "i + 1 \<le> j" "min b (g (i + 1)) \<le> s" "g j \<le> s" "s < e" "e \<le> g (j + 1)" "e \<le> b"
      "e = g (j + 1) \<or> e = b" "s = min b (g (i + 1)) \<or> s = g j" by blast
    moreover have "a \<le> s" using Cons.prems se(3) by (auto simp: min_def split: if_splits)
    moreover have "s = g j"
      using se g_mono [of "i + 1" j] by (auto simp: min_def split: if_splits)
    ultimately show ?thesis by (intro exI [of _ s] exI [of _ e] exI [of _ j]) auto
  qed
qed simp

lemma slice_share_tile:
  assumes "tiles g i a b xs" "x \<in> set xs" "\<bar>c\<bar> \<le> 10 ^ 12"
  shows "\<exists>n d. slice_share c x = share c n d \<and> slice_len x = n \<and> 0 < n \<and> n \<le> d \<and> d \<le> 366"
proof -
  from tiles_slice [OF assms(1,2)] obtain s e j where
    x: "x = (utc_midnight s, utc_midnight e, utc_midnight (g j), utc_midnight (g (j + 1)))" and
    b: "g j \<le> s" "s < e" "e \<le> g (j + 1)" by blast
  let ?n = "e - s" and ?d = "g (j + 1) - g j"
  have d: "?n \<le> ?d" "?d \<le> 366" "0 < ?n" using b g_len [of j] by linarith+
  have "slice_share c x = share c ?n ?d"
    unfolding x slice_share.simps using d b g_step [of j] assms(3)
    by (intro fractionCents_days) linarith+
  moreover have "slice_len x = ?n"
    by (simp add: x)
  ultimately show ?thesis using d by blast
qed

lemma slice_share_nonneg:
  assumes "tiles g i a b xs" "x \<in> set xs" "0 \<le> c" "c \<le> 10 ^ 12"
  shows "0 \<le> slice_share c x"
proof -
  obtain n d where "slice_share c x = share c n d" "0 < n" "n \<le> d"
    using slice_share_tile [OF assms(1,2), of c] assms(3,4) by auto
  then show ?thesis using assms(3) by (simp add: share_nonneg)
qed

text \<open>Every complete cell of the grid bills exactly the amount.\<close>

lemma tiles_whole:
  assumes "tiles g i (g i) (g j) xs" "\<bar>c\<bar> \<le> 10 ^ 12" "i \<le> j"
  shows "(\<Sum>x \<leftarrow> xs. slice_share c x) = (j - i) * c"
  using assms
proof (induction xs arbitrary: i)
  case Nil
  then show ?case by (simp add: g_inj)
next
  case (Cons x xs)
  then have "g i < g j" by simp
  then have ij: "i + 1 \<le> j" by (simp add: g_less_iff)
  then have m: "min (g j) (g (i + 1)) = g (i + 1)" by (simp add: min_def g_le_iff)
  have x: "slice_share c x = c"
    using Cons.prems g_len [of i] g_step [of i] by (simp add: m fractionCents_days)
  have "tiles g (i + 1) (g (i + 1)) (g j) xs" using Cons.prems by (simp add: m)
  from Cons.IH [OF this Cons.prems(2) ij] x show ?case by (simp add: algebra_simps)
qed

text \<open>A tiling splits at a grid line, so its total is additive there.\<close>

lemma tiles_split:
  assumes "tiles g i a b xs" "a \<le> g j" "g j \<le> b"
  shows "\<exists>ys zs k. xs = ys @ zs \<and> tiles g i a (g j) ys \<and> tiles g k (g j) b zs"
  using assms
proof (induction xs arbitrary: i a)
  case Nil
  then have "a = b" by simp
  with Nil show ?case by (intro exI [of _ "[]"] exI [of _ i]) auto
next
  case (Cons x xs)
  show ?case
  proof (cases "g j = a")
    case True
    with Cons.prems show ?thesis by (intro exI [of _ "[]"] exI [of _ "x # xs"] exI [of _ i]) auto
  next
    case False
    with Cons.prems have "g i < g j" "a < g (i + 1)" by auto
    then have le: "g (i + 1) \<le> g j" by (simp add: g_less_iff g_le_iff)
    with Cons.prems have m: "min b (g (i + 1)) = g (i + 1)" by simp
    from Cons.prems have t: "tiles g (i + 1) (g (i + 1)) b xs" by (simp add: m)
    from Cons.IH [OF t le Cons.prems(3)] obtain ys zs k where
      "xs = ys @ zs" "tiles g (i + 1) (g (i + 1)) (g j) ys" "tiles g k (g j) b zs" by blast
    moreover have "min (g j) (g (i + 1)) = g (i + 1)" using le by simp
    ultimately show ?thesis
      using Cons.prems m False
      by (intro exI [of _ "x # ys"] exI [of _ zs] exI [of _ k]) auto
  qed
qed

text \<open>Slices that end their cell inside the window are the same for every later end.\<close>

lemma tiles_stable:
  assumes "tiles g i a b xs" "tiles g i a b' ys" "b \<le> b'"
    "(s, e, p, utc_midnight q) \<in> set xs" "q \<le> b"
  shows "(s, e, p, utc_midnight q) \<in> set ys"
  using assms
proof (induction xs arbitrary: i a ys)
  case (Cons x xs)
  then have ab: "a < b" by simp
  with Cons.prems obtain y ys' where ys: "ys = y # ys'" by (cases ys) auto
  show ?case
  proof (cases "g (i + 1) \<le> b")
    case True
    then have m: "min b (g (i + 1)) = g (i + 1)" "min b' (g (i + 1)) = g (i + 1)"
      using Cons.prems(3) by auto
    then have "y = x" and t: "tiles g (i + 1) (g (i + 1)) b xs" "tiles g (i + 1) (g (i + 1)) b' ys'"
      using Cons.prems(1,2) ys by auto
    then show ?thesis using Cons.IH [OF t Cons.prems(3)] Cons.prems(4,5) ys by auto
  next
    case False
    with Cons.prems have "tiles g (i + 1) b b xs" by (simp add: min_def split: if_splits)
    then have "xs = []" using False by (cases xs) auto
    with Cons.prems(1,4,5) False show ?thesis by simp
  qed
qed simp

text \<open>Extending the end never lowers the total.\<close>

lemma tiles_mono:
  assumes "tiles g i a b xs" "tiles g i a b' ys" "b \<le> b'" "0 \<le> c" "c \<le> 10 ^ 12"
  shows "(\<Sum>x \<leftarrow> xs. slice_share c x) \<le> (\<Sum>x \<leftarrow> ys. slice_share c x)"
  using assms
proof (induction xs arbitrary: i a ys)
  case Nil
  have "0 \<le> slice_share c y" if "y \<in> set ys" for y
    using Nil.prems that by (intro slice_share_nonneg)
  then have "0 \<le> (\<Sum>y \<leftarrow> ys. slice_share c y)" by (intro sum_list_int_nonneg) auto
  then show ?case by simp
next
  case (Cons x xs)
  then have ab: "a < b" by simp
  with Cons.prems obtain y ys' where ys: "ys = y # ys'" by (cases ys) auto
  have len: "g (i + 1) \<le> g i + 366" by (rule g_len)
  have xy: "slice_share c x \<le> slice_share c y"
    using Cons.prems ys len ab by (auto simp: fractionCents_days intro!: share_mono)
  show ?case
  proof (cases "g (i + 1) \<le> b")
    case True
    then have "min b (g (i + 1)) = g (i + 1)" "min b' (g (i + 1)) = g (i + 1)"
      using Cons.prems(3) by auto
    then have t: "tiles g (i + 1) (g (i + 1)) b xs" "tiles g (i + 1) (g (i + 1)) b' ys'"
      using Cons.prems(1,2) ys by auto
    from Cons.IH [OF t Cons.prems(3-5)] xy ys show ?thesis by simp
  next
    case False
    with Cons.prems have "tiles g (i + 1) b b xs" by (simp add: min_def split: if_splits)
    then have xs: "xs = []" using False by (cases xs) auto
    have t': "tiles g (i + 1) (min b' (g (i + 1))) b' ys'" using Cons.prems(2) ys by simp
    have "0 \<le> slice_share c z" if "z \<in> set ys'" for z
      using Cons.prems by (intro slice_share_nonneg [OF t' that])
    then have "0 \<le> (\<Sum>z \<leftarrow> ys'. slice_share c z)" by (intro sum_list_int_nonneg) auto
    with xs xy ys show ?thesis by simp
  qed
qed

end

subsection \<open>Months and years are grids\<close>

definition month_walk :: "time \<Rightarrow> time \<Rightarrow> int \<Rightarrow> slice list" where
  "month_walk frm to i = walk_months frm to (utc_midnight (mstart i))"

interpretation months: calendar_grid mstart month_index month_walk
proof
  fix i n f t :: int
  show "mstart i < mstart (i + 1)" by simp
  show "mstart (i + 1) \<le> mstart i + 366" using mstart_step_bounds(2) [of i] by simp
  show "mstart (month_index n) \<le> n" "n < mstart (month_index n + 1)"
    by (rule month_index_bounds)+
  assume "f < mstart (i + 1)" "max f (mstart i) < t"
  moreover have "mstart i < mstart (i + 1)" by simp
  moreover have "\<not> mstart (i + 1) < t \<Longrightarrow>
      walk_months (utc_midnight f) (utc_midnight t) (utc_midnight (mstart (i + 1))) = []"
    by (subst walk_months.simps) simp
  ultimately show "month_walk (utc_midnight f) (utc_midnight t) i =
      (utc_midnight (max f (mstart i)), utc_midnight (min t (mstart (i + 1))),
       utc_midnight (mstart i), utc_midnight (mstart (i + 1)))
      # (if mstart (i + 1) < t then month_walk (utc_midnight f) (utc_midnight t) (i + 1) else [])"
    unfolding month_walk_def
    by (subst walk_months.simps) (simp add: emit_def add_month_mstart Let_def)
qed

interpretation years: calendar_grid ystart year_of_day walk_years
proof
  fix i n f t :: int
  show "ystart i < ystart (i + 1)" by simp
  show "ystart (i + 1) \<le> ystart i + 366" by (simp add: ystart_step)
  show "ystart (year_of_day n) \<le> n" "n < ystart (year_of_day n + 1)"
    using year_of_day_iff [of n "year_of_day n"] by simp_all
  assume "f < ystart (i + 1)" "max f (ystart i) < t"
  moreover have "ystart i < ystart (i + 1)" by simp
  ultimately show "walk_years (utc_midnight f) (utc_midnight t) i =
      (utc_midnight (max f (ystart i)), utc_midnight (min t (ystart (i + 1))),
       utc_midnight (ystart i), utc_midnight (ystart (i + 1)))
      # (if ystart (i + 1) < t then walk_years (utc_midnight f) (utc_midnight t) (i + 1) else [])"
    by (subst walk_years.simps) (simp add: emit_def date_utc_ystart add_year_ystart Let_def)
qed

end
