(* ===== verification/Billing_Facts.thy ===== *)
theory Billing_Facts
  imports Billing_Accrual
begin

text \<open>
  What the accrual of \<^verbatim>\<open>internal/models/models.go\<close> guarantees, on dates carried as UTC
  midnights: whole periods bill the agreed amount, the walk covers the window, accrual is
  additive and monotone, a settled agreement is one whose every elapsed period is paid, a
  complete period never changes again, and the rate in force is the latest change.
\<close>

subsection \<open>The grid of a billing period\<close>

definition grid :: "string \<Rightarrow> int \<Rightarrow> int" where
  "grid p = (if p = BillingYearly then ystart else mstart)"

definition grid_index :: "string \<Rightarrow> int \<Rightarrow> int" where
  "grid_index p = (if p = BillingYearly then year_of_day else month_index)"

definition grid_walk :: "string \<Rightarrow> time \<Rightarrow> time \<Rightarrow> int \<Rightarrow> slice list" where
  "grid_walk p = (if p = BillingYearly then walk_years else month_walk)"

interpretation cal: calendar_grid "grid p" "grid_index p" "grid_walk p" for p
  using months.calendar_grid_axioms years.calendar_grid_axioms
  by (cases "p = BillingYearly") (simp_all add: grid_def grid_index_def grid_walk_def)

lemma date_utc_month: "date_utc (time_year (utc_midnight n)) (time_month (utc_midnight n)) 1
    = utc_midnight (mstart (month_index n))"
  by (simp add: date_utc_mstart time_year_def time_month_def time_date_def month_index_def
      split: prod.splits)

lemma walk_eq_grid:
  "f < t \<Longrightarrow> walkSubPeriods p (utc_midnight f) (utc_midnight t)
     = grid_walk p (utc_midnight f) (utc_midnight t) (grid_index p f)"
  by (simp add: walkSubPeriods_def grid_walk_def grid_index_def month_walk_def
      time_year_midnight date_utc_month [unfolded time_year_midnight])

lemma walk_empty: "t \<le> f \<Longrightarrow> walkSubPeriods p (utc_midnight f) (utc_midnight t) = []"
  by (simp add: walkSubPeriods_def)

lemma walk_tiled:
  assumes "f < t"
  shows "tiles (grid p) (grid_index p f) f t (walkSubPeriods p (utc_midnight f) (utc_midnight t))"
proof -
  have le: "grid p (grid_index p f) \<le> f" by (rule cal.idx_le)
  have "tiles (grid p) (grid_index p f) (max f (grid p (grid_index p f))) t
      (grid_walk p (utc_midnight f) (utc_midnight t) (grid_index p f))"
    using assms le by (intro cal.walk_tiles cal.idx_less) simp
  then show ?thesis using le by (simp add: walk_eq_grid [OF assms] max_absorb1)
qed

lemma walk_tiled_le:
  assumes "f \<le> t"
  shows "tiles (grid p) (grid_index p f) f t (walkSubPeriods p (utc_midnight f) (utc_midnight t))"
  using assms walk_tiled [of f t p] walk_empty [of t f p] by (cases "f = t") auto

lemma walk_eqI:
  "f < t \<Longrightarrow> tiles (grid p) i f t xs \<Longrightarrow> walkSubPeriods p (utc_midnight f) (utc_midnight t) = xs"
  by (rule cal.tiles_unique_idx [OF walk_tiled])

text \<open>Evaluation of the calendar at concrete months and years.\<close>

lemmas cal_eval = grid_def mstart_eq ystart_eq days_before_year_def is_leap_def time_simps Let_def
  BillingMonthly_def BillingYearly_def

lemma prorate_eq:
  "prorate amount p frm to
     = euros (\<Sum>x \<leftarrow> walkSubPeriods p frm to. slice_share (toCents amount) x)"
proof -
  have "(\<lambda>(s, e, pStart, pEnd). fractionCents (toCents amount) (days s e) (days pStart pEnd))
      = slice_share (toCents amount)" by (auto simp: fun_eq_iff)
  then show ?thesis by (simp add: prorate_def euros_def Let_def)
qed

subsection \<open>Dated agreements\<close>

definition is_date :: "time \<Rightarrow> bool" where
  "is_date t \<longleftrightarrow> t = utc_midnight (local_day t)"

definition dated :: "flat_rate_period \<Rightarrow> bool" where
  "dated a \<longleftrightarrow> is_date (fp_StartDate a) \<and>
     (case fp_EndDate a of None \<Rightarrow> True | Some ed \<Rightarrow> is_date ed)"

definition start_day :: "flat_rate_period \<Rightarrow> int" where
  "start_day a = local_day (fp_StartDate a)"

text \<open>The first day after the accrual window up to and including day \<open>n\<close>.\<close>

definition until_day :: "flat_rate_period \<Rightarrow> int \<Rightarrow> int" where
  "until_day a n = (case fp_EndDate a of None \<Rightarrow> n + 1 | Some ed \<Rightarrow> min (n + 1) (local_day ed + 1))"

definition elapsed :: "flat_rate_period \<Rightarrow> time \<Rightarrow> slice list" where
  "elapsed a asOf = walkSubPeriods (fp_Period a) (utc_midnight (start_day a))
     (utc_midnight (until_day a (local_day asOf)))"

definition accrued_cents :: "flat_rate_period \<Rightarrow> time \<Rightarrow> int" where
  "accrued_cents a asOf = (\<Sum>x \<leftarrow> elapsed a asOf. sliceCents a x)"

lemma is_date_midnight [simp]: "is_date (utc_midnight n)"
  by (simp add: is_date_def)

lemma window_elapsed:
  assumes "dated a"
  shows "window a (fp_StartDate a) (DayAfter asOf)
    = (utc_midnight (start_day a), utc_midnight (until_day a (local_day asOf)))"
proof -
  obtain s where s: "fp_StartDate a = utc_midnight s" "start_day a = s"
    using assms by (auto simp: dated_def is_date_def start_day_def)
  show ?thesis
  proof (cases "fp_EndDate a")
    case None
    with s show ?thesis by (simp add: window_def DayAfter_eq until_day_def)
  next
    case (Some ed)
    then obtain e where "ed = utc_midnight e" using assms by (auto simp: dated_def is_date_def)
    with Some s show ?thesis by (simp add: window_def DayAfter_eq until_day_def min_def)
  qed
qed

lemma subPeriods_elapsed:
  assumes "dated a"
  shows "subPeriods a (fp_StartDate a) (DayAfter asOf)
    = map (\<lambda>sl. (sl, PeriodKey a (fst (snd (snd sl))))) (elapsed a asOf)"
  by (simp add: subPeriods_def window_elapsed [OF assms] elapsed_def case_prod_unfold)

lemma AccruedAsOf_eq:
  assumes "dated a"
  shows "AccruedAsOf a asOf = euros (accrued_cents a asOf)"
proof (cases "start_day a < until_day a (local_day asOf)")
  case True
  then show ?thesis
  proof (cases "fp_RateChanges a = [] \<and> fp_Pauses a = []")
    case nc: True
    have "sliceCents a = slice_share (toCents (fp_Amount a))"
      using nc by (auto simp: sliceCents_def fun_eq_iff)
    with nc True show ?thesis
      by (simp add: AccruedAsOf_def CostInRange_def window_elapsed [OF assms] prorate_eq
          accrued_cents_def elapsed_def)
  next
    case False
    with True show ?thesis
      by (auto simp: AccruedAsOf_def CostInRange_def window_elapsed [OF assms]
          accrued_cents_def elapsed_def euros_def)
  qed
next
  case False
  then show ?thesis
    by (simp add: AccruedAsOf_def CostInRange_def window_elapsed [OF assms] accrued_cents_def
        elapsed_def walk_empty)
qed

lemma accrued_cents_plain:
  assumes "fp_RateChanges a = []" "fp_Pauses a = []"
  shows "accrued_cents a asOf = (\<Sum>x \<leftarrow> elapsed a asOf. slice_share (toCents (fp_Amount a)) x)"
proof -
  have "sliceCents a = slice_share (toCents (fp_Amount a))"
    using assms by (auto simp: sliceCents_def fun_eq_iff)
  then show ?thesis by (simp add: accrued_cents_def)
qed

lemma until_day_mono: "m \<le> n \<Longrightarrow> until_day a m \<le> until_day a n"
  by (auto simp: until_day_def split: option.splits)

subsection \<open>Period keys\<close>

definition slice_start :: "slice \<Rightarrow> time" where
  "slice_start sl = fst (snd (snd sl))"

definition index_key :: "string \<Rightarrow> int \<Rightarrow> string" where
  "index_key p j =
     (if p = BillingYearly then fmt_0d 4 j
      else fmt_0d 4 (j div 12) @ ''-'' @ fmt_0d 2 (j mod 12 + 1))"

lemma PeriodKey_grid: "PeriodKey a (utc_midnight (grid (fp_Period a) j)) = index_key (fp_Period a) j"
  by (simp add: PeriodKey_def index_key_def grid_def time_year_def time_month_def time_date_def
      civil_of_mstart civil_of_ystart)

lemma index_key_inj: "index_key p i = index_key p j \<longleftrightarrow> i = j"
proof (cases "p = BillingYearly")
  case True
  then show ?thesis by (simp add: index_key_def fmt_0d_inj)
next
  case False
  have l: "length (fmt_0d 2 (k mod 12 + 1)) = 2" for k :: int
    by (intro length_fmt_02d) (simp_all add: add_strict_increasing2 less_le_trans [of _ 12])
  have "i = j" if "fmt_0d 4 (i div 12) @ ''-'' @ fmt_0d 2 (i mod 12 + 1)
      = fmt_0d 4 (j div 12) @ ''-'' @ fmt_0d 2 (j mod 12 + 1)"
  proof -
    have "fmt_0d 4 (i div 12) = fmt_0d 4 (j div 12) \<and>
        ''-'' @ fmt_0d 2 (i mod 12 + 1) = ''-'' @ fmt_0d 2 (j mod 12 + 1)"
      using that l [of i] l [of j] by (subst (asm) append_eq_append_conv) auto
    then have "i div 12 = j div 12" "i mod 12 = j mod 12" by (auto simp: fmt_0d_inj)
    then show ?thesis by (metis div_mult_mod_eq)
  qed
  with False show ?thesis by (auto simp: index_key_def)
qed

context calendar_grid begin

lemma tiles_starts:
  "tiles g i a b xs \<Longrightarrow>
    map (\<lambda>x. fst (snd (snd x))) xs = map (\<lambda>k. utc_midnight (g (i + int k))) [0..<length xs]"
proof (induction xs arbitrary: i a)
  case (Cons x xs)
  then have t: "tiles g (i + 1) (min b (g (i + 1))) b xs" by simp
  have "map (\<lambda>k. utc_midnight (g (i + int k))) [0..<length (x # xs)]
      = utc_midnight (g i) # map (\<lambda>k. utc_midnight (g (i + 1 + int k))) [0..<length xs]"
    by (simp add: upt_conv_Cons map_Suc_upt [symmetric] comp_def ac_simps del: upt_Suc)
  with Cons.IH [OF t] Cons.prems show ?case by simp
qed simp

end

lemma elapsed_tiled:
  assumes "start_day a \<le> until_day a (local_day asOf)"
  shows "tiles (grid (fp_Period a)) (grid_index (fp_Period a) (start_day a)) (start_day a)
     (until_day a (local_day asOf)) (elapsed a asOf)"
  unfolding elapsed_def using assms by (rule walk_tiled_le)

lemma elapsed_empty: "until_day a (local_day asOf) \<le> start_day a \<Longrightarrow> elapsed a asOf = []"
  by (simp add: elapsed_def walk_empty)

lemma elapsed_keys:
  assumes "dated a"
  shows "\<exists>i. ElapsedPeriodKeys a asOf
    = map (\<lambda>k. index_key (fp_Period a) (i + int k)) [0..<length (elapsed a asOf)]"
proof (cases "start_day a \<le> until_day a (local_day asOf)")
  case True
  let ?i = "grid_index (fp_Period a) (start_day a)"
  have "ElapsedPeriodKeys a asOf = map (PeriodKey a) (map (\<lambda>x. fst (snd (snd x))) (elapsed a asOf))"
    by (simp add: ElapsedPeriodKeys_def subPeriods_elapsed [OF assms])
  also have "\<dots> = map (\<lambda>k. index_key (fp_Period a) (?i + int k)) [0..<length (elapsed a asOf)]"
    by (simp add: cal.tiles_starts [OF elapsed_tiled [OF True]] comp_def PeriodKey_grid)
  finally show ?thesis by blast
next
  case False
  then show ?thesis
    by (simp add: ElapsedPeriodKeys_def subPeriods_elapsed [OF assms] elapsed_empty)
qed

lemma elapsed_keys_distinct:
  assumes "dated a"
  shows "distinct (ElapsedPeriodKeys a asOf)"
proof -
  obtain i where "ElapsedPeriodKeys a asOf
      = map (\<lambda>k. index_key (fp_Period a) (i + int k)) [0..<length (elapsed a asOf)]"
    using elapsed_keys [OF assms] by blast
  then show ?thesis by (simp add: distinct_map inj_on_def index_key_inj)
qed

end
