(* ===== verification/Billing_Properties.thy ===== *)
theory Billing_Properties
  imports Billing_Facts
begin

text \<open>
  The properties of the accrual model, over \<open>Billing_Model\<close>, with the lemmas they rest on
  that are not about the calendar grid alone: signs of the computed cents, the sum of the paid
  parts, the scan for the rate in force, and the cuts of a slice at rate changes and pauses.
\<close>

subsection \<open>Signs\<close>

lemma fl_nonneg: "0 \<le> x \<Longrightarrow> 0 \<le> fl x"
proof -
  assume x: "0 \<le> x"
  have "\<bar>fl x - x\<bar> \<le> \<bar>x\<bar> / 2 ^ 53" by (rule fl_error)
  moreover have "\<bar>x\<bar> / 2 ^ 53 \<le> x" using x by simp
  ultimately show ?thesis by linarith
qed

lemma toCents_nonneg: "0 \<le> x \<Longrightarrow> 0 \<le> toCents x"
  unfolding toCents_def f_mul_def by (intro go_round_nonneg fl_nonneg) simp

lemma duration_hours_nonneg:
  assumes "0 \<le> d" shows "0 \<le> duration_hours d"
proof -
  have t: "trunc_div d 3600000000000 = d div 3600000000000"
    using assms by (cases "d = 0") (auto simp: trunc_div_def sgn_if)
  have "0 \<le> d - d div 3600000000000 * 3600000000000"
    by (simp add: minus_div_mult_eq_mod)
  moreover have "0 \<le> d div 3600000000000" using assms by simp
  ultimately show ?thesis
    unfolding duration_hours_def t Let_def f_add_def f_div_def f_of_int_def
    by (intro fl_nonneg add_nonneg_nonneg divide_nonneg_nonneg) (simp_all only: of_int_0_le_iff)
qed

lemma days_nonneg: "\<not> before b a \<Longrightarrow> 0 \<le> days a b"
  unfolding days_def f_div_def before_def time_sub_def
  by (intro fl_nonneg divide_nonneg_nonneg duration_hours_nonneg) auto

lemma fractionCents_nonneg: "0 \<le> c \<Longrightarrow> 0 \<le> n \<Longrightarrow> 0 \<le> fractionCents c n d"
  unfolding fractionCents_def f_div_def f_mul_def f_of_int_def
  by (auto intro!: go_round_nonneg fl_nonneg divide_nonneg_nonneg mult_nonneg_nonneg)

definition nonneg_rates :: "flat_rate_period \<Rightarrow> bool" where
  "nonneg_rates a \<longleftrightarrow> 0 \<le> fp_Amount a \<and> (\<forall>rc \<in> set (fp_RateChanges a). 0 \<le> rc_Amount rc)"

lemma rate_scan_nonneg:
  "0 \<le> r \<Longrightarrow> \<forall>rc \<in> set rcs. 0 \<le> rc_Amount rc \<Longrightarrow> 0 \<le> rate_scan t rcs r best"
  by (induction rcs arbitrary: r best) auto

lemma rateAt_nonneg: "nonneg_rates a \<Longrightarrow> 0 \<le> rateAt a t"
  by (simp add: rateAt_def nonneg_rates_def rate_scan_nonneg)

lemma cut_total_nonneg: "nonneg_rates a \<Longrightarrow> 0 \<le> cut_total a den cuts"
proof (induction a den cuts rule: cut_total.induct)
  case (1 a den ps pe cuts)
  have "0 \<le> fractionCents (toCents (rateAt a ps)) (days ps pe) den" if "after pe ps"
    using that 1 by (intro fractionCents_nonneg toCents_nonneg rateAt_nonneg days_nonneg)
      (auto simp: after_def before_def)
  with 1 show ?case by auto
qed auto

lemma sliceCents_nonneg:
  assumes "nonneg_rates a" "\<not> before (fst (snd sl)) (fst sl)"
  shows "0 \<le> sliceCents a sl"
proof (cases sl)
  case (fields s e p q)
  have "0 \<le> fractionCents (toCents (fp_Amount a)) (days s e) d" for d
    using assms fields by (intro fractionCents_nonneg toCents_nonneg days_nonneg)
      (auto simp: nonneg_rates_def)
  with fields cut_total_nonneg [OF assms(1)] show ?thesis by (auto simp: sliceCents_def)
qed

lemma elapsed_forward:
  assumes "x \<in> set (elapsed a asOf)"
  shows "\<not> before (fst (snd x)) (fst x)"
proof -
  have "start_day a \<le> until_day a (local_day asOf)"
    using assms by (cases "start_day a \<le> until_day a (local_day asOf)") (auto simp: elapsed_empty)
  from cal.tiles_slice [OF elapsed_tiled [OF this] assms] show ?thesis by auto
qed

lemma elapsed_cents_nonneg: "nonneg_rates a \<Longrightarrow> x \<in> set (elapsed a asOf) \<Longrightarrow> 0 \<le> sliceCents a x"
  by (intro sliceCents_nonneg elapsed_forward)

subsection \<open>Paid parts\<close>

lemma paid_slice_le: "0 \<le> sliceCents a sl \<Longrightarrow> paid_slice_cents a sl key \<le> sliceCents a sl"
  by (auto simp: paid_slice_cents_def Let_def split: option.splits)

lemma sum_list_eq_iff_all:
  "(\<And>x. x \<in> set xs \<Longrightarrow> (f x :: int) \<le> g x) \<Longrightarrow>
    sum_list (map f xs) \<ge> sum_list (map g xs) \<longleftrightarrow> (\<forall>x \<in> set xs. f x = g x)"
proof (induction xs)
  case (Cons x xs)
  have "sum_list (map f xs) \<le> sum_list (map g xs)" using Cons.prems by (intro sum_list_map_mono_int) auto
  moreover have "f x \<le> g x" using Cons.prems by simp
  ultimately show ?case using Cons by (auto; force)
qed simp

lemma PaidCents_elapsed:
  assumes "dated a"
  shows "PaidCentsInRange a (fp_StartDate a) (DayAfter asOf)
    = (\<Sum>sl \<leftarrow> elapsed a asOf. paid_slice_cents a sl (PeriodKey a (slice_start sl)))"
  by (simp add: PaidCentsInRange_def subPeriods_elapsed [OF assms] slice_start_def comp_def)

lemma foldl_costs:
  assumes "distinct (map snd xs)" "\<And>k. k \<in> set (map snd xs) \<Longrightarrow> m k = None"
  shows "foldl (\<lambda>out (sl, key). out(key \<mapsto>
           f_add (case out key of None \<Rightarrow> 0 | Some c \<Rightarrow> c) (h sl))) m xs
    = (\<lambda>k. case map_of (map (\<lambda>(sl, key). (key, f_add 0 (h sl))) xs) k of None \<Rightarrow> m k | Some v \<Rightarrow> Some v)"
  using assms
proof (induction xs arbitrary: m)
  case (Cons x xs)
  obtain sl key where x: "x = (sl, key)" by (cases x)
  let ?m = "m(key \<mapsto> f_add 0 (h sl))"
  have mk: "m key = None" using Cons.prems x by simp
  have d: "distinct (map snd xs)" using Cons.prems by simp
  have n: "\<And>k. k \<in> set (map snd xs) \<Longrightarrow> ?m k = None" using Cons.prems x by auto
  note IH = Cons.IH [OF d n]
  have "map_of (map (\<lambda>(sl, key). (key, f_add 0 (h sl))) xs) key = None"
    using Cons.prems x by (auto simp: map_of_eq_None_iff image_iff)
  with IH mk x show ?case by (auto simp: fun_eq_iff split: option.splits)
qed simp

lemma f_add_0_euros: "\<bar>c\<bar> \<le> 2 ^ 50 \<Longrightarrow> f_add 0 (euros c) = euros c"
proof -
  assume c: "\<bar>c\<bar> \<le> 2 ^ 50"
  then have "\<bar>(of_int c :: rat)\<bar> \<le> 2 ^ 50"
    by (metis of_int_abs of_int_le_iff of_int_numeral of_int_power)
  then have "\<bar>(of_int c :: rat) / 100\<bar> < 2 ^ 53" by simp
  then show ?thesis using c by (simp add: f_add_def euros_eq fl_fl)
qed

subsection \<open>Cuts of a slice\<close>

lemma slice_cuts_range:
  assumes "x \<in> set (slice_cuts a s e)" "\<not> before e s"
  shows "t_inst s \<le> t_inst x \<and> t_inst x \<le> t_inst e"
proof -
  have "x \<in> {s, e} \<or> after x s \<and> before x e"
    using assms(1) by (auto simp only: slice_cuts_def Let_def set_sort set_append set_filter
      set_simps Un_iff mem_Collect_eq)
  with assms(2) show ?thesis by (auto simp: after_def before_def)
qed

lemma cut_total_paused:
  assumes "\<forall>x \<in> set cuts. t_inst s \<le> t_inst x \<and> t_inst x \<le> t_inst e"
    and "\<And>t. t_inst s \<le> t_inst t \<Longrightarrow> t_inst t < t_inst e \<Longrightarrow> pausedAt a t"
  shows "cut_total a den cuts = 0"
  using assms
proof (induction a den cuts rule: cut_total.induct)
  case (1 a den ps pe cuts)
  have "\<not> after pe ps \<or> pausedAt a ps" using 1 by (auto simp: after_def)
  with 1 show ?case by auto
qed auto

lemma rate_scan_spec:
  assumes "\<forall>rc \<in> set rcs. \<not> before (rc_From rc) zero_time"
  shows "(\<forall>rc \<in> set rcs. after (rc_From rc) t \<or> before (rc_From rc) best)
      \<and> rate_scan t rcs r best = r
    \<or> (\<exists>ys rc zs. rcs = ys @ rc # zs \<and> \<not> after (rc_From rc) t \<and> \<not> before (rc_From rc) best
      \<and> (\<forall>x \<in> set ys. after (rc_From x) t \<or> \<not> after (rc_From x) (rc_From rc))
      \<and> (\<forall>x \<in> set zs. after (rc_From x) t \<or> before (rc_From x) (rc_From rc))
      \<and> rate_scan t rcs r best = rc_Amount rc)"
  using assms
proof (induction rcs arbitrary: r best)
  case (Cons c cs)
  show ?case
  proof (cases "\<not> after (rc_From c) t \<and> \<not> before (rc_From c) best")
    case True
    from Cons.IH [of "rc_From c" "rc_Amount c"] Cons.prems
    consider "\<forall>rc \<in> set cs. after (rc_From rc) t \<or> before (rc_From rc) (rc_From c)"
        "rate_scan t cs (rc_Amount c) (rc_From c) = rc_Amount c"
      | ys rc zs where "cs = ys @ rc # zs" "\<not> after (rc_From rc) t"
        "\<not> before (rc_From rc) (rc_From c)"
        "\<forall>x \<in> set ys. after (rc_From x) t \<or> \<not> after (rc_From x) (rc_From rc)"
        "\<forall>x \<in> set zs. after (rc_From x) t \<or> before (rc_From x) (rc_From rc)"
        "rate_scan t cs (rc_Amount c) (rc_From c) = rc_Amount rc"
      by fastforce
    then show ?thesis
    proof cases
      case 1
      with True show ?thesis
        by (intro disjI2 exI [of _ "[]"] exI [of _ c] exI [of _ cs]) auto
    next
      case (2 ys rc zs)
      with True show ?thesis
        by (intro disjI2 exI [of _ "c # ys"] exI [of _ rc] exI [of _ zs])
          (auto simp: after_def before_def)
    qed
  next
    case False
    from Cons.IH [of best r] Cons.prems
    consider "\<forall>rc \<in> set cs. after (rc_From rc) t \<or> before (rc_From rc) best"
        "rate_scan t cs r best = r"
      | ys rc zs where "cs = ys @ rc # zs" "\<not> after (rc_From rc) t"
        "\<not> before (rc_From rc) best"
        "\<forall>x \<in> set ys. after (rc_From x) t \<or> \<not> after (rc_From x) (rc_From rc)"
        "\<forall>x \<in> set zs. after (rc_From x) t \<or> before (rc_From x) (rc_From rc)"
        "rate_scan t cs r best = rc_Amount rc"
      by fastforce
    then show ?thesis
    proof cases
      case 1
      with False show ?thesis by auto
    next
      case (2 ys rc zs)
      with False show ?thesis
        by (intro disjI2 exI [of _ "c # ys"] exI [of _ rc] exI [of _ zs])
          (auto simp: after_def before_def)
    qed
  qed
qed simp

subsection \<open>Properties\<close>

text \<open>C1: the double arithmetic of one slice is exact. For a slice of \<open>n\<close> days of a sub-period of
  \<open>d\<close> days and an amount up to ten billion euros, \<^verbatim>\<open>fractionCents\<close> on the \<^verbatim>\<open>days\<close> of the
  four timestamps is the integer quotient of \<open>c * n\<close> by \<open>d\<close>, rounded half up.\<close>

theorem slice_cost_exact:
  assumes "s \<le> e" "e - s \<le> 366" "p < q" "q - p \<le> 366" "0 \<le> c" "c \<le> 10 ^ 12"
  shows "fractionCents c (days (utc_midnight s) (utc_midnight e))
      (days (utc_midnight p) (utc_midnight q))
    = (2 * (c * (e - s)) + (q - p)) div (2 * (q - p))"
proof -
  have "fractionCents c (days (utc_midnight s) (utc_midnight e))
      (days (utc_midnight p) (utc_midnight q)) = share c (e - s) (q - p)"
    using assms by (intro fractionCents_days) auto
  also have "\<dots> = (2 * (c * (e - s)) + (q - p)) div (2 * (q - p))"
    using assms by (intro share_int) auto
  finally show ?thesis .
qed

theorem slice_cost_exact_witness:
  "fractionCents 5000 (days (utc_midnight 20000) (utc_midnight 20010))
     (days (utc_midnight 19995) (utc_midnight 20026)) = 1613"
  using slice_cost_exact [of 20000 20010 19995 20026 5000] by simp

text \<open>C2: the walk over calendar sub-periods cuts the interval without gap or overlap: each slice
  begins where the one before ended, lies inside the month or year passed with it, ends with it
  or with the interval, and the lengths add up to the whole interval.\<close>

theorem walk_covers_interval:
  assumes "f < t"
  shows "tiles (grid p) (grid_index p f) f t (walkSubPeriods p (utc_midnight f) (utc_midnight t))
    \<and> (\<Sum>x \<leftarrow> walkSubPeriods p (utc_midnight f) (utc_midnight t). slice_len x) = t - f"
  using walk_tiled [OF assms, of p] cal.tiles_len [OF walk_tiled [OF assms, of p]] by simp

theorem walk_covers_interval_witness:
  "(\<Sum>x \<leftarrow> walkSubPeriods BillingMonthly (utc_midnight 20000) (utc_midnight 20100). slice_len x) = 100"
  using walk_covers_interval [of 20000 20100 BillingMonthly] by simp

text \<open>Whole months and whole years bill exactly the configured amount each, however many
  there are.\<close>

theorem prorate_whole_periods:
  assumes "i \<le> j" "\<bar>toCents amount\<bar> \<le> 10 ^ 12"
  shows "prorate amount p (utc_midnight (grid p i)) (utc_midnight (grid p j))
    = euros ((j - i) * toCents amount)"
proof (cases "i = j")
  case True
  then show ?thesis by (simp add: prorate_eq walk_empty)
next
  case False
  with assms have lt: "grid p i < grid p j" by (simp add: cal.g_less_iff)
  have "grid_index p (grid p i) = i"
    using walk_tiled [OF lt, of p] lt cal.idx_le [of p "grid p i"] cal.idx_less [of "grid p i" p]
    by (simp add: cal.g_le_iff cal.g_less_iff)
  with walk_tiled [OF lt, of p] cal.tiles_whole [of p i j _ "toCents amount"] assms
  show ?thesis by (simp add: prorate_eq)
qed

theorem prorate_whole_periods_witness:
  "prorate (euros 12345) BillingYearly (utc_midnight (grid BillingYearly 2020))
     (utc_midnight (grid BillingYearly 2023)) = euros 37035"
  using prorate_whole_periods [of 2020 2023 "euros 12345" BillingYearly]
  by (simp add: toCents_euros)

text \<open>C3: the prorated cost is additive, to the cent, when the interval is cut at the start of a
  month or year.\<close>

theorem prorate_additive:
  assumes "f \<le> grid p j" "grid p j \<le> t"
    and "\<bar>\<Sum>x \<leftarrow> walkSubPeriods p (utc_midnight f) (utc_midnight (grid p j)). slice_share (toCents amount) x\<bar> \<le> 2 ^ 49"
    and "\<bar>\<Sum>x \<leftarrow> walkSubPeriods p (utc_midnight (grid p j)) (utc_midnight t). slice_share (toCents amount) x\<bar> \<le> 2 ^ 49"
  shows "toCents (prorate amount p (utc_midnight f) (utc_midnight t))
    = toCents (prorate amount p (utc_midnight f) (utc_midnight (grid p j)))
      + toCents (prorate amount p (utc_midnight (grid p j)) (utc_midnight t))"
proof -
  let ?W = "\<lambda>a b. walkSubPeriods p (utc_midnight a) (utc_midnight b)"
  let ?S = "\<lambda>a b. \<Sum>x \<leftarrow> ?W a b. slice_share (toCents amount) x"
  have "f \<le> t" using assms by simp
  from cal.tiles_split [OF walk_tiled_le [OF this, of p] assms(1,2)]
  obtain ys zs k where w: "?W f t = ys @ zs" and
    t: "tiles (grid p) (grid_index p f) f (grid p j) ys" "tiles (grid p) k (grid p j) t zs" by blast
  have "ys = ?W f (grid p j)"
    using t(1) walk_tiled_le [OF assms(1), of p] by (rule tiles_unique)
  moreover have "zs = ?W (grid p j) t"
    using t(2) walk_tiled_le [OF assms(2), of p] by (rule cal.tiles_unique_idx)
  ultimately have "?S f t = ?S f (grid p j) + ?S (grid p j) t" using w by simp
  then show ?thesis using assms(3,4) by (simp add: prorate_eq toCents_euros)
qed

theorem prorate_additive_witness:
  "toCents (prorate (euros 120000) BillingYearly (utc_midnight 19358) (utc_midnight 19733))
    = toCents (prorate (euros 120000) BillingYearly (utc_midnight 19358) (utc_midnight (grid BillingYearly 2024)))
      + toCents (prorate (euros 120000) BillingYearly (utc_midnight (grid BillingYearly 2024)) (utc_midnight 19733))"
proof -
  have g: "grid BillingYearly 2024 = 19723" by (simp add: cal_eval)
  have w: "walkSubPeriods BillingYearly (utc_midnight 19358) (utc_midnight 19723)
      = [(utc_midnight 19358, utc_midnight 19723, utc_midnight 19358, utc_midnight 19723)]"
    "walkSubPeriods BillingYearly (utc_midnight 19723) (utc_midnight 19733)
      = [(utc_midnight 19723, utc_midnight 19733, utc_midnight 19723, utc_midnight 20089)]"
    by (rule walk_eqI [where i = 2023] walk_eqI [where i = 2024]; simp add: cal_eval)+
  show ?thesis
    using prorate_additive [of 19358 BillingYearly 2024 19733 "euros 120000"]
      fractionCents_days [of 19358 19723 19358 19723 120000]
      fractionCents_days [of 19723 19733 19723 20089 120000]
    by (simp add: g w toCents_euros share_int)
qed

text \<open>C4: without rate changes and pauses the accrued cost never falls from one day to a later
  one.\<close>

theorem accrued_monotone:
  assumes "dated a" "fp_RateChanges a = []" "fp_Pauses a = []"
    and "0 \<le> toCents (fp_Amount a)" "toCents (fp_Amount a) \<le> 10 ^ 12"
    and "local_day t \<le> local_day t'" "accrued_cents a t' \<le> 2 ^ 50"
  shows "toCents (AccruedAsOf a t) \<le> toCents (AccruedAsOf a t')"
proof -
  have le: "accrued_cents a t \<le> accrued_cents a t' \<and> 0 \<le> accrued_cents a t"
  proof (cases "start_day a \<le> until_day a (local_day t)")
    case True
    moreover have m: "until_day a (local_day t) \<le> until_day a (local_day t')"
      using assms(6) by (rule until_day_mono)
    ultimately have t: "start_day a \<le> until_day a (local_day t')" by simp
    have "0 \<le> accrued_cents a t"
      unfolding accrued_cents_plain [OF assms(2,3)]
      using cal.slice_share_nonneg [OF elapsed_tiled [OF True]] assms(4,5)
      by (intro sum_list_int_nonneg) auto
    then show ?thesis
      unfolding accrued_cents_plain [OF assms(2,3)]
      using cal.tiles_mono [OF elapsed_tiled [OF True] elapsed_tiled [OF t] m] assms(4,5) by simp
  next
    case False
    have "0 \<le> accrued_cents a t'"
    proof (cases "start_day a \<le> until_day a (local_day t')")
      case t: True
      show ?thesis unfolding accrued_cents_plain [OF assms(2,3)]
        using cal.slice_share_nonneg [OF elapsed_tiled [OF t]] assms(4,5)
        by (intro sum_list_int_nonneg) auto
    qed (simp add: accrued_cents_def elapsed_empty)
    with False show ?thesis by (simp add: accrued_cents_def elapsed_empty)
  qed
  with assms(7) show ?thesis by (simp add: AccruedAsOf_eq [OF assms(1)] toCents_euros)
qed

text \<open>A yearly agreement over 1200 euros from 1 January 2023, the year 2023 paid: the example the
  witnesses evaluate.\<close>

definition example_agreement :: flat_rate_period where
  "example_agreement = \<lparr>fp_ID = 1, fp_PersonID = 7, fp_Amount = euros 120000,
     fp_Period = BillingYearly, fp_StartDate = utc_midnight 19358, fp_EndDate = None,
     fp_Paid = False, fp_Note = [], fp_VehicleIDs = [], fp_PaidPeriods = [''2023''],
     fp_PaidFixed = Map.empty, fp_RateChanges = [], fp_Pauses = []\<rparr>"

lemma example_dated: "dated example_agreement"
  by (simp add: dated_def example_agreement_def)

lemma example_elapsed:
  "elapsed example_agreement (utc_midnight 19722)
     = [(utc_midnight 19358, utc_midnight 19723, utc_midnight 19358, utc_midnight 19723)]"
  "elapsed example_agreement (utc_midnight 19732)
     = [(utc_midnight 19358, utc_midnight 19723, utc_midnight 19358, utc_midnight 19723),
        (utc_midnight 19723, utc_midnight 19733, utc_midnight 19723, utc_midnight 20089)]"
  unfolding elapsed_def
  by (rule walk_eqI [where i = 2023];
      simp add: example_agreement_def start_day_def until_day_def cal_eval)+

lemma example_cents:
  "sliceCents example_agreement (utc_midnight 19358, utc_midnight 19723, utc_midnight 19358, utc_midnight 19723) = 120000"
  "sliceCents example_agreement (utc_midnight 19723, utc_midnight 19733, utc_midnight 19723, utc_midnight 20089) = 3279"
  using fractionCents_days [of 19358 19723 19358 19723 120000] fractionCents_days [of 19723 19733 19723 20089 120000]
  by (simp_all add: sliceCents_def example_agreement_def toCents_euros share_int)

lemma example_keys:
  "PeriodKey example_agreement (utc_midnight 19358) = ''2023''"
  "PeriodKey example_agreement (utc_midnight 19723) = ''2024''"
  using PeriodKey_grid [of example_agreement 2023] PeriodKey_grid [of example_agreement 2024]
  by (simp_all add: example_agreement_def cal_eval index_key_def fmt_0d_def zero_pad_def digits.simps)

theorem accrued_monotone_witness:
  "toCents (AccruedAsOf example_agreement (utc_midnight 19722))
     \<le> toCents (AccruedAsOf example_agreement (utc_midnight 19732))"
  by (rule accrued_monotone)
    (simp_all add: example_dated accrued_cents_def example_elapsed example_cents,
     simp_all add: example_agreement_def toCents_euros)

text \<open>C5: an agreement with non-negative rates counts as settled exactly when every elapsed
  sub-period is credited in full (by the master flag, its own key, or a fixed part as large as
  its cost); the comparison of cents against a rounded euro amount never misjudges it.\<close>

theorem settled_iff_all_periods_paid:
  assumes "dated a" "nonneg_rates a" "accrued_cents a asOf \<le> 2 ^ 50"
  shows "SettledAsOf a asOf \<longleftrightarrow>
    (\<forall>x \<in> set (elapsed a asOf). paid_slice_cents a x (PeriodKey a (slice_start x)) = sliceCents a x)"
proof -
  have nn: "0 \<le> sliceCents a x" if "x \<in> set (elapsed a asOf)" for x
    using assms(2) that by (rule elapsed_cents_nonneg)
  then have "0 \<le> accrued_cents a asOf"
    unfolding accrued_cents_def by (intro sum_list_int_nonneg) auto
  then have "toCents (CostInRange a (fp_StartDate a) (DayAfter asOf)) = accrued_cents a asOf"
    using assms AccruedAsOf_eq [OF assms(1), of asOf]
    by (simp add: AccruedAsOf_def toCents_euros)
  then show ?thesis
    unfolding SettledAsOf_def Let_def PaidCents_elapsed [OF assms(1)] accrued_cents_def
    by (simp add: sum_list_eq_iff_all [OF paid_slice_le [OF nn]])
qed

theorem settled_iff_all_periods_paid_witness:
  "SettledAsOf example_agreement (utc_midnight 19722)
    \<and> \<not> SettledAsOf example_agreement (utc_midnight 19732)"
proof -
  have d: "nonneg_rates example_agreement"
    by (simp add: nonneg_rates_def example_agreement_def euros_def f_div_def f_of_int_def fl_nonneg)
  have "accrued_cents example_agreement (utc_midnight 19722) \<le> 2 ^ 50"
    "accrued_cents example_agreement (utc_midnight 19732) \<le> 2 ^ 50"
    by (simp_all add: accrued_cents_def example_elapsed example_cents)
  from this [THEN settled_iff_all_periods_paid [OF example_dated d]] show ?thesis
    by (simp add: example_elapsed example_cents paid_slice_cents_def slice_start_def example_keys paidKeySet_def)
      (simp add: example_agreement_def)
qed

text \<open>C6: a complete period is final. Whatever later day the periods are listed for, a period
  reported complete is reported again with the same key, start and cost, so it can be billed
  and locked.\<close>

theorem complete_period_final:
  assumes "dated a" "local_day t \<le> local_day t'"
    and "per \<in> set (ElapsedPeriodsDetailed a t)" "op_Complete per"
  shows "per \<in> set (ElapsedPeriodsDetailed a t')"
proof -
  let ?n = "local_day t" and ?n' = "local_day t'"
  define mk where "mk = (\<lambda>(u::time) sl. case sl of (s, e, p, q) \<Rightarrow>
      (let end' = (case fp_EndDate a of None \<Rightarrow> q
          | Some ed \<Rightarrow> (let i = DayAfter ed in if before i q then i else q))
       in \<lparr>op_Key = PeriodKey a p, op_Start = s, op_Cost = f_div (f_of_int (sliceCents a sl)) 100,
           op_Complete = before end' (DayAfter u)\<rparr>))"
  have det: "ElapsedPeriodsDetailed a u = map (mk u) (elapsed a u)" for u
    by (simp add: ElapsedPeriodsDetailed_def subPeriods_elapsed [OF assms(1)] mk_def comp_def
        case_prod_unfold cong: option.case_cong if_cong)
  from assms(3) obtain x where x: "x \<in> set (elapsed a t)" and per: "per = mk t x"
    by (auto simp: det)
  have sn: "start_day a \<le> until_day a ?n"
    using x by (cases "start_day a \<le> until_day a ?n") (auto simp: elapsed_empty)
  have le: "until_day a ?n \<le> until_day a ?n'" using assms(2) by (rule until_day_mono)
  have sn': "start_day a \<le> until_day a ?n'" using sn le by simp
  from cal.tiles_slice [OF elapsed_tiled [OF sn] x] obtain s e p q where
    xd: "x = (utc_midnight s, utc_midnight e, utc_midnight p, utc_midnight q)" by blast
  have stable: "x \<in> set (elapsed a t')" if "q \<le> until_day a ?n"
    using cal.tiles_stable [OF elapsed_tiled [OF sn] elapsed_tiled [OF sn'] le] x that
    unfolding xd by blast
  show ?thesis
  proof (cases "fp_EndDate a")
    case None
    with per assms(4) have "q < ?n + 1" by (simp add: mk_def xd DayAfter_eq)
    then have "x \<in> set (elapsed a t')" using None by (intro stable) (simp add: until_day_def)
    moreover have "mk t' x = per"
      using \<open>q < ?n + 1\<close> assms(2) None by (simp add: per mk_def xd DayAfter_eq)
    ultimately show ?thesis by (auto simp: det)
  next
    case (Some ed)
    then obtain d where ed: "ed = utc_midnight d" using assms(1) by (auto simp: dated_def is_date_def)
    from per assms(4) Some ed have c: "min (d + 1) q < ?n + 1"
      by (auto simp: mk_def xd DayAfter_eq Let_def split: if_splits)
    have "x \<in> set (elapsed a t')"
    proof (cases "q \<le> d + 1")
      case True
      with c Some ed show ?thesis by (intro stable) (simp add: until_day_def)
    next
      case False
      with c Some ed assms(2) have "until_day a ?n = until_day a ?n'" by (simp add: until_day_def)
      then have "elapsed a t' = elapsed a t" by (simp add: elapsed_def)
      with x show ?thesis by simp
    qed
    moreover have "mk t' x = per"
      using c assms(2) Some ed by (auto simp: per mk_def xd DayAfter_eq Let_def)
    ultimately show ?thesis by (auto simp: det)
  qed
qed

theorem complete_period_final_witness:
  "\<exists>per \<in> set (ElapsedPeriodsDetailed example_agreement (utc_midnight 19800)).
     op_Key per = ''2023'' \<and> op_Complete per"
proof -
  have k: "PeriodKey example_agreement (utc_midnight 19358) = ''2023''"
    using PeriodKey_grid [of example_agreement 2023]
    by (simp add: example_agreement_def cal_eval index_key_def fmt_0d_def zero_pad_def digits.simps)
  define per where "per = \<lparr>op_Key = ''2023'', op_Start = utc_midnight 19358,
      op_Cost = f_div (f_of_int 120000) 100, op_Complete = True\<rparr>"
  have "per \<in> set (ElapsedPeriodsDetailed example_agreement (utc_midnight 19732))"
    using subPeriods_elapsed [OF example_dated, of "utc_midnight 19732"]
    by (simp add: per_def ElapsedPeriodsDetailed_def example_elapsed example_cents k)
      (simp add: example_agreement_def)
  from complete_period_final [OF example_dated _ this, of "utc_midnight 19800"] show ?thesis
    by (intro bexI [of _ per]) (simp_all add: per_def)
qed

text \<open>C7: the per-period costs shown beside the periods are exactly the cents of each elapsed
  period, one entry per period key, and they add up to the accrued total.\<close>

theorem period_costs_add_up:
  assumes "dated a" "\<forall>x \<in> set (elapsed a asOf). \<bar>sliceCents a x\<bar> \<le> 2 ^ 50"
  shows "dom (ElapsedPeriodCosts a asOf) = set (ElapsedPeriodKeys a asOf)
    \<and> (\<forall>x \<in> set (elapsed a asOf). ElapsedPeriodCosts a asOf (PeriodKey a (slice_start x))
         = Some (euros (sliceCents a x)))
    \<and> AccruedAsOf a asOf = euros (\<Sum>x \<leftarrow> elapsed a asOf. sliceCents a x)"
proof -
  let ?xs = "subPeriods a (fp_StartDate a) (DayAfter asOf)"
  let ?h = "\<lambda>sl. f_div (f_of_int (sliceCents a sl)) 100"
  have d: "distinct (map snd ?xs)"
    using elapsed_keys_distinct [OF assms(1), of asOf] by (simp add: ElapsedPeriodKeys_def)
  have m: "ElapsedPeriodCosts a asOf = map_of (map (\<lambda>(sl, key). (key, f_add 0 (?h sl))) ?xs)"
    unfolding ElapsedPeriodCosts_def using foldl_costs [OF d, of Map.empty ?h]
    by (simp add: fun_eq_iff option.case_eq_if)
  have "dom (ElapsedPeriodCosts a asOf) = set (ElapsedPeriodKeys a asOf)"
    by (auto simp: m dom_map_of_conv_image_fst ElapsedPeriodKeys_def image_image case_prod_unfold)
  moreover have "ElapsedPeriodCosts a asOf (PeriodKey a (slice_start x)) = Some (euros (sliceCents a x))"
    if x: "x \<in> set (elapsed a asOf)" for x
  proof -
    have "distinct (map fst (map (\<lambda>(sl, key). (key, f_add 0 (?h sl))) ?xs))"
      using d by (simp add: comp_def case_prod_unfold)
    moreover have "(PeriodKey a (slice_start x), f_add 0 (?h x))
        \<in> set (map (\<lambda>(sl, key). (key, f_add 0 (?h sl))) ?xs)"
      using x by (auto simp: subPeriods_elapsed [OF assms(1)] slice_start_def)
    ultimately have "ElapsedPeriodCosts a asOf (PeriodKey a (slice_start x)) = Some (f_add 0 (?h x))"
      unfolding m by (rule map_of_is_SomeI)
    with assms(2) x show ?thesis by (simp add: euros_def [symmetric] f_add_0_euros)
  qed
  ultimately show ?thesis
    using AccruedAsOf_eq [OF assms(1), of asOf] by (simp add: accrued_cents_def)
qed

theorem period_costs_add_up_witness:
  "AccruedAsOf example_agreement (utc_midnight 19732) = euros 123279"
  using period_costs_add_up [OF example_dated, of "utc_midnight 19732"]
  by (simp add: example_elapsed example_cents)

text \<open>The rate in force on a day is the agreed amount until the first change, and from then on
  the amount of the latest change not after the day (the last entry of the list, when two
  changes start on the same day).\<close>

theorem rate_in_force:
  assumes "\<forall>rc \<in> set (fp_RateChanges a). \<not> before (rc_From rc) zero_time"
  shows "(\<forall>rc \<in> set (fp_RateChanges a). after (rc_From rc) t) \<and> rateAt a t = fp_Amount a
    \<or> (\<exists>ys rc zs. fp_RateChanges a = ys @ rc # zs \<and> \<not> after (rc_From rc) t
        \<and> (\<forall>x \<in> set ys. after (rc_From x) t \<or> \<not> after (rc_From x) (rc_From rc))
        \<and> (\<forall>x \<in> set zs. after (rc_From x) t \<or> before (rc_From x) (rc_From rc))
        \<and> rateAt a t = rc_Amount rc)"
  using rate_scan_spec [OF assms, of t zero_time "fp_Amount a"] assms
  unfolding rateAt_def by blast

theorem rate_in_force_witness:
  "\<exists>ys rc zs. [\<lparr>rc_From = utc_midnight 19723, rc_Amount = 7\<rparr>] = ys @ rc # zs
    \<and> rateAt (example_agreement\<lparr>fp_RateChanges := [\<lparr>rc_From = utc_midnight 19723, rc_Amount = 7\<rparr>]\<rparr>)
        (utc_midnight 19800) = rc_Amount rc"
proof -
  let ?a = "example_agreement\<lparr>fp_RateChanges := [\<lparr>rc_From = utc_midnight 19723, rc_Amount = 7\<rparr>]\<rparr>"
  have "\<forall>rc \<in> set (fp_RateChanges ?a). \<not> before (rc_From rc) zero_time"
    by (simp add: zero_time_def)
  from rate_in_force [OF this, of "utc_midnight 19800"] show ?thesis by auto
qed

text \<open>A slice that lies inside a pause costs nothing, whatever the rate and however the slice
  is cut by rate changes and other pauses.\<close>

theorem paused_slice_is_free:
  assumes "pz \<in> set (fp_Pauses a)" "\<not> before e s"
    and "\<not> before s (ps_From pz)" "\<not> after e (DayAfter (ps_Until pz))"
  shows "sliceCents a (s, e, p, q) = 0"
proof -
  have paused: "pausedAt a t" if "t_inst s \<le> t_inst t" "t_inst t < t_inst e" for t
    unfolding pausedAt_def using assms that by (intro bexI [of _ pz]) (auto simp: before_def after_def)
  have "\<forall>x \<in> set (slice_cuts a s e). t_inst s \<le> t_inst x \<and> t_inst x \<le> t_inst e"
    using slice_cuts_range [OF _ assms(2)] by blast
  then have "cut_total a (days p q) (slice_cuts a s e) = 0"
    using paused by (rule cut_total_paused)
  with assms(1) show ?thesis by (auto simp: sliceCents_def)
qed

theorem paused_slice_is_free_witness:
  "sliceCents (example_agreement\<lparr>fp_Pauses := [\<lparr>ps_From = utc_midnight 19700, ps_Until = utc_midnight 19800\<rparr>]\<rparr>)
     (utc_midnight 19723, utc_midnight 19733, utc_midnight 19723, utc_midnight 20089) = 0"
  by (rule paused_slice_is_free [where pz = "\<lparr>ps_From = utc_midnight 19700, ps_Until = utc_midnight 19800\<rparr>"])
    simp_all

end
