(* ===== verification/Login_Limiter.thy ===== *)
theory Login_Limiter
  imports Go_Time
begin

text \<open>
  The in-memory login throttle of \<^verbatim>\<open>internal/auth/ratelimit.go\<close>: one attempt state per key,
  a fixed-window and a sticky variant, reservations that can be refunded. Each operation runs
  under the limiter's mutex, so an operation is one step; a reading of the clock is an argument.
  The interface \<open>throttle\<close> states what the handlers rely on, and is interpreted on this model.
\<close>

subsection \<open>State\<close>

record attempt_state =
  as_fails :: int
  as_firstFail :: time
  as_lockedTill :: time
  as_thresholdReset :: bool
  as_priorFails :: int
  as_priorFirstFail :: time

record login_limiter =
  ll_attempts :: "string \<rightharpoonup> attempt_state"
  ll_maxFails :: int
  ll_lockFor :: int
  ll_failWindow :: int
  ll_sticky :: bool

definition NewLoginLimiter :: "int \<Rightarrow> int \<Rightarrow> int \<Rightarrow> login_limiter" where
  "NewLoginLimiter maxFails failWindow lockDuration =
     \<lparr>ll_attempts = Map.empty, ll_maxFails = maxFails, ll_lockFor = lockDuration,
      ll_failWindow = failWindow, ll_sticky = False\<rparr>"

definition NewStickyLoginLimiter :: "int \<Rightarrow> int \<Rightarrow> int \<Rightarrow> login_limiter" where
  "NewStickyLoginLimiter maxFails failWindow lockDuration =
     (NewLoginLimiter maxFails failWindow lockDuration)\<lparr>ll_sticky := True\<rparr>"

subsection \<open>Operations\<close>

text \<open>\<^verbatim>\<open>Allowed\<close> and \<^verbatim>\<open>Consume\<close> read the clock once for the check and once more for the waiting
  time of a refusal (\<open>now2\<close>).\<close>

definition Allowed :: "login_limiter \<Rightarrow> string \<Rightarrow> time \<Rightarrow> time \<Rightarrow> bool \<times> int" where
  "Allowed l key now now2 =
     (case ll_attempts l key of
        None \<Rightarrow> (True, 0)
      | Some st \<Rightarrow>
          if before now (as_lockedTill st) then (False, time_sub (as_lockedTill st) now2)
          else (True, 0))"

definition fresh_attempt :: "time \<Rightarrow> attempt_state" where
  "fresh_attempt now =
     \<lparr>as_fails = 0, as_firstFail = now, as_lockedTill = zero_time, as_thresholdReset = False,
      as_priorFails = 0, as_priorFirstFail = zero_time\<rparr>"

definition record_entry :: "login_limiter \<Rightarrow> attempt_state option \<Rightarrow> time \<Rightarrow> attempt_state" where
  "record_entry l entry now =
     (let st = (case entry of
                  None \<Rightarrow> fresh_attempt now
                | Some s \<Rightarrow> if time_sub now (as_firstFail s) > ll_failWindow l
                           then fresh_attempt now else s);
          st = st\<lparr>as_thresholdReset := False, as_fails := as_fails st + 1\<rparr>
      in if as_fails st \<ge> ll_maxFails l
         then let st = st\<lparr>as_lockedTill := time_add now (ll_lockFor l)\<rparr>
              in if \<not> ll_sticky l
                 then st\<lparr>as_thresholdReset := True, as_priorFails := as_fails st - 1,
                        as_priorFirstFail := as_firstFail st,
                        as_fails := 0, as_firstFail := now\<rparr>
                 else st
         else st)"

definition recordLocked :: "login_limiter \<Rightarrow> string \<Rightarrow> time \<Rightarrow> login_limiter" where
  "recordLocked l key now =
     l\<lparr>ll_attempts := (ll_attempts l)(key \<mapsto> record_entry l (ll_attempts l key) now)\<rparr>"

definition Consume :: "login_limiter \<Rightarrow> string \<Rightarrow> time \<Rightarrow> time \<Rightarrow> (bool \<times> int) \<times> login_limiter" where
  "Consume l key now now2 =
     (case ll_attempts l key of
        Some st \<Rightarrow>
          if before now (as_lockedTill st)
          then ((False, time_sub (as_lockedTill st) now2), l)
          else ((True, 0), recordLocked l key now)
      | None \<Rightarrow> ((True, 0), recordLocked l key now))"

definition RecordFailure :: "login_limiter \<Rightarrow> string \<Rightarrow> time \<Rightarrow> login_limiter" where
  "RecordFailure l key now = recordLocked l key now"

definition refund_entry :: "login_limiter \<Rightarrow> attempt_state \<Rightarrow> attempt_state" where
  "refund_entry l st =
     (let st = (if as_thresholdReset st
                then st\<lparr>as_fails := as_priorFails st, as_firstFail := as_priorFirstFail st,
                       as_thresholdReset := False\<rparr>
                else if as_fails st > 0 then st\<lparr>as_fails := as_fails st - 1\<rparr> else st)
      in if as_fails st < ll_maxFails l then st\<lparr>as_lockedTill := zero_time\<rparr> else st)"

definition Refund :: "login_limiter \<Rightarrow> string \<Rightarrow> login_limiter" where
  "Refund l key =
     (case ll_attempts l key of
        None \<Rightarrow> l
      | Some st \<Rightarrow>
          (let st = refund_entry l st
           in l\<lparr>ll_attempts := (ll_attempts l)
                (key := if as_fails st = 0 then None else Some st)\<rparr>))"

definition Cleanup :: "login_limiter \<Rightarrow> time \<Rightarrow> login_limiter" where
  "Cleanup l now =
     l\<lparr>ll_attempts := (\<lambda>key. case ll_attempts l key of
         None \<Rightarrow> None
       | Some st \<Rightarrow>
           if after now (as_lockedTill st) \<and> time_sub now (as_firstFail st) > ll_failWindow l
           then None else Some st)\<rparr>"

definition Reset :: "login_limiter \<Rightarrow> string \<Rightarrow> login_limiter" where
  "Reset l key = l\<lparr>ll_attempts := (ll_attempts l)(key := None)\<rparr>"

subsection \<open>What is observable of a key\<close>

definition live_fails :: "login_limiter \<Rightarrow> string \<Rightarrow> time \<Rightarrow> int" where
  "live_fails l key t =
     (case ll_attempts l key of
        None \<Rightarrow> 0
      | Some st \<Rightarrow> if time_sub t (as_firstFail st) > ll_failWindow l then 0 else as_fails st)"

definition is_locked :: "login_limiter \<Rightarrow> string \<Rightarrow> time \<Rightarrow> bool" where
  "is_locked l key t =
     (case ll_attempts l key of None \<Rightarrow> False | Some st \<Rightarrow> before t (as_lockedTill st))"

definition entry_ok :: "login_limiter \<Rightarrow> time \<Rightarrow> attempt_state \<Rightarrow> bool" where
  "entry_ok l now st \<longleftrightarrow>
     0 \<le> as_fails st \<and> t_inst (as_firstFail st) \<le> t_inst now
     \<and> (ll_sticky l \<or> as_fails st < ll_maxFails l)
     \<and> (if as_thresholdReset st
        then \<not> ll_sticky l \<and> as_fails st = 0 \<and> 0 \<le> as_priorFails st
          \<and> as_priorFails st < ll_maxFails l
          \<and> t_inst (as_priorFirstFail st) \<le> t_inst (as_firstFail st)
        else 0 < as_fails st)"

definition limiter_ok :: "login_limiter \<Rightarrow> time \<Rightarrow> bool" where
  "limiter_ok l now \<longleftrightarrow>
     1 \<le> ll_maxFails l \<and> 0 \<le> ll_failWindow l \<and> ll_failWindow l < 2 ^ 62 \<and> 0 \<le> ll_lockFor l
     \<and> (\<forall>key st. ll_attempts l key = Some st \<longrightarrow> entry_ok l now st)"

lemmas limiter_simps = recordLocked_def record_entry_def fresh_attempt_def Consume_def Refund_def
  refund_entry_def Reset_def RecordFailure_def Allowed_def

lemma recordLocked_fields [simp]:
  "ll_maxFails (recordLocked l key now) = ll_maxFails l"
  "ll_lockFor (recordLocked l key now) = ll_lockFor l"
  "ll_failWindow (recordLocked l key now) = ll_failWindow l"
  "ll_sticky (recordLocked l key now) = ll_sticky l"
  by (simp_all add: recordLocked_def)

lemma refund_entry_recordLocked [simp]: "refund_entry (recordLocked l key now) = refund_entry l"
  by (simp add: refund_entry_def fun_eq_iff)

lemma Refund_fields [simp]:
  "ll_maxFails (Refund l key) = ll_maxFails l"
  "ll_lockFor (Refund l key) = ll_lockFor l"
  "ll_failWindow (Refund l key) = ll_failWindow l"
  "ll_sticky (Refund l key) = ll_sticky l"
  by (simp_all add: Refund_def Let_def split: option.split)

lemma Reset_fields [simp]:
  "ll_maxFails (Reset l key) = ll_maxFails l"
  "ll_lockFor (Reset l key) = ll_lockFor l"
  "ll_failWindow (Reset l key) = ll_failWindow l"
  "ll_sticky (Reset l key) = ll_sticky l"
  by (simp_all add: Reset_def)

lemma Cleanup_fields [simp]:
  "ll_maxFails (Cleanup l now) = ll_maxFails l"
  "ll_lockFor (Cleanup l now) = ll_lockFor l"
  "ll_failWindow (Cleanup l now) = ll_failWindow l"
  "ll_sticky (Cleanup l now) = ll_sticky l"
  by (simp_all add: Cleanup_def)

lemma Consume_cases:
  obtains (rejected) "is_locked l key now" "\<exists>w. Consume l key now now2 = ((False, w), l)"
  | (accepted) "\<not> is_locked l key now" "Consume l key now now2 = ((True, 0), recordLocked l key now)"
  by (cases "is_locked l key now")
    (auto simp: Consume_def is_locked_def split: option.splits if_splits)

lemma entry_ok_later: "entry_ok l now st \<Longrightarrow> t_inst now \<le> t_inst t \<Longrightarrow> entry_ok l t st"
  by (auto simp: entry_ok_def split: if_splits)

lemma entry_ok_limits:
  "ll_maxFails l = ll_maxFails l' \<Longrightarrow> ll_sticky l = ll_sticky l' \<Longrightarrow> entry_ok l now st = entry_ok l' now st"
  by (simp add: entry_ok_def)

subsection \<open>Every operation keeps the invariant\<close>

lemma limiter_ok_later: "limiter_ok l now \<Longrightarrow> t_inst now \<le> t_inst t \<Longrightarrow> limiter_ok l t"
  unfolding limiter_ok_def by (blast intro: entry_ok_later)

lemma limiter_ok_entry: "limiter_ok l now \<Longrightarrow> ll_attempts l key = Some st \<Longrightarrow> entry_ok l now st"
  by (simp add: limiter_ok_def)

lemma limiter_ok_update:
  assumes "limiter_ok l now" "\<And>st. e = Some st \<Longrightarrow> entry_ok l now st"
  shows "limiter_ok (l\<lparr>ll_attempts := (ll_attempts l)(key := e)\<rparr>) now"
  using assms unfolding limiter_ok_def
  by (simp add: entry_ok_limits [of "l\<lparr>ll_attempts := (ll_attempts l)(key := e)\<rparr>" l])

lemma record_entry_ok:
  assumes "1 \<le> ll_maxFails l" "\<And>st. e = Some st \<Longrightarrow> entry_ok l now st"
  shows "entry_ok l now (record_entry l e now)"
proof (cases e)
  case (Some st)
  then have "entry_ok l now st" using assms by simp
  with Some assms(1) show ?thesis
    by (auto simp: record_entry_def fresh_attempt_def entry_ok_def Let_def split: if_splits)
qed (use assms(1) in \<open>auto simp: record_entry_def fresh_attempt_def entry_ok_def Let_def\<close>)

lemma recordLocked_ok: "limiter_ok l now \<Longrightarrow> limiter_ok (recordLocked l key now) now"
proof -
  assume ok: "limiter_ok l now"
  have "entry_ok l now (record_entry l (ll_attempts l key) now)"
    using ok by (intro record_entry_ok limiter_ok_entry [OF ok]) (simp_all add: limiter_ok_def)
  with ok show ?thesis unfolding recordLocked_def by (intro limiter_ok_update) auto
qed

lemma Consume_ok: "limiter_ok l now \<Longrightarrow> limiter_ok (snd (Consume l key now now2)) now"
  by (cases rule: Consume_cases [of l key now now2]) (auto intro: recordLocked_ok)

lemma Refund_ok: "limiter_ok l now \<Longrightarrow> limiter_ok (Refund l key) now"
proof (cases "ll_attempts l key")
  case (Some st)
  assume ok: "limiter_ok l now"
  then have "entry_ok l now st" using Some by (rule limiter_ok_entry)
  then have "as_fails (refund_entry l st) \<noteq> 0 \<Longrightarrow> entry_ok l now (refund_entry l st)"
    by (auto simp: refund_entry_def entry_ok_def Let_def split: if_splits)
  with ok Some show ?thesis
    by (auto simp: Refund_def Let_def intro!: limiter_ok_update)
qed (simp add: Refund_def)

lemma Reset_ok: "limiter_ok l now \<Longrightarrow> limiter_ok (Reset l key) now"
  unfolding Reset_def by (rule limiter_ok_update) simp_all

lemma Cleanup_lookup:
  "ll_attempts (Cleanup l now) key = Some st \<longleftrightarrow> ll_attempts l key = Some st
     \<and> \<not> (after now (as_lockedTill st) \<and> time_sub now (as_firstFail st) > ll_failWindow l)"
  by (auto simp: Cleanup_def split: option.splits)

lemma Cleanup_ok: "limiter_ok l now \<Longrightarrow> limiter_ok (Cleanup l now') now"
  unfolding limiter_ok_def
  by (auto simp: Cleanup_lookup entry_ok_limits [of "Cleanup l now'" l])

lemma NewLoginLimiter_ok:
  "1 \<le> m \<Longrightarrow> 0 \<le> w \<Longrightarrow> w < 2 ^ 62 \<Longrightarrow> 0 \<le> d \<Longrightarrow> limiter_ok (NewLoginLimiter m w d) now"
  "1 \<le> m \<Longrightarrow> 0 \<le> w \<Longrightarrow> w < 2 ^ 62 \<Longrightarrow> 0 \<le> d \<Longrightarrow> limiter_ok (NewStickyLoginLimiter m w d) now"
  by (simp_all add: limiter_ok_def NewLoginLimiter_def NewStickyLoginLimiter_def)

subsection \<open>Refund takes back a reservation\<close>

lemma time_sub_mono: "t_inst t \<le> t_inst t' \<Longrightarrow> time_sub t u \<le> time_sub t' u"
  by (simp add: time_sub_def)

lemma time_sub_self [simp]: "time_sub t t = 0"
  by (simp add: time_sub_def)

lemma refund_entry_record:
  assumes "entry_ok l now st" "\<not> time_sub now (as_firstFail st) > ll_failWindow l"
  shows "as_fails (refund_entry l (record_entry l (Some st) now)) = as_fails st
    \<and> as_firstFail (refund_entry l (record_entry l (Some st) now)) = as_firstFail st"
  using assms by (auto simp: refund_entry_def record_entry_def entry_ok_def Let_def)

lemma refund_entry_fresh:
  assumes "1 \<le> ll_maxFails l"
    and "\<And>st. e = Some st \<Longrightarrow> time_sub now (as_firstFail st) > ll_failWindow l"
  shows "as_fails (refund_entry l (record_entry l e now)) = 0"
  using assms by (cases e) (auto simp: refund_entry_def record_entry_def fresh_attempt_def Let_def)

lemma live_fails_Refund_other: "key' \<noteq> key \<Longrightarrow> live_fails (Refund l key) key' t = live_fails l key' t"
  by (simp add: live_fails_def Refund_def Let_def split: option.split)

lemma live_fails_record_other:
  "key' \<noteq> key \<Longrightarrow> live_fails (recordLocked l key now) key' t = live_fails l key' t"
  by (simp add: live_fails_def recordLocked_def split: option.split)

lemma live_fails_refunded:
  assumes "limiter_ok l now" "t_inst now \<le> t_inst t"
  shows "live_fails (Refund (recordLocked l key now) key) key' t = live_fails l key' t"
proof (cases "key' = key")
  case True
  let ?l = "recordLocked l key now"
  let ?r = "refund_entry l (record_entry l (ll_attempts l key) now)"
  have attempts: "ll_attempts ?l key = Some (record_entry l (ll_attempts l key) now)"
    by (simp add: recordLocked_def)
  have live: "live_fails (Refund ?l key) key t
      = (if as_fails ?r = 0 \<or> time_sub t (as_firstFail ?r) > ll_failWindow l then 0 else as_fails ?r)"
    by (simp add: live_fails_def Refund_def attempts Let_def)
  show ?thesis
  proof (cases "\<exists>st. ll_attempts l key = Some st \<and> \<not> time_sub now (as_firstFail st) > ll_failWindow l")
    case True
    then obtain st where st: "ll_attempts l key = Some st"
      "\<not> time_sub now (as_firstFail st) > ll_failWindow l" by blast
    with refund_entry_record [OF limiter_ok_entry [OF assms(1) st(1)] st(2)] live
    show ?thesis using \<open>key' = key\<close> by (simp add: live_fails_def)
  next
    case False
    then have "as_fails ?r = 0"
      using assms(1) by (intro refund_entry_fresh) (auto simp: limiter_ok_def)
    moreover have "live_fails l key t = 0"
      using False time_sub_mono [OF assms(2)]
      by (auto simp: live_fails_def split: option.split) (meson le_less_trans not_le)
    ultimately show ?thesis using live \<open>key' = key\<close> by simp
  qed
qed (simp add: live_fails_Refund_other live_fails_record_other)

lemma live_fails_Reset: "live_fails (Reset l key) key' t = (if key' = key then 0 else live_fails l key' t)"
  by (simp add: live_fails_def Reset_def split: option.split)

subsection \<open>The budget of a sticky limiter\<close>

text \<open>How many of a series of attempts on one key are accepted.\<close>

fun accepted :: "login_limiter \<Rightarrow> string \<Rightarrow> time list \<Rightarrow> int" where
  "accepted l key [] = 0"
| "accepted l key (t # ts) =
     (case Consume l key t t of ((ok, w), l') \<Rightarrow> (if ok then 1 else 0) + accepted l' key ts)"

lemma time_sub_gt: "w < 2 ^ 62 \<Longrightarrow> 0 \<le> w \<Longrightarrow> time_sub t u > w \<longleftrightarrow> t_inst t - t_inst u > w"
  by (auto simp: time_sub_def)

lemma record_entry_sticky:
  assumes "ll_sticky l" "ll_failWindow l < 2 ^ 62" "0 \<le> ll_failWindow l"
    and "t_inst t - t_inst (as_firstFail st) \<le> ll_failWindow l"
  shows "as_firstFail (record_entry l (Some st) t) = as_firstFail st"
    "as_fails (record_entry l (Some st) t) = as_fails st + 1"
    "as_lockedTill (record_entry l (Some st) t) =
       (if as_fails st + 1 \<ge> ll_maxFails l then time_add t (ll_lockFor l) else as_lockedTill st)"
  using assms by (simp_all add: record_entry_def time_sub_gt Let_def)

lemma accepted_Cons:
  "accepted l key (t # ts) = (if is_locked l key t then accepted l key ts
     else 1 + accepted (recordLocked l key t) key ts)"
  by (cases rule: Consume_cases [of l key t t]) (auto simp: accepted.simps)

declare accepted.simps(2) [simp del]

lemma div_shift: "0 < (d::int) \<Longrightarrow> (x - (y + d)) div d + 1 = (x - y) div d"
  using div_mult_self1 [of d "x - (y + d)" 1] by (simp add: algebra_simps)

lemma sticky_exhausted:
  assumes "ll_sticky l" "ll_failWindow l < 2 ^ 62" "0 \<le> ll_failWindow l" "0 < ll_lockFor l"
    and "ll_attempts l key = Some st" "ll_maxFails l \<le> as_fails st"
    and "\<forall>t \<in> set ts. t_inst t \<le> T \<and> t_inst t - t_inst (as_firstFail st) \<le> ll_failWindow l"
  shows "accepted l key ts \<le> max 0 ((T - t_inst (as_lockedTill st)) div ll_lockFor l + 1)"
  using assms
proof (induction ts arbitrary: l st)
  case (Cons t ts)
  let ?d = "ll_lockFor l"
  show ?case
  proof (cases "before t (as_lockedTill st)")
    case True
    with Cons show ?thesis by (simp add: accepted_Cons is_locked_def)
  next
    case False
    let ?st = "record_entry l (Some st) t"
    have w: "t_inst t - t_inst (as_firstFail st) \<le> ll_failWindow l" using Cons.prems by simp
    note r = record_entry_sticky [OF Cons.prems(1-3) w]
    have T: "t_inst t \<le> T" using Cons.prems by simp
    have "accepted (recordLocked l key t) key ts
        \<le> max 0 ((T - t_inst (as_lockedTill ?st)) div ll_lockFor (recordLocked l key t) + 1)"
      using Cons.prems r by (intro Cons.IH) (auto simp: recordLocked_def)
    moreover have "as_lockedTill ?st = time_add t ?d" using Cons.prems(6) r(3) by simp
    moreover have "(T - (t_inst t + ?d)) div ?d + 1 = (T - t_inst t) div ?d" using Cons.prems(4) by (rule div_shift)
    moreover have "0 \<le> (T - t_inst t) div ?d"
      using T Cons.prems(4) by (simp add: pos_imp_zdiv_nonneg_iff)
    moreover have "(T - t_inst t) div ?d \<le> (T - t_inst (as_lockedTill st)) div ?d"
      using False Cons.prems(4) by (intro zdiv_mono1) (auto simp: before_def)
    ultimately have "1 + accepted (recordLocked l key t) key ts
        \<le> (T - t_inst (as_lockedTill st)) div ?d + 1"
      by (simp add: time_add_def)
    moreover have "accepted l key (t # ts) = 1 + accepted (recordLocked l key t) key ts"
      using False Cons.prems(5) by (simp add: accepted_Cons is_locked_def)
    ultimately show ?thesis by simp
  qed
qed simp

lemma sticky_open:
  assumes "ll_sticky l" "ll_failWindow l < 2 ^ 62" "0 \<le> ll_failWindow l" "0 < ll_lockFor l"
    and "ll_attempts l key = Some st" "as_fails st < ll_maxFails l" "S \<le> T"
    and "\<forall>t \<in> set ts. S \<le> t_inst t \<and> t_inst t \<le> T
      \<and> t_inst t - t_inst (as_firstFail st) \<le> ll_failWindow l"
  shows "accepted l key ts \<le> ll_maxFails l - as_fails st + (T - S) div ll_lockFor l"
  using assms
proof (induction ts arbitrary: l st)
  case Nil
  then show ?case by (simp add: pos_imp_zdiv_nonneg_iff add_nonneg_nonneg)
next
  case (Cons t ts)
  let ?d = "ll_lockFor l" and ?l = "recordLocked l key t" and ?st = "record_entry l (Some st) t"
  have w: "t_inst t - t_inst (as_firstFail st) \<le> ll_failWindow l" using Cons.prems by simp
  note r = record_entry_sticky [OF Cons.prems(1-3) w]
  have S: "S \<le> t_inst t" "t_inst t \<le> T" using Cons.prems by simp_all
  have "accepted l key (t # ts) \<le> 1 + accepted ?l key ts \<or> is_locked l key t"
    by (simp add: accepted_Cons)
  moreover have "1 + accepted ?l key ts \<le> ll_maxFails l - as_fails st + (T - S) div ?d"
  proof (cases "as_fails st + 1 < ll_maxFails l")
    case True
    have "accepted ?l key ts \<le> ll_maxFails ?l - as_fails ?st + (T - S) div ll_lockFor ?l"
      using Cons.prems r True by (intro Cons.IH) (auto simp: recordLocked_def)
    with r show ?thesis by simp
  next
    case False
    have "accepted ?l key ts \<le> max 0 ((T - t_inst (as_lockedTill ?st)) div ll_lockFor ?l + 1)"
      using Cons.prems r False by (intro sticky_exhausted) (auto simp: recordLocked_def)
    also have "\<dots> = max 0 ((T - (t_inst t + ?d)) div ?d + 1)"
      using False r by (simp add: time_add_def)
    also have "(T - (t_inst t + ?d)) div ?d + 1 = (T - t_inst t) div ?d" using Cons.prems(4) by (rule div_shift)
    also have "(T - t_inst t) div ?d \<le> (T - S) div ?d"
      using S Cons.prems(4) by (intro zdiv_mono1) auto
    finally have "accepted ?l key ts \<le> max 0 ((T - S) div ?d)" by simp
    moreover have "0 \<le> (T - S) div ?d" using Cons.prems(4,7) by (simp add: pos_imp_zdiv_nonneg_iff)
    ultimately show ?thesis using False Cons.prems(6) by simp
  qed
  moreover have "accepted l key ts \<le> ll_maxFails l - as_fails st + (T - S) div ?d"
    using Cons.prems by (intro Cons.IH) auto
  ultimately show ?case by (auto simp: accepted_Cons split: if_splits)
qed

text \<open>C8: what a sticky limiter really bounds. Within one failure window, at most \<^verbatim>\<open>maxFails\<close>
  attempts on a fresh key are accepted, plus one for every cooldown that fits into the span.\<close>

theorem sticky_budget:
  assumes "ll_sticky l" "1 \<le> ll_maxFails l" "0 < ll_lockFor l"
    and "0 \<le> ll_failWindow l" "ll_failWindow l < 2 ^ 62"
    and "ll_attempts l key = None" "S \<le> T" "T - S \<le> ll_failWindow l"
    and "\<forall>t \<in> set ts. S \<le> t_inst t \<and> t_inst t \<le> T"
  shows "accepted l key ts \<le> ll_maxFails l + (T - S) div ll_lockFor l"
proof (cases ts)
  case Nil
  then show ?thesis using assms by (simp add: pos_imp_zdiv_nonneg_iff)
next
  case (Cons t us)
  let ?d = "ll_lockFor l" and ?l = "recordLocked l key t"
  define st where "st = record_entry l None t"
  have st: "ll_attempts ?l key = Some st" by (simp add: recordLocked_def st_def assms(6))
  have f: "as_fails st = 1" "as_firstFail st = t"
    "ll_maxFails l = 1 \<Longrightarrow> as_lockedTill st = time_add t ?d"
    using assms(1) by (simp_all add: st_def record_entry_def fresh_attempt_def Let_def)
  have w: "t_inst u - t_inst t \<le> ll_failWindow l" if "u \<in> set us" for u
    using assms(8,9) that Cons by fastforce
  have t: "S \<le> t_inst t" "t_inst t \<le> T" using assms(9) Cons by simp_all
  have "1 + accepted ?l key us \<le> ll_maxFails l + (T - S) div ?d"
  proof (cases "ll_maxFails l = 1")
    case True
    have "accepted ?l key us \<le> max 0 ((T - t_inst (as_lockedTill st)) div ll_lockFor ?l + 1)"
      using assms(1-5,9) st f w Cons True by (intro sticky_exhausted) auto
    also have "\<dots> = max 0 ((T - t_inst t) div ?d)"
      using True f(3) div_shift [OF assms(3), of T "t_inst t"] by (simp add: time_add_def)
    also have "(T - t_inst t) div ?d \<le> (T - S) div ?d" using t assms(3) by (intro zdiv_mono1) auto
    finally have "accepted ?l key us \<le> max 0 ((T - S) div ?d)" by simp
    moreover have "0 \<le> (T - S) div ?d" using assms(3,7) by (simp add: pos_imp_zdiv_nonneg_iff)
    ultimately show ?thesis using True by simp
  next
    case False
    have "accepted ?l key us \<le> ll_maxFails ?l - as_fails st + (T - S) div ll_lockFor ?l"
      using assms(1-5,7,9) st f w Cons False by (intro sticky_open) auto
    with f show ?thesis by simp
  qed
  then show ?thesis using Cons assms(6) by (simp add: accepted_Cons is_locked_def)
qed

theorem sticky_budget_witness:
  "accepted (NewStickyLoginLimiter 3 900 60) ''a|1.2.3.4''
     [utc_midnight 0, utc_midnight 0, utc_midnight 0, utc_midnight 0] \<le> 3"
  using sticky_budget [of "NewStickyLoginLimiter 3 900 60" "''a|1.2.3.4''" 0 0
      "[utc_midnight 0, utc_midnight 0, utc_midnight 0, utc_midnight 0]"]
  by (simp add: NewStickyLoginLimiter_def NewLoginLimiter_def)

lemma sticky_tail:
  assumes "ll_sticky l" "ll_failWindow l < 2 ^ 62" "0 \<le> ll_failWindow l" "0 < ll_lockFor l"
    and "ll_attempts l key = Some st" "ll_maxFails l \<le> as_fails st" "as_firstFail st = t"
    and "as_lockedTill st = time_add t (int i * ll_lockFor l)"
    and "int (i + n) * ll_lockFor l \<le> ll_failWindow l + ll_lockFor l"
  shows "accepted l key (map (\<lambda>j. time_add t (int j * ll_lockFor l)) [i..<i + n]) = int n"
  using assms
proof (induction n arbitrary: l st i)
  case (Suc n)
  let ?t = "time_add t (int i * ll_lockFor l)" and ?l = "recordLocked l key (time_add t (int i * ll_lockFor l))"
  have "int i * ll_lockFor l \<le> int (i + n) * ll_lockFor l"
    using Suc.prems(4) by (intro mult_right_mono) auto
  then have w: "t_inst ?t - t_inst (as_firstFail st) \<le> ll_failWindow l"
    using Suc.prems(7,9) by (simp add: time_add_def algebra_simps)
  note r = record_entry_sticky [OF Suc.prems(1-3) w]
  have nt: "time_add ?t (ll_lockFor l) = time_add t (int (Suc i) * ll_lockFor l)"
    by (simp add: time_add_def distrib_right)
  have "accepted ?l key (map (\<lambda>j. time_add t (int j * ll_lockFor ?l)) [Suc i..<Suc i + n]) = int n"
    using Suc.prems r nt by (intro Suc.IH [of _ "record_entry l (Some st) ?t"]) (auto simp: recordLocked_def)
  moreover have "\<not> is_locked l key ?t" using Suc.prems(5,8) by (simp add: is_locked_def before_def)
  moreover have "[i..<i + Suc n] = i # [Suc i..<Suc i + n]" by (simp add: upt_rec)
  ultimately show ?case by (simp add: accepted_Cons del: upt_Suc)
qed simp

lemma sticky_head:
  assumes "ll_sticky l" "ll_failWindow l < 2 ^ 62" "0 \<le> ll_failWindow l"
    and "ll_attempts l key = Some st" "as_fails st + int k + 1 = ll_maxFails l" "as_firstFail st = t"
    and "\<not> before t (as_lockedTill st)"
  shows "\<exists>l' st'. accepted l key (replicate (Suc k) t @ ts) = int (Suc k) + accepted l' key ts
    \<and> ll_sticky l' \<and> ll_failWindow l' = ll_failWindow l \<and> ll_lockFor l' = ll_lockFor l
    \<and> ll_maxFails l' = ll_maxFails l \<and> ll_attempts l' key = Some st' \<and> as_fails st' = ll_maxFails l
    \<and> as_firstFail st' = t \<and> as_lockedTill st' = time_add t (ll_lockFor l)"
  using assms
proof (induction k arbitrary: l st)
  case 0
  have w: "t_inst t - t_inst (as_firstFail st) \<le> ll_failWindow l" using 0 by simp
  note r = record_entry_sticky [OF 0(1-3) w]
  from 0 r show ?case
    by (intro exI [of _ "recordLocked l key t"] exI [of _ "record_entry l (Some st) t"])
      (simp add: accepted_Cons is_locked_def, simp add: recordLocked_def)
next
  case (Suc k)
  let ?l = "recordLocked l key t"
  have w: "t_inst t - t_inst (as_firstFail st) \<le> ll_failWindow l" using Suc.prems by simp
  note r = record_entry_sticky [OF Suc.prems(1-3) w]
  have a: "ll_attempts ?l key = Some (record_entry l (Some st) t)"
    using Suc.prems by (simp add: recordLocked_def)
  have "\<not> is_locked l key t" using Suc.prems by (simp add: is_locked_def)
  then have "accepted l key (replicate (Suc (Suc k)) t @ ts) = 1 + accepted ?l key (replicate (Suc k) t @ ts)"
    by (simp add: accepted_Cons)
  moreover have "\<exists>l' st'. accepted ?l key (replicate (Suc k) t @ ts) = int (Suc k) + accepted l' key ts
    \<and> ll_sticky l' \<and> ll_failWindow l' = ll_failWindow ?l \<and> ll_lockFor l' = ll_lockFor ?l
    \<and> ll_maxFails l' = ll_maxFails ?l \<and> ll_attempts l' key = Some st' \<and> as_fails st' = ll_maxFails ?l
    \<and> as_firstFail st' = t \<and> as_lockedTill st' = time_add t (ll_lockFor ?l)"
    using Suc.prems r a by (intro Suc.IH [of _ "record_entry l (Some st) t"]) auto
  ultimately show ?case by (auto simp del: replicate.simps)
qed

text \<open>C9: the bound is attained. An attacker who makes \<open>m\<close> attempts at once and one more at the end
  of every cooldown gets all of them accepted inside one window, so a sticky limiter allows more
  than \<^verbatim>\<open>maxFails\<close> attempts per window (35 instead of 20 for the per-username limiter).\<close>

theorem sticky_budget_attained:
  assumes "1 \<le> m" "0 < d" "int n * d \<le> w" "w < 2 ^ 62" "t_inst zero_time \<le> t_inst t"
  shows "accepted (NewStickyLoginLimiter (int m) w d) key
      (replicate m t @ map (\<lambda>j. time_add t (int j * d)) [1..<Suc n]) = int m + int n"
proof -
  let ?l = "NewStickyLoginLimiter (int m) w d" and ?ts = "map (\<lambda>j. time_add t (int j * d)) [1..<1 + n]"
  have w: "0 \<le> w" using assms(2,3) by (metis mult_nonneg_nonneg of_nat_0_le_iff order.strict_implies_order order.trans)
  obtain k where m: "m = Suc k" using assms(1) by (cases m) auto
  let ?m = "recordLocked ?l key t" and ?st = "record_entry ?l None t"
  have a: "ll_attempts ?m key = Some ?st" "ll_sticky ?m" "ll_failWindow ?m = w" "ll_lockFor ?m = d"
    "ll_maxFails ?m = int m"
    by (simp_all add: recordLocked_def NewStickyLoginLimiter_def NewLoginLimiter_def)
  have st: "as_fails ?st = 1" "as_firstFail ?st = t"
    "as_lockedTill ?st = (if m = 1 then time_add t d else zero_time)"
    using m by (simp_all add: record_entry_def fresh_attempt_def NewStickyLoginLimiter_def
        NewLoginLimiter_def Let_def)
  have first: "accepted ?l key (replicate m t @ ?ts) = 1 + accepted ?m key (replicate k t @ ?ts)"
    by (simp add: m accepted_Cons is_locked_def NewStickyLoginLimiter_def NewLoginLimiter_def)
  have "\<exists>l' st'. accepted ?m key (replicate k t @ ?ts) = int k + accepted l' key ?ts
    \<and> ll_sticky l' \<and> ll_failWindow l' = w \<and> ll_lockFor l' = d
    \<and> ll_maxFails l' = int m \<and> ll_attempts l' key = Some st' \<and> as_fails st' = int m
    \<and> as_firstFail st' = t \<and> as_lockedTill st' = time_add t d"
  proof (cases k)
    case 0
    with m a st show ?thesis by (intro exI [of _ ?m] exI [of _ ?st]) simp
  next
    case (Suc j)
    with m a st w assms(4,5) sticky_head [of ?m key ?st j t ?ts] show ?thesis
      by (simp add: before_def not_less)
  qed
  then obtain l' st' where l': "accepted ?m key (replicate k t @ ?ts) = int k + accepted l' key ?ts"
    "ll_sticky l'" "ll_failWindow l' = w" "ll_lockFor l' = d" "ll_maxFails l' = int m"
    "ll_attempts l' key = Some st'" "as_fails st' = int m" "as_firstFail st' = t"
    "as_lockedTill st' = time_add t d" by blast
  have "accepted l' key (map (\<lambda>j. time_add t (int j * ll_lockFor l')) [1..<1 + n]) = int n"
    using l' w assms by (intro sticky_tail [where st = st']) (auto simp: algebra_simps)
  with first l' m show ?thesis by simp
qed

theorem sticky_budget_attained_witness:
  "accepted (NewStickyLoginLimiter 20 900000000000 60000000000) ''alice''
     (replicate 20 (utc_midnight 20000)
       @ map (\<lambda>j. time_add (utc_midnight 20000) (int j * 60000000000)) [1..<Suc 15]) = 35"
  using sticky_budget_attained [of 20 60000000000 15 900000000000 "utc_midnight 20000" "''alice''"]
  by (simp add: zero_time_def del: upt_Suc replicate.simps)

subsection \<open>Cleanup is unobservable\<close>

text \<open>A call on the limiter, and what the caller sees of it.\<close>

datatype limiter_call =
    Call_Allowed string
  | Call_Consume string
  | Call_RecordFailure string
  | Call_Refund string
  | Call_Reset string
  | Call_Cleanup

fun limiter_exec :: "login_limiter \<Rightarrow> time \<Rightarrow> time \<Rightarrow> limiter_call \<Rightarrow> (bool \<times> int) option \<times> login_limiter" where
  "limiter_exec l now now2 (Call_Allowed k) = (Some (Allowed l k now now2), l)"
| "limiter_exec l now now2 (Call_Consume k) = (case Consume l k now now2 of (r, l') \<Rightarrow> (Some r, l'))"
| "limiter_exec l now now2 (Call_RecordFailure k) = (None, RecordFailure l k now)"
| "limiter_exec l now now2 (Call_Refund k) = (None, Refund l k)"
| "limiter_exec l now now2 (Call_Reset k) = (None, Reset l k)"
| "limiter_exec l now now2 Call_Cleanup = (None, Cleanup l now)"

fun limiter_answers :: "login_limiter \<Rightarrow> (time \<times> time \<times> limiter_call) list \<Rightarrow> (bool \<times> int) option list" where
  "limiter_answers l [] = []"
| "limiter_answers l ((now, now2, c) # cs) =
     (case limiter_exec l now now2 c of (r, l') \<Rightarrow> r # limiter_answers l' cs)"

fun clock_runs :: "time \<Rightarrow> (time \<times> time \<times> limiter_call) list \<Rightarrow> bool" where
  "clock_runs t [] = True"
| "clock_runs t ((now, now2, c) # cs) = (t_inst t \<le> t_inst now \<and> clock_runs now cs)"

text \<open>An entry that no call can tell from no entry, and limiters that differ in such entries only.\<close>

definition dead_entry :: "login_limiter \<Rightarrow> time \<Rightarrow> attempt_state option \<Rightarrow> bool" where
  "dead_entry l t e = (case e of None \<Rightarrow> True
     | Some st \<Rightarrow> \<not> before t (as_lockedTill st) \<and> time_sub t (as_firstFail st) > ll_failWindow l)"

definition same_limits :: "login_limiter \<Rightarrow> login_limiter \<Rightarrow> bool" where
  "same_limits l l' \<longleftrightarrow> ll_maxFails l = ll_maxFails l' \<and> ll_lockFor l = ll_lockFor l'
     \<and> ll_failWindow l = ll_failWindow l' \<and> ll_sticky l = ll_sticky l'"

definition similar :: "login_limiter \<Rightarrow> login_limiter \<Rightarrow> time \<Rightarrow> bool" where
  "similar l l' t \<longleftrightarrow> same_limits l l' \<and> limiter_ok l t \<and> limiter_ok l' t
     \<and> (\<forall>k. ll_attempts l k = ll_attempts l' k
          \<or> dead_entry l t (ll_attempts l k) \<and> dead_entry l' t (ll_attempts l' k))"

lemma dead_later:
  assumes "dead_entry l t e" "t_inst t \<le> t_inst t'"
  shows "dead_entry l t' e"
proof (cases e)
  case (Some st)
  with assms time_sub_mono [OF assms(2), of "as_firstFail st"] show ?thesis
    by (simp add: dead_entry_def before_def)
qed (simp add: dead_entry_def)

lemma dead_entry_limits: "ll_failWindow l = ll_failWindow l' \<Longrightarrow> dead_entry l t e = dead_entry l' t e"
  by (simp add: dead_entry_def split: option.split)

lemma similar_later: "similar l l' t \<Longrightarrow> t_inst t \<le> t_inst t' \<Longrightarrow> similar l l' t'"
  unfolding similar_def by (metis dead_later limiter_ok_later)

lemma similar_update:
  assumes "similar l l' t"
    and "limiter_ok (l\<lparr>ll_attempts := (ll_attempts l)(k := e)\<rparr>) t"
    and "limiter_ok (l'\<lparr>ll_attempts := (ll_attempts l')(k := e')\<rparr>) t"
    and "e = e' \<or> dead_entry l t e \<and> dead_entry l' t e'"
  shows "similar (l\<lparr>ll_attempts := (ll_attempts l)(k := e)\<rparr>) (l'\<lparr>ll_attempts := (ll_attempts l')(k := e')\<rparr>) t"
proof -
  have "dead_entry (l\<lparr>ll_attempts := a\<rparr>) t = dead_entry l t" for l a
    by (simp add: fun_eq_iff dead_entry_limits [of "l\<lparr>ll_attempts := a\<rparr>" l])
  with assms show ?thesis by (simp add: similar_def same_limits_def)
qed

lemma record_entry_dead: "dead_entry l t e \<Longrightarrow> record_entry l e t = record_entry l None t"
  by (auto simp: dead_entry_def record_entry_def split: option.splits)

lemma record_entry_limits: "same_limits l l' \<Longrightarrow> record_entry l e t = record_entry l' e t"
  by (simp add: same_limits_def record_entry_def cong: option.case_cong if_cong)

lemma similar_record:
  assumes "similar l l' t"
  shows "similar (recordLocked l k t) (recordLocked l' k t) t"
proof -
  have eq: "record_entry l (ll_attempts l k) t = record_entry l' (ll_attempts l' k) t"
    using assms record_entry_dead [of l t "ll_attempts l k"] record_entry_dead [of l' t "ll_attempts l' k"]
      record_entry_limits [of l l']
    unfolding similar_def by metis
  have "limiter_ok (recordLocked l k t) t" "limiter_ok (recordLocked l' k t) t"
    using assms by (auto simp: similar_def intro: recordLocked_ok)
  with assms eq show ?thesis
    unfolding recordLocked_def by (intro similar_update) auto
qed

lemma similar_locked: "similar l l' t \<Longrightarrow> is_locked l k t \<Longrightarrow> ll_attempts l k = ll_attempts l' k"
  by (force simp: similar_def is_locked_def dead_entry_def split: option.splits)

lemma similar_sym: "similar l l' t \<Longrightarrow> similar l' l t"
  unfolding similar_def same_limits_def by metis

lemma similar_locked_iff: "similar l l' t \<Longrightarrow> is_locked l k t = is_locked l' k t"
  using similar_locked [of l l' t k] similar_locked [of l' l t k] similar_sym [of l l' t]
  by (fastforce simp: is_locked_def)

lemma Allowed_alt:
  "Allowed l k t t2 = (if is_locked l k t
     then (False, time_sub (as_lockedTill (the (ll_attempts l k))) t2) else (True, 0))"
  by (auto simp: Allowed_def is_locked_def split: option.split)

lemma Consume_alt:
  "Consume l k t t2 = (if is_locked l k t
     then ((False, time_sub (as_lockedTill (the (ll_attempts l k))) t2), l)
     else ((True, 0), recordLocked l k t))"
  by (auto simp: Consume_def is_locked_def split: option.split)

lemma dead_refund:
  assumes "entry_ok l t st" "dead_entry l t (Some st)" "t_inst zero_time \<le> t_inst t"
  shows "dead_entry l t (Some (refund_entry l st))"
proof -
  have "time_sub t (as_firstFail st) \<le> time_sub t (as_priorFirstFail st)" if "as_thresholdReset st"
    using assms(1) that unfolding entry_ok_def time_sub_def by (intro max.mono min.mono) auto
  with assms(2,3) show ?thesis
    by (auto simp: dead_entry_def refund_entry_def Let_def before_def)
qed

lemma Refund_alt:
  "Refund l k = l\<lparr>ll_attempts := (ll_attempts l)(k := (case ll_attempts l k of None \<Rightarrow> None
     | Some st \<Rightarrow> if as_fails (refund_entry l st) = 0 then None else Some (refund_entry l st)))\<rparr>"
  by (auto simp: Refund_def Let_def fun_upd_idem split: option.split)

lemma similar_Refund:
  assumes "similar l l' t" "t_inst zero_time \<le> t_inst t"
  shows "similar (Refund l k) (Refund l' k) t"
proof -
  let ?e = "\<lambda>l. case ll_attempts l k of None \<Rightarrow> None
     | Some st \<Rightarrow> if as_fails (refund_entry l st) = 0 then None else Some (refund_entry l st)"
  have lim: "same_limits l l'" using assms(1) by (simp add: similar_def)
  have ok: "limiter_ok l t" "limiter_ok l' t" using assms(1) by (simp_all add: similar_def)
  have r: "refund_entry l = refund_entry l'" using lim by (simp add: refund_entry_def same_limits_def fun_eq_iff)
  have dead: "dead_entry l t (?e l)" if "limiter_ok l t" "dead_entry l t (ll_attempts l k)" for l
  proof (cases "ll_attempts l k")
    case (Some st)
    from dead_refund [OF limiter_ok_entry [OF that(1) Some] _ assms(2)] that(2) Some
    show ?thesis by (simp add: dead_entry_def [of _ _ None])
  qed (simp add: dead_entry_def)
  have "?e l = ?e l' \<or> dead_entry l t (?e l) \<and> dead_entry l' t (?e l')"
  proof (cases "ll_attempts l k = ll_attempts l' k")
    case True
    then show ?thesis by (simp add: r cong: option.case_cong if_cong)
  next
    case False
    with assms(1) have "dead_entry l t (ll_attempts l k)" "dead_entry l' t (ll_attempts l' k)"
      by (auto simp: similar_def)
    with dead ok show ?thesis by blast
  qed
  moreover have "limiter_ok (Refund l k) t" "limiter_ok (Refund l' k) t"
    using ok by (simp_all add: Refund_ok)
  ultimately show ?thesis
    unfolding Refund_alt using assms(1) by (intro similar_update) auto
qed

lemma Cleanup_dead: "ll_attempts (Cleanup l t) k = ll_attempts l k
    \<or> ll_attempts (Cleanup l t) k = None \<and> dead_entry l t (ll_attempts l k)"
  by (auto simp: Cleanup_def dead_entry_def after_def before_def split: option.splits)

lemma similar_Cleanup:
  assumes "similar l l' t"
  shows "similar (Cleanup l t) l' t"
proof -
  have d: "dead_entry (Cleanup l t) t = dead_entry l t"
    by (simp add: fun_eq_iff dead_entry_limits [of "Cleanup l t" l])
  have "ll_attempts (Cleanup l t) k = ll_attempts l' k
      \<or> dead_entry l t (ll_attempts (Cleanup l t) k) \<and> dead_entry l' t (ll_attempts l' k)" for k
  proof (cases "ll_attempts (Cleanup l t) k = ll_attempts l k")
    case True
    with assms show ?thesis by (auto simp: similar_def)
  next
    case False
    with Cleanup_dead [of l t k] have n: "ll_attempts (Cleanup l t) k = None"
      "dead_entry l t (ll_attempts l k)" by auto
    have "dead_entry l' t (ll_attempts l k)"
      using n(2) assms dead_entry_limits [of l l'] by (simp add: similar_def same_limits_def)
    have "ll_attempts l k = ll_attempts l' k \<or> dead_entry l' t (ll_attempts l' k)"
      using assms by (auto simp: similar_def)
    with n \<open>dead_entry l' t (ll_attempts l k)\<close> have "dead_entry l' t (ll_attempts l' k)" by metis
    with n(1) show ?thesis by (simp add: dead_entry_def [of _ _ None])
  qed
  with assms show ?thesis by (auto simp: similar_def same_limits_def Cleanup_ok d)
qed

lemma similar_Reset: "similar l l' t \<Longrightarrow> similar (Reset l k) (Reset l' k) t"
  unfolding Reset_def
  by (intro similar_update) (auto simp: similar_def Reset_ok [unfolded Reset_def])

lemma similar_call:
  assumes "similar l l' t" "t_inst zero_time \<le> t_inst t"
  shows "fst (limiter_exec l t t2 c) = fst (limiter_exec l' t t2 c)
    \<and> similar (snd (limiter_exec l t t2 c)) (snd (limiter_exec l' t t2 c)) t"
proof -
  note same = similar_locked [OF assms(1)] similar_locked_iff [OF assms(1)]
  show ?thesis
  proof (cases c)
    case (Call_Allowed k)
    with assms same [of k] show ?thesis by (auto simp: Allowed_alt)
  next
    case (Call_Consume k)
    with assms same [of k] show ?thesis by (auto simp: Consume_alt intro: similar_record)
  next
    case (Call_RecordFailure k)
    with assms show ?thesis by (simp add: RecordFailure_def similar_record)
  next
    case (Call_Refund k)
    with assms show ?thesis by (simp add: similar_Refund)
  next
    case (Call_Reset k)
    with assms show ?thesis by (simp add: similar_Reset)
  next
    case Call_Cleanup
    with assms show ?thesis by (simp add: similar_Cleanup similar_sym)
  qed
qed

lemma similar_answers:
  assumes "similar l l' t" "clock_runs t cs" "t_inst zero_time \<le> t_inst t"
  shows "limiter_answers l cs = limiter_answers l' cs"
  using assms
proof (induction cs arbitrary: l l' t)
  case (Cons x cs)
  obtain now now2 c where x: "x = (now, now2, c)" by (cases x)
  have now: "t_inst t \<le> t_inst now" "clock_runs now cs" "t_inst zero_time \<le> t_inst now"
    using Cons.prems x by auto
  note step = similar_call [OF similar_later [OF Cons.prems(1) now(1)] now(3), of now2 c]
  from Cons.IH [OF step [THEN conjunct2] now(2,3)] step [THEN conjunct1] show ?case
    by (simp add: x case_prod_unfold)
qed simp

text \<open>C10: dropping expired entries changes no answer the limiter ever gives: whatever calls follow,
  at whatever later times, they see the same refusals and waiting times as without the cleanup.\<close>

theorem cleanup_unobservable:
  assumes "limiter_ok l t" "clock_runs t cs" "t_inst zero_time \<le> t_inst t"
  shows "limiter_answers (Cleanup l t) cs = limiter_answers l cs"
proof -
  have "similar l l t" using assms(1) by (simp add: similar_def same_limits_def)
  from similar_answers [OF similar_Cleanup [OF this] assms(2,3)] show ?thesis .
qed

theorem cleanup_unobservable_witness:
  "limiter_answers (Cleanup (recordLocked (NewLoginLimiter 1 100 300) ''k'' (utc_midnight 1)) (utc_midnight 2))
     [(utc_midnight 3, utc_midnight 3, Call_Consume ''k''), (utc_midnight 3, utc_midnight 3, Call_Consume ''k'')]
   = limiter_answers (recordLocked (NewLoginLimiter 1 100 300) ''k'' (utc_midnight 1))
     [(utc_midnight 3, utc_midnight 3, Call_Consume ''k''), (utc_midnight 3, utc_midnight 3, Call_Consume ''k'')]"
proof -
  have "limiter_ok (recordLocked (NewLoginLimiter 1 100 300) ''k'' (utc_midnight 1)) (utc_midnight 2)"
    by (rule limiter_ok_later [of _ "utc_midnight 1"])
      (simp_all add: recordLocked_ok NewLoginLimiter_ok)
  then show ?thesis by (rule cleanup_unobservable) (simp_all add: zero_time_def)
qed

end
