(* ===== verification/Login_Throttle.thy ===== *)
theory Login_Throttle
  imports Login_Limiter Go_String
begin

text \<open>
  The login budgets of \<^verbatim>\<open>internal/handlers/auth.go\<close>: a limiter per username and address, one per
  username, one per address and one for ceremonies, and the handlers' reservations on them. The
  interface \<open>throttle\<close> is what the handlers rely on; it is interpreted on the limiter of
  \<open>Login_Limiter\<close>, and the statements about the handlers rest on the interpretation. The lower
  casing of a username (\<^verbatim>\<open>strings.ToLower\<close>) is an argument.
\<close>

subsection \<open>The interface of a refundable throttle\<close>

locale throttle =
  fixes consume :: "'s \<Rightarrow> string \<Rightarrow> time \<Rightarrow> time \<Rightarrow> (bool \<times> int) \<times> 's"
    and refund :: "'s \<Rightarrow> string \<Rightarrow> 's"
    and reset :: "'s \<Rightarrow> string \<Rightarrow> 's"
    and counted :: "'s \<Rightarrow> string \<Rightarrow> time \<Rightarrow> int"
    and sound :: "'s \<Rightarrow> time \<Rightarrow> bool"
  assumes reject_same: "consume s k n m = ((False, w), s') \<Longrightarrow> s' = s"
    and refund_restores: "sound s n \<Longrightarrow> consume s k n m = ((True, w), s') \<Longrightarrow> t_inst n \<le> t_inst t
      \<Longrightarrow> counted (refund s' k) k' t = counted s k' t"
    and reset_clears: "counted (reset s k) k' t = (if k' = k then 0 else counted s k' t)"
    and sound_consume: "sound s n \<Longrightarrow> sound (snd (consume s k n m)) n"
    and sound_refund: "sound s n \<Longrightarrow> sound (refund s k) n"
    and sound_reset: "sound s n \<Longrightarrow> sound (reset s k) n"
    and sound_later: "sound s n \<Longrightarrow> t_inst n \<le> t_inst t \<Longrightarrow> sound s t"

text \<open>Reserving on two throttles in turn, as the handlers do: a refusal by the second takes back the
  reservation on the first.\<close>

definition reserve_both ::
  "('s \<Rightarrow> string \<Rightarrow> time \<Rightarrow> time \<Rightarrow> (bool \<times> int) \<times> 's) \<Rightarrow> ('s \<Rightarrow> string \<Rightarrow> 's)
    \<Rightarrow> 's \<Rightarrow> string \<Rightarrow> 's \<Rightarrow> string \<Rightarrow> time \<Rightarrow> time \<Rightarrow> time \<Rightarrow> time \<Rightarrow> int option \<times> 's \<times> 's" where
  "reserve_both consume refund a k b u n1 m1 n2 m2 =
     (case consume a k n1 m1 of
        ((False, wait), a') \<Rightarrow> (Some wait, a', b)
      | ((True, _), a') \<Rightarrow>
          (case consume b u n2 m2 of
             ((False, wait), b') \<Rightarrow> (Some wait, refund a' k, b')
           | ((True, _), b') \<Rightarrow> (None, a', b')))"

context throttle
begin

lemma reserve_both_rejected:
  assumes "sound a n1" "reserve_both consume refund a k b u n1 m1 n2 m2 = (Some w, a', b')"
    and "t_inst n1 \<le> t_inst t"
  shows "counted a' k' t = counted a k' t \<and> b' = b"
proof -
  obtain acc w1 a1 where c1: "consume a k n1 m1 = ((acc, w1), a1)" by (metis prod.exhaust)
  obtain acc2 w2 b1 where c2: "consume b u n2 m2 = ((acc2, w2), b1)" by (metis prod.exhaust)
  show ?thesis
    using assms c1 c2 reject_same [of a k n1 m1] reject_same [of b u n2 m2]
      refund_restores [OF assms(1) _ assms(3), of k m1]
    by (cases acc; cases acc2) (auto simp: reserve_both_def)
qed

lemma reserve_both_refunded:
  assumes "sound a n1" "sound b n2" "reserve_both consume refund a k b u n1 m1 n2 m2 = (None, a', b')"
    and "t_inst n1 \<le> t_inst t" "t_inst n2 \<le> t_inst t"
  shows "counted (refund a' k) k' t = counted a k' t \<and> counted (refund b' u) k' t = counted b k' t"
proof -
  obtain acc w1 a1 where c1: "consume a k n1 m1 = ((acc, w1), a1)" by (metis prod.exhaust)
  obtain acc2 w2 b1 where c2: "consume b u n2 m2 = ((acc2, w2), b1)" by (metis prod.exhaust)
  have t: "acc" "acc2" "a' = a1" "b' = b1"
    using assms(3) c1 c2 by (cases acc; cases acc2; simp add: reserve_both_def)+
  with c1 c2 show ?thesis
    using refund_restores [OF assms(1) _ assms(4)] refund_restores [OF assms(2) _ assms(5)] by auto
qed

lemma reserve_both_sound:
  assumes "sound a n1" "sound b n2" "reserve_both consume refund a k b u n1 m1 n2 m2 = (r, a', b')"
  shows "sound a' n1 \<and> sound b' n2"
proof -
  obtain acc w1 a1 where c1: "consume a k n1 m1 = ((acc, w1), a1)" by (metis prod.exhaust)
  obtain acc2 w2 b1 where c2: "consume b u n2 m2 = ((acc2, w2), b1)" by (metis prod.exhaust)
  from sound_consume [OF assms(1), of k m1] sound_consume [OF assms(2), of u m2]
  show ?thesis using assms c1 c2 sound_refund
    by (cases acc; cases acc2) (auto simp: reserve_both_def)
qed

end

interpretation limiter: throttle Consume Refund Reset live_fails limiter_ok
proof
  show "Consume s k n m = ((False, w), s') \<Longrightarrow> s' = s" for s k n m w s'
    by (auto simp: Consume_alt split: if_splits)
  show "live_fails (Refund s' k) k' t = live_fails s k' t"
    if "limiter_ok s n" "Consume s k n m = ((True, w), s')" "t_inst n \<le> t_inst t"
    for s n k m w s' t k'
    using that live_fails_refunded [OF that(1,3)] by (auto simp: Consume_alt split: if_splits)
qed (auto simp: live_fails_Reset Consume_ok Refund_ok Reset_ok intro: limiter_ok_later)

subsection \<open>The handlers' limiters\<close>

record auth_limits =
  ah_Limiter :: login_limiter
  ah_IPLimiter :: login_limiter
  ah_UserLimiter :: login_limiter
  ah_CeremonyLimiter :: login_limiter

abbreviation minute_ns :: int where
  "minute_ns \<equiv> 60000000000"

definition NewAuthHandler :: auth_limits where
  "NewAuthHandler =
     \<lparr>ah_Limiter = NewLoginLimiter 5 (10 * minute_ns) (15 * minute_ns),
      ah_IPLimiter = NewLoginLimiter 20 (10 * minute_ns) (15 * minute_ns),
      ah_UserLimiter = NewStickyLoginLimiter 20 (15 * minute_ns) (1 * minute_ns),
      ah_CeremonyLimiter = NewStickyLoginLimiter 15 (5 * minute_ns) (1 * minute_ns)\<rparr>"

text \<open>One tick of the background cleanup.\<close>

definition cleanup_tick :: "auth_limits \<Rightarrow> time \<Rightarrow> time \<Rightarrow> time \<Rightarrow> time \<Rightarrow> auth_limits" where
  "cleanup_tick h t1 t2 t3 t4 =
     \<lparr>ah_Limiter = Cleanup (ah_Limiter h) t1, ah_IPLimiter = Cleanup (ah_IPLimiter h) t2,
      ah_UserLimiter = Cleanup (ah_UserLimiter h) t3,
      ah_CeremonyLimiter = Cleanup (ah_CeremonyLimiter h) t4\<rparr>"

text \<open>A refusal carries the waiting time the reply is built from.\<close>

definition checkRateLimit ::
  "(string \<Rightarrow> string) \<Rightarrow> auth_limits \<Rightarrow> string \<Rightarrow> string \<Rightarrow> time \<Rightarrow> time \<Rightarrow> time \<Rightarrow> time
    \<Rightarrow> (string \<times> int option) \<times> auth_limits" where
  "checkRateLimit lower h ip username n1 m1 n2 m2 =
     (let uname = lower username; key = uname @ ''|'' @ ip
      in case Consume (ah_Limiter h) key n1 m1 of
           ((False, wait), l) \<Rightarrow> ((key, Some wait), h\<lparr>ah_Limiter := l\<rparr>)
         | ((True, _), l) \<Rightarrow>
             (let h = h\<lparr>ah_Limiter := l\<rparr>
              in case Consume (ah_UserLimiter h) uname n2 m2 of
                   ((False, wait), ul) \<Rightarrow>
                     ((key, Some wait),
                      h\<lparr>ah_UserLimiter := ul, ah_Limiter := Refund (ah_Limiter h) key\<rparr>)
                 | ((True, _), ul) \<Rightarrow> ((key, None), h\<lparr>ah_UserLimiter := ul\<rparr>)))"

definition trim_suffix :: "string \<Rightarrow> string \<Rightarrow> string" where
  "trim_suffix s suffix =
     (if length suffix \<le> length s \<and> drop (length s - length suffix) s = suffix
      then take (length s - length suffix) s else s)"

definition userKeyOf :: "string \<Rightarrow> string \<Rightarrow> string" where
  "userKeyOf key ip = trim_suffix key (''|'' @ ip)"

definition ipThrottled :: "auth_limits \<Rightarrow> string \<Rightarrow> time \<Rightarrow> time \<Rightarrow> int option \<times> auth_limits" where
  "ipThrottled h ip n m =
     (case Consume (ah_IPLimiter h) ip n m of
        ((False, wait), l) \<Rightarrow> (Some wait, h\<lparr>ah_IPLimiter := l\<rparr>)
      | ((True, _), l) \<Rightarrow> (None, h\<lparr>ah_IPLimiter := l\<rparr>))"

definition refundReauth :: "auth_limits \<Rightarrow> string \<Rightarrow> string \<Rightarrow> auth_limits" where
  "refundReauth h key ip =
     h\<lparr>ah_Limiter := Refund (ah_Limiter h) key,
       ah_UserLimiter := Refund (ah_UserLimiter h) (userKeyOf key ip)\<rparr>"

definition refundLogin :: "auth_limits \<Rightarrow> string \<Rightarrow> string \<Rightarrow> auth_limits" where
  "refundLogin h key ip =
     (let h = refundReauth h key ip in h\<lparr>ah_IPLimiter := Refund (ah_IPLimiter h) ip\<rparr>)"

definition resetReauth :: "auth_limits \<Rightarrow> string \<Rightarrow> string \<Rightarrow> auth_limits" where
  "resetReauth h key ip =
     h\<lparr>ah_Limiter := Reset (ah_Limiter h) key,
       ah_UserLimiter := Reset (ah_UserLimiter h) (userKeyOf key ip)\<rparr>"

text \<open>The reservations of the public login: the address first, then the account; a refusal by the
  account budgets gives the address its attempt back. \<open>clk i\<close> is the \<open>i\<close>-th reading of the clock.\<close>

definition login_reserve ::
  "(string \<Rightarrow> string) \<Rightarrow> auth_limits \<Rightarrow> string \<Rightarrow> string \<Rightarrow> (nat \<Rightarrow> time) \<Rightarrow> (string \<times> int option) \<times> auth_limits" where
  "login_reserve lower h ip username clk =
     (case ipThrottled h ip (clk 0) (clk 1) of
        (Some wait, h) \<Rightarrow> (([], Some wait), h)
      | (None, h) \<Rightarrow>
          (case checkRateLimit lower h ip username (clk 2) (clk 3) (clk 4) (clk 5) of
             ((key, Some wait), h) \<Rightarrow> ((key, Some wait), h\<lparr>ah_IPLimiter := Refund (ah_IPLimiter h) ip\<rparr>)
           | ((key, None), h) \<Rightarrow> ((key, None), h)))"

text \<open>After a verified login the account budgets are cleared; the address only gets this attempt back.\<close>

definition login_success :: "auth_limits \<Rightarrow> string \<Rightarrow> string \<Rightarrow> auth_limits" where
  "login_success h key ip =
     (let h = resetReauth h key ip in h\<lparr>ah_IPLimiter := Refund (ah_IPLimiter h) ip\<rparr>)"

subsection \<open>Facts\<close>

lemma userKeyOf_key [simp]: "userKeyOf (u @ CHR ''|'' # ip) ip = u"
  by (simp add: userKeyOf_def trim_suffix_def)

text \<open>The account budgets as a pair, and what is counted on all budgets.\<close>

lemma checkRateLimit_eq:
  "checkRateLimit lower h ip name n1 m1 n2 m2 =
     (case reserve_both Consume Refund (ah_Limiter h) (lower name @ ''|'' @ ip)
             (ah_UserLimiter h) (lower name) n1 m1 n2 m2 of
        (r, a, b) \<Rightarrow> ((lower name @ ''|'' @ ip, r), h\<lparr>ah_Limiter := a, ah_UserLimiter := b\<rparr>))"
  by (auto simp: checkRateLimit_def reserve_both_def Let_def split: prod.split bool.split)

definition limits_ok :: "auth_limits \<Rightarrow> time \<Rightarrow> bool" where
  "limits_ok h t \<longleftrightarrow> limiter_ok (ah_Limiter h) t \<and> limiter_ok (ah_IPLimiter h) t
     \<and> limiter_ok (ah_UserLimiter h) t \<and> limiter_ok (ah_CeremonyLimiter h) t"

definition same_counts :: "auth_limits \<Rightarrow> auth_limits \<Rightarrow> time \<Rightarrow> bool" where
  "same_counts h h' t \<longleftrightarrow>
     (\<forall>k. live_fails (ah_Limiter h) k t = live_fails (ah_Limiter h') k t
        \<and> live_fails (ah_IPLimiter h) k t = live_fails (ah_IPLimiter h') k t
        \<and> live_fails (ah_UserLimiter h) k t = live_fails (ah_UserLimiter h') k t)"

lemma NewAuthHandler_ok: "limits_ok NewAuthHandler t"
  by (simp add: limits_ok_def NewAuthHandler_def NewLoginLimiter_ok)

lemma ipThrottled_cases:
  assumes "ipThrottled h ip n m = (r, h')" "limiter_ok (ah_IPLimiter h) n"
  obtains (rejected) w where "r = Some w" "h' = h"
  | (accepted) l where "r = None" "h' = h\<lparr>ah_IPLimiter := l\<rparr>" "limiter_ok l n"
      "\<And>t k. t_inst n \<le> t_inst t \<Longrightarrow> live_fails (Refund l ip) k t = live_fails (ah_IPLimiter h) k t"
proof -
  obtain acc w l where c: "Consume (ah_IPLimiter h) ip n m = ((acc, w), l)" by (metis prod.exhaust)
  show ?thesis
  proof (cases acc)
    case True
    with c assms limiter.sound_consume [OF assms(2), of ip m]
      limiter.refund_restores [OF assms(2), of ip m w l] show ?thesis
      by (intro accepted [of l]) (auto simp: ipThrottled_def)
  next
    case False
    with c assms limiter.reject_same [of "ah_IPLimiter h" ip n m w l] show ?thesis
      by (intro rejected [of w]) (auto simp: ipThrottled_def)
  qed
qed

fun clock_mono :: "(nat \<Rightarrow> time) \<Rightarrow> nat \<Rightarrow> bool" where
  "clock_mono clk 0 = True"
| "clock_mono clk (Suc n) = (t_inst (clk n) \<le> t_inst (clk (Suc n)) \<and> clock_mono clk n)"

lemma clock_mono_le: "clock_mono clk n \<Longrightarrow> i \<le> j \<Longrightarrow> j \<le> n \<Longrightarrow> t_inst (clk i) \<le> t_inst (clk j)"
proof (induction n arbitrary: j)
  case (Suc n)
  then show ?case by (cases "j = Suc n"; cases "i = Suc n") (fastforce simp: le_Suc_eq)+
qed simp

text \<open>C11: a login turned away by a throttle costs nothing. Whichever of the three budgets refuses,
  every count on every key of all of them is afterwards what it was before.\<close>

theorem refused_login_costs_nothing:
  assumes "limits_ok h (clk 0)" "clock_mono clk 5"
    and "login_reserve lower h ip name clk = ((key, Some wait), h')" "t_inst (clk 5) \<le> t_inst t"
  shows "same_counts h' h t"
proof -
  note mono = clock_mono_le [OF assms(2)]
  obtain r h1 where ip: "ipThrottled h ip (clk 0) (clk 1) = (r, h1)" by (cases "ipThrottled h ip (clk 0) (clk 1)")
  have "limiter_ok (ah_IPLimiter h) (clk 0)" using assms(1) by (simp add: limits_ok_def)
  with ip show ?thesis
  proof (cases rule: ipThrottled_cases)
    case (rejected w)
    with assms(3) ip show ?thesis by (simp add: login_reserve_def same_counts_def)
  next
    case (accepted l)
    obtain r2 a b where c: "reserve_both Consume Refund (ah_Limiter h) (lower name @ ''|'' @ ip)
        (ah_UserLimiter h) (lower name) (clk 2) (clk 3) (clk 4) (clk 5) = (r2, a, b)"
      by (metis prod.exhaust)
    have r2: "r2 = Some wait" and h': "h' = h\<lparr>ah_IPLimiter := Refund l ip, ah_Limiter := a, ah_UserLimiter := b\<rparr>"
      using assms(3) ip accepted c by (auto simp: login_reserve_def checkRateLimit_eq split: option.splits)
    have "limiter_ok (ah_Limiter h) (clk 2)"
      using assms(1) mono [of 0 2] by (auto simp: limits_ok_def intro: limiter_ok_later)
    moreover have "t_inst (clk 2) \<le> t_inst t" "t_inst (clk 0) \<le> t_inst t"
      using mono [of 2 5] mono [of 0 5] assms(4) by simp_all
    ultimately show ?thesis
      using limiter.reserve_both_rejected [OF _ c [unfolded r2], of t] accepted(4) h'
      by (simp add: same_counts_def)
  qed
qed

text \<open>C12: an attempt that is given back leaves no trace. After a reservation for a login and its
  refund, every count on every key of all three budgets is what it was before.\<close>

theorem refunded_login_costs_nothing:
  assumes "limits_ok h (clk 0)" "clock_mono clk 5"
    and "login_reserve lower h ip name clk = ((key, None), h')" "t_inst (clk 5) \<le> t_inst t"
  shows "same_counts (refundLogin h' key ip) h t"
proof -
  note mono = clock_mono_le [OF assms(2)]
  obtain r h1 where ip: "ipThrottled h ip (clk 0) (clk 1) = (r, h1)" by (cases "ipThrottled h ip (clk 0) (clk 1)")
  have "limiter_ok (ah_IPLimiter h) (clk 0)" using assms(1) by (simp add: limits_ok_def)
  with ip show ?thesis
  proof (cases rule: ipThrottled_cases)
    case (rejected w)
    with assms(3) ip show ?thesis by (simp add: login_reserve_def)
  next
    case (accepted l)
    obtain r2 a b where c: "reserve_both Consume Refund (ah_Limiter h) (lower name @ ''|'' @ ip)
        (ah_UserLimiter h) (lower name) (clk 2) (clk 3) (clk 4) (clk 5) = (r2, a, b)"
      by (metis prod.exhaust)
    have r2: "r2 = None" and key: "key = lower name @ ''|'' @ ip"
      and h': "h' = h\<lparr>ah_IPLimiter := l, ah_Limiter := a, ah_UserLimiter := b\<rparr>"
      using assms(3) ip accepted c by (auto simp: login_reserve_def checkRateLimit_eq split: option.splits)
    have "limiter_ok (ah_Limiter h) (clk 2)" "limiter_ok (ah_UserLimiter h) (clk 4)"
      using assms(1) mono [of 0 2] mono [of 0 4] by (auto simp: limits_ok_def intro: limiter_ok_later)
    moreover have "t_inst (clk 2) \<le> t_inst t" "t_inst (clk 4) \<le> t_inst t" "t_inst (clk 0) \<le> t_inst t"
      using mono [of 2 5] mono [of 4 5] mono [of 0 5] assms(4) by simp_all
    ultimately show ?thesis
      using limiter.reserve_both_refunded [OF _ _ c [unfolded r2], of t] accepted(4) h'
      by (simp add: same_counts_def key refundLogin_def refundReauth_def Let_def)
  qed
qed

lemma clock_const: "clock_mono (\<lambda>_. t) n"
  by (induction n) simp_all

text \<open>A fresh handler accepts the first login; after one accepted attempt on a limiter of one
  attempt, the next is refused.\<close>

lemma first_login:
  "\<exists>h'. login_reserve id NewAuthHandler ''10.0.0.1'' ''eva'' (\<lambda>_. utc_midnight 20000)
     = ((''eva'' @ ''|'' @ ''10.0.0.1'', None), h')"
  by (simp add: login_reserve_def ipThrottled_def checkRateLimit_def NewAuthHandler_def
      NewLoginLimiter_def NewStickyLoginLimiter_def Consume_def Let_def)

theorem refunded_login_costs_nothing_witness:
  "\<exists>key h'. login_reserve id NewAuthHandler ''10.0.0.1'' ''eva'' (\<lambda>_. utc_midnight 20000) = ((key, None), h')
     \<and> same_counts (refundLogin h' key ''10.0.0.1'') NewAuthHandler (utc_midnight 20000)"
proof -
  obtain key h' where r:
    "login_reserve id NewAuthHandler ''10.0.0.1'' ''eva'' (\<lambda>_. utc_midnight 20000) = ((key, None), h')"
    using first_login by blast
  from refunded_login_costs_nothing [OF NewAuthHandler_ok clock_const r] r show ?thesis by auto
qed

definition strict_limits :: auth_limits where
  "strict_limits = NewAuthHandler\<lparr>ah_IPLimiter := recordLocked (NewLoginLimiter 1 100 (2 * day_ns))
     ''10.0.0.1'' (utc_midnight 20000)\<rparr>"

theorem refused_login_costs_nothing_witness:
  "\<exists>key wait h'. login_reserve id strict_limits ''10.0.0.1'' ''eva'' (\<lambda>_. utc_midnight 20001) = ((key, Some wait), h')
     \<and> same_counts h' strict_limits (utc_midnight 20001)"
proof -
  have "limiter_ok (recordLocked (NewLoginLimiter 1 100 (2 * day_ns)) ''10.0.0.1'' (utc_midnight 20000)) (utc_midnight 20001)"
    by (rule limiter_ok_later [of _ "utc_midnight 20000"]) (simp_all add: recordLocked_ok NewLoginLimiter_ok)
  then have ok: "limits_ok strict_limits (utc_midnight 20001)"
    using NewAuthHandler_ok [of "utc_midnight 20001"] by (simp add: limits_ok_def strict_limits_def)
  have "\<exists>w. login_reserve id strict_limits ''10.0.0.1'' ''eva'' (\<lambda>_. utc_midnight 20001) = (([], Some w), strict_limits)"
    by (simp add: login_reserve_def ipThrottled_def strict_limits_def Consume_def recordLocked_def
        record_entry_def fresh_attempt_def NewLoginLimiter_def Let_def before_def time_add_def)
  then obtain w where r:
    "login_reserve id strict_limits ''10.0.0.1'' ''eva'' (\<lambda>_. utc_midnight 20001) = (([], Some w), strict_limits)" by blast
  from refused_login_costs_nothing [OF ok clock_const r, of "utc_midnight 20001"] r show ?thesis by auto
qed

end
