(* ===== verification/Auth_Store.thy ===== *)
theory Auth_Store
  imports Go_Time Go_String
begin

text \<open>
  The authentication tables and the operations of \<^verbatim>\<open>internal/auth\<close> on them: users with their
  second factor, sessions, recovery codes and passkey credentials. One SQL statement is one
  step on the store; a flag argument says whether the statement fails with an infrastructure
  error (then nothing is changed). Password and code hashing, the token hash, TOTP code
  generation and secret decryption are arguments, as are the random tokens.
\<close>

subsection \<open>Tables\<close>

record user_row =
  us_id :: int
  us_username :: string
  us_password_hash :: string
  us_is_admin :: bool
  us_role :: string
  us_disabled :: bool
  us_totp_secret :: string
  us_totp_enabled :: bool
  us_totp_failures :: int
  us_totp_locked_until :: "time option"
  us_last_totp_step :: int
  us_pending_secret :: string
  us_pending_nonce :: string
  us_pending_expires :: "time option"

record session_row =
  ss_user :: int
  ss_created :: time
  ss_expires :: time
  ss_last_seen :: time
  ss_user_agent :: string
  ss_ip :: string
  ss_factor_verified :: bool

record backup_row =
  bc_id :: int
  bc_user :: int
  bc_hash :: string
  bc_used :: bool

record auth_db =
  db_users :: "user_row list"
  db_sessions :: "string \<rightharpoonup> session_row"
  db_codes :: "backup_row list"
  db_passkeys :: "(int \<times> string) list"

datatype auth_error = ErrCredentialChanged | Store_Error | Invalid_Credentials | No_Session

text \<open>The row of a user, and \<^verbatim>\<open>UPDATE users SET ... WHERE id = $1 AND cond\<close> with whether it changed a row
  (ids are unique).\<close>

definition find_user :: "auth_db \<Rightarrow> int \<Rightarrow> user_row option" where
  "find_user db uid = find (\<lambda>u. us_id u = uid) (db_users db)"

definition update_user :: "auth_db \<Rightarrow> int \<Rightarrow> (user_row \<Rightarrow> bool) \<Rightarrow> (user_row \<Rightarrow> user_row) \<Rightarrow> bool \<times> auth_db" where
  "update_user db uid cond f =
     (case find_user db uid of
        None \<Rightarrow> (False, db)
      | Some u \<Rightarrow>
          if cond u
          then (True, db\<lparr>db_users := map (\<lambda>v. if us_id v = uid then f v else v) (db_users db)\<rparr>)
          else (False, db))"

subsection \<open>The second-factor counter\<close>

abbreviation second_ns :: int where
  "second_ns \<equiv> 1000000000"

definition SecondFactorFreeFailures :: int where "SecondFactorFreeFailures = 5"
definition SecondFactorMaxLock :: int where "SecondFactorMaxLock = 24 * 3600 * second_ns"

text \<open>The lock the statement installs with the \<open>n\<close>-th consecutive failure.\<close>

definition second_factor_lock :: "int \<Rightarrow> int" where
  "second_factor_lock n =
     min (60 * second_ns * 2 ^ nat (min (n - SecondFactorFreeFailures) 20)) SecondFactorMaxLock"

definition credential_matches :: "string \<Rightarrow> user_row \<Rightarrow> bool" where
  "credential_matches secret u \<longleftrightarrow> us_totp_enabled u \<and> us_totp_secret u = secret"

definition ReserveSecondFactorAttempt ::
  "auth_db \<Rightarrow> int \<Rightarrow> string \<Rightarrow> time \<Rightarrow> time \<Rightarrow> bool \<Rightarrow> bool \<Rightarrow> (auth_error + int \<times> int) \<times> auth_db" where
  "ReserveSecondFactorAttempt db uid secret db_now now fault1 fault2 =
     (if fault1 then (Inl Store_Error, db)
      else case update_user db uid
          (\<lambda>u. credential_matches secret u \<and>
             (case us_totp_locked_until u of None \<Rightarrow> True | Some t \<Rightarrow> \<not> after t db_now))
          (\<lambda>u. u\<lparr>us_totp_failures := us_totp_failures u + 1,
                us_totp_locked_until :=
                  (if us_totp_failures u + 1 \<ge> SecondFactorFreeFailures
                   then Some (time_add db_now (second_factor_lock (us_totp_failures u + 1)))
                   else None)\<rparr>) of
        (True, db') \<Rightarrow> (Inr (us_totp_failures (the (find_user db' uid)), 0), db')
      | (False, db') \<Rightarrow>
          if fault2 then (Inl Store_Error, db')
          else case find_user db' uid of
            None \<Rightarrow> (Inl ErrCredentialChanged, db')
          | Some u \<Rightarrow>
              if \<not> credential_matches secret u then (Inl ErrCredentialChanged, db')
              else (Inr (us_totp_failures u,
                      case us_totp_locked_until u of
                        None \<Rightarrow> second_ns
                      | Some t \<Rightarrow> max second_ns (time_sub t now)), db'))"

definition ReleaseSecondFactorAttempt ::
  "auth_db \<Rightarrow> int \<Rightarrow> string \<Rightarrow> bool \<Rightarrow> auth_error option \<times> auth_db" where
  "ReleaseSecondFactorAttempt db uid secret fault =
     (if fault then (Some Store_Error, db)
      else case update_user db uid (credential_matches secret)
          (\<lambda>u. u\<lparr>us_totp_failures := max (us_totp_failures u - 1) 0\<rparr>) of
        (True, db') \<Rightarrow> (None, db')
      | (False, db') \<Rightarrow> (Some ErrCredentialChanged, db'))"

definition ResetSecondFactorFailures ::
  "auth_db \<Rightarrow> int \<Rightarrow> string \<Rightarrow> bool \<Rightarrow> auth_error option \<times> auth_db" where
  "ResetSecondFactorFailures db uid secret fault =
     (if fault then (Some Store_Error, db)
      else case update_user db uid (credential_matches secret)
          (\<lambda>u. u\<lparr>us_totp_failures := 0, us_totp_locked_until := None\<rparr>) of
        (True, db') \<Rightarrow> (None, db')
      | (False, db') \<Rightarrow> (Some ErrCredentialChanged, db'))"

subsection \<open>TOTP codes\<close>

definition totpPeriod :: int where "totpPeriod = 30"

definition unix_seconds :: "time \<Rightarrow> int" where
  "unix_seconds t = t_inst t div second_ns"

fun totp_scan :: "(string \<Rightarrow> time \<Rightarrow> string option) \<Rightarrow> string \<Rightarrow> string \<Rightarrow> time \<Rightarrow> int list \<Rightarrow> int option" where
  "totp_scan generate secret code now [] = None"
| "totp_scan generate secret code now (skew # skews) =
     (let t = time_add now (skew * totpPeriod * second_ns)
      in case generate secret t of
           None \<Rightarrow> totp_scan generate secret code now skews
         | Some want \<Rightarrow>
             if want = code then Some (trunc_div (unix_seconds t) totpPeriod)
             else totp_scan generate secret code now skews)"

definition ValidateTOTPStep :: "(string \<Rightarrow> time \<Rightarrow> string option) \<Rightarrow> string \<Rightarrow> string \<Rightarrow> time \<Rightarrow> int option" where
  "ValidateTOTPStep generate secret code now = totp_scan generate secret code now [0, -1, 1]"

definition ValidateEncryptedTOTPStep ::
  "(string \<Rightarrow> string option) \<Rightarrow> (string \<Rightarrow> time \<Rightarrow> string option) \<Rightarrow> string \<Rightarrow> string \<Rightarrow> time \<Rightarrow> int option" where
  "ValidateEncryptedTOTPStep decrypt generate encoded code now =
     (case decrypt encoded of
        None \<Rightarrow> None
      | Some secret \<Rightarrow> ValidateTOTPStep generate secret code now)"

text \<open>The replay guard of the login: the step of an accepted code must be newer than the last one.\<close>

definition advance_totp_step :: "auth_db \<Rightarrow> int \<Rightarrow> string \<Rightarrow> int \<Rightarrow> bool \<times> auth_db" where
  "advance_totp_step db uid secret step =
     update_user db uid (\<lambda>u. us_last_totp_step u < step \<and> credential_matches secret u)
       (\<lambda>u. u\<lparr>us_last_totp_step := step\<rparr>)"

subsection \<open>Recovery codes\<close>

definition backupCodeCount :: nat where "backupCodeCount = 10"

definition codeAlphabet :: string where
  "codeAlphabet = ''ABCDEFGHJKMNPQRSTUVWXYZ23456789''"

definition normalizeCode :: "(string \<Rightarrow> string) \<Rightarrow> (string \<Rightarrow> string) \<Rightarrow> string \<Rightarrow> string" where
  "normalizeCode upper trim code = upper (trim code)"

text \<open>One code from a stream of random bytes: bytes at or above the largest multiple of the alphabet
  length are rejected. \<open>None\<close> is a stream that ends.\<close>

definition code_limit :: nat where
  "code_limit = 256 - 256 mod length codeAlphabet"

fun random_chars :: "nat \<Rightarrow> nat list \<Rightarrow> (string \<times> nat list) option" where
  "random_chars 0 bytes = Some ([], bytes)"
| "random_chars (Suc n) [] = None"
| "random_chars (Suc n) (b # bytes) =
     (if code_limit \<le> b then random_chars (Suc n) bytes
      else case random_chars n bytes of
             None \<Rightarrow> None
           | Some (cs, rest) \<Rightarrow> Some ((codeAlphabet ! (b mod length codeAlphabet)) # cs, rest))"

definition randomCode :: "nat list \<Rightarrow> (string \<times> nat list) option" where
  "randomCode bytes =
     (case random_chars 12 bytes of
        None \<Rightarrow> None
      | Some (cs, rest) \<Rightarrow>
          Some (take 4 cs @ ''-'' @ take 4 (drop 4 cs) @ ''-'' @ drop 8 cs, rest))"

fun random_codes :: "nat \<Rightarrow> nat list \<Rightarrow> string list option" where
  "random_codes 0 bytes = Some []"
| "random_codes (Suc n) bytes =
     (case randomCode bytes of
        None \<Rightarrow> None
      | Some (c, rest) \<Rightarrow> map_option (\<lambda>cs. c # cs) (random_codes n rest))"

text \<open>\<^verbatim>\<open>GenerateBackupCodesTx\<close>: \<open>hash\<close> is bcrypt with the salt of the call (\<open>None\<close>: it fails),
  \<open>next_id\<close> the table's sequence. The statements run in the caller's transaction.\<close>

definition GenerateBackupCodesTx ::
  "(string \<Rightarrow> string) \<Rightarrow> (string \<Rightarrow> string) \<Rightarrow> (nat \<Rightarrow> string \<Rightarrow> string option) \<Rightarrow> auth_db \<Rightarrow> int \<Rightarrow> int
    \<Rightarrow> nat list \<Rightarrow> bool \<Rightarrow> (string list \<times> auth_db) option" where
  "GenerateBackupCodesTx upper trim hash db next_id uid bytes fault =
     (case random_codes backupCodeCount bytes of
        None \<Rightarrow> None
      | Some codes \<Rightarrow>
          (let hashes = map (\<lambda>(i, c). hash i (normalizeCode upper trim c)) (enumerate 0 codes)
           in if None \<in> set hashes then None
              else if fault then None
              else Some (codes, db\<lparr>db_codes :=
                filter (\<lambda>r. bc_user r \<noteq> uid) (db_codes db)
                  @ map (\<lambda>(i, h). \<lparr>bc_id = next_id + int i, bc_user = uid, bc_hash = the h, bc_used = False\<rparr>)
                      (enumerate 0 hashes)\<rparr>)))"

definition unused_codes :: "auth_db \<Rightarrow> int \<Rightarrow> backup_row list" where
  "unused_codes db uid = filter (\<lambda>r. bc_user r = uid \<and> \<not> bc_used r) (db_codes db)"

text \<open>The atomic claim: \<^verbatim>\<open>UPDATE ... WHERE id = $1 AND used_at IS NULL\<close>.\<close>

definition claim_code :: "auth_db \<Rightarrow> int \<Rightarrow> bool \<times> auth_db" where
  "claim_code db cid =
     (if \<exists>r \<in> set (db_codes db). bc_id r = cid \<and> \<not> bc_used r
      then (True, db\<lparr>db_codes := map (\<lambda>r. if bc_id r = cid then r\<lparr>bc_used := True\<rparr> else r) (db_codes db)\<rparr>)
      else (False, db))"

text \<open>\<^verbatim>\<open>ConsumeBackupCode\<close> reads the unused codes in one statement and claims the first match in
  another: \<open>seen\<close> is the store it read, \<open>db\<close> the store at the claim.\<close>

definition ConsumeBackupCode ::
  "(string \<Rightarrow> string) \<Rightarrow> (string \<Rightarrow> string) \<Rightarrow> (string \<Rightarrow> string \<Rightarrow> bool) \<Rightarrow> auth_db \<Rightarrow> auth_db \<Rightarrow> int \<Rightarrow> string
    \<Rightarrow> bool \<Rightarrow> bool \<Rightarrow> bool \<times> auth_db" where
  "ConsumeBackupCode upper trim check seen db uid code fault1 fault2 =
     (if fault1 then (False, db)
      else case filter (\<lambda>r. check (bc_hash r) (normalizeCode upper trim code)) (unused_codes seen uid) of
             [] \<Rightarrow> (False, db)
           | r # _ \<Rightarrow> if fault2 then (False, db) else claim_code db (bc_id r))"

definition RemainingBackupCodes :: "auth_db \<Rightarrow> int \<Rightarrow> int" where
  "RemainingBackupCodes db uid = int (length (unused_codes db uid))"

end
