(* ===== verification/Auth_Session.thy ===== *)
theory Auth_Session
  imports Auth_Store
begin

text \<open>
  Passwords, sessions and the access middleware of \<^verbatim>\<open>internal/auth/auth.go\<close> and
  \<^verbatim>\<open>internal/auth/sessions.go\<close>. The bcrypt comparison, the token hash and the CSRF token of a
  session are arguments; a request is what the code reads of it.
\<close>

subsection \<open>Manager and requests\<close>

record manager =
  mg_sessionMaxAge :: int
  mg_sliding :: bool
  mg_absoluteMaxAge :: int
  mg_require2FA :: bool

record request =
  rq_cookie :: "string option"
  rq_csrf :: string
  rq_method :: string
  rq_path :: string
  rq_user_agent :: string
  rq_ip :: string

text \<open>The user of a request, as \<^verbatim>\<open>userFromRequest\<close> loads it.\<close>

record session_user =
  su_id :: int
  su_row :: user_row
  su_has_passkey :: bool
  su_factor_verified :: bool

definition twoFAExemptPrefixes :: "string list" where
  "twoFAExemptPrefixes = [''/api/auth/'', ''/api/passkeys'']"

definition has_prefix :: "string \<Rightarrow> string \<Rightarrow> bool" where
  "has_prefix s p \<longleftrightarrow> take (length p) s = p"

definition twoFAExempt :: "string \<Rightarrow> bool" where
  "twoFAExempt path \<longleftrightarrow> (\<exists>p \<in> set twoFAExemptPrefixes. has_prefix path p)"

subsection \<open>Passwords\<close>

text \<open>\<^verbatim>\<open>userByUsername\<close>: the row whose lower-cased name matches (the column is unique).\<close>

definition userByUsername :: "(string \<Rightarrow> string) \<Rightarrow> auth_db \<Rightarrow> string \<Rightarrow> user_row option" where
  "userByUsername lower db username =
     find (\<lambda>u. lower (us_username u) = lower username) (db_users db)"

definition Authenticate ::
  "(string \<Rightarrow> string) \<Rightarrow> (string \<Rightarrow> string \<Rightarrow> bool) \<Rightarrow> auth_db \<Rightarrow> string \<Rightarrow> string \<Rightarrow> auth_error + user_row" where
  "Authenticate lower check db username password =
     (case userByUsername lower db username of
        None \<Rightarrow> Inl Invalid_Credentials
      | Some u \<Rightarrow>
          if \<not> check (us_password_hash u) password then Inl Invalid_Credentials
          else if us_disabled u then Inl Invalid_Credentials
          else Inr u)"

definition AuthenticateUserID ::
  "(string \<Rightarrow> string \<Rightarrow> bool) \<Rightarrow> auth_db \<Rightarrow> int \<Rightarrow> string \<Rightarrow> auth_error + user_row" where
  "AuthenticateUserID check db uid password =
     (case find_user db uid of
        None \<Rightarrow> Inl Invalid_Credentials
      | Some u \<Rightarrow>
          if \<not> check (us_password_hash u) password \<or> us_disabled u then Inl Invalid_Credentials
          else Inr u)"

subsection \<open>Creating and revoking sessions\<close>

record session_material =
  sm_token :: string
  sm_user_agent :: string
  sm_expires :: time

text \<open>\<open>random\<close> is the token drawn (\<open>None\<close>: the random source fails).\<close>

definition newSessionMaterial ::
  "manager \<Rightarrow> request \<Rightarrow> string option \<Rightarrow> time \<Rightarrow> session_material option" where
  "newSessionMaterial m r random now =
     (case random of
        None \<Rightarrow> None
      | Some token \<Rightarrow>
          Some \<lparr>sm_token = token, sm_user_agent = take 300 (rq_user_agent r),
                sm_expires = time_add now (mg_sessionMaxAge m)\<rparr>)"

definition session_of :: "session_material \<Rightarrow> request \<Rightarrow> int \<Rightarrow> bool \<Rightarrow> time \<Rightarrow> session_row" where
  "session_of s r uid verified db_now =
     \<lparr>ss_user = uid, ss_created = db_now, ss_expires = sm_expires s, ss_last_seen = db_now,
      ss_user_agent = sm_user_agent s, ss_ip = rq_ip r, ss_factor_verified = verified\<rparr>"

text \<open>The insert fails on a token hash that is already stored (the primary key).\<close>

definition put_session :: "auth_db \<Rightarrow> string \<Rightarrow> session_row \<Rightarrow> auth_db" where
  "put_session db key s = db\<lparr>db_sessions := (db_sessions db)(key \<mapsto> s)\<rparr>"

text \<open>\<^verbatim>\<open>CreatePasswordSession\<close>, with the cookie it sets on success. The statement inserts only while
  the row still carries the verified credentials.\<close>

definition CreatePasswordSession ::
  "(string \<Rightarrow> string) \<Rightarrow> manager \<Rightarrow> request \<Rightarrow> auth_db \<Rightarrow> int \<Rightarrow> string \<Rightarrow> string \<Rightarrow> bool
    \<Rightarrow> string option \<Rightarrow> time \<Rightarrow> time \<Rightarrow> bool \<Rightarrow> (auth_error + string) \<times> auth_db" where
  "CreatePasswordSession hash_token m r db uid pw_hash totp_secret verified random now db_now fault =
     (case newSessionMaterial m r random now of
        None \<Rightarrow> (Inl Store_Error, db)
      | Some s \<Rightarrow>
          if fault \<or> db_sessions db (hash_token (sm_token s)) \<noteq> None then (Inl Store_Error, db)
          else case find_user db uid of
            None \<Rightarrow> (Inl ErrCredentialChanged, db)
          | Some u \<Rightarrow>
              if us_password_hash u = pw_hash \<and> \<not> us_disabled u
                 \<and> (\<not> verified \<or> us_totp_enabled u \<and> us_totp_secret u = totp_secret)
              then (Inr (sm_token s),
                    put_session db (hash_token (sm_token s)) (session_of s r uid verified db_now))
              else (Inl ErrCredentialChanged, db))"

definition CreatePasskeySession ::
  "(string \<Rightarrow> string) \<Rightarrow> manager \<Rightarrow> request \<Rightarrow> auth_db \<Rightarrow> int \<Rightarrow> string
    \<Rightarrow> string option \<Rightarrow> time \<Rightarrow> time \<Rightarrow> bool \<Rightarrow> (auth_error + string) \<times> auth_db" where
  "CreatePasskeySession hash_token m r db uid cred random now db_now fault =
     (case newSessionMaterial m r random now of
        None \<Rightarrow> (Inl Store_Error, db)
      | Some s \<Rightarrow>
          if fault \<or> db_sessions db (hash_token (sm_token s)) \<noteq> None then (Inl Store_Error, db)
          else case find_user db uid of
            None \<Rightarrow> (Inl ErrCredentialChanged, db)
          | Some u \<Rightarrow>
              if (uid, cred) \<in> set (db_passkeys db) \<and> \<not> us_disabled u
              then (Inr (sm_token s),
                    put_session db (hash_token (sm_token s)) (session_of s r uid True db_now))
              else (Inl ErrCredentialChanged, db))"

definition drop_sessions :: "auth_db \<Rightarrow> (string \<Rightarrow> session_row \<Rightarrow> bool) \<Rightarrow> auth_db" where
  "drop_sessions db p = db\<lparr>db_sessions := (\<lambda>k. case db_sessions db k of
     None \<Rightarrow> None | Some s \<Rightarrow> if p k s then None else Some s)\<rparr>"

definition RevokeSession :: "auth_db \<Rightarrow> int \<Rightarrow> string \<Rightarrow> auth_db" where
  "RevokeSession db uid handle = drop_sessions db (\<lambda>k s. ss_user s = uid \<and> take 8 k = handle)"

definition RevokeOtherSessions :: "auth_db \<Rightarrow> int \<Rightarrow> string \<Rightarrow> auth_db" where
  "RevokeOtherSessions db uid keep = drop_sessions db (\<lambda>k s. ss_user s = uid \<and> k \<noteq> keep)"

definition RevokeAllSessions :: "auth_db \<Rightarrow> int \<Rightarrow> auth_db" where
  "RevokeAllSessions db uid = drop_sessions db (\<lambda>k s. ss_user s = uid)"

definition CleanupExpired :: "auth_db \<Rightarrow> time \<Rightarrow> auth_db" where
  "CleanupExpired db db_now = drop_sessions db (\<lambda>k s. before (ss_expires s) db_now)"

text \<open>\<^verbatim>\<open>RotateSessionTx\<close>: \<open>actor\<close> is the signed-in user of the request, if any.\<close>

definition RotateSessionTx ::
  "(string \<Rightarrow> string) \<Rightarrow> manager \<Rightarrow> request \<Rightarrow> auth_db \<Rightarrow> session_user option \<Rightarrow> int
    \<Rightarrow> string option \<Rightarrow> time \<Rightarrow> time \<Rightarrow> bool \<Rightarrow> (string \<times> auth_db) option" where
  "RotateSessionTx hash_token m r db actor uid random now db_now fault =
     (let verified = (case actor of None \<Rightarrow> False
                      | Some a \<Rightarrow> su_id a = uid \<and> su_factor_verified a)
      in case newSessionMaterial m r random now of
           None \<Rightarrow> None
         | Some s \<Rightarrow>
             if fault \<or> db_sessions (RevokeAllSessions db uid) (hash_token (sm_token s)) \<noteq> None then None
             else Some (sm_token s,
               put_session (RevokeAllSessions db uid) (hash_token (sm_token s))
                 (session_of s r uid verified db_now)))"

text \<open>\<^verbatim>\<open>DestroySession\<close>: \<open>None\<close> is the error that keeps the cookie.\<close>

definition DestroySession :: "(string \<Rightarrow> string) \<Rightarrow> request \<Rightarrow> auth_db \<Rightarrow> bool \<Rightarrow> auth_db option" where
  "DestroySession hash_token r db fault =
     (case rq_cookie r of
        None \<Rightarrow> Some db
      | Some tok \<Rightarrow>
          if tok = [] then Some db
          else if fault then None
          else Some (drop_sessions db (\<lambda>k s. k = hash_token tok)))"

subsection \<open>Sliding expiry\<close>

definition slide_expiry :: "manager \<Rightarrow> time \<Rightarrow> time \<Rightarrow> time \<Rightarrow> time option" where
  "slide_expiry m created expires now =
     (if time_sub expires now > trunc_div (mg_sessionMaxAge m) 2 then None
      else let newExpiry = time_add now (mg_sessionMaxAge m);
               capAt = time_add created (mg_absoluteMaxAge m);
               newExpiry = (if after newExpiry capAt then capAt else newExpiry)
           in if \<not> after newExpiry expires then None else Some newExpiry)"

definition slide :: "(string \<Rightarrow> string) \<Rightarrow> manager \<Rightarrow> request \<Rightarrow> auth_db \<Rightarrow> time \<Rightarrow> bool \<Rightarrow> bool \<Rightarrow> auth_db" where
  "slide hash_token m r db now fault1 fault2 =
     (if \<not> mg_sliding m then db
      else case rq_cookie r of
        None \<Rightarrow> db
      | Some tok \<Rightarrow>
          if tok = [] \<or> fault1 then db
          else case db_sessions db (hash_token tok) of
            None \<Rightarrow> db
          | Some s \<Rightarrow>
              (case slide_expiry m (ss_created s) (ss_expires s) now of
                 None \<Rightarrow> db
               | Some e \<Rightarrow> if fault2 then db
                   else put_session db (hash_token tok) (s\<lparr>ss_expires := e\<rparr>)))"

subsection \<open>Resolving a request\<close>

definition userFromRequest ::
  "(string \<Rightarrow> string) \<Rightarrow> request \<Rightarrow> auth_db \<Rightarrow> time \<Rightarrow> time \<Rightarrow> bool \<Rightarrow> (auth_error + session_user) \<times> auth_db" where
  "userFromRequest hash_token r db now db_now fault =
     (case rq_cookie r of
        None \<Rightarrow> (Inl No_Session, db)
      | Some tok \<Rightarrow>
          if tok = [] then (Inl No_Session, db)
          else if fault then (Inl Store_Error, db)
          else case db_sessions db (hash_token tok) of
            None \<Rightarrow> (Inl No_Session, db)
          | Some s \<Rightarrow>
              (case find_user db (ss_user s) of
                 None \<Rightarrow> (Inl No_Session, db)
               | Some u \<Rightarrow>
                   if us_disabled u then (Inl No_Session, db)
                   else if after now (ss_expires s)
                   then (Inl No_Session, drop_sessions db (\<lambda>k s. k = hash_token tok))
                   else (Inr \<lparr>su_id = ss_user s, su_row = u,
                              su_has_passkey = (ss_user s \<in> set (map fst (db_passkeys db))),
                              su_factor_verified = ss_factor_verified s\<rparr>,
                         if before (ss_last_seen s) (time_add db_now (- (60 * second_ns)))
                         then put_session db (hash_token tok) (s\<lparr>ss_last_seen := db_now\<rparr>) else db)))"

definition isStateChanging :: "string \<Rightarrow> bool" where
  "isStateChanging method \<longleftrightarrow> method \<in> set [''POST'', ''PUT'', ''PATCH'', ''DELETE'']"

definition csrfOK :: "(string \<Rightarrow> string) \<Rightarrow> request \<Rightarrow> bool" where
  "csrfOK csrf_token r =
     (case rq_cookie r of
        None \<Rightarrow> False
      | Some tok \<Rightarrow> tok \<noteq> [] \<and> rq_csrf r = csrf_token tok)"

datatype access =
    Unauthenticated
  | Enrollment_Required
  | Second_Factor_Required
  | Invalid_CSRF
  | Forbidden
  | Granted session_user

definition RequireAuth ::
  "(string \<Rightarrow> string) \<Rightarrow> (string \<Rightarrow> string) \<Rightarrow> manager \<Rightarrow> request \<Rightarrow> auth_db \<Rightarrow> time \<Rightarrow> time \<Rightarrow> (nat \<Rightarrow> bool)
    \<Rightarrow> access \<times> auth_db" where
  "RequireAuth hash_token csrf_token m r db now db_now fault =
     (case userFromRequest hash_token r db now db_now (fault 0) of
        (Inl _, db) \<Rightarrow> (Unauthenticated, db)
      | (Inr u, db) \<Rightarrow>
          (let enrolled = us_totp_enabled (su_row u) \<or> su_has_passkey u
           in if mg_require2FA m \<and> \<not> enrolled \<and> \<not> twoFAExempt (rq_path r)
              then (Enrollment_Required, db)
              else if mg_require2FA m \<and> enrolled \<and> \<not> su_factor_verified u
                      \<and> rq_path r \<noteq> ''/api/auth/logout''
              then (Second_Factor_Required, db)
              else if isStateChanging (rq_method r) \<and> \<not> csrfOK csrf_token r then (Invalid_CSRF, db)
              else (Granted u, slide hash_token m r db now (fault 1) (fault 2))))"

text \<open>The logout handler is reached without a session, and with one only under its CSRF proof.\<close>

datatype logout_gate =
    Logout_Refused int
  | Logout_Admitted "(int \<times> string) option"

definition RequireLogout ::
  "(string \<Rightarrow> string) \<Rightarrow> (string \<Rightarrow> string) \<Rightarrow> request \<Rightarrow> auth_db \<Rightarrow> bool \<Rightarrow> logout_gate" where
  "RequireLogout hash_token csrf_token r db fault =
     (case rq_cookie r of
        None \<Rightarrow> Logout_Admitted None
      | Some tok \<Rightarrow>
          if tok = [] then Logout_Admitted None
          else if \<not> csrfOK csrf_token r then Logout_Refused 403
          else if fault then Logout_Refused 500
          else case db_sessions db (hash_token tok) of
            None \<Rightarrow> Logout_Admitted None
          | Some s \<Rightarrow>
              Logout_Admitted (map_option (\<lambda>u. (us_id u, us_username u)) (find_user db (ss_user s))))"

definition RequireAdmin ::
  "(string \<Rightarrow> string) \<Rightarrow> (string \<Rightarrow> string) \<Rightarrow> manager \<Rightarrow> request \<Rightarrow> auth_db \<Rightarrow> time \<Rightarrow> time \<Rightarrow> (nat \<Rightarrow> bool)
    \<Rightarrow> access \<times> auth_db" where
  "RequireAdmin hash_token csrf_token m r db now db_now fault =
     (case RequireAuth hash_token csrf_token m r db now db_now fault of
        (Granted u, db) \<Rightarrow> ((if us_is_admin (su_row u) then Granted u else Forbidden), db)
      | (a, db) \<Rightarrow> (a, db))"

definition RequireRole ::
  "string list \<Rightarrow> (string \<Rightarrow> string) \<Rightarrow> (string \<Rightarrow> string) \<Rightarrow> manager \<Rightarrow> request \<Rightarrow> auth_db \<Rightarrow> time \<Rightarrow> time \<Rightarrow> (nat \<Rightarrow> bool)
    \<Rightarrow> access \<times> auth_db" where
  "RequireRole roles hash_token csrf_token m r db now db_now fault =
     (case RequireAuth hash_token csrf_token m r db now db_now fault of
        (Granted u, db) \<Rightarrow>
          ((if \<not> us_is_admin (su_row u) \<and> us_role (su_row u) \<notin> set roles then Forbidden else Granted u), db)
      | (a, db) \<Rightarrow> (a, db))"

end
