(* ===== verification/Auth_Flow.thy ===== *)
theory Auth_Flow
  imports Login_Throttle Auth_Session
begin

text \<open>
  The authentication handlers of \<^verbatim>\<open>internal/handlers/auth.go\<close> and
  \<^verbatim>\<open>internal/handlers/twofactor.go\<close>: login, step-up, change of password, and setting up,
  enabling and disabling the second factor. The state is the limiters and the tables. Between
  two statements other requests may change the tables: \<open>ev_other i\<close> is what they did before the
  \<open>i\<close>-th statement of the handler, \<open>ev_fault i\<close> says whether that statement fails. Logging and
  the audit trail are not modelled here.
\<close>

subsection \<open>Environment and replies\<close>

record env =
  ev_lower :: "string \<Rightarrow> string"
  ev_upper :: "string \<Rightarrow> string"
  ev_trim :: "string \<Rightarrow> string"
  ev_check :: "string \<Rightarrow> string \<Rightarrow> bool"
  ev_bcrypt :: "nat \<Rightarrow> string \<Rightarrow> string option"
  ev_hash_token :: "string \<Rightarrow> string"
  ev_encrypt :: "string \<Rightarrow> string option"
  ev_decrypt :: "string \<Rightarrow> string option"
  ev_generate :: "string \<Rightarrow> time \<Rightarrow> string option"
  ev_breached :: "string \<Rightarrow> bool"
  ev_clk :: "nat \<Rightarrow> time"
  ev_db_now :: "nat \<Rightarrow> time"
  ev_fault :: "nat \<Rightarrow> bool"
  ev_other :: "nat \<Rightarrow> auth_db \<Rightarrow> auth_db"
  ev_random :: "nat \<Rightarrow> string option"
  ev_bytes :: "nat list"
  ev_next_id :: int

record auth_state =
  st_limits :: auth_limits
  st_db :: auth_db

text \<open>A reply is its status; a throttled one carries the wait, a login the session token it sets,
  an enabling the recovery codes shown.\<close>

datatype reply =
    Reply int
  | Reply_Totp int
  | Reply_Wait int
  | Reply_Totp_Wait int
  | Reply_Session string
  | Reply_Setup string string
  | Reply_Codes "string list"

definition maxUsernameLen :: nat where "maxUsernameLen = 100"
definition maxTOTPCodeLen :: nat where "maxTOTPCodeLen = 20"
definition minPasswordLen :: nat where "minPasswordLen = 8"
definition maxPasswordLen :: nat where "maxPasswordLen = 72"

definition validUsernameLength :: "string \<Rightarrow> bool" where
  "validUsernameLength s \<longleftrightarrow> length s > 0 \<and> length s \<le> maxUsernameLen"

definition validTOTPCodeLength :: "string \<Rightarrow> bool" where
  "validTOTPCodeLength s \<longleftrightarrow> length s > 0 \<and> length s \<le> maxTOTPCodeLen"

definition validPasswordLength :: "string \<Rightarrow> bool" where
  "validPasswordLength pw \<longleftrightarrow> length pw \<ge> minPasswordLen \<and> length pw \<le> maxPasswordLen"

subsection \<open>Login\<close>

record login_request =
  lr_username :: string
  lr_password :: string
  lr_totp_code :: string

definition refund_state :: "auth_state \<Rightarrow> string \<Rightarrow> string \<Rightarrow> auth_state" where
  "refund_state st key ip = st\<lparr>st_limits := refundLogin (st_limits st) key ip\<rparr>"

text \<open>The end of a login whose factors are verified: clear the account budgets, store the session.\<close>

definition login_finish :: "env \<Rightarrow> manager \<Rightarrow> request \<Rightarrow> auth_state \<Rightarrow> string \<Rightarrow> user_row \<Rightarrow> reply \<times> auth_state" where
  "login_finish ev m r st key u =
     (let st = st\<lparr>st_limits := login_success (st_limits st) key (rq_ip r)\<rparr>
      in case CreatePasswordSession (ev_hash_token ev) m r (ev_other ev 7 (st_db st)) (us_id u)
             (us_password_hash u) (us_totp_secret u) (us_totp_enabled u) (ev_random ev 0)
             (ev_clk ev 8) (ev_db_now ev 7) (ev_fault ev 7) of
           (Inr token, db) \<Rightarrow> (Reply_Session token, st\<lparr>st_db := db\<rparr>)
         | (Inl e, db) \<Rightarrow>
             (Reply (if e = ErrCredentialChanged then 401 else 500), st\<lparr>st_db := db\<rparr>))"

text \<open>A verified second factor clears its counter; only a replaced credential stops the login.\<close>

definition login_factor_ok :: "env \<Rightarrow> manager \<Rightarrow> request \<Rightarrow> auth_state \<Rightarrow> string \<Rightarrow> user_row \<Rightarrow> reply \<times> auth_state" where
  "login_factor_ok ev m r st key u =
     (case ResetSecondFactorFailures (ev_other ev 6 (st_db st)) (us_id u) (us_totp_secret u) (ev_fault ev 6) of
        (Some ErrCredentialChanged, db) \<Rightarrow> (Reply 401, st\<lparr>st_db := db\<rparr>)
      | (_, db) \<Rightarrow> login_finish ev m r (st\<lparr>st_db := db\<rparr>) key u)"

definition login_backup_code ::
  "env \<Rightarrow> manager \<Rightarrow> request \<Rightarrow> auth_state \<Rightarrow> string \<Rightarrow> user_row \<Rightarrow> string \<Rightarrow> reply \<times> auth_state" where
  "login_backup_code ev m r st key u code =
     (let seen = ev_other ev 4 (st_db st)
      in case ConsumeBackupCode (ev_upper ev) (ev_trim ev) (ev_check ev) seen (ev_other ev 5 seen)
             (us_id u) code (ev_fault ev 4) (ev_fault ev 5) of
           (True, db) \<Rightarrow> login_factor_ok ev m r (st\<lparr>st_db := db\<rparr>) key u
         | (False, db) \<Rightarrow> (Reply_Totp 401, st\<lparr>st_db := db\<rparr>))"

definition login_check_code ::
  "env \<Rightarrow> manager \<Rightarrow> request \<Rightarrow> auth_state \<Rightarrow> string \<Rightarrow> user_row \<Rightarrow> string \<Rightarrow> reply \<times> auth_state" where
  "login_check_code ev m r st key u code =
     (case ValidateEncryptedTOTPStep (ev_decrypt ev) (ev_generate ev) (us_totp_secret u) code (ev_clk ev 7) of
        None \<Rightarrow> login_backup_code ev m r st key u code
      | Some step \<Rightarrow>
          (let db = ev_other ev 2 (st_db st)
           in if ev_fault ev 2
              then let st = refund_state (st\<lparr>st_db := db\<rparr>) key (rq_ip r)
                   in (case ReleaseSecondFactorAttempt (ev_other ev 3 db) (us_id u) (us_totp_secret u) (ev_fault ev 3) of
                         (Some ErrCredentialChanged, db) \<Rightarrow> (Reply 401, st\<lparr>st_db := db\<rparr>)
                       | (_, db) \<Rightarrow> (Reply 500, st\<lparr>st_db := db\<rparr>))
              else case advance_totp_step db (us_id u) (us_totp_secret u) step of
                     (True, db) \<Rightarrow> login_factor_ok ev m r (st\<lparr>st_db := db\<rparr>) key u
                   | (False, db) \<Rightarrow> login_backup_code ev m r (st\<lparr>st_db := db\<rparr>) key u code))"

definition login_second_factor ::
  "env \<Rightarrow> manager \<Rightarrow> request \<Rightarrow> auth_state \<Rightarrow> string \<Rightarrow> user_row \<Rightarrow> string \<Rightarrow> reply \<times> auth_state" where
  "login_second_factor ev m r st key u code =
     (if code = [] then (Reply_Totp 401, refund_state st key (rq_ip r))
      else case ReserveSecondFactorAttempt (ev_other ev 1 (st_db st)) (us_id u) (us_totp_secret u)
             (ev_db_now ev 1) (ev_clk ev 6) (ev_fault ev 1) (ev_fault ev 8) of
        (Inl ErrCredentialChanged, db) \<Rightarrow> (Reply 401, st\<lparr>st_db := db\<rparr>)
      | (Inl _, db) \<Rightarrow> (Reply 500, refund_state (st\<lparr>st_db := db\<rparr>) key (rq_ip r))
      | (Inr (failures, lockedFor), db) \<Rightarrow>
          if 0 < lockedFor then (Reply_Totp_Wait lockedFor, st\<lparr>st_db := db\<rparr>)
          else login_check_code ev m r (st\<lparr>st_db := db\<rparr>) key u code)"

definition Login ::
  "env \<Rightarrow> manager \<Rightarrow> bool \<Rightarrow> request \<Rightarrow> login_request option \<Rightarrow> auth_state \<Rightarrow> reply \<times> auth_state" where
  "Login ev m passkeyOnly r body st =
     (if passkeyOnly then (Reply 403, st)
      else case body of
        None \<Rightarrow> (Reply 400, st)
      | Some req \<Rightarrow>
          (let name = ev_trim ev (lr_username req)
           in if \<not> validUsernameLength name \<or> length (lr_password req) > maxPasswordLen
                 \<or> length (lr_totp_code req) > maxTOTPCodeLen
              then (Reply 401, st)
              else case login_reserve (ev_lower ev) (st_limits st) (rq_ip r) name (ev_clk ev) of
                ((key, Some wait), l) \<Rightarrow> (Reply_Wait wait, st\<lparr>st_limits := l\<rparr>)
              | ((key, None), l) \<Rightarrow>
                  (let st = st\<lparr>st_limits := l, st_db := ev_other ev 0 (st_db st)\<rparr>
                   in case (if ev_fault ev 0 then Inl Invalid_Credentials
                            else Authenticate (ev_lower ev) (ev_check ev) (st_db st) name (lr_password req)) of
                        Inl _ \<Rightarrow> (Reply 401, st)
                      | Inr u \<Rightarrow>
                          if us_totp_enabled u
                          then login_second_factor ev m r st key u (ev_trim ev (lr_totp_code req))
                          else login_finish ev m r st key u)))"

subsection \<open>Step-up and change of password\<close>

definition stepUpWindow :: int where "stepUpWindow = 10 * minute_ns"

definition SessionCreatedAt :: "(string \<Rightarrow> string) \<Rightarrow> request \<Rightarrow> auth_db \<Rightarrow> bool \<Rightarrow> time option" where
  "SessionCreatedAt hash_token r db fault =
     (case rq_cookie r of
        None \<Rightarrow> None
      | Some tok \<Rightarrow>
          if tok = [] \<or> fault then None
          else map_option ss_created (db_sessions db (hash_token tok)))"

text \<open>\<open>None\<close> lets the change proceed.\<close>

definition requireStepUp :: "env \<Rightarrow> request \<Rightarrow> session_user \<Rightarrow> string \<Rightarrow> auth_state \<Rightarrow> reply option \<times> auth_state" where
  "requireStepUp ev r su password st =
     (let db = ev_other ev 0 (st_db st); st = st\<lparr>st_db := db\<rparr>
      in if (case SessionCreatedAt (ev_hash_token ev) r db (ev_fault ev 0) of
               None \<Rightarrow> False | Some t \<Rightarrow> time_sub (ev_clk ev 0) t < stepUpWindow)
         then (None, st)
         else if password = [] then (Some (Reply 403), st)
         else case checkRateLimit (ev_lower ev) (st_limits st) (rq_ip r) (us_username (su_row su))
                (ev_clk ev 1) (ev_clk ev 2) (ev_clk ev 3) (ev_clk ev 4) of
           ((key, Some wait), l) \<Rightarrow> (Some (Reply_Wait wait), st\<lparr>st_limits := l\<rparr>)
         | ((key, None), l) \<Rightarrow>
             (let st = st\<lparr>st_limits := l, st_db := ev_other ev 1 (st_db st)\<rparr>
              in if length password > maxPasswordLen then (Some (Reply 403), st)
                 else case (if ev_fault ev 1 then Inl Invalid_Credentials
                            else AuthenticateUserID (ev_check ev) (st_db st) (su_id su) password) of
                   Inl _ \<Rightarrow> (Some (Reply 403), st)
                 | Inr _ \<Rightarrow> (None, st\<lparr>st_limits := refundReauth (st_limits st) key (rq_ip r)\<rparr>)))"

text \<open>\<^verbatim>\<open>ChangePassword\<close>, after decoding: the request's two passwords. The update and the rotation of
  the sessions are one transaction (statements 1 and 2); \<open>ev_fault 3\<close> is its commit.\<close>

definition change_password_tx ::
  "env \<Rightarrow> manager \<Rightarrow> request \<Rightarrow> session_user \<Rightarrow> user_row \<Rightarrow> string \<Rightarrow> auth_state \<Rightarrow> reply \<times> auth_state" where
  "change_password_tx ev m r su verified hash st =
     (let db = ev_other ev 1 (st_db st); st = st\<lparr>st_db := db\<rparr>
      in if ev_fault ev 1 then (Reply 500, st)
         else case update_user db (su_id su) (\<lambda>u. us_password_hash u = us_password_hash verified)
                (\<lambda>u. u\<lparr>us_password_hash := hash\<rparr>) of
           (False, _) \<Rightarrow> (Reply 409, st)
         | (True, db') \<Rightarrow>
             (case RotateSessionTx (ev_hash_token ev) m r db' (Some su) (su_id su) (ev_random ev 0)
                (ev_clk ev 4) (ev_db_now ev 2) (ev_fault ev 2) of
                None \<Rightarrow> (Reply 500, st)
              | Some (token, db'') \<Rightarrow>
                  if ev_fault ev 3 then (Reply 500, st)
                  else (Reply_Session token, st\<lparr>st_db := db''\<rparr>)))"

definition ChangePassword ::
  "env \<Rightarrow> manager \<Rightarrow> request \<Rightarrow> session_user \<Rightarrow> (string \<times> string) option \<Rightarrow> auth_state \<Rightarrow> reply \<times> auth_state" where
  "ChangePassword ev m r su body st =
     (case body of
        None \<Rightarrow> (Reply 400, st)
      | Some (current, new) \<Rightarrow>
          if \<not> validPasswordLength new then (Reply 400, st)
          else if new = current then (Reply 400, st)
          else case checkRateLimit (ev_lower ev) (st_limits st) (rq_ip r) (us_username (su_row su))
                (ev_clk ev 0) (ev_clk ev 1) (ev_clk ev 2) (ev_clk ev 3) of
            ((key, Some wait), l) \<Rightarrow> (Reply_Wait wait, st\<lparr>st_limits := l\<rparr>)
          | ((key, None), l) \<Rightarrow>
              (let st = st\<lparr>st_limits := l, st_db := ev_other ev 0 (st_db st)\<rparr>
               in if length current > maxPasswordLen then (Reply 403, st)
                  else case (if ev_fault ev 0 then Inl Invalid_Credentials
                             else AuthenticateUserID (ev_check ev) (st_db st) (su_id su) current) of
                    Inl _ \<Rightarrow> (Reply 403, st)
                  | Inr verified \<Rightarrow>
                      (let st = st\<lparr>st_limits := resetReauth (st_limits st) key (rq_ip r)\<rparr>
                       in if ev_breached ev new then (Reply 400, st)
                          else case ev_bcrypt ev 0 new of
                                 None \<Rightarrow> (Reply 500, st)
                               | Some hash \<Rightarrow> change_password_tx ev m r su verified hash st)))"

subsection \<open>Setting up and enabling the second factor\<close>

text \<open>\<open>ev_random 0\<close> is the generated secret (\<open>None\<close>: generation fails), \<open>ev_random 1\<close> the setup id.\<close>

definition TOTPSetup :: "env \<Rightarrow> session_user \<Rightarrow> auth_state \<Rightarrow> reply \<times> auth_state" where
  "TOTPSetup ev su st =
     (if us_totp_enabled (su_row su) then (Reply 409, st)
      else case Consume (ah_CeremonyLimiter (st_limits st)) (ev_lower ev (us_username (su_row su)))
             (ev_clk ev 0) (ev_clk ev 1) of
        ((False, wait), l) \<Rightarrow> (Reply_Wait wait, st\<lparr>st_limits := (st_limits st)\<lparr>ah_CeremonyLimiter := l\<rparr>\<rparr>)
      | ((True, _), l) \<Rightarrow>
          (let st = st\<lparr>st_limits := (st_limits st)\<lparr>ah_CeremonyLimiter := l\<rparr>\<rparr>
           in case ev_random ev 0 of
                None \<Rightarrow> (Reply 500, st)
              | Some secret \<Rightarrow>
                  (case ev_encrypt ev secret of
                     None \<Rightarrow> (Reply 500, st)
                   | Some enc \<Rightarrow>
                       (case ev_random ev 1 of
                          None \<Rightarrow> (Reply 500, st)
                        | Some setup_id \<Rightarrow>
                            (let db = ev_other ev 0 (st_db st)
                             in if ev_fault ev 0 then (Reply 500, st\<lparr>st_db := db\<rparr>)
                                else case update_user db (su_id su) (\<lambda>u. \<not> us_totp_enabled u)
                                  (\<lambda>u. u\<lparr>us_pending_secret := enc, us_pending_nonce := setup_id,
                                        us_pending_expires :=
                                          Some (time_add (ev_db_now ev 0) (10 * minute_ns))\<rparr>) of
                                  (False, db) \<Rightarrow> (Reply 409, st\<lparr>st_db := db\<rparr>)
                                | (True, db) \<Rightarrow> (Reply_Setup secret setup_id, st\<lparr>st_db := db\<rparr>))))))"

text \<open>The transaction of \<^verbatim>\<open>TOTPEnable\<close>, begun with the row locked (statement 2): no other request
  changes the row before its end. \<open>ev_fault 6\<close> is the commit.\<close>

definition totp_enable_tx ::
  "env \<Rightarrow> request \<Rightarrow> session_user \<Rightarrow> string \<Rightarrow> string \<Rightarrow> string \<Rightarrow> auth_state \<Rightarrow> reply \<times> auth_state" where
  "totp_enable_tx ev r su code setup_id key st =
     (let db = ev_other ev 2 (st_db st); st = st\<lparr>st_db := db\<rparr>;
          refund = st\<lparr>st_limits := refundReauth (st_limits st) key (rq_ip r)\<rparr>
      in if ev_fault ev 2 then (Reply 500, st)
         else case (if ev_fault ev 3 then None else find_user db (su_id su)) of
           None \<Rightarrow> (Reply 500, refund)
         | Some u \<Rightarrow>
             if us_totp_enabled u \<or> us_pending_secret u = []
                \<or> (case us_pending_expires u of None \<Rightarrow> True | Some t \<Rightarrow> after (ev_clk ev 9) t)
                \<or> us_pending_nonce u \<noteq> setup_id
             then (Reply 409, refund)
             else case ValidateEncryptedTOTPStep (ev_decrypt ev) (ev_generate ev) (us_pending_secret u)
                         (ev_trim ev code) (ev_clk ev 10) of
               None \<Rightarrow> (Reply 400, st)
             | Some step \<Rightarrow>
                 (case GenerateBackupCodesTx (ev_upper ev) (ev_trim ev) (ev_bcrypt ev) db (ev_next_id ev)
                         (su_id su) (ev_bytes ev) (ev_fault ev 4) of
                    None \<Rightarrow> (Reply 500, refund)
                  | Some (codes, db) \<Rightarrow>
                      if ev_fault ev 5 then (Reply 500, refund)
                      else let db = snd (update_user db (su_id su) (\<lambda>_. True)
                             (\<lambda>u. u\<lparr>us_totp_secret := us_pending_secret u, us_totp_enabled := True,
                                   us_pending_secret := [], us_pending_nonce := [],
                                   us_pending_expires := None, us_totp_failures := 0,
                                   us_totp_locked_until := None, us_last_totp_step := step\<rparr>))
                           in if ev_fault ev 6 then (Reply 500, refund)
                              else (Reply_Codes codes,
                                \<lparr>st_limits = resetReauth (st_limits st) key (rq_ip r), st_db = db\<rparr>)))"

definition TOTPEnable ::
  "env \<Rightarrow> request \<Rightarrow> session_user \<Rightarrow> (string \<times> string \<times> string) option \<Rightarrow> auth_state \<Rightarrow> reply \<times> auth_state" where
  "TOTPEnable ev r su body st =
     (case body of
        None \<Rightarrow> (Reply 400, st)
      | Some (code, setup_id, password) \<Rightarrow>
          if \<not> validTOTPCodeLength (ev_trim ev code) then (Reply 400, st)
          else if length setup_id \<noteq> 32 then (Reply 400, st)
          else case requireStepUp ev r su password st of
            (Some reply, st) \<Rightarrow> (reply, st)
          | (None, st) \<Rightarrow>
              (case checkRateLimit (ev_lower ev) (st_limits st) (rq_ip r) (us_username (su_row su))
                 (ev_clk ev 5) (ev_clk ev 6) (ev_clk ev 7) (ev_clk ev 8) of
                 ((key, Some wait), l) \<Rightarrow> (Reply_Wait wait, st\<lparr>st_limits := l\<rparr>)
               | ((key, None), l) \<Rightarrow>
                   totp_enable_tx ev r su code setup_id key (st\<lparr>st_limits := l\<rparr>)))"

text \<open>The password gate of disabling the second factor and of new recovery codes.\<close>

definition password_gate ::
  "env \<Rightarrow> request \<Rightarrow> session_user \<Rightarrow> string \<Rightarrow> auth_state \<Rightarrow> (reply + string) \<times> auth_state" where
  "password_gate ev r su password st =
     (case checkRateLimit (ev_lower ev) (st_limits st) (rq_ip r) (us_username (su_row su))
        (ev_clk ev 0) (ev_clk ev 1) (ev_clk ev 2) (ev_clk ev 3) of
        ((key, Some wait), l) \<Rightarrow> (Inl (Reply_Wait wait), st\<lparr>st_limits := l\<rparr>)
      | ((key, None), l) \<Rightarrow>
          (let st = st\<lparr>st_limits := l, st_db := ev_other ev 0 (st_db st)\<rparr>
           in if length password > maxPasswordLen then (Inl (Reply 403), st)
              else case (if ev_fault ev 0 then Inl Invalid_Credentials
                         else AuthenticateUserID (ev_check ev) (st_db st) (su_id su) password) of
                Inl _ \<Rightarrow> (Inl (Reply 403), st)
              | Inr _ \<Rightarrow> (Inr key, st)))"

definition TOTPDisable :: "env \<Rightarrow> request \<Rightarrow> session_user \<Rightarrow> string option \<Rightarrow> auth_state \<Rightarrow> reply \<times> auth_state" where
  "TOTPDisable ev r su body st =
     (case body of
        None \<Rightarrow> (Reply 400, st)
      | Some password \<Rightarrow>
          (case password_gate ev r su password st of
             (Inl reply, st) \<Rightarrow> (reply, st)
           | (Inr key, st) \<Rightarrow>
               (let db = ev_other ev 1 (st_db st); st = st\<lparr>st_db := db\<rparr>
                in if ev_fault ev 1 \<or> ev_fault ev 2 \<or> ev_fault ev 3 \<or> ev_fault ev 4 then (Reply 500, st)
                   else let db = snd (update_user db (su_id su) (\<lambda>_. True)
                          (\<lambda>u. u\<lparr>us_totp_enabled := False, us_totp_secret := [], us_pending_secret := [],
                                us_pending_nonce := [], us_pending_expires := None, us_totp_failures := 0,
                                us_totp_locked_until := None, us_last_totp_step := 0\<rparr>));
                          db = db\<lparr>db_codes := filter (\<lambda>c. bc_user c \<noteq> su_id su) (db_codes db)\<rparr>
                        in (Reply 200, \<lparr>st_limits = resetReauth (st_limits st) key (rq_ip r), st_db = db\<rparr>))))"

definition TOTPRegenerateBackup ::
  "env \<Rightarrow> request \<Rightarrow> session_user \<Rightarrow> string option \<Rightarrow> auth_state \<Rightarrow> reply \<times> auth_state" where
  "TOTPRegenerateBackup ev r su body st =
     (if \<not> us_totp_enabled (su_row su) then (Reply 409, st)
      else case body of
        None \<Rightarrow> (Reply 400, st)
      | Some password \<Rightarrow>
          (case password_gate ev r su password st of
             (Inl reply, st) \<Rightarrow> (reply, st)
           | (Inr key, st) \<Rightarrow>
               (let db = ev_other ev 1 (st_db st);
                    st = \<lparr>st_limits = resetReauth (st_limits st) key (rq_ip r), st_db = db\<rparr>
                in case GenerateBackupCodesTx (ev_upper ev) (ev_trim ev) (ev_bcrypt ev) db (ev_next_id ev)
                          (su_id su) (ev_bytes ev) (ev_fault ev 1 \<or> ev_fault ev 2) of
                     None \<Rightarrow> (Reply 500, st)
                   | Some (codes, db) \<Rightarrow> (Reply_Codes codes, st\<lparr>st_db := db\<rparr>))))"

end
