(* ===== verification/Auth_Properties.thy ===== *)
theory Auth_Properties
  imports Auth_Flow
begin

text \<open>
  What the authentication model guarantees: which logins get a session, the schedule of the
  second-factor lock, single use of TOTP steps and recovery codes, the bounds of sliding
  sessions, and what a granted request has passed.
\<close>

subsection \<open>Rows\<close>

lemma find_user_id: "find_user db uid = Some u \<Longrightarrow> us_id u = uid"
  by (auto simp: find_user_def find_Some_iff)

lemma find_map_id:
  assumes "\<And>u. us_id (f u) = us_id u"
  shows "find (\<lambda>u. us_id u = i) (map (\<lambda>v. if us_id v = uid then f v else v) us)
    = map_option (\<lambda>v. if us_id v = uid then f v else v) (find (\<lambda>u. us_id u = i) us)"
  using assms by (induction us) auto

lemma update_user_cases:
  assumes "\<And>u. us_id (f u) = us_id u"
  obtains (changed) u db' where "find_user db uid = Some u" "c u" "update_user db uid c f = (True, db')"
      "find_user db' uid = Some (f u)" "\<And>i. i \<noteq> uid \<Longrightarrow> find_user db' i = find_user db i"
      "db_sessions db' = db_sessions db" "db_codes db' = db_codes db" "db_passkeys db' = db_passkeys db"
  | (unchanged) "update_user db uid c f = (False, db)" "\<forall>u. find_user db uid = Some u \<longrightarrow> \<not> c u"
proof (cases "\<exists>u. find_user db uid = Some u \<and> c u")
  case True
  then obtain u where u: "find_user db uid = Some u" "c u" by blast
  let ?db = "db\<lparr>db_users := map (\<lambda>v. if us_id v = uid then f v else v) (db_users db)\<rparr>"
  have find: "find_user ?db i = map_option (\<lambda>v. if us_id v = uid then f v else v) (find_user db i)" for i
    using find_map_id [of f i uid "db_users db"] assms by (simp add: find_user_def)
  have "find_user ?db i = find_user db i" if "i \<noteq> uid" for i
    using that find [of i] find_user_id [of db i] by (cases "find_user db i") auto
  with u find [of uid] find_user_id [OF u(1)] show ?thesis
    by (intro changed [of u ?db]) (auto simp: update_user_def)
next
  case False
  then show ?thesis by (intro unchanged) (auto simp: update_user_def split: option.split)
qed

lemma update_user_True:
  assumes "update_user db uid c f = (True, db')" "\<And>u. us_id (f u) = us_id u"
  shows "\<exists>u. find_user db uid = Some u \<and> c u \<and> find_user db' uid = Some (f u)
    \<and> db_sessions db' = db_sessions db \<and> db_codes db' = db_codes db \<and> db_passkeys db' = db_passkeys db"
  by (rule update_user_cases [of f db uid c, OF assms(2)]) (use assms(1) in auto)

subsection \<open>The second-factor counter\<close>

definition second_factor_wait :: "int \<Rightarrow> int" where
  "second_factor_wait n = (if n < SecondFactorFreeFailures then 0 else second_factor_lock n)"

lemma second_factor_minutes:
  "second_factor_wait k = 60 * 10 ^ 9 * (if k < 5 then 0 else min (2 ^ nat (k - 5)) 1440)"
proof (cases "k < 25")
  case True
  then have m: "min (k - 5) 20 = k - 5" by simp
  have "min (60 * c * x) (86400 * c) = 60 * c * min x 1440" if "0 < c" for c x :: int
    using that by (simp add: min_def)
  from this [of "10 ^ 9" "2 ^ nat (k - 5)"] show ?thesis
    by (simp add: second_factor_wait_def second_factor_lock_def SecondFactorFreeFailures_def SecondFactorMaxLock_def m)
next
  case False
  then have "(2 :: int) ^ 20 \<le> 2 ^ nat (k - 5)" by (intro power_increasing) simp_all
  then have "min (2 ^ nat (k - 5)) 1440 = (1440 :: int)" by simp
  with False show ?thesis
    by (simp add: second_factor_wait_def second_factor_lock_def SecondFactorFreeFailures_def SecondFactorMaxLock_def)
qed

lemma second_factor_lock_pos: "0 < second_factor_lock n"
  by (simp add: second_factor_lock_def SecondFactorMaxLock_def)

lemma reserve_accepted:
  assumes "ReserveSecondFactorAttempt db uid secret n a False f2 = (Inr (k, 0), db')"
  shows "\<exists>u. find_user db uid = Some u \<and> credential_matches secret u \<and> k = us_totp_failures u + 1
    \<and> (\<forall>t. us_totp_locked_until u = Some t \<longrightarrow> \<not> after t n)
    \<and> find_user db' uid = Some (u\<lparr>us_totp_failures := k, us_totp_locked_until :=
        (if k \<ge> SecondFactorFreeFailures then Some (time_add n (second_factor_lock k)) else None)\<rparr>)"
proof -
  let ?c = "\<lambda>u. credential_matches secret u \<and>
             (case us_totp_locked_until u of None \<Rightarrow> True | Some t \<Rightarrow> \<not> after t n)"
  let ?f = "\<lambda>u. u\<lparr>us_totp_failures := us_totp_failures u + 1,
                us_totp_locked_until :=
                  (if us_totp_failures u + 1 \<ge> SecondFactorFreeFailures
                   then Some (time_add n (second_factor_lock (us_totp_failures u + 1)))
                   else None)\<rparr>"
  show ?thesis
  proof (rule update_user_cases [of ?f db uid ?c])
    fix u db1
    assume "find_user db uid = Some u" "?c u" "update_user db uid ?c ?f = (True, db1)"
      "find_user db1 uid = Some (?f u)"
    with assms show ?thesis by (auto simp: ReserveSecondFactorAttempt_def split: option.splits)
  next
    assume "update_user db uid ?c ?f = (False, db)"
    with assms show ?thesis
      by (auto simp: ReserveSecondFactorAttempt_def max_def split: option.splits if_splits)
  qed simp
qed

lemma reserve_codes:
  "ReserveSecondFactorAttempt db uid secret n a False f2 = (Inr (k, 0), db') \<Longrightarrow> db_codes db' = db_codes db"
  by (auto simp: ReserveSecondFactorAttempt_def update_user_def split: option.splits if_splits)

lemma reserve_locked:
  assumes "find_user db uid = Some u" "credential_matches secret u"
    and "us_totp_locked_until u = Some t" "after t n"
  shows "ReserveSecondFactorAttempt db uid secret n a False False
    = (Inr (us_totp_failures u, max second_ns (time_sub t a)), db)"
  using assms by (simp add: ReserveSecondFactorAttempt_def update_user_def)

lemma reserve_open:
  assumes "find_user db uid = Some u" "credential_matches secret u"
    and "\<forall>t. us_totp_locked_until u = Some t \<longrightarrow> \<not> after t n"
  shows "\<exists>db'. ReserveSecondFactorAttempt db uid secret n a False f2 = (Inr (us_totp_failures u + 1, 0), db')"
proof -
  let ?c = "\<lambda>u. credential_matches secret u \<and>
             (case us_totp_locked_until u of None \<Rightarrow> True | Some t \<Rightarrow> \<not> after t n)"
  let ?f = "\<lambda>u. u\<lparr>us_totp_failures := us_totp_failures u + 1,
                us_totp_locked_until :=
                  (if us_totp_failures u + 1 \<ge> SecondFactorFreeFailures
                   then Some (time_add n (second_factor_lock (us_totp_failures u + 1)))
                   else None)\<rparr>"
  have "?c u" using assms(2,3) by (auto split: option.split)
  then show ?thesis
    by (rule_tac update_user_cases [of ?f db uid ?c])
      (use assms(1) in \<open>auto simp: ReserveSecondFactorAttempt_def\<close>)
qed

text \<open>C13: the second-factor lock. An accepted attempt is counted as the next consecutive failure, the
  \<open>k\<close>-th. It locks the factor for nothing when \<open>k < 5\<close> and for \<open>min (2 ^ (k - 5)) 1440\<close> minutes from
  the fifth on, in nanoseconds: until then every further attempt is refused without being counted,
  and afterwards the next one is counted as the \<open>k + 1\<close>-th.\<close>

theorem second_factor_schedule:
  assumes "ReserveSecondFactorAttempt db uid secret n a False f2 = (Inr (k, 0), db')"
  shows "map_option us_totp_failures (find_user db uid) = Some (k - 1)
    \<and> (t_inst n' < t_inst n + 60 * 10 ^ 9 * (if k < 5 then 0 else min (2 ^ nat (k - 5)) 1440) \<longrightarrow> t_inst n \<le> t_inst n' \<longrightarrow>
       (\<exists>w. 0 < w \<and> ReserveSecondFactorAttempt db' uid secret n' a' False False = (Inr (k, w), db')))
    \<and> (t_inst n + 60 * 10 ^ 9 * (if k < 5 then 0 else min (2 ^ nat (k - 5)) 1440) \<le> t_inst n' \<longrightarrow>
       (\<exists>db''. ReserveSecondFactorAttempt db' uid secret n' a' False False = (Inr (k + 1, 0), db'')))"
proof -
  from reserve_accepted [OF assms] obtain u where f: "find_user db uid = Some u" "k = us_totp_failures u + 1" and u: "credential_matches secret u" and
    v: "find_user db' uid = Some (u\<lparr>us_totp_failures := k, us_totp_locked_until :=
        (if k \<ge> SecondFactorFreeFailures then Some (time_add n (second_factor_lock k)) else None)\<rparr>)"
    (is "_ = Some ?v") by blast
  have cm: "credential_matches secret ?v" using u by (simp add: credential_matches_def)
  have locked: "\<exists>w. 0 < w \<and> ReserveSecondFactorAttempt db' uid secret n' a' False False = (Inr (k, w), db')"
    if l: "t_inst n' < t_inst n + second_factor_wait k" "t_inst n \<le> t_inst n'"
  proof -
    from l have "k \<ge> SecondFactorFreeFailures" by (auto simp: second_factor_wait_def split: if_splits)
    moreover from this l have "after (time_add n (second_factor_lock k)) n'"
      by (simp add: after_def time_add_def second_factor_wait_def)
    ultimately show ?thesis
      using reserve_locked [OF v cm, of "time_add n (second_factor_lock k)" n' a'] by auto
  qed
  have "\<exists>db''. ReserveSecondFactorAttempt db' uid secret n' a' False False = (Inr (k + 1, 0), db'')"
    if "t_inst n + second_factor_wait k \<le> t_inst n'"
    using that reserve_open [OF v cm, of n' a' False]
    by (auto simp: second_factor_wait_def after_def time_add_def split: if_splits)
  with locked f show ?thesis unfolding second_factor_minutes by simp
qed

text \<open>C14: a released attempt no longer counts, but the lock it installed stays: from the fifth
  attempt on, an attempt that ended with a server error leaves the account locked for as long
  as a wrong code would have.\<close>

theorem release_keeps_the_lock:
  assumes "ReserveSecondFactorAttempt db uid secret n a False f2 = (Inr (k, 0), db')"
    and "SecondFactorFreeFailures \<le> k" "0 < k"
    and "ReleaseSecondFactorAttempt db' uid secret False = (None, db'')"
    and "t_inst n' < t_inst n + second_factor_lock k"
  shows "(\<exists>u u''. find_user db uid = Some u \<and> find_user db'' uid = Some u''
      \<and> us_totp_failures u'' = us_totp_failures u)
    \<and> (\<exists>w > 0. ReserveSecondFactorAttempt db'' uid secret n' a' False False = (Inr (k - 1, w), db''))"
proof -
  from reserve_accepted [OF assms(1)] obtain u where u: "find_user db uid = Some u"
    "credential_matches secret u" "k = us_totp_failures u + 1" and
    v: "find_user db' uid = Some (u\<lparr>us_totp_failures := k,
        us_totp_locked_until := Some (time_add n (second_factor_lock k))\<rparr>)"
    using assms(2) by auto
  have "update_user db' uid (credential_matches secret)
      (\<lambda>u. u\<lparr>us_totp_failures := max (us_totp_failures u - 1) 0\<rparr>) = (True, db'')"
    using assms(4) by (auto simp: ReleaseSecondFactorAttempt_def split: prod.splits bool.splits)
  from update_user_True [OF this] v assms(3)
  have w: "find_user db'' uid = Some (u\<lparr>us_totp_failures := k - 1,
        us_totp_locked_until := Some (time_add n (second_factor_lock k))\<rparr>)"
    (is "_ = Some ?w") by auto
  have "credential_matches secret ?w" using u by (simp add: credential_matches_def)
  from reserve_locked [OF w this, of "time_add n (second_factor_lock k)" n' a'] assms(5)
  have "ReserveSecondFactorAttempt db'' uid secret n' a' False False
      = (Inr (k - 1, max second_ns (time_sub (time_add n (second_factor_lock k)) a')), db'')"
    by (simp add: after_def time_add_def)
  moreover have "0 < max second_ns (time_sub (time_add n (second_factor_lock k)) a')"
    by (simp add: less_max_iff_disj)
  ultimately have "\<exists>w > 0. ReserveSecondFactorAttempt db'' uid secret n' a' False False = (Inr (k - 1, w), db'')"
    by blast
  moreover have "us_totp_failures ?w = us_totp_failures u" using u(3) by simp
  ultimately show ?thesis using u(1) w by blast
qed

text \<open>An account with four failures behind it: the example of the witnesses.\<close>

definition example_user :: user_row where
  "example_user = \<lparr>us_id = 7, us_username = ''eva'', us_password_hash = ''h'', us_is_admin = False,
     us_role = ''editor'', us_disabled = False, us_totp_secret = ''s'', us_totp_enabled = True,
     us_totp_failures = 4, us_totp_locked_until = None, us_last_totp_step = 50,
     us_pending_secret = [], us_pending_nonce = [], us_pending_expires = None\<rparr>"

definition example_db :: auth_db where
  "example_db = \<lparr>db_users = [example_user], db_sessions = Map.empty,
     db_codes = [\<lparr>bc_id = 1, bc_user = 7, bc_hash = ''AAAA'', bc_used = False\<rparr>], db_passkeys = []\<rparr>"

definition example_locked :: auth_db where
  "example_locked = example_db\<lparr>db_users := [example_user\<lparr>us_totp_failures := 5,
     us_totp_locked_until := Some (time_add (utc_midnight 20000) (second_factor_lock 5))\<rparr>]\<rparr>"

lemma example_reserve:
  "ReserveSecondFactorAttempt example_db 7 ''s'' (utc_midnight 20000) (utc_midnight 20000) False False
     = (Inr (5, 0), example_locked)"
  by (simp add: ReserveSecondFactorAttempt_def update_user_def find_user_def example_db_def
      example_user_def example_locked_def credential_matches_def SecondFactorFreeFailures_def)

theorem second_factor_schedule_witness:
  "(\<exists>w. 0 < w \<and> ReserveSecondFactorAttempt example_locked 7 ''s'' (time_add (utc_midnight 20000) 59000000000)
     (utc_midnight 20000) False False = (Inr (5, w), example_locked))
   \<and> (\<exists>db''. ReserveSecondFactorAttempt example_locked 7 ''s'' (time_add (utc_midnight 20000) 60000000000)
     (utc_midnight 20000) False False = (Inr (6, 0), db''))"
  using second_factor_schedule [OF example_reserve, of "time_add (utc_midnight 20000) 59000000000" "utc_midnight 20000"]
    second_factor_schedule [OF example_reserve, of "time_add (utc_midnight 20000) 60000000000" "utc_midnight 20000"]
  by (simp add: time_add_def)

theorem release_keeps_the_lock_witness:
  "\<exists>db'' w. ReleaseSecondFactorAttempt example_locked 7 ''s'' False = (None, db'') \<and> 0 < w
     \<and> ReserveSecondFactorAttempt db'' 7 ''s'' (time_add (utc_midnight 20000) 59000000000)
        (utc_midnight 20000) False False = (Inr (4, w), db'')"
proof -
  obtain db'' where r: "ReleaseSecondFactorAttempt example_locked 7 ''s'' False = (None, db'')"
    by (simp add: ReleaseSecondFactorAttempt_def update_user_def find_user_def example_locked_def
        example_db_def example_user_def credential_matches_def)
  have "t_inst (time_add (utc_midnight 20000) 59000000000) < t_inst (utc_midnight 20000) + second_factor_lock 5"
    by (simp add: time_add_def second_factor_lock_def SecondFactorFreeFailures_def SecondFactorMaxLock_def)
  from release_keeps_the_lock [OF example_reserve _ _ r this, of "utc_midnight 20000"] r
  show ?thesis by (auto simp: SecondFactorFreeFailures_def)
qed

subsection \<open>TOTP steps are used once\<close>

text \<open>The steps a series of codes presents to the replay guard, and which of them it accepts.\<close>

fun accepted_steps :: "auth_db \<Rightarrow> int \<Rightarrow> string \<Rightarrow> int list \<Rightarrow> int list" where
  "accepted_steps db uid secret [] = []"
| "accepted_steps db uid secret (s # ss) =
     (case advance_totp_step db uid secret s of
        (True, db') \<Rightarrow> s # accepted_steps db' uid secret ss
      | (False, db') \<Rightarrow> accepted_steps db' uid secret ss)"

lemma advance_totp_cases:
  obtains (accepted) u db' where "find_user db uid = Some u" "us_last_totp_step u < s"
      "advance_totp_step db uid secret s = (True, db')" "find_user db' uid = Some (u\<lparr>us_last_totp_step := s\<rparr>)"
  | (rejected) "advance_totp_step db uid secret s = (False, db)"
proof (cases "advance_totp_step db uid secret s")
  case (Pair ok db')
  show ?thesis
  proof (cases ok)
    case True
    with Pair have u: "update_user db uid (\<lambda>u. us_last_totp_step u < s \<and> credential_matches secret u)
        (\<lambda>u. u\<lparr>us_last_totp_step := s\<rparr>) = (True, db')" by (simp add: advance_totp_step_def)
    from update_user_True [OF u] Pair True show ?thesis using accepted by auto
  next
    case False
    with Pair have "db' = db"
      by (auto simp: advance_totp_step_def update_user_def split: option.splits if_splits)
    with Pair False show ?thesis using rejected by simp
  qed
qed

lemma accepted_steps_above:
  "find_user db uid = Some u \<Longrightarrow> s \<in> set (accepted_steps db uid secret ss) \<Longrightarrow> us_last_totp_step u < s"
proof (induction ss arbitrary: db u)
  case (Cons x ss)
  show ?case
  proof (cases rule: advance_totp_cases [of db uid x secret])
    case (accepted u' db')
    with Cons.prems have "s = x \<or> s \<in> set (accepted_steps db' uid secret ss)" by auto
    with accepted Cons.prems Cons.IH [OF accepted(4)] show ?thesis by auto
  next
    case rejected
    with Cons show ?thesis by auto
  qed
qed simp

text \<open>C15: whatever codes are presented in whatever order, the steps the replay guard accepts are
  strictly increasing and newer than the last one used: no code is accepted twice.\<close>

theorem totp_steps_never_repeat:
  "sorted_wrt (<) (accepted_steps db uid secret ss)
    \<and> (\<forall>u s. find_user db uid = Some u \<longrightarrow> s \<in> set (accepted_steps db uid secret ss) \<longrightarrow> us_last_totp_step u < s)"
proof (induction ss arbitrary: db)
  case (Cons x ss)
  show ?case
  proof (cases rule: advance_totp_cases [of db uid x secret])
    case (accepted u db')
    from Cons [of db'] accepted accepted_steps_above [OF accepted(4)] show ?thesis by force
  next
    case rejected
    with Cons [of db] show ?thesis by simp
  qed
qed simp

theorem totp_steps_never_repeat_witness:
  "accepted_steps example_db 7 ''s'' [51, 40, 51, 52] = [51, 52]
    \<and> sorted_wrt (<) (accepted_steps example_db 7 ''s'' [51, 40, 51, 52])"
proof (rule conjI)
  show "accepted_steps example_db 7 ''s'' [51, 40, 51, 52] = [51, 52]"
    by (simp add: advance_totp_step_def update_user_def find_user_def example_db_def example_user_def
        credential_matches_def)
  show "sorted_wrt (<) (accepted_steps example_db 7 ''s'' [51, 40, 51, 52])"
    by (rule totp_steps_never_repeat [THEN conjunct1])
qed

lemma totp_scan_step:
  "totp_scan generate secret code now skews = Some s \<Longrightarrow>
    \<exists>skew \<in> set skews. generate secret (time_add now (skew * totpPeriod * second_ns)) = Some code
      \<and> s = trunc_div (unix_seconds (time_add now (skew * totpPeriod * second_ns))) totpPeriod"
  by (induction skews) (auto simp: Let_def split: option.splits if_splits)

lemma unix_seconds_shift: "unix_seconds (time_add t (k * second_ns)) = unix_seconds t + k"
  using div_mult_self1 [of second_ns "t_inst t" k] by (simp add: unix_seconds_def time_add_def algebra_simps)

lemma trunc_div_nonneg: "0 \<le> a \<Longrightarrow> 0 < b \<Longrightarrow> trunc_div a b = a div b"
  by (auto simp: trunc_div_def sgn_if)

text \<open>A matched TOTP step is the current one or a neighbour of it, and the code is the one
  generated for an instant inside the step returned.\<close>

theorem totp_step_within_skew:
  assumes "ValidateTOTPStep generate secret code now = Some s" "60 \<le> unix_seconds now"
  shows "\<exists>t. generate secret t = Some code \<and> s = unix_seconds t div totpPeriod
    \<and> \<bar>s - unix_seconds now div totpPeriod\<bar> \<le> 1"
proof -
  obtain skew :: int where
    skew: "skew \<in> set [0, -1, 1]" and g: "generate secret (time_add now (skew * totpPeriod * second_ns)) = Some code"
    "s = trunc_div (unix_seconds (time_add now (skew * totpPeriod * second_ns))) totpPeriod"
    using totp_scan_step [OF assms(1) [unfolded ValidateTOTPStep_def]] by blast
  let ?t = "time_add now (skew * totpPeriod * second_ns)"
  have t: "unix_seconds ?t = unix_seconds now + skew * totpPeriod"
    by (rule unix_seconds_shift)
  then have "0 \<le> unix_seconds ?t" using assms(2) skew by (auto simp: totpPeriod_def)
  then have s: "s = unix_seconds ?t div totpPeriod" using g by (simp add: trunc_div_nonneg totpPeriod_def)
  also have "\<dots> = unix_seconds now div totpPeriod + skew"
    unfolding t by (simp add: totpPeriod_def)
  finally have "s = unix_seconds now div totpPeriod + skew" .
  with skew have "\<bar>s - unix_seconds now div totpPeriod\<bar> \<le> 1" by auto
  with g s show ?thesis by blast
qed

definition demo_generate :: "string \<Rightarrow> time \<Rightarrow> string option" where
  "demo_generate secret t = Some (if unix_seconds t div 30 = 57600000 then ''111111'' else ''222222'')"

theorem totp_step_within_skew_witness:
  "\<exists>s t. ValidateTOTPStep demo_generate ''s'' ''222222'' (utc_midnight 20000) = Some s
     \<and> demo_generate ''s'' t = Some ''222222''
     \<and> \<bar>s - unix_seconds (utc_midnight 20000) div totpPeriod\<bar> \<le> 1"
proof -
  have "ValidateTOTPStep demo_generate ''s'' ''222222'' (utc_midnight 20000) = Some 57599999"
    by (simp add: ValidateTOTPStep_def demo_generate_def totpPeriod_def unix_seconds_def time_add_def
        trunc_div_def)
  from totp_step_within_skew [OF this] this show ?thesis
    by (auto simp: unix_seconds_def)
qed

subsection \<open>Recovery codes\<close>

definition code_ids_unique :: "auth_db \<Rightarrow> bool" where
  "code_ids_unique db \<longleftrightarrow> distinct (map bc_id (db_codes db))"

lemma claim_length:
  assumes "distinct (map bc_id cs)" "r \<in> set cs" "bc_user r = uid" "\<not> bc_used r"
  shows "length (filter (\<lambda>c. bc_user c = uid \<and> \<not> bc_used c) cs)
    = Suc (length (filter (\<lambda>c. bc_user c = uid \<and> \<not> bc_used c)
        (map (\<lambda>c. if bc_id c = bc_id r then c\<lparr>bc_used := True\<rparr> else c) cs)))"
  using assms
proof (induction cs)
  case (Cons c cs)
  show ?case
  proof (cases "c = r")
    case True
    then have "map (\<lambda>c. if bc_id c = bc_id r then c\<lparr>bc_used := True\<rparr> else c) cs = cs"
      using Cons.prems(1) by (intro map_idI) (force simp: image_iff)
    with True Cons.prems show ?thesis by simp
  next
    case False
    with Cons.prems have "bc_id c \<noteq> bc_id r" by (auto simp: image_iff)
    with Cons False show ?thesis by auto
  qed
qed simp

lemma claim_code_True:
  assumes "claim_code db cid = (True, db')" "code_ids_unique db"
  shows "\<exists>r \<in> set (db_codes db). bc_id r = cid \<and> \<not> bc_used r
    \<and> RemainingBackupCodes db' (bc_user r) = RemainingBackupCodes db (bc_user r) - 1"
proof -
  from assms(1) obtain r where r: "r \<in> set (db_codes db)" "bc_id r = cid" "\<not> bc_used r"
    and db': "db' = db\<lparr>db_codes := map (\<lambda>r. if bc_id r = cid then r\<lparr>bc_used := True\<rparr> else r) (db_codes db)\<rparr>"
    by (auto simp: claim_code_def split: if_splits)
  from claim_length [OF assms(2) [unfolded code_ids_unique_def] r(1) refl r(3)] r(2)
  have "RemainingBackupCodes db' (bc_user r) = RemainingBackupCodes db (bc_user r) - 1"
    by (simp add: RemainingBackupCodes_def unused_codes_def db')
  with r show ?thesis by blast
qed

text \<open>C16: a recovery code is spent once. However stale the list of codes the login has read, a
  success uses up exactly one code that was unused at the claim, and a failure changes nothing.\<close>

theorem recovery_code_spent_once:
  assumes "ConsumeBackupCode upper trim check seen db uid code f1 f2 = (ok, db')"
    and "code_ids_unique db" "\<forall>r \<in> set (db_codes db). \<forall>r' \<in> set (db_codes seen). bc_id r = bc_id r' \<longrightarrow> bc_user r = bc_user r'"
  shows "(if ok then RemainingBackupCodes db' uid = RemainingBackupCodes db uid - 1 else db' = db)
    \<and> code_ids_unique db'"
proof -
  consider (none) "db' = db" "\<not> ok"
    | (claim) r where "r \<in> set (unused_codes seen uid)" "claim_code db (bc_id r) = (ok, db')"
  proof -
    let ?match = "\<lambda>r. check (bc_hash r) (normalizeCode upper trim code)"
    show ?thesis
    proof (cases "filter ?match (unused_codes seen uid)")
      case Nil
      have "db' = db \<and> \<not> ok" using assms(1) Nil by (simp add: ConsumeBackupCode_def split: if_splits)
      then show ?thesis using none by blast
    next
      case (Cons r rs)
      then have r: "r \<in> set (unused_codes seen uid)"
        by (metis filter_is_subset list.set_intros(1) subsetD)
      have "db' = db \<and> \<not> ok \<or> claim_code db (bc_id r) = (ok, db')"
        using assms(1) Cons by (simp add: ConsumeBackupCode_def split: if_splits)
      then show ?thesis using none claim [OF r] by blast
    qed
  qed
  then show ?thesis
  proof cases
    case none
    with assms(2) show ?thesis by simp
  next
    case (claim r)
    have u: "code_ids_unique db'"
      using claim(2) assms(2) by (auto simp: claim_code_def code_ids_unique_def comp_def if_distrib
          split: if_splits cong: if_cong)
    show ?thesis
    proof (cases ok)
      case True
      have "claim_code db (bc_id r) = (True, db')" using claim(2) True by simp
      from claim_code_True [OF this assms(2)] obtain q where
        q: "q \<in> set (db_codes db)" "bc_id q = bc_id r"
        "RemainingBackupCodes db' (bc_user q) = RemainingBackupCodes db (bc_user q) - 1" by auto
      moreover have "r \<in> set (db_codes seen)" "bc_user r = uid"
        using claim(1) by (simp_all add: unused_codes_def)
      ultimately have "bc_user q = uid" using assms(3) by metis
      with q(3) True u show ?thesis by simp
    next
      case False
      with claim(2) u show ?thesis by (auto simp: claim_code_def split: if_splits)
    qed
  qed
qed

theorem recovery_code_spent_once_witness:
  "\<exists>db'. ConsumeBackupCode id id (=) example_db example_db 7 ''AAAA'' False False = (True, db')
     \<and> RemainingBackupCodes db' 7 = RemainingBackupCodes example_db 7 - 1"
proof -
  obtain ok db' where c: "ConsumeBackupCode id id (=) example_db example_db 7 ''AAAA'' False False = (ok, db')"
    by (metis prod.exhaust)
  have ok: "ok" using c
    by (auto simp: ConsumeBackupCode_def example_db_def unused_codes_def normalizeCode_def claim_code_def)
  have "code_ids_unique example_db" by (simp add: code_ids_unique_def example_db_def)
  from recovery_code_spent_once [OF c this] ok c show ?thesis by (auto simp: example_db_def)
qed

text \<open>The recovery codes are unbiased. Each character of the alphabet is drawn by the same
  number of the 256 byte values, the rest of which are rejected.\<close>

theorem recovery_code_unbiased:
  assumes "c \<in> set codeAlphabet"
  shows "card {b. b < code_limit \<and> codeAlphabet ! (b mod length codeAlphabet) = c} = 8"
proof -
  have len: "length codeAlphabet = 31" and lim: "code_limit = 248" and d: "distinct codeAlphabet"
    by (simp_all add: codeAlphabet_def code_limit_def)
  obtain i where i: "i < 31" "c = codeAlphabet ! i" using assms len by (metis in_set_conv_nth)
  have "{b. b < code_limit \<and> codeAlphabet ! (b mod length codeAlphabet) = c}
      = {b. b < 248 \<and> b mod 31 = i}"
    using d i len lim by (auto simp: nth_eq_iff_index_eq)
  also have "\<dots> = (\<lambda>k. 31 * k + i) ` {..<8}"
  proof (intro equalityI subsetI)
    fix b assume "b \<in> {b. b < 248 \<and> b mod 31 = i}"
    then have "b = 31 * (b div 31) + i" "b div 31 < 8" by auto
    then show "b \<in> (\<lambda>k. 31 * k + i) ` {..<8}" by blast
  qed (use i in auto)
  also have "card \<dots> = 8" by (subst card_image) (auto simp: inj_on_def)
  finally show ?thesis .
qed

theorem recovery_code_unbiased_witness:
  "card {b. b < code_limit \<and> codeAlphabet ! (b mod length codeAlphabet) = CHR ''A''} = 8"
  by (rule recovery_code_unbiased) (simp add: codeAlphabet_def)

subsection \<open>Sessions\<close>

text \<open>C17: sliding renewal only ever extends a session, never past its absolute lifetime or the idle
  window from now, and touches nothing but the expiry of the request's own session.\<close>

theorem sliding_is_bounded:
  assumes "db_sessions db k = Some s"
  shows "\<exists>s'. db_sessions (slide hash_token m r db now f1 f2) k = Some s'
    \<and> s' = s\<lparr>ss_expires := ss_expires s'\<rparr>
    \<and> (ss_expires s' = ss_expires s
       \<or> t_inst (ss_expires s) < t_inst (ss_expires s')
         \<and> t_inst (ss_expires s') \<le> t_inst (ss_created s) + mg_absoluteMaxAge m
         \<and> t_inst (ss_expires s') \<le> t_inst now + mg_sessionMaxAge m
         \<and> rq_cookie r \<noteq> None \<and> hash_token (the (rq_cookie r)) = k)"
proof -
  have e: "t_inst e < t_inst e' \<and> t_inst e' \<le> t_inst c + mg_absoluteMaxAge m
      \<and> t_inst e' \<le> t_inst now + mg_sessionMaxAge m" if "slide_expiry m c e now = Some e'" for c e e'
    using that by (auto simp: slide_expiry_def Let_def after_def time_add_def split: if_splits)
  show ?thesis
    using assms e by (auto simp: slide_def put_session_def split: option.splits)
qed

definition example_session :: session_row where
  "example_session = \<lparr>ss_user = 7, ss_created = utc_midnight 20000, ss_expires = utc_midnight 20001,
     ss_last_seen = utc_midnight 20000, ss_user_agent = [], ss_ip = [], ss_factor_verified = True\<rparr>"

definition example_request :: request where
  "example_request = \<lparr>rq_cookie = Some ''tok'', rq_csrf = ''tok'', rq_method = ''POST'', rq_path = ''/api/persons'',
     rq_user_agent = [], rq_ip = ''10.0.0.1''\<rparr>"

definition example_manager :: manager where
  "example_manager = \<lparr>mg_sessionMaxAge = day_ns, mg_sliding = True, mg_absoluteMaxAge = 3 * day_ns, mg_require2FA = True\<rparr>"

theorem sliding_is_bounded_witness:
  "\<exists>s'. db_sessions (slide id example_manager example_request
        (example_db\<lparr>db_sessions := [''tok'' \<mapsto> example_session]\<rparr>) (utc_midnight 20001) False False) ''tok'' = Some s'
      \<and> t_inst (ss_expires s') \<le> 20003 * day_ns"
  using sliding_is_bounded [of "example_db\<lparr>db_sessions := [''tok'' \<mapsto> example_session]\<rparr>" "''tok''"
      example_session id example_manager example_request "utc_midnight 20001" False False]
  by (auto simp: example_session_def example_manager_def)

lemma userFromRequest_Inr:
  assumes "userFromRequest hash_token r db now db_now f = (Inr u, db')"
  shows "\<exists>tok s row. rq_cookie r = Some tok \<and> tok \<noteq> [] \<and> db_sessions db (hash_token tok) = Some s
    \<and> \<not> after now (ss_expires s) \<and> find_user db (ss_user s) = Some row \<and> \<not> us_disabled row
    \<and> su_id u = ss_user s \<and> su_row u = row \<and> su_factor_verified u = ss_factor_verified s
    \<and> su_has_passkey u = (ss_user s \<in> set (map fst (db_passkeys db)))"
  using assms by (auto simp: userFromRequest_def simp del: set_map split: option.splits if_splits)

lemma RequireAuth_Granted:
  assumes "RequireAuth hash_token csrf_token m r db now db_now f = (Granted u, db')"
  shows "\<exists>db1. userFromRequest hash_token r db now db_now (f 0) = (Inr u, db1)
    \<and> (mg_require2FA m \<longrightarrow>
        (if us_totp_enabled (su_row u) \<or> su_has_passkey u
         then su_factor_verified u \<or> rq_path r = ''/api/auth/logout''
         else twoFAExempt (rq_path r)))
    \<and> (isStateChanging (rq_method r) \<longrightarrow> csrfOK csrf_token r)"
proof -
  obtain a db1 where a: "userFromRequest hash_token r db now db_now (f 0) = (a, db1)" by (metis prod.exhaust)
  with assms show ?thesis
    by (cases a) (auto simp: RequireAuth_def Let_def split: if_splits)
qed

text \<open>C18: what a request that reaches a role-protected handler has passed: an unexpired stored
  session of an enabled account, the CSRF proof for a state change, the second factor when the
  operator requires it and the account has one, and the role or the admin flag.\<close>

theorem granted_request_is_checked:
  assumes "RequireRole roles hash_token csrf_token m r db now db_now f = (Granted u, db')"
  shows "\<exists>tok s row. rq_cookie r = Some tok \<and> tok \<noteq> [] \<and> db_sessions db (hash_token tok) = Some s
    \<and> \<not> after now (ss_expires s) \<and> find_user db (ss_user s) = Some row \<and> \<not> us_disabled row
    \<and> su_id u = ss_user s
    \<and> (isStateChanging (rq_method r) \<longrightarrow> rq_csrf r = csrf_token tok)
    \<and> (mg_require2FA m \<longrightarrow> ss_factor_verified s \<or> rq_path r = ''/api/auth/logout''
         \<or> (\<not> us_totp_enabled row \<and> ss_user s \<notin> set (map fst (db_passkeys db)) \<and> twoFAExempt (rq_path r)))
    \<and> (us_is_admin row \<or> us_role row \<in> set roles)"
proof -
  obtain a db1 where a: "RequireAuth hash_token csrf_token m r db now db_now f = (a, db1)" by (metis prod.exhaust)
  with assms have "a = Granted u" and role: "us_is_admin (su_row u) \<or> us_role (su_row u) \<in> set roles"
    by (auto simp: RequireRole_def split: access.splits if_splits)
  from RequireAuth_Granted [OF a [unfolded this(1)]] obtain db2 where
    u: "userFromRequest hash_token r db now db_now (f 0) = (Inr u, db2)" and
    two: "mg_require2FA m \<Longrightarrow> (if us_totp_enabled (su_row u) \<or> su_has_passkey u
         then su_factor_verified u \<or> rq_path r = ''/api/auth/logout'' else twoFAExempt (rq_path r))" and
    csrf: "isStateChanging (rq_method r) \<Longrightarrow> csrfOK csrf_token r" by blast
  from userFromRequest_Inr [OF u] obtain tok s row where
    s: "rq_cookie r = Some tok" "tok \<noteq> []" "db_sessions db (hash_token tok) = Some s"
    "\<not> after now (ss_expires s)" "find_user db (ss_user s) = Some row" "\<not> us_disabled row"
    "su_id u = ss_user s" "su_row u = row" "su_factor_verified u = ss_factor_verified s"
    "su_has_passkey u = (ss_user s \<in> set (map fst (db_passkeys db)))" by blast
  have "isStateChanging (rq_method r) \<longrightarrow> rq_csrf r = csrf_token tok"
    using csrf s(1) by (simp add: csrfOK_def)
  moreover have "mg_require2FA m \<longrightarrow> ss_factor_verified s \<or> rq_path r = ''/api/auth/logout''
      \<or> (\<not> us_totp_enabled row \<and> ss_user s \<notin> set (map fst (db_passkeys db)) \<and> twoFAExempt (rq_path r))"
    using two s by (auto simp del: set_map split: if_splits)
  ultimately show ?thesis using s role by blast
qed

theorem granted_request_is_checked_witness:
  "\<exists>u db'. RequireRole [''editor''] id id example_manager example_request
        (example_db\<lparr>db_sessions := [''tok'' \<mapsto> example_session]\<rparr>) (utc_midnight 20000) (utc_midnight 20000) (\<lambda>_. False)
      = (Granted u, db') \<and> rq_csrf example_request = ''tok''"
proof -
  let ?db = "example_db\<lparr>db_sessions := [''tok'' \<mapsto> example_session]\<rparr>"
  obtain u db' where r: "RequireRole [''editor''] id id example_manager example_request ?db
      (utc_midnight 20000) (utc_midnight 20000) (\<lambda>_. False) = (Granted u, db')"
    by (simp add: RequireRole_def RequireAuth_def userFromRequest_def example_request_def example_manager_def
        example_session_def find_user_def example_db_def example_user_def isStateChanging_def csrfOK_def
        twoFAExempt_def Let_def before_def time_add_def)
  from granted_request_is_checked [OF r] r show ?thesis
    by (auto simp: example_request_def isStateChanging_def)
qed

subsection \<open>Who gets a session\<close>

definition session_bound :: "env \<Rightarrow> auth_db \<Rightarrow> string \<Rightarrow> user_row \<Rightarrow> bool" where
  "session_bound ev db token u \<longleftrightarrow>
     (\<exists>s row. db_sessions db (ev_hash_token ev token) = Some s \<and> ss_user s = us_id u
        \<and> ss_factor_verified s = us_totp_enabled u
        \<and> find_user db (us_id u) = Some row \<and> us_password_hash row = us_password_hash u
        \<and> \<not> us_disabled row
        \<and> (us_totp_enabled u \<longrightarrow> us_totp_enabled row \<and> us_totp_secret row = us_totp_secret u))"

text \<open>The second factor, on the tables the login works on. The attempt is counted in the store \<open>db\<close>,
  which no lock holds, before the code is checked; \<open>db1\<close> is the store afterwards.\<close>

definition attempt_counted :: "env \<Rightarrow> user_row \<Rightarrow> auth_db \<Rightarrow> auth_db \<Rightarrow> bool" where
  "attempt_counted ev u db db1 \<longleftrightarrow>
     (\<exists>row. find_user db (us_id u) = Some row \<and> us_totp_enabled row \<and> us_totp_secret row = us_totp_secret u
        \<and> (\<forall>t. us_totp_locked_until row = Some t \<longrightarrow> t_inst t \<le> t_inst (ev_db_now ev 1))
        \<and> find_user db1 (us_id u) = Some (row\<lparr>us_totp_failures := us_totp_failures row + 1, us_totp_locked_until :=
            (if us_totp_failures row + 1 \<ge> 5 then Some (time_add (ev_db_now ev 1) (second_factor_wait (us_totp_failures row + 1)))
             else None)\<rparr>)
        \<and> db_codes db1 = db_codes db)"

text \<open>The code is the one of the account's secret for the time of the check or thirty seconds before or
  after, its step is newer than the last one in the store the guard reads, and \<open>db2\<close> has it as the last.\<close>

definition totp_spent :: "env \<Rightarrow> user_row \<Rightarrow> string \<Rightarrow> auth_db \<Rightarrow> auth_db \<Rightarrow> bool" where
  "totp_spent ev u code db1 db2 \<longleftrightarrow>
     (\<exists>secret t step row. ev_decrypt ev (us_totp_secret u) = Some secret \<and> ev_generate ev secret t = Some code
        \<and> t_inst t - t_inst (ev_clk ev 7) \<in> {-30 * 10 ^ 9, 0, 30 * 10 ^ 9} \<and> step = trunc_div (unix_seconds t) 30
        \<and> find_user (ev_other ev 2 db1) (us_id u) = Some row \<and> us_totp_enabled row \<and> us_totp_secret row = us_totp_secret u
        \<and> us_last_totp_step row < step
        \<and> find_user db2 (us_id u) = Some (row\<lparr>us_last_totp_step := step\<rparr>)
        \<and> db_codes db2 = db_codes (ev_other ev 2 db1))"

text \<open>The store the login reads the recovery codes from has an unused one of the account that the code
  matches; the store it claims it in still has it unused, and \<open>db2\<close> has it used.\<close>

definition code_spent :: "env \<Rightarrow> user_row \<Rightarrow> string \<Rightarrow> auth_db \<Rightarrow> auth_db \<Rightarrow> bool" where
  "code_spent ev u code db1 db2 \<longleftrightarrow>
     (\<exists>seen r. seen \<in> {ev_other ev 4 db1, ev_other ev 4 (ev_other ev 2 db1)}
        \<and> r \<in> set (db_codes seen) \<and> bc_user r = us_id u \<and> \<not> bc_used r
        \<and> ev_check ev (bc_hash r) (ev_upper ev (ev_trim ev code))
        \<and> (\<exists>c \<in> set (db_codes (ev_other ev 5 seen)). bc_id c = bc_id r \<and> \<not> bc_used c)
        \<and> db_codes db2 = map (\<lambda>c. if bc_id c = bc_id r then c\<lparr>bc_used := True\<rparr> else c) (db_codes (ev_other ev 5 seen))
        \<and> db_users db2 = db_users (ev_other ev 5 seen))"

text \<open>The store the session is written to: what became of \<open>db2\<close> when the failures were cleared.\<close>

definition session_store :: "env \<Rightarrow> user_row \<Rightarrow> auth_db \<Rightarrow> auth_db" where
  "session_store ev u db2 =
     ev_other ev 7 (snd (ResetSecondFactorFailures (ev_other ev 6 db2) (us_id u) (us_totp_secret u) (ev_fault ev 6)))"

definition factor_proven :: "env \<Rightarrow> user_row \<Rightarrow> string \<Rightarrow> string \<Rightarrow> auth_db \<Rightarrow> auth_db \<Rightarrow> bool" where
  "factor_proven ev u code token db db' \<longleftrightarrow>
     (\<exists>db1 db2 s. attempt_counted ev u db db1 \<and> (totp_spent ev u code db1 db2 \<or> code_spent ev u code db1 db2)
        \<and> db' = put_session (session_store ev u db2) (ev_hash_token ev token) s)"

lemma login_finish_session:
  assumes "login_finish ev m r st key u = (Reply_Session token, st')"
  shows "session_bound ev (st_db st') token u \<and> (\<exists>s. st_db st' = put_session (ev_other ev 7 (st_db st)) (ev_hash_token ev token) s)"
proof -
  obtain a db where c: "CreatePasswordSession (ev_hash_token ev) m r (ev_other ev 7 (st_db st)) (us_id u)
             (us_password_hash u) (us_totp_secret u) (us_totp_enabled u) (ev_random ev 0)
             (ev_clk ev 8) (ev_db_now ev 7) (ev_fault ev 7) = (a, db)" by (metis prod.exhaust)
  with assms have r: "a = Inr token" "st_db st' = db"
    by (cases a; simp add: login_finish_def Let_def split: if_splits; fastforce)+
  have "session_bound ev db token u \<and> (\<exists>s. db = put_session (ev_other ev 7 (st_db st)) (ev_hash_token ev token) s)"
    using c unfolding r(1)
    by (auto simp: CreatePasswordSession_def newSessionMaterial_def session_bound_def put_session_def
        session_of_def find_user_def split: option.splits if_splits)
  with r(2) show ?thesis by simp
qed

lemma login_factor_ok_session:
  assumes "login_factor_ok ev m r st key u = (Reply_Session token, st')"
  shows "session_bound ev (st_db st') token u \<and> (\<exists>s. st_db st' = put_session (session_store ev u (st_db st)) (ev_hash_token ev token) s)"
proof -
  obtain e db where e: "ResetSecondFactorFailures (ev_other ev 6 (st_db st)) (us_id u) (us_totp_secret u) (ev_fault ev 6) = (e, db)"
    by (metis prod.exhaust)
  with assms have "login_finish ev m r (st\<lparr>st_db := db\<rparr>) key u = (Reply_Session token, st')"
    by (auto simp: login_factor_ok_def split: option.splits auth_error.splits)
  from login_finish_session [OF this] e show ?thesis by (simp add: session_store_def)
qed

lemma claimed_code:
  assumes "ConsumeBackupCode upper trim check seen db uid code f1 f2 = (True, db')"
  shows "\<exists>r. r \<in> set (db_codes seen) \<and> bc_user r = uid \<and> \<not> bc_used r \<and> check (bc_hash r) (upper (trim code))
    \<and> (\<exists>c \<in> set (db_codes db). bc_id c = bc_id r \<and> \<not> bc_used c)
    \<and> db_codes db' = map (\<lambda>c. if bc_id c = bc_id r then c\<lparr>bc_used := True\<rparr> else c) (db_codes db) \<and> db_users db' = db_users db"
proof -
  let ?match = "\<lambda>r. check (bc_hash r) (normalizeCode upper trim code)"
  obtain r rs where rs: "filter ?match (unused_codes seen uid) = r # rs"
    using assms by (cases "filter ?match (unused_codes seen uid)") (auto simp: ConsumeBackupCode_def split: if_splits)
  then have "r \<in> set (filter ?match (unused_codes seen uid))" by simp
  then have "r \<in> set (db_codes seen)" "bc_user r = uid" "\<not> bc_used r" "?match r"
    by (simp_all only: set_filter unused_codes_def) auto
  moreover have "claim_code db (bc_id r) = (True, db')"
    using assms rs by (auto simp: ConsumeBackupCode_def split: if_splits)
  ultimately show ?thesis
    by (intro exI [of _ r]) (auto simp: claim_code_def normalizeCode_def split: if_splits)
qed

lemma login_backup_session:
  assumes "login_backup_code ev m r st key u code = (Reply_Session token, st')" "st_db st \<in> {db1, ev_other ev 2 db1}"
  shows "session_bound ev (st_db st') token u
    \<and> (\<exists>db2 s. code_spent ev u code db1 db2 \<and> st_db st' = put_session (session_store ev u db2) (ev_hash_token ev token) s)"
proof -
  let ?seen = "ev_other ev 4 (st_db st)"
  obtain ok db where c: "ConsumeBackupCode (ev_upper ev) (ev_trim ev) (ev_check ev) ?seen (ev_other ev 5 ?seen)
             (us_id u) code (ev_fault ev 4) (ev_fault ev 5) = (ok, db)" by (metis prod.exhaust)
  with assms(1) have ok: "ok" "login_factor_ok ev m r (st\<lparr>st_db := db\<rparr>) key u = (Reply_Session token, st')"
    by (auto simp: login_backup_code_def Let_def split: bool.splits)
  have "ConsumeBackupCode (ev_upper ev) (ev_trim ev) (ev_check ev) ?seen (ev_other ev 5 ?seen)
             (us_id u) code (ev_fault ev 4) (ev_fault ev 5) = (True, db)" using c ok(1) by simp
  from claimed_code [OF this] have "code_spent ev u code db1 db"
    using assms(2) unfolding code_spent_def by (intro exI [of _ ?seen]) fastforce
  with login_factor_ok_session [OF ok(2)] show ?thesis by auto
qed

lemma login_check_session:
  assumes "login_check_code ev m r st key u code = (Reply_Session token, st')"
  shows "session_bound ev (st_db st') token u
    \<and> (\<exists>db2 s. (totp_spent ev u code (st_db st) db2 \<or> code_spent ev u code (st_db st) db2)
        \<and> st_db st' = put_session (session_store ev u db2) (ev_hash_token ev token) s)"
proof (cases "ValidateEncryptedTOTPStep (ev_decrypt ev) (ev_generate ev) (us_totp_secret u) code (ev_clk ev 7)")
  case None
  with assms login_backup_session [of ev m r st key u code token st' "st_db st"] show ?thesis
    by (auto simp: login_check_code_def)
next
  case (Some step)
  let ?db = "ev_other ev 2 (st_db st)"
  have nf: "\<not> ev_fault ev 2"
    using assms Some by (auto simp: login_check_code_def Let_def split: prod.splits option.splits auth_error.splits)
  show ?thesis
  proof (cases "fst (advance_totp_step ?db (us_id u) (us_totp_secret u) step)")
    case True
    then obtain db where c: "advance_totp_step ?db (us_id u) (us_totp_secret u) step = (True, db)" by (metis prod.collapse)
    have ok: "login_factor_ok ev m r (st\<lparr>st_db := db\<rparr>) key u = (Reply_Session token, st')"
      using assms Some nf c by (simp add: login_check_code_def)
    obtain secret where secret: "ev_decrypt ev (us_totp_secret u) = Some secret"
      "ValidateTOTPStep (ev_generate ev) secret code (ev_clk ev 7) = Some step"
      using Some by (auto simp: ValidateEncryptedTOTPStep_def split: option.splits)
    obtain skew where skew: "skew \<in> set [0, -1, 1]"
      "ev_generate ev secret (time_add (ev_clk ev 7) (skew * totpPeriod * second_ns)) = Some code"
      "step = trunc_div (unix_seconds (time_add (ev_clk ev 7) (skew * totpPeriod * second_ns))) totpPeriod"
      using totp_scan_step [OF secret(2) [unfolded ValidateTOTPStep_def]] by blast
    obtain row where row: "find_user ?db (us_id u) = Some row" "us_last_totp_step row < step"
      "credential_matches (us_totp_secret u) row" "find_user db (us_id u) = Some (row\<lparr>us_last_totp_step := step\<rparr>)"
      "db_codes db = db_codes ?db"
      using update_user_True [OF c [unfolded advance_totp_step_def]] by auto
    have "totp_spent ev u code (st_db st) db"
      using secret(1) skew row unfolding totp_spent_def
      by (intro exI [of _ secret] exI [of _ "time_add (ev_clk ev 7) (skew * totpPeriod * second_ns)"] exI [of _ step] exI [of _ row])
        (auto simp: credential_matches_def totpPeriod_def time_add_def)
    with login_factor_ok_session [OF ok] show ?thesis by auto
  next
    case False
    then have c: "advance_totp_step ?db (us_id u) (us_totp_secret u) step = (False, ?db)"
      by (cases rule: advance_totp_cases [of ?db "us_id u" step "us_totp_secret u"]) auto
    have "login_backup_code ev m r (st\<lparr>st_db := ?db\<rparr>) key u code = (Reply_Session token, st')"
      using assms Some nf c by (simp add: login_check_code_def)
    from login_backup_session [OF this, of "st_db st"] show ?thesis by auto
  qed
qed

lemma login_second_session:
  assumes "login_second_factor ev m r st key u code = (Reply_Session token, st')"
  shows "session_bound ev (st_db st') token u \<and> factor_proven ev u code token (ev_other ev 1 (st_db st)) (st_db st')"
proof -
  let ?R = "ReserveSecondFactorAttempt (ev_other ev 1 (st_db st)) (us_id u) (us_totp_secret u)
             (ev_db_now ev 1) (ev_clk ev 6) (ev_fault ev 1) (ev_fault ev 8)"
  obtain k w db1 where c: "?R = (Inr (k, w), db1)" "\<not> 0 < w" "login_check_code ev m r (st\<lparr>st_db := db1\<rparr>) key u code = (Reply_Session token, st')"
    using assms by (auto simp: login_second_factor_def split: if_splits prod.splits sum.splits auth_error.splits)
  have f: "\<not> ev_fault ev 1" using c(1) by (auto simp: ReserveSecondFactorAttempt_def)
  then have "w = 0"
    using c(1,2) by (auto simp: ReserveSecondFactorAttempt_def max_def split: option.splits if_splits prod.splits bool.splits)
  then have R: "ReserveSecondFactorAttempt (ev_other ev 1 (st_db st)) (us_id u) (us_totp_secret u)
             (ev_db_now ev 1) (ev_clk ev 6) False (ev_fault ev 8) = (Inr (k, 0), db1)" using c(1) f by simp
  have "attempt_counted ev u (ev_other ev 1 (st_db st)) db1"
    using reserve_accepted [OF R] reserve_codes [OF R]
    by (auto simp: attempt_counted_def credential_matches_def after_def SecondFactorFreeFailures_def second_factor_wait_def not_less)
  with login_check_session [OF c(3)] show ?thesis by (auto simp: factor_proven_def)
qed

text \<open>C19: who gets a session. Whatever other requests do in between and whichever statement fails,
  a login that ends with a session named an account, knew its password while it was enabled, and, if
  the account had a second factor, was counted as an attempt while no lock held and then spent on the
  login's own tables a newer TOTP step or an unused recovery code of the account; the session is
  written to what became of these tables, and it is bound to credentials that are still the verified
  ones there.\<close>

theorem login_session_is_earned:
  assumes "Login ev m passkeyOnly r body st = (Reply_Session token, st')"
  shows "\<exists>req u. body = Some req \<and> \<not> passkeyOnly
    \<and> userByUsername (ev_lower ev) (ev_other ev 0 (st_db st)) (ev_trim ev (lr_username req)) = Some u
    \<and> ev_check ev (us_password_hash u) (lr_password req) \<and> \<not> us_disabled u
    \<and> (us_totp_enabled u \<longrightarrow> factor_proven ev u (ev_trim ev (lr_totp_code req)) token
         (ev_other ev 1 (ev_other ev 0 (st_db st))) (st_db st'))
    \<and> session_bound ev (st_db st') token u"
proof -
  obtain req where b: "body = Some req" "\<not> passkeyOnly"
    using assms by (auto simp: Login_def split: if_splits option.splits)
  let ?name = "ev_trim ev (lr_username req)" and ?code = "ev_trim ev (lr_totp_code req)"
  obtain key w l where res: "login_reserve (ev_lower ev) (st_limits st) (rq_ip r) ?name (ev_clk ev) = ((key, w), l)"
    by (metis prod.exhaust)
  let ?db = "ev_other ev 0 (st_db st)"
  let ?st = "st\<lparr>st_limits := l, st_db := ?db\<rparr>"
  have w: "w = None" using assms b res
    by (auto simp: Login_def Let_def split: if_splits option.splits)
  obtain u where u: "Authenticate (ev_lower ev) (ev_check ev) ?db ?name (lr_password req) = Inr u" and
    fin: "(if us_totp_enabled u then login_second_factor ev m r ?st key u ?code
           else login_finish ev m r ?st key u) = (Reply_Session token, st')"
    using assms b res w by (auto simp: Login_def Let_def split: if_splits sum.splits)
  have pw: "userByUsername (ev_lower ev) ?db ?name = Some u" "ev_check ev (us_password_hash u) (lr_password req)"
    "\<not> us_disabled u"
    using u by (auto simp: Authenticate_def split: option.splits if_splits)
  have "session_bound ev (st_db st') token u
    \<and> (us_totp_enabled u \<longrightarrow> factor_proven ev u ?code token (ev_other ev 1 ?db) (st_db st'))"
    using fin login_second_session [of ev m r ?st key u ?code token st'] login_finish_session [of ev m r ?st key u token st']
    by (auto split: if_splits)
  with b pw show ?thesis by blast
qed

definition example_env :: env where
  "example_env = \<lparr>ev_lower = id, ev_upper = id, ev_trim = id, ev_check = (=), ev_bcrypt = (\<lambda>_. Some),
     ev_hash_token = id, ev_encrypt = Some, ev_decrypt = Some, ev_generate = demo_generate,
     ev_breached = (\<lambda>_. False), ev_clk = (\<lambda>_. utc_midnight 20000), ev_db_now = (\<lambda>_. utc_midnight 20000),
     ev_fault = (\<lambda>_. False), ev_other = (\<lambda>_. id), ev_random = (\<lambda>_. Some ''tok''), ev_bytes = [], ev_next_id = 1\<rparr>"

lemma example_login:
  "\<exists>st'. Login example_env example_manager False example_request
     (Some \<lparr>lr_username = ''eva'', lr_password = ''h'', lr_totp_code = ''222222''\<rparr>)
     \<lparr>st_limits = NewAuthHandler, st_db = example_db\<rparr> = (Reply_Session ''tok'', st')"
proof -
  obtain h' where l: "login_reserve id NewAuthHandler ''10.0.0.1'' ''eva'' (\<lambda>_. utc_midnight 20000)
      = ((''eva'' @ ''|'' @ ''10.0.0.1'', None), h')" using first_login by blast
  have v: "ValidateTOTPStep demo_generate ''s'' ''222222'' (utc_midnight 20000) = Some 57599999"
    by (simp add: ValidateTOTPStep_def demo_generate_def totpPeriod_def unix_seconds_def time_add_def trunc_div_def)
  have a: "Authenticate id (=) example_db ''eva'' ''h'' = Inr example_user"
    by (simp add: Authenticate_def userByUsername_def example_db_def example_user_def)
  have u: "us_id example_user = 7" "us_totp_secret example_user = ''s''" "us_totp_enabled example_user"
    "us_password_hash example_user = ''h''"
    by (simp_all add: example_user_def)
  have f: "find_user example_locked 7 = Some (example_user\<lparr>us_totp_failures := 5,
      us_totp_locked_until := Some (time_add (utc_midnight 20000) (second_factor_lock 5))\<rparr>)"
    by (simp add: find_user_def example_locked_def example_user_def)
  have adv: "\<exists>db. advance_totp_step example_locked 7 ''s'' 57599999 = (True, db) \<and> db_sessions db = Map.empty
      \<and> find_user db 7 = Some (example_user\<lparr>us_totp_failures := 5,
      us_totp_locked_until := Some (time_add (utc_midnight 20000) (second_factor_lock 5)), us_last_totp_step := 57599999\<rparr>)"
    by (simp add: advance_totp_step_def update_user_def find_user_def example_locked_def example_user_def
        credential_matches_def example_db_def)
  then obtain db where db: "advance_totp_step example_locked 7 ''s'' 57599999 = (True, db)" "db_sessions db = Map.empty"
    "find_user db 7 = Some (example_user\<lparr>us_totp_failures := 5,
      us_totp_locked_until := Some (time_add (utc_midnight 20000) (second_factor_lock 5)), us_last_totp_step := 57599999\<rparr>)"
    by blast
  obtain db1 where db1: "ResetSecondFactorFailures db 7 ''s'' False = (None, db1)" "db_sessions db1 = Map.empty"
    "find_user db1 7 = Some (example_user\<lparr>us_totp_failures := 0, us_totp_locked_until := None, us_last_totp_step := 57599999\<rparr>)"
  proof (rule update_user_cases [of "\<lambda>u. u\<lparr>us_totp_failures := 0, us_totp_locked_until := None\<rparr>" db 7 "credential_matches ''s''"])
    fix u db' assume "find_user db 7 = Some u" "update_user db 7 (credential_matches ''s'')
        (\<lambda>u. u\<lparr>us_totp_failures := 0, us_totp_locked_until := None\<rparr>) = (True, db')"
      "find_user db' 7 = Some (u\<lparr>us_totp_failures := 0, us_totp_locked_until := None\<rparr>)" "db_sessions db' = db_sessions db"
    with db that show ?thesis by (simp add: ResetSecondFactorFailures_def)
  next
    assume "\<forall>u. find_user db 7 = Some u \<longrightarrow> \<not> credential_matches ''s'' u"
    with db u show ?thesis by (simp add: credential_matches_def)
  qed simp
  have fin: "\<exists>st'. login_finish example_env example_manager example_request
      \<lparr>st_limits = h', st_db = db1\<rparr> (''eva'' @ ''|'' @ ''10.0.0.1'') example_user = (Reply_Session ''tok'', st')"
    using db1 by (simp add: login_finish_def CreatePasswordSession_def newSessionMaterial_def example_env_def
        Let_def example_user_def)
  have sec: "\<exists>st'. login_second_factor example_env example_manager example_request
      \<lparr>st_limits = h', st_db = example_db\<rparr> (''eva'' @ ''|'' @ ''10.0.0.1'') example_user ''222222'' = (Reply_Session ''tok'', st')"
    using fin db db1 v example_reserve u
    by (simp add: login_second_factor_def login_check_code_def login_factor_ok_def example_env_def
        ValidateEncryptedTOTPStep_def)
  then show ?thesis
    using l a u
    by (simp add: Login_def validUsernameLength_def maxUsernameLen_def maxPasswordLen_def maxTOTPCodeLen_def
        example_env_def example_request_def)
qed

lemma reset_step:
  "find_user db uid = Some row \<Longrightarrow>
    \<exists>row'. find_user (snd (ResetSecondFactorFailures db uid secret f)) uid = Some row' \<and> us_last_totp_step row' = us_last_totp_step row"
  by (rule update_user_cases [of "\<lambda>u. u\<lparr>us_totp_failures := 0, us_totp_locked_until := None\<rparr>" db uid "credential_matches secret"])
    (auto simp: ResetSecondFactorFailures_def)

theorem login_session_is_earned_witness:
  "\<exists>st' row. Login example_env example_manager False example_request
     (Some \<lparr>lr_username = ''eva'', lr_password = ''h'', lr_totp_code = ''222222''\<rparr>)
     \<lparr>st_limits = NewAuthHandler, st_db = example_db\<rparr> = (Reply_Session ''tok'', st')
     \<and> session_bound example_env (st_db st') ''tok'' example_user
     \<and> find_user (st_db st') 7 = Some row \<and> 57599999 \<le> us_last_totp_step row"
proof -
  obtain st' where r: "Login example_env example_manager False example_request
     (Some \<lparr>lr_username = ''eva'', lr_password = ''h'', lr_totp_code = ''222222''\<rparr>)
     \<lparr>st_limits = NewAuthHandler, st_db = example_db\<rparr> = (Reply_Session ''tok'', st')" using example_login by blast
  have ev: "ev_other example_env i = id" "ev_clk example_env i = utc_midnight 20000" "ev_hash_token example_env = id"
    "ev_check example_env = (=)" "ev_upper example_env = id" "ev_trim example_env = id" "ev_lower example_env = id"
    "ev_generate example_env = demo_generate" "ev_fault example_env i = False" for i
    by (simp_all add: example_env_def)
  have u: "us_id example_user = 7" "us_totp_enabled example_user" "userByUsername id example_db ''eva'' = Some example_user"
    by (simp_all add: example_user_def userByUsername_def example_db_def)
  from login_session_is_earned [OF r] u have b: "session_bound example_env (st_db st') ''tok'' example_user"
    and "factor_proven example_env example_user ''222222'' ''tok'' example_db (st_db st')" by (auto simp: ev)
  then obtain db1 db2 s where f: "attempt_counted example_env example_user example_db db1"
    "totp_spent example_env example_user ''222222'' db1 db2 \<or> code_spent example_env example_user ''222222'' db1 db2"
    "st_db st' = put_session (session_store example_env example_user db2) ''tok'' s"
    by (auto simp: factor_proven_def ev)
  have "db_codes db1 = db_codes example_db" using f(1) by (auto simp: attempt_counted_def)
  then have "\<not> code_spent example_env example_user ''222222'' db1 db2"
    by (auto simp: code_spent_def ev example_db_def)
  with f(2) have "totp_spent example_env example_user ''222222'' db1 db2" by blast
  then obtain row t where row: "find_user db2 7 = Some (row\<lparr>us_last_totp_step := trunc_div (unix_seconds t) 30\<rparr>)"
    "t_inst t - t_inst (utc_midnight 20000) \<in> {-30 * 10 ^ 9, 0, 30 * 10 ^ 9}"
    by (auto simp: totp_spent_def ev u(1))
  have "57599999 \<le> trunc_div (unix_seconds t) 30"
    using row(2) by (auto simp: unix_seconds_def trunc_div_def sgn_if)
  moreover obtain row' where "find_user (st_db st') 7 = Some row'" "us_last_totp_step row' = trunc_div (unix_seconds t) 30"
    using reset_step [OF row(1), of "us_totp_secret example_user" False]
    by (auto simp: f(3) session_store_def ev u(1) put_session_def find_user_def)
  ultimately show ?thesis using r b by auto
qed

subsection \<open>Changing the password, enabling the second factor\<close>

lemma RotateSessionTx_Some:
  assumes "RotateSessionTx hash_token m r db actor uid random now db_now f = Some (token, db')"
  shows "db_users db' = db_users db \<and>
    (\<forall>k s. db_sessions db' k = Some s \<longrightarrow> ss_user s = uid \<longrightarrow> k = hash_token token)"
  using assms by (auto simp: RotateSessionTx_def newSessionMaterial_def put_session_def session_of_def
      RevokeAllSessions_def drop_sessions_def Let_def split: option.splits if_splits)

text \<open>C20: a changed password takes effect at once and everywhere. When the change is reported
  successful, the account carries the new hash, the old password was right for the enabled account, and the only session of the account is the one just issued.\<close>

theorem changed_password_revokes_sessions:
  assumes "ChangePassword ev m r su body st = (Reply_Session token, st')"
  shows "\<exists>current new hash u. body = Some (current, new) \<and> new \<noteq> current \<and> validPasswordLength new
    \<and> find_user (ev_other ev 0 (st_db st)) (su_id su) = Some u \<and> \<not> us_disabled u
    \<and> ev_check ev (us_password_hash u) current \<and> ev_bcrypt ev 0 new = Some hash
    \<and> (\<exists>row. find_user (st_db st') (su_id su) = Some row \<and> us_password_hash row = hash)
    \<and> (\<forall>k s. db_sessions (st_db st') k = Some s \<longrightarrow> ss_user s = su_id su \<longrightarrow> k = ev_hash_token ev token)"
proof -
  obtain current new where b: "body = Some (current, new)" "new \<noteq> current" "validPasswordLength new"
    using assms by (auto simp: ChangePassword_def split: option.splits if_splits)
  obtain key w l where c: "checkRateLimit (ev_lower ev) (st_limits st) (rq_ip r) (us_username (su_row su))
      (ev_clk ev 0) (ev_clk ev 1) (ev_clk ev 2) (ev_clk ev 3) = ((key, w), l)" by (metis prod.exhaust)
  have w: "w = None" using assms b c by (auto simp: ChangePassword_def split: option.splits)
  obtain u hash st1 where u: "AuthenticateUserID (ev_check ev) (ev_other ev 0 (st_db st)) (su_id su) current = Inr u"
    and hash: "ev_bcrypt ev 0 new = Some hash"
    and tx: "change_password_tx ev m r su u hash st1 = (Reply_Session token, st')"
    using assms b c w by (auto simp: ChangePassword_def Let_def split: if_splits sum.splits option.splits)
  let ?f = "\<lambda>v. v\<lparr>us_password_hash := hash\<rparr>" and ?c = "\<lambda>v. us_password_hash v = us_password_hash u"
  obtain ok db1 where up: "update_user (ev_other ev 1 (st_db st1)) (su_id su) ?c ?f = (ok, db1)" by (metis prod.exhaust)
  have ok: "ok" using tx up by (auto simp: change_password_tx_def Let_def split: if_splits bool.splits)
  obtain db2 where rot: "RotateSessionTx (ev_hash_token ev) m r db1 (Some su) (su_id su) (ev_random ev 0)
                (ev_clk ev 4) (ev_db_now ev 2) (ev_fault ev 2) = Some (token, db2)" and st': "st_db st' = db2"
    using tx up ok by (auto simp: change_password_tx_def Let_def split: if_splits option.splits)
  have "update_user (ev_other ev 1 (st_db st1)) (su_id su) ?c ?f = (True, db1)" using up ok by simp
  from update_user_True [OF this] obtain row where "find_user db1 (su_id su) = Some (?f row)" by auto
  with RotateSessionTx_Some [OF rot] have "find_user db2 (su_id su) = Some (?f row)" by (simp add: find_user_def)
  moreover have "find_user (ev_other ev 0 (st_db st)) (su_id su) = Some u" "\<not> us_disabled u"
    "ev_check ev (us_password_hash u) current"
    using u by (auto simp: AuthenticateUserID_def split: option.splits if_splits)
  ultimately show ?thesis using b hash st' RotateSessionTx_Some [OF rot]
    by (intro exI [of _ current] exI [of _ new] exI [of _ hash] exI [of _ u]) auto
qed

theorem changed_password_revokes_sessions_witness:
  "\<exists>st'. ChangePassword example_env example_manager example_request
      \<lparr>su_id = 7, su_row = example_user, su_has_passkey = False, su_factor_verified = True\<rparr>
      (Some (''h'', ''new-password'')) \<lparr>st_limits = NewAuthHandler,
        st_db = example_db\<lparr>db_sessions := [''old'' \<mapsto> example_session]\<rparr>\<rparr> = (Reply_Session ''tok'', st')
    \<and> db_sessions (st_db st') ''old'' \<noteq> Some example_session"
proof -
  let ?su = "\<lparr>su_id = 7, su_row = example_user, su_has_passkey = False, su_factor_verified = True\<rparr>"
  let ?st = "\<lparr>st_limits = NewAuthHandler, st_db = example_db\<lparr>db_sessions := [''old'' \<mapsto> example_session]\<rparr>\<rparr>"
  have c: "\<exists>h. checkRateLimit id NewAuthHandler ''10.0.0.1'' ''eva'' (utc_midnight 20000) (utc_midnight 20000)
      (utc_midnight 20000) (utc_midnight 20000) = ((''eva|10.0.0.1'', None), h)"
    by (simp add: checkRateLimit_def NewAuthHandler_def NewLoginLimiter_def NewStickyLoginLimiter_def
        Consume_def Let_def)
  have "\<exists>st'. ChangePassword example_env example_manager example_request ?su (Some (''h'', ''new-password'')) ?st
      = (Reply_Session ''tok'', st')"
    using c by (auto simp: ChangePassword_def validPasswordLength_def minPasswordLen_def maxPasswordLen_def
        example_env_def example_request_def example_user_def AuthenticateUserID_def find_user_def example_db_def
        change_password_tx_def update_user_def RotateSessionTx_def newSessionMaterial_def RevokeAllSessions_def
        drop_sessions_def example_session_def Let_def)
  then obtain st' where r: "ChangePassword example_env example_manager example_request ?su (Some (''h'', ''new-password'')) ?st
      = (Reply_Session ''tok'', st')" by blast
  have k: "\<forall>k s. db_sessions (st_db st') k = Some s \<longrightarrow> ss_user s = 7 \<longrightarrow> k = ''tok''"
    using changed_password_revokes_sessions [OF r] by (auto simp: example_env_def)
  have "db_sessions (st_db st') ''old'' \<noteq> Some example_session"
    using k [rule_format, of "''old''" example_session] by (auto simp: example_session_def)
  with r show ?thesis by blast
qed

lemma length_random_chars: "random_chars n bytes = Some (cs, rest) \<Longrightarrow> length cs = n"
  by (induction n bytes arbitrary: cs rule: random_chars.induct) (auto split: if_splits option.splits)

lemma length_random_codes: "random_codes n bytes = Some cs \<Longrightarrow> length cs = n"
  by (induction n arbitrary: bytes cs) (auto split: option.splits)

lemma GenerateBackupCodesTx_Some:
  assumes "GenerateBackupCodesTx upper trim hash db next_id uid bytes f = Some (codes, db')"
  shows "length codes = backupCodeCount \<and> RemainingBackupCodes db' uid = int backupCodeCount
    \<and> db_users db' = db_users db"
proof -
  let ?hs = "map (\<lambda>(i, c). hash i (normalizeCode upper trim c)) (enumerate 0 codes)"
  let ?old = "filter (\<lambda>r. bc_user r \<noteq> uid) (db_codes db)"
  let ?new = "map (\<lambda>(i, h). \<lparr>bc_id = next_id + int i, bc_user = uid, bc_hash = the h, bc_used = False\<rparr>) (enumerate 0 ?hs)"
  have c: "random_codes backupCodeCount bytes = Some codes" "db' = db\<lparr>db_codes := ?old @ ?new\<rparr>"
    using assms by (auto simp: GenerateBackupCodesTx_def Let_def split: option.splits if_splits)
  have "filter (\<lambda>r. bc_user r = uid \<and> \<not> bc_used r) ?old = []" by (auto simp: filter_empty_conv)
  moreover have "filter (\<lambda>r. bc_user r = uid \<and> \<not> bc_used r) ?new = ?new" by (auto simp: filter_id_conv)
  ultimately have "length (unused_codes db' uid) = length codes"
    by (simp add: unused_codes_def c(2) length_enumerate)
  with c length_random_codes [OF c(1)] show ?thesis by (simp add: RemainingBackupCodes_def)
qed

text \<open>C21: enabling the second factor arms it completely. The account then has the factor, no counted
  failures and no lock, ten unused recovery codes, and the code that enabled it (with every
  older one) is refused at the next login.\<close>

theorem enabled_factor_is_armed:
  assumes "TOTPEnable ev r su body st = (Reply_Codes codes, st')"
  shows "\<exists>u step. find_user (st_db st') (su_id su) = Some u \<and> us_totp_enabled u \<and> us_totp_failures u = 0
    \<and> us_totp_locked_until u = None \<and> us_last_totp_step u = step
    \<and> length codes = backupCodeCount \<and> RemainingBackupCodes (st_db st') (su_id su) = int backupCodeCount
    \<and> (\<exists>code setup_id password. body = Some (code, setup_id, password)
        \<and> ValidateEncryptedTOTPStep (ev_decrypt ev) (ev_generate ev) (us_totp_secret u) (ev_trim ev code) (ev_clk ev 10) = Some step)
    \<and> (\<forall>old \<le> step. fst (advance_totp_step (st_db st') (su_id su) (us_totp_secret u) old) = False)"
proof -
  obtain code setup_id password where b: "body = Some (code, setup_id, password)"
    using assms by (cases body) (auto simp: TOTPEnable_def)
  obtain key st1 where tx: "totp_enable_tx ev r su code setup_id key st1 = (Reply_Codes codes, st')"
  proof -
    obtain a st0 where s: "requireStepUp ev r su password st = (a, st0)" by (metis prod.exhaust)
    have a: "a = None"
    proof (rule ccontr)
      assume "a \<noteq> None"
      then obtain rep where rep: "a = Some rep" by blast
      with assms b s have "rep = Reply_Codes codes" by (auto simp: TOTPEnable_def split: if_splits)
      with rep s show False
        by (auto simp: requireStepUp_def Let_def split: if_splits option.splits prod.splits sum.splits)
    qed
    with assms b s show thesis
      using that by (auto simp: TOTPEnable_def split: if_splits prod.splits option.splits)
  qed
  let ?db = "ev_other ev 2 (st_db st1)"
  obtain u step db1 where u: "find_user ?db (su_id su) = Some u"
    and v: "ValidateEncryptedTOTPStep (ev_decrypt ev) (ev_generate ev) (us_pending_secret u) (ev_trim ev code) (ev_clk ev 10) = Some step"
    and g: "GenerateBackupCodesTx (ev_upper ev) (ev_trim ev) (ev_bcrypt ev) ?db (ev_next_id ev)
                         (su_id su) (ev_bytes ev) (ev_fault ev 4) = Some (codes, db1)"
    and st': "st_db st' = snd (update_user db1 (su_id su) (\<lambda>_. True)
                             (\<lambda>u. u\<lparr>us_totp_secret := us_pending_secret u, us_totp_enabled := True,
                                   us_pending_secret := [], us_pending_nonce := [],
                                   us_pending_expires := None, us_totp_failures := 0,
                                   us_totp_locked_until := None, us_last_totp_step := step\<rparr>))"
    using tx by (auto simp: totp_enable_tx_def Let_def split: if_splits option.splits)
  let ?f = "\<lambda>u. u\<lparr>us_totp_secret := us_pending_secret u, us_totp_enabled := True,
                 us_pending_secret := [], us_pending_nonce := [],
                 us_pending_expires := None, us_totp_failures := 0,
                 us_totp_locked_until := None, us_last_totp_step := step\<rparr>"
  note gen = GenerateBackupCodesTx_Some [OF g]
  then have u1: "find_user db1 (su_id su) = Some u" using u by (simp add: find_user_def)
  have w: "find_user (st_db st') (su_id su) = Some (?f u) \<and> db_codes (st_db st') = db_codes db1"
    by (rule update_user_cases [of ?f db1 "su_id su" "\<lambda>_. True"]) (use u1 st' in auto)
  then have rem: "RemainingBackupCodes (st_db st') (su_id su) = RemainingBackupCodes db1 (su_id su)"
    by (simp add: RemainingBackupCodes_def unused_codes_def)
  have "fst (advance_totp_step (st_db st') (su_id su) s old) = False" if "old \<le> step" for old s
    using w that by (simp add: advance_totp_step_def update_user_def)
  with w gen rem v b show ?thesis by (intro exI [of _ "?f u"] exI [of _ step]) auto
qed

lemma random_chars_zeros:
  "n \<le> k \<Longrightarrow> random_chars n (replicate k 0) = Some (replicate n (CHR ''A''), replicate (k - n) 0)"
proof (induction n arbitrary: k)
  case (Suc n)
  then obtain j where "k = Suc j" by (cases k) auto
  with Suc show ?case by (simp add: code_limit_def codeAlphabet_def)
qed simp

lemma random_codes_zeros: "12 * n \<le> k \<Longrightarrow> \<exists>cs. random_codes n (replicate k 0) = Some cs"
proof (induction n arbitrary: k)
  case (Suc n)
  then have "12 * n \<le> k - 12" by simp
  from Suc.IH [OF this] Suc.prems show ?case
    by (auto simp: randomCode_def random_chars_zeros)
qed simp

definition setup_user :: user_row where
  "setup_user = example_user\<lparr>us_totp_enabled := False, us_pending_secret := ''p'',
     us_pending_nonce := replicate 32 (CHR ''n''), us_pending_expires := Some (utc_midnight 20001)\<rparr>"

theorem enabled_factor_is_armed_witness:
  "\<exists>codes st'. TOTPEnable (example_env\<lparr>ev_bytes := replicate 120 0\<rparr>) example_request
      \<lparr>su_id = 7, su_row = setup_user, su_has_passkey = False, su_factor_verified = False\<rparr>
      (Some (''222222'', replicate 32 (CHR ''n''), []))
      \<lparr>st_limits = NewAuthHandler, st_db = example_db\<lparr>db_users := [setup_user],
         db_sessions := [''tok'' \<mapsto> example_session]\<rparr>\<rparr> = (Reply_Codes codes, st')
    \<and> RemainingBackupCodes (st_db st') 7 = 10"
proof -
  let ?ev = "example_env\<lparr>ev_bytes := replicate 120 0\<rparr>"
  let ?su = "\<lparr>su_id = 7, su_row = setup_user, su_has_passkey = False, su_factor_verified = False\<rparr>"
  let ?db = "example_db\<lparr>db_users := [setup_user], db_sessions := [''tok'' \<mapsto> example_session]\<rparr>"
  let ?st = "\<lparr>st_limits = NewAuthHandler, st_db = ?db\<rparr>"
  let ?body = "Some (''222222'', replicate 32 (CHR ''n''), [])"
  obtain cs where cs: "random_codes backupCodeCount (replicate 120 0) = Some cs"
    using random_codes_zeros [of backupCodeCount 120] by (auto simp: backupCodeCount_def)
  obtain h where c: "checkRateLimit id NewAuthHandler ''10.0.0.1'' ''eva'' (utc_midnight 20000) (utc_midnight 20000)
      (utc_midnight 20000) (utc_midnight 20000) = ((''eva|10.0.0.1'', None), h)"
    by (simp add: checkRateLimit_def NewAuthHandler_def NewLoginLimiter_def NewStickyLoginLimiter_def
        Consume_def Let_def)
  have step_up: "requireStepUp ?ev example_request ?su [] ?st = (None, ?st)"
    by (simp add: requireStepUp_def example_env_def SessionCreatedAt_def example_request_def example_session_def
        stepUpWindow_def Let_def)
  have v: "ValidateEncryptedTOTPStep Some demo_generate ''p'' ''222222'' (utc_midnight 20000) = Some 57599999"
    by (simp add: ValidateEncryptedTOTPStep_def ValidateTOTPStep_def demo_generate_def totpPeriod_def
        unix_seconds_def time_add_def trunc_div_def)
  have name: "us_username setup_user = ''eva''" and row: "find_user ?db 7 = Some setup_user"
    and pending: "us_pending_secret setup_user = ''p''" "\<not> us_totp_enabled setup_user"
      "us_pending_nonce setup_user = replicate 32 (CHR ''n'')" "us_pending_expires setup_user = Some (utc_midnight 20001)"
    by (simp_all add: setup_user_def example_user_def find_user_def)
  obtain codes db1 where g: "GenerateBackupCodesTx id id (\<lambda>_. Some) ?db 1 7 (replicate 120 0) False = Some (codes, db1)"
  proof -
    have "None \<notin> (\<lambda>x. case x of (i, c) \<Rightarrow> Some (normalizeCode id id c)) ` set (enumerate 0 cs)" by auto
    with cs show thesis by (intro that) (simp add: GenerateBackupCodesTx_def Let_def)
  qed
  have "\<exists>codes st'. totp_enable_tx ?ev example_request ?su ''222222'' (replicate 32 (CHR ''n'')) ''eva|10.0.0.1''
      (?st\<lparr>st_limits := h\<rparr>) = (Reply_Codes codes, st')"
    using g v row pending by (simp add: totp_enable_tx_def example_env_def Let_def)
  then have "\<exists>codes st'. TOTPEnable ?ev example_request ?su ?body ?st = (Reply_Codes codes, st')"
    using step_up c name by (simp add: TOTPEnable_def validTOTPCodeLength_def maxTOTPCodeLen_def example_env_def
        example_request_def)
  then obtain codes st' where r: "TOTPEnable ?ev example_request ?su ?body ?st = (Reply_Codes codes, st')" by blast
  have "RemainingBackupCodes (st_db st') 7 = 10"
    using enabled_factor_is_armed [OF r] by (auto simp: backupCodeCount_def)
  with r show ?thesis by blast
qed

end
