(* ===== verification/Go_Date_Text.thy ===== *)
theory Go_Date_Text
  imports Go_Time Go_String
begin

text \<open>
  Dates as text: \<^verbatim>\<open>time.Parse\<close> with the layouts \<^verbatim>\<open>2006-01-02\<close>, \<^verbatim>\<open>2006-01\<close> and \<^verbatim>\<open>2006\<close>, and
  \<^verbatim>\<open>Format\<close> with the same ones. A number of a layout is read with exactly its digits.
\<close>

definition is_digit :: "char \<Rightarrow> bool" where
  "is_digit c \<longleftrightarrow> 48 \<le> (of_char c :: nat) \<and> (of_char c :: nat) \<le> 57"

definition take_num :: "nat \<Rightarrow> string \<Rightarrow> (int \<times> string) option" where
  "take_num n s =
     (if n \<le> length s \<and> list_all is_digit (take n s)
      then Some (int (digits_value (take n s)), drop n s) else None)"

definition take_char :: "char \<Rightarrow> string \<Rightarrow> string option" where
  "take_char c s = (case s of [] \<Rightarrow> None | d # ds \<Rightarrow> if d = c then Some ds else None)"

definition parse_year :: "string \<Rightarrow> time option" where
  "parse_year s =
     (case take_num 4 s of
        Some (y, []) \<Rightarrow> Some (date_utc y 1 1)
      | _ \<Rightarrow> None)"

definition parse_month :: "string \<Rightarrow> time option" where
  "parse_month s =
     (case take_num 4 s of
        None \<Rightarrow> None
      | Some (y, s) \<Rightarrow>
          (case take_char (CHR ''-'') s of
             None \<Rightarrow> None
           | Some s \<Rightarrow>
               (case take_num 2 s of
                  Some (m, []) \<Rightarrow> if 1 \<le> m \<and> m \<le> 12 then Some (date_utc y m 1) else None
                | _ \<Rightarrow> None)))"

definition parse_date :: "string \<Rightarrow> time option" where
  "parse_date s =
     (case take_num 4 s of
        None \<Rightarrow> None
      | Some (y, s) \<Rightarrow>
          (case take_char (CHR ''-'') s of
             None \<Rightarrow> None
           | Some s \<Rightarrow>
               (case take_num 2 s of
                  None \<Rightarrow> None
                | Some (m, s) \<Rightarrow>
                    (case take_char (CHR ''-'') s of
                       None \<Rightarrow> None
                     | Some s \<Rightarrow>
                         (case take_num 2 s of
                            Some (d, []) \<Rightarrow>
                              if 1 \<le> m \<and> m \<le> 12 \<and> 1 \<le> d \<and> d \<le> month_len y m
                              then Some (date_utc y m d) else None
                          | _ \<Rightarrow> None)))))"

text \<open>\<^verbatim>\<open>strconv.Atoi\<close> on texts short enough not to overflow: an optional sign and digits.\<close>

definition atoi :: "string \<Rightarrow> int option" where
  "atoi s =
     (let ds = (case s of c # cs \<Rightarrow> if c = CHR ''-'' \<or> c = CHR ''+'' then cs else s | [] \<Rightarrow> s)
      in if ds = [] \<or> \<not> list_all is_digit ds then None
         else Some (if hd s = CHR ''-'' then - int (digits_value ds) else int (digits_value ds)))"

definition format_date :: "time \<Rightarrow> string" where
  "format_date t = fmt_0d 4 (time_year t) @ ''-'' @ fmt_0d 2 (time_month t) @ ''-'' @ fmt_0d 2 (time_day t)"

definition format_month :: "time \<Rightarrow> string" where
  "format_month t = fmt_0d 4 (time_year t) @ ''-'' @ fmt_0d 2 (time_month t)"

definition format_year :: "time \<Rightarrow> string" where
  "format_year t = fmt_0d 4 (time_year t)"

subsection \<open>Reading back\<close>

lemma digits_all: "list_all is_digit (digits n)"
  using digits_range [of _ n] by (auto simp: list_all_iff is_digit_def)

lemma length_digits: "n < 10 ^ w \<Longrightarrow> 0 < w \<Longrightarrow> length (digits n) \<le> w"
proof (induction n arbitrary: w rule: digits.induct)
  case (1 n)
  show ?case
  proof (cases "n < 10")
    case True
    with 1 show ?thesis by (simp add: digits.simps [of n])
  next
    case False
    then obtain v where w: "w = Suc v" "0 < v" using 1(2,3) by (cases w; cases "w - 1") auto
    have "n div 10 < 10 ^ v" using 1(2) w by (simp add: less_mult_imp_div_less mult.commute)
    from 1(1) [OF False this w(2)] False w show ?thesis by (simp add: digits.simps [of n])
  qed
qed

lemma fmt_0d_shape:
  assumes "0 \<le> k" "k < 10 ^ w" "0 < w"
  shows "length (fmt_0d w k) = w \<and> list_all is_digit (fmt_0d w k) \<and> digits_value (fmt_0d w k) = nat k"
proof -
  have "nat k < 10 ^ w" using assms by (simp add: nat_less_iff)
  from length_digits [OF this assms(3)] have l: "length (digits (nat k)) \<le> w" .
  have "fmt_0d w k = zero_pad w (digits (nat k))" using assms(1) by (simp add: fmt_0d_def)
  moreover have "list_all is_digit (zero_pad w (digits (nat k)))"
    using digits_all [of "nat k"] by (auto simp: zero_pad_def list_all_iff is_digit_def)
  ultimately show ?thesis
    using l by (simp add: zero_pad_def [of w] digits_value_zero_pad [unfolded zero_pad_def] digits_value_digits)
qed

lemma take_num_fmt:
  assumes "0 \<le> k" "k < 10 ^ w" "0 < w"
  shows "take_num w (fmt_0d w k @ rest) = Some (k, rest)"
  using fmt_0d_shape [OF assms] assms(1) by (simp add: take_num_def)

lemma parse_format_month:
  assumes "0 \<le> y" "y \<le> 9999" "1 \<le> m" "m \<le> 12"
  shows "parse_month (fmt_0d 4 y @ ''-'' @ fmt_0d 2 m) = Some (date_utc y m 1)"
  using assms take_num_fmt [of y 4 "''-'' @ fmt_0d 2 m"] take_num_fmt [of m 2 "[]"]
  by (simp add: parse_month_def take_char_def)

lemma parse_format_year:
  assumes "0 \<le> y" "y \<le> 9999"
  shows "parse_year (fmt_0d 4 y) = Some (date_utc y 1 1)"
  using assms take_num_fmt [of y 4 "[]"] by (simp add: parse_year_def)

lemma parse_format_date:
  assumes "0 \<le> y" "y \<le> 9999" "1 \<le> m" "m \<le> 12" "1 \<le> d" "d \<le> month_len y m"
  shows "parse_date (fmt_0d 4 y @ ''-'' @ fmt_0d 2 m @ ''-'' @ fmt_0d 2 d) = Some (date_utc y m d)"
proof -
  have "d < 100" using assms(6) month_len_bounds [OF assms(3,4), of y] by simp
  with assms show ?thesis
    using take_num_fmt [of y 4 "''-'' @ fmt_0d 2 m @ ''-'' @ fmt_0d 2 d"]
      take_num_fmt [of m 2 "''-'' @ fmt_0d 2 d"] take_num_fmt [of d 2 "[]"]
    by (simp add: parse_date_def take_char_def)
qed

end
