(* ===== verification/Settlement_Model.thy ===== *)
theory Settlement_Model
  imports Billing_Facts Go_Date_Text
begin

text \<open>
  What a person owes: the arithmetic of \<^verbatim>\<open>internal/handlers/stats.go\<close>, the ownership rule of
  \<^verbatim>\<open>agreements.go\<close> and the sums of \<^verbatim>\<open>recurring.go\<close>. Rows read from the tables are arguments; a sum
  over NUMERIC columns is exact in the database, so it arrives as the double nearest to its cents.
  Go adds doubles in the order of its loops, and so do the definitions.
\<close>

definition round2 :: "float64 \<Rightarrow> float64" where
  "round2 f = f_div (f_of_int (go_round (f_mul f 100))) 100"

text \<open>\<^verbatim>\<open>x += c1; x += c2; ...\<close>, starting from \<open>a\<close>.\<close>

definition f_sum :: "float64 \<Rightarrow> float64 list \<Rightarrow> float64" where
  "f_sum a xs = foldl f_add a xs"

subsection \<open>Identity of a position\<close>

definition lockKey :: "string \<Rightarrow> int \<Rightarrow> string \<Rightarrow> string" where
  "lockKey kind refID period = kind @ '':'' @ fmt_int refID @ '':'' @ period"

definition periodKeySet :: "string list \<Rightarrow> string \<Rightarrow> bool" where
  "periodKeySet ks k \<longleftrightarrow> k \<in> set ks"

definition periodPaymentNote :: "string \<Rightarrow> string \<Rightarrow> string" where
  "periodPaymentNote kind period =
     (if kind = ''agreement'' then ''Pauschale'' else if kind = ''recurring'' then ''Nebenkosten'' else ''Periode'')
       @ '' '' @ period @ '' (Slider)''"

definition businessDay :: "time \<Rightarrow> time" where
  "businessDay t = add_date (DayAfter t) 0 0 (- 1)"

subsection \<open>Months that add up to the year\<close>

definition bump_cents :: "nat list \<Rightarrow> int \<Rightarrow> int list \<Rightarrow> nat \<Rightarrow> int list" where
  "bump_cents order step cents k =
     (let i = order ! (k mod length order) in cents[i := cents ! i + step])"

definition reconcileMonthsToYear :: "float64 list \<Rightarrow> float64 \<Rightarrow> float64 list" where
  "reconcileMonthsToYear months yearTotal =
     (let cents = map (\<lambda>m. go_round (f_mul m 100)) months;
          residual = go_round (f_mul yearTotal 100) - sum_list cents
      in if residual = 0 \<or> months = [] then months
         else let order = sort_key (\<lambda>i. - (cents ! i)) [0..<length months];
                  step = (if residual < 0 then - 1 else 1);
                  n = nat \<bar>residual\<bar>
              in map (\<lambda>c. f_div (f_of_int c) 100) (foldl (bump_cents order step) cents [0..<n]))"

subsection \<open>Settlement of charges and periods\<close>

definition chargeSettled ::
  "flat_rate_period list \<Rightarrow> int option \<Rightarrow> time \<Rightarrow> bool \<Rightarrow> bool \<Rightarrow> bool" where
  "chargeSettled agreements vehicleID chargedOn ownPaid vehiclePaid =
     (case vehicleID of
        None \<Rightarrow> ownPaid
      | Some v \<Rightarrow>
          (if \<exists>a \<in> set agreements. Covers a v \<and> ActiveAt a chargedOn \<and> PeriodPaidAt a chargedOn
           then True else vehiclePaid))"

definition charge_total :: "float64 \<Rightarrow> float64 \<Rightarrow> float64" where
  "charge_total amount qty = round2 (f_mul amount (if qty \<le> 0 then 1 else qty))"

definition chargeAmounts ::
  "flat_rate_period list \<Rightarrow> (int \<Rightarrow> bool) \<Rightarrow> int option \<Rightarrow> float64 \<Rightarrow> float64 \<Rightarrow> time \<Rightarrow> bool \<Rightarrow> float64 \<times> float64" where
  "chargeAmounts agreements vehPaid vid amount qty chargedOn ownPaid =
     (let total = charge_total amount qty;
          vp = (case vid of None \<Rightarrow> False | Some v \<Rightarrow> vehPaid v)
      in (total, if chargeSettled agreements vid chargedOn ownPaid vp then total else 0))"

record charge_row =
  cg_vehicle :: "int option"
  cg_amount :: float64
  cg_quantity :: float64
  cg_charged_on :: time
  cg_paid :: bool

definition personChargeSums :: "flat_rate_period list \<Rightarrow> (int \<Rightarrow> bool) \<Rightarrow> charge_row list \<Rightarrow> float64" where
  "personChargeSums agreements vehPaid rows =
     f_sum 0 (map (\<lambda>c. fst (chargeAmounts agreements vehPaid (cg_vehicle c) (cg_amount c)
       (cg_quantity c) (cg_charged_on c) (cg_paid c))) rows)"

text \<open>What one elapsed period of an accrual credits off the books: nothing when a payment settles
  it, only a fixed part when an invoice bills it, otherwise its cost or its fixed part.\<close>

definition fixed_credit :: "flat_rate_period \<Rightarrow> open_period \<Rightarrow> float64 list" where
  "fixed_credit p per =
     (case fp_PaidFixed p (op_Key per) of
        None \<Rightarrow> []
      | Some fx \<Rightarrow> [if fx < op_Cost per then fx else op_Cost per])"

definition period_credit ::
  "flat_rate_period \<Rightarrow> string \<Rightarrow> int \<Rightarrow> (string \<Rightarrow> bool) \<Rightarrow> (string \<Rightarrow> bool) \<Rightarrow> open_period \<Rightarrow> float64 list" where
  "period_credit p kind refID locked settled per =
     (if settled (lockKey kind refID (op_Key per)) then []
      else if locked (lockKey kind refID (op_Key per)) then fixed_credit p per
      else if fp_Paid p \<or> periodKeySet (fp_PaidPeriods p) (op_Key per) then [op_Cost per]
      else fixed_credit p per)"

definition periodPaidUnlocked ::
  "flat_rate_period \<Rightarrow> string \<Rightarrow> int \<Rightarrow> time \<Rightarrow> (string \<Rightarrow> bool) \<Rightarrow> (string \<Rightarrow> bool) \<Rightarrow> float64" where
  "periodPaidUnlocked p kind refID now locked settled =
     f_sum 0 (concat (map (period_credit p kind refID locked settled) (ElapsedPeriodsDetailed p now)))"

definition personPeriodPaid ::
  "flat_rate_period list \<Rightarrow> recurring_charge list \<Rightarrow> time \<Rightarrow> (string \<Rightarrow> bool) \<Rightarrow> (string \<Rightarrow> bool) \<Rightarrow> float64" where
  "personPeriodPaid agreements recurs now locked settled =
     round2 (f_sum 0
       (map (\<lambda>a. periodPaidUnlocked a ''agreement'' (fp_ID a) now locked settled) agreements
        @ map (\<lambda>r. periodPaidUnlocked (recurring_AsPeriod r) ''recurring'' (rg_ID r) now locked settled) recurs))"

definition periodCostForKey :: "flat_rate_period \<Rightarrow> string \<Rightarrow> time \<Rightarrow> float64 option" where
  "periodCostForKey p key now =
     map_option op_Cost (find (\<lambda>per. op_Key per = key) (ElapsedPeriodsDetailed p now))"

definition periodPaymentAmount :: "flat_rate_period \<Rightarrow> string \<Rightarrow> float64 option \<Rightarrow> time \<Rightarrow> float64 option" where
  "periodPaymentAmount p periodKey amount now =
     (case amount of
        Some x \<Rightarrow> Some x
      | None \<Rightarrow>
          (case find (\<lambda>per. op_Key per = periodKey) (ElapsedPeriodsDetailed p now) of
             None \<Rightarrow> None
           | Some per \<Rightarrow> if op_Complete per then Some (op_Cost per) else None))"

subsection \<open>Rent and recurring costs\<close>

text \<open>Ownership: a vehicle covered by any agreement that had not ended when it started bills nothing.\<close>

definition coveringAgreements :: "flat_rate_period list \<Rightarrow> int \<Rightarrow> time \<Rightarrow> flat_rate_period list" where
  "coveringAgreements agreements vehicleID vehicleStart =
     filter (\<lambda>a. Covers a vehicleID \<and>
       \<not> (case fp_EndDate a of None \<Rightarrow> False | Some e \<Rightarrow> after vehicleStart e)) agreements"

definition personRent ::
  "flat_rate_period list \<Rightarrow> vehicle list \<Rightarrow> (int \<Rightarrow> category) \<Rightarrow> time \<Rightarrow> time \<Rightarrow> float64" where
  "personRent agreements vehicles cats frm to =
     f_sum 0 (map (\<lambda>a. CostInRange a frm to) agreements
       @ map (\<lambda>v. vehicle_CostInRange v (cats (vh_CategoryID v)) frm to)
           (filter (\<lambda>v. coveringAgreements agreements (vh_ID v) (vh_StartDate v) = []) vehicles))"

definition vehiclePaidMap :: "vehicle list \<Rightarrow> int \<Rightarrow> bool" where
  "vehiclePaidMap vehicles vid = fold (\<lambda>v m. m(vh_ID v := vh_Paid v)) vehicles (\<lambda>_. False) vid"

text \<open>\<^verbatim>\<open>recurringPaidBound\<close> ranges over a Go map; \<open>keys\<close> is the order the run takes.\<close>

definition bound_period_date :: "recurring_charge \<Rightarrow> string \<Rightarrow> time option" where
  "bound_period_date rc key =
     map_option (\<lambda>d. if before d (rg_StartDate rc) then rg_StartDate rc else d)
       (if rg_Period rc = BillingYearly then parse_year key else parse_month key)"

definition recurringPaidBound ::
  "string list \<Rightarrow> recurring_charge \<Rightarrow> flat_rate_period list \<Rightarrow> bool \<Rightarrow> time \<Rightarrow> float64" where
  "recurringPaidBound keys rc agreements vehiclePaid now =
     (let costs = ElapsedPeriodCosts (recurring_AsPeriod rc) now
      in round2 (f_sum 0 (concat (map (\<lambda>key.
        case (costs key, bound_period_date rc key) of
          (Some cost, Some d) \<Rightarrow>
            if chargeSettled agreements (rg_VehicleID rc) d False vehiclePaid then [cost] else []
        | _ \<Rightarrow> []) keys))))"

definition recurring_accrued :: "recurring_charge list \<Rightarrow> time \<Rightarrow> float64" where
  "recurring_accrued list now =
     round2 (f_sum 0 (map (\<lambda>rc. CostInRange (recurring_AsPeriod rc) (fp_StartDate (recurring_AsPeriod rc))
       (DayAfter now)) list))"

definition recurringMonthly :: "recurring_charge list \<Rightarrow> int \<Rightarrow> time \<Rightarrow> float64 list" where
  "recurringMonthly list year now =
     map (\<lambda>m. f_sum 0 (concat (map (\<lambda>rc.
        let mStart = date_utc year (m + 1) 1; mEnd = add_date mStart 0 1 0;
            mEnd = (if after mEnd (DayAfter now) then DayAfter now else mEnd)
        in if after mEnd mStart then [CostInRange (recurring_AsPeriod rc) mStart mEnd] else []) list)))
       [0..11]"

definition personMonthly ::
  "flat_rate_period list \<Rightarrow> vehicle list \<Rightarrow> (int \<Rightarrow> category) \<Rightarrow> int \<Rightarrow> time \<Rightarrow> float64 list" where
  "personMonthly agreements vehicles cats year now =
     map (\<lambda>m.
        let frm = date_utc year (m + 1) 1; to = add_date frm 0 1 0;
            to = (if after to (DayAfter now) then DayAfter now else to)
        in if \<not> after to frm then 0 else round2 (personRent agreements vehicles cats frm to)) [0..11]"

definition personYears ::
  "flat_rate_period list \<Rightarrow> vehicle list \<Rightarrow> (int \<Rightarrow> category) \<Rightarrow> time \<Rightarrow> (int \<times> float64) list" where
  "personYears agreements vehicles cats now =
     (let startYear = foldl min (time_year now)
            (map (\<lambda>v. time_year (vh_StartDate v)) vehicles @ map (\<lambda>a. time_year (fp_StartDate a)) agreements)
      in concat (map (\<lambda>y.
           let frm = date_utc y 1 1; to = date_utc (y + 1) 1 1;
               to = (if after to (DayAfter now) then DayAfter now else to);
               c = round2 (personRent agreements vehicles cats frm to)
           in if \<not> after to frm then [] else if 0 < c then [(y, c)] else [])
         (rev [startYear..time_year now])))"

subsection \<open>The open balance\<close>

text \<open>The balance of \<^verbatim>\<open>PersonStats\<close>.\<close>

record person_rows =
  pr_agreements :: "flat_rate_period list"
  pr_vehicles :: "vehicle list"
  pr_charges :: "charge_row list"
  pr_recurring :: "recurring_charge list"
  pr_payments :: int
  pr_invoiced_tax :: int
  pr_locked :: "string \<Rightarrow> bool"
  pr_settled :: "string \<Rightarrow> bool"

definition stats_balance :: "person_rows \<Rightarrow> (int \<Rightarrow> category) \<Rightarrow> time \<Rightarrow> float64" where
  "stats_balance p cats now =
     (let rentAccrued = personRent (pr_agreements p) (pr_vehicles p) cats zero_time (DayAfter now);
          totalCharges = personChargeSums (pr_agreements p) (vehiclePaidMap (pr_vehicles p)) (pr_charges p);
          recAccrued = recurring_accrued (pr_recurring p) now;
          TotalAccrued = round2 rentAccrued;
          TotalCharges = round2 (f_add totalCharges recAccrued);
          PaymentsTotal = round2 (euros (pr_payments p));
          InvoicedTax = round2 (euros (pr_invoiced_tax p));
          PeriodPaid = personPeriodPaid (pr_agreements p) (pr_recurring p) now (pr_locked p) (pr_settled p)
      in round2 (f_sub (f_sub (f_add (f_add TotalAccrued TotalCharges) InvoicedTax) PaymentsTotal) PeriodPaid))"

definition stats_credit :: "float64 \<Rightarrow> float64" where
  "stats_credit balance = (let c = round2 (- balance) in if c < 0 then 0 else c)"

text \<open>The tables the two pages read; \<open>rows_of\<close> is what the queries of one person return.\<close>

record books =
  bk_agreements :: "flat_rate_period list"
  bk_vehicles :: "vehicle list"
  bk_charges :: "(int \<times> charge_row) list"
  bk_recurring :: "recurring_charge list"
  bk_payments :: "int \<rightharpoonup> int"
  bk_invoiced_tax :: "int \<rightharpoonup> int"
  bk_locked :: "int \<Rightarrow> string \<Rightarrow> bool"
  bk_settled :: "int \<Rightarrow> string \<Rightarrow> bool"

definition cents_or_0 :: "(int \<rightharpoonup> int) \<Rightarrow> int \<Rightarrow> int" where
  "cents_or_0 m pid = (case m pid of None \<Rightarrow> 0 | Some c \<Rightarrow> c)"

definition rows_of :: "books \<Rightarrow> int \<Rightarrow> person_rows" where
  "rows_of bk pid =
     \<lparr>pr_agreements = filter (\<lambda>a. fp_PersonID a = pid) (bk_agreements bk),
      pr_vehicles = filter (\<lambda>v. vh_PersonID v = pid) (bk_vehicles bk),
      pr_charges = map snd (filter (\<lambda>c. fst c = pid) (bk_charges bk)),
      pr_recurring = filter (\<lambda>r. rg_PersonID r = pid) (bk_recurring bk),
      pr_payments = cents_or_0 (bk_payments bk) pid,
      pr_invoiced_tax = cents_or_0 (bk_invoiced_tax bk) pid,
      pr_locked = bk_locked bk pid, pr_settled = bk_settled bk pid\<rparr>"

text \<open>\<^verbatim>\<open>outstandingByPerson\<close>: one pass over all rows; \<open>sel\<close> is the person asked for, 0 for all.\<close>

definition charges_by_person ::
  "(int \<Rightarrow> flat_rate_period list) \<Rightarrow> (int \<Rightarrow> bool) \<Rightarrow> (int \<times> charge_row) list \<Rightarrow> (int \<rightharpoonup> float64)" where
  "charges_by_person ags vehPaid rows =
     foldl (\<lambda>m (pid, c). m(pid \<mapsto> f_add (case m pid of None \<Rightarrow> 0 | Some x \<Rightarrow> x)
       (fst (chargeAmounts (ags pid) vehPaid (cg_vehicle c) (cg_amount c) (cg_quantity c) (cg_charged_on c) (cg_paid c)))))
       Map.empty rows"

definition outstandingByPerson :: "books \<Rightarrow> (int \<Rightarrow> category) \<Rightarrow> int \<Rightarrow> time \<Rightarrow> int \<Rightarrow> float64 option" where
  "outstandingByPerson bk cats sel now pid =
     (let scope = (\<lambda>p. sel = 0 \<or> p = sel);
          vehicles = filter (\<lambda>v. scope (vh_PersonID v)) (bk_vehicles bk);
          agreements = filter (\<lambda>a. scope (fp_PersonID a)) (bk_agreements bk);
          recurs = filter (\<lambda>r. scope (rg_PersonID r)) (bk_recurring bk);
          agByPerson = (\<lambda>q. filter (\<lambda>a. fp_PersonID a = q) agreements);
          vehByPerson = (\<lambda>q. filter (\<lambda>v. vh_PersonID v = q) vehicles);
          recurByPerson = (\<lambda>q. filter (\<lambda>r. rg_PersonID r = q) recurs);
          oneOff = charges_by_person agByPerson (vehiclePaidMap vehicles) (filter (\<lambda>c. scope (fst c)) (bk_charges bk));
          chargesByPerson = (\<lambda>q. if recurByPerson q = [] then oneOff q
            else Some (f_add (case oneOff q of None \<Rightarrow> 0 | Some x \<Rightarrow> x) (recurring_accrued (recurByPerson q) now)));
          listed = (if sel \<noteq> 0 then pid = sel
            else vehByPerson pid \<noteq> [] \<or> agByPerson pid \<noteq> [] \<or> chargesByPerson pid \<noteq> None \<or> bk_invoiced_tax bk pid \<noteq> None);
          tAcc = personRent (agByPerson pid) (vehByPerson pid) cats zero_time (DayAfter now);
          owed = f_sub (f_sub (f_add (f_add tAcc (case chargesByPerson pid of None \<Rightarrow> 0 | Some x \<Rightarrow> x))
              (euros (cents_or_0 (bk_invoiced_tax bk) pid))) (euros (cents_or_0 (bk_payments bk) pid)))
            (personPeriodPaid (agByPerson pid) (recurByPerson pid) now (bk_locked bk pid) (bk_settled bk pid))
      in if listed then Some (round2 owed) else None)"

end
