(* ===== verification/Settlement_Facts.thy ===== *)
theory Settlement_Facts
  imports Settlement_Model Billing_Properties
begin

text \<open>
  Sums of euro amounts in doubles never lose a cent: \<open>near n x c\<close> says that the double \<open>x\<close> stands
  for \<open>c\<close> cents after \<open>n\<close> operations, each of which is off by at most a quarter of a millionth of
  a euro while the amounts stay below a billion euros. Up to ten thousand operations are read
  back exactly by \<open>round2\<close>.
\<close>

definition near :: "int \<Rightarrow> float64 \<Rightarrow> int \<Rightarrow> bool" where
  "near n x c \<longleftrightarrow> 0 \<le> n \<and> n \<le> 10000 \<and> \<bar>c\<bar> \<le> 10 ^ 11 \<and> \<bar>x - of_int c / 100\<bar> \<le> of_int n / 4000000"

lemma nearD:
  assumes "near n x c"
  shows "\<bar>x - of_int c / 100\<bar> \<le> of_int n / 4000000" "0 \<le> n" "n \<le> 10000" "\<bar>c\<bar> \<le> 10 ^ 11"
  using assms by (simp_all only: near_def)

lemma off_bounds:
  assumes "\<bar>x - of_int c / 100\<bar> \<le> of_int n / 4000000" "n \<le> 10000" "\<bar>c\<bar> \<le> 10 ^ 11"
  shows "\<bar>x\<bar> \<le> (1000000001 :: rat)"
proof -
  define e d :: rat where "e = of_int n / 4000000" and "d = of_int c / 100"
  have "\<bar>(of_int c :: rat)\<bar> \<le> 10 ^ 11"
    using assms(3) by (metis of_int_abs of_int_le_iff of_int_numeral of_int_power)
  then have "\<bar>d\<bar> \<le> 1000000000" by (simp add: d_def)
  moreover have "e \<le> 1 / 400" using assms(2) by (simp add: e_def)
  ultimately show ?thesis using assms(1) unfolding d_def [symmetric] e_def [symmetric] by linarith
qed

lemma near_fl:
  assumes "\<bar>x - of_int c / 100\<bar> \<le> of_int n / 4000000" "0 \<le> n" "n + 1 \<le> 10000" "\<bar>c\<bar> \<le> 10 ^ 11"
  shows "near (n + 1) (fl x) c"
proof -
  define e d :: rat where "e = of_int n / 4000000" and "d = of_int c / 100"
  have "\<bar>x\<bar> \<le> 1000000001" using off_bounds [OF assms(1) _ assms(4)] assms(3) by simp
  then have "\<bar>x\<bar> / 2 ^ 53 \<le> 1 / 4000000" by simp
  with fl_error [of x] assms(1) have "\<bar>fl x - d\<bar> \<le> e + 1 / 4000000"
    unfolding d_def [symmetric] e_def [symmetric] by linarith
  then show ?thesis using assms by (simp add: near_def add_divide_distrib d_def e_def)
qed

lemma near_euros: "\<bar>c\<bar> \<le> 10 ^ 11 \<Longrightarrow> near 1 (euros c) c"
  using near_fl [of "of_int c / 100" c 0] by (simp add: euros_eq)

lemma near_0: "near 0 0 0"
  by (simp add: near_def)

lemma near_add:
  assumes "near n x c" "near m y d" "n + m + 1 \<le> 10000" "\<bar>c + d\<bar> \<le> 10 ^ 11"
  shows "near (n + m + 1) (f_add x y) (c + d)"
proof -
  define a b e f :: rat where "a = of_int c / 100" and "b = of_int d / 100"
    and "e = of_int n / 4000000" and "f = of_int m / 4000000"
  have "\<bar>x - a\<bar> \<le> e" "\<bar>y - b\<bar> \<le> f" using nearD(1) [OF assms(1)] nearD(1) [OF assms(2)]
    by (simp_all only: a_def b_def e_def f_def)
  then have "\<bar>x + y - (a + b)\<bar> \<le> e + f" by linarith
  then have "\<bar>x + y - of_int (c + d) / 100\<bar> \<le> of_int (n + m) / 4000000"
    by (simp add: add_divide_distrib diff_divide_distrib a_def b_def e_def f_def)
  from near_fl [OF this] assms nearD(2) [OF assms(1)] nearD(2) [OF assms(2)] show ?thesis
    by (simp add: f_add_def)
qed

lemma near_sub:
  assumes "near n x c" "near m y d" "n + m + 1 \<le> 10000" "\<bar>c - d\<bar> \<le> 10 ^ 11"
  shows "near (n + m + 1) (f_sub x y) (c - d)"
proof -
  define a b e f :: rat where "a = of_int c / 100" and "b = of_int d / 100"
    and "e = of_int n / 4000000" and "f = of_int m / 4000000"
  have "\<bar>x - a\<bar> \<le> e" "\<bar>y - b\<bar> \<le> f" using nearD(1) [OF assms(1)] nearD(1) [OF assms(2)]
    by (simp_all only: a_def b_def e_def f_def)
  then have "\<bar>x - y - (a - b)\<bar> \<le> e + f" by linarith
  then have "\<bar>x - y - of_int (c - d) / 100\<bar> \<le> of_int (n + m) / 4000000"
    by (simp add: add_divide_distrib diff_divide_distrib a_def b_def e_def f_def)
  from near_fl [OF this] assms nearD(2) [OF assms(1)] nearD(2) [OF assms(2)] show ?thesis
    by (simp add: f_sub_def)
qed

lemma near_cents: "near n x c \<Longrightarrow> go_round (f_mul x 100) = c"
proof -
  assume n: "near n x c"
  have "(of_int n :: rat) / 4000000 \<le> 1 / 400" using n by (simp add: near_def)
  then have "\<bar>x - of_int c / 100\<bar> \<le> 1 / 400" using n by (simp add: near_def)
  moreover have "\<bar>c\<bar> \<le> 2 ^ 50" using n by (simp add: near_def)
  ultimately show ?thesis by (rule cents_near)
qed

lemma near_round2: "near n x c \<Longrightarrow> round2 x = euros c"
  by (simp add: round2_def near_cents euros_def)

lemma near_toCents: "near n x c \<Longrightarrow> toCents x = c"
  by (simp add: toCents_def near_cents)

lemma round2_euros [simp]: "\<bar>c\<bar> \<le> 10 ^ 11 \<Longrightarrow> round2 (euros c) = euros c"
  by (rule near_round2 [OF near_euros])

lemma near_mono: "near n x c \<Longrightarrow> n \<le> m \<Longrightarrow> m \<le> 10000 \<Longrightarrow> near m x c"
proof -
  assume a: "near n x c" "n \<le> m" "m \<le> 10000"
  have "(of_int n :: rat) / 4000000 \<le> of_int m / 4000000" using a(2) by (simp add: divide_right_mono)
  with a show ?thesis by (simp add: near_def)
qed

text \<open>A sum in the order of a loop, over euro amounts.\<close>

lemma f_sum_Cons [simp]: "f_sum a (x # xs) = f_sum (f_add a x) xs"
  and f_sum_Nil [simp]: "f_sum a [] = a"
  by (simp_all add: f_sum_def)

lemma f_sum_append: "f_sum a (xs @ ys) = f_sum (f_sum a xs) ys"
  by (simp add: f_sum_def)

lemma near_f_sum:
  assumes "near n a c" "n + 2 * int (length cs) \<le> 10000"
    and "\<bar>c\<bar> + (\<Sum>x \<leftarrow> cs. \<bar>x\<bar>) \<le> 10 ^ 11"
  shows "near (n + 2 * int (length cs)) (f_sum a (map euros cs)) (c + sum_list cs)"
  using assms
proof (induction cs arbitrary: n a c)
  case (Cons x cs)
  have s: "0 \<le> (\<Sum>x \<leftarrow> cs. \<bar>x\<bar>)" by (intro sum_list_int_nonneg) auto
  have "near 1 (euros x) x" using Cons.prems(3) s by (intro near_euros) simp
  moreover have "\<bar>c + x\<bar> \<le> 10 ^ 11" using Cons.prems(3) s by simp
  ultimately have "near (n + 1 + 1) (f_add a (euros x)) (c + x)"
    using Cons.prems(1,2) by (intro near_add) auto
  then have "near ((n + 1 + 1) + 2 * int (length cs)) (f_sum (f_add a (euros x)) (map euros cs)) (c + x + sum_list cs)"
    using Cons.prems(2,3) by (intro Cons.IH) auto
  then show ?case by (simp add: algebra_simps)
qed simp

lemma f_sum_euros:
  assumes "length cs \<le> 4999" "(\<Sum>x \<leftarrow> cs. \<bar>x\<bar>) \<le> 10 ^ 11"
  shows "near (2 * int (length cs)) (f_sum 0 (map euros cs)) (sum_list cs)"
  using near_f_sum [OF near_0, of cs] assms by simp

end
