(* ===== verification/Settlement_Properties.thy ===== *)
theory Settlement_Properties
  imports Settlement_Facts
begin

text \<open>
  What the balance of a person is: the exact sum of whole cents of its items, however the doubles
  are added up, and the same figure on every page. The specification \<open>exact_balance\<close> adds
  integers; the lemmas read each item of \<^verbatim>\<open>internal/handlers/stats.go\<close> as its cents.
\<close>

subsection \<open>Items in cents\<close>

definition cost_cents :: "flat_rate_period \<Rightarrow> time \<Rightarrow> time \<Rightarrow> int" where
  "cost_cents a frm to = (\<Sum>(sl, key) \<leftarrow> subPeriods a frm to. sliceCents a sl)"

lemma cost_cents_walk:
  "cost_cents a frm to = (case window a frm to of (s, e) \<Rightarrow>
     \<Sum>sl \<leftarrow> walkSubPeriods (fp_Period a) s e. sliceCents a sl)"
  by (simp add: cost_cents_def subPeriods_def comp_def case_prod_unfold)

lemma CostInRange_cents: "CostInRange a frm to = euros (cost_cents a frm to)"
proof -
  obtain s e where w: "window a frm to = (s, e)" by (cases "window a frm to")
  have p: "sliceCents a = slice_share (toCents (fp_Amount a))"
    if "fp_RateChanges a = []" "fp_Pauses a = []"
    using that by (auto simp: sliceCents_def fun_eq_iff)
  show ?thesis
  proof (cases "after e s")
    case True
    then show ?thesis
      by (cases "fp_RateChanges a = [] \<and> fp_Pauses a = []")
        (auto simp: CostInRange_def cost_cents_walk w prorate_eq p euros_def)
  next
    case False
    then show ?thesis by (simp add: CostInRange_def cost_cents_walk w walkSubPeriods_def)
  qed
qed

definition vehicle_cents :: "(int \<Rightarrow> category) \<Rightarrow> time \<Rightarrow> time \<Rightarrow> vehicle \<Rightarrow> int" where
  "vehicle_cents cats frm to v = cost_cents (vehicle_AsPeriod v (cats (vh_CategoryID v))) frm to"

definition own_vehicles :: "flat_rate_period list \<Rightarrow> vehicle list \<Rightarrow> vehicle list" where
  "own_vehicles ags vs = filter (\<lambda>v. coveringAgreements ags (vh_ID v) (vh_StartDate v) = []) vs"

definition rent_items :: "flat_rate_period list \<Rightarrow> vehicle list \<Rightarrow> (int \<Rightarrow> category) \<Rightarrow> time \<Rightarrow> time \<Rightarrow> int list" where
  "rent_items ags vs cats frm to =
     map (\<lambda>a. cost_cents a frm to) ags @ map (vehicle_cents cats frm to) (own_vehicles ags vs)"

lemma personRent_items: "personRent ags vs cats frm to = f_sum 0 (map euros (rent_items ags vs cats frm to))"
  by (simp add: personRent_def rent_items_def CostInRange_cents vehicle_CostInRange_def
      vehicle_cents_def own_vehicles_def comp_def)

definition charge_cents :: "charge_row \<Rightarrow> int" where
  "charge_cents c = toCents (f_mul (cg_amount c) (if cg_quantity c \<le> 0 then 1 else cg_quantity c))"

lemma personChargeSums_items: "personChargeSums ags vp cs = f_sum 0 (map euros (map charge_cents cs))"
  by (simp add: personChargeSums_def chargeAmounts_def charge_total_def round2_def charge_cents_def
      toCents_def euros_def Let_def comp_def)

definition recurring_cents :: "time \<Rightarrow> recurring_charge \<Rightarrow> int" where
  "recurring_cents now rc = cost_cents (recurring_AsPeriod rc) (rg_StartDate rc) (DayAfter now)"

lemma recurring_accrued_items:
  "recurring_accrued rs now = round2 (f_sum 0 (map euros (map (recurring_cents now) rs)))"
  by (simp add: recurring_accrued_def CostInRange_cents recurring_cents_def recurring_AsPeriod_def comp_def)

text \<open>The credit of one elapsed period, in cents.\<close>

definition fixed_cents :: "flat_rate_period \<Rightarrow> string \<Rightarrow> int \<Rightarrow> int list" where
  "fixed_cents p key cost = (case fp_PaidFixed p key of None \<Rightarrow> [] | Some fx \<Rightarrow> [min (toCents fx) cost])"

definition credit_cents ::
  "flat_rate_period \<Rightarrow> string \<Rightarrow> int \<Rightarrow> (string \<Rightarrow> bool) \<Rightarrow> (string \<Rightarrow> bool) \<Rightarrow> slice \<times> string \<Rightarrow> int list" where
  "credit_cents p kind ref locked settled sk =
     (case sk of (sl, key) \<Rightarrow>
       if settled (lockKey kind ref key) then []
       else if locked (lockKey kind ref key) then fixed_cents p key (sliceCents p sl)
       else if fp_Paid p \<or> periodKeySet (fp_PaidPeriods p) key then [sliceCents p sl]
       else fixed_cents p key (sliceCents p sl))"

definition credit_items ::
  "flat_rate_period \<Rightarrow> string \<Rightarrow> int \<Rightarrow> time \<Rightarrow> (string \<Rightarrow> bool) \<Rightarrow> (string \<Rightarrow> bool) \<Rightarrow> int list" where
  "credit_items p kind ref now locked settled =
     concat (map (credit_cents p kind ref locked settled) (subPeriods p (fp_StartDate p) (DayAfter now)))"

text \<open>Amounts of the columns: whole cents, below a billion euros.\<close>

definition whole_cents :: "flat_rate_period \<Rightarrow> time \<Rightarrow> bool" where
  "whole_cents p now \<longleftrightarrow>
     (\<forall>(sl, key) \<in> set (subPeriods p (fp_StartDate p) (DayAfter now)).
        \<bar>sliceCents p sl\<bar> \<le> 10 ^ 11 \<and>
        (case fp_PaidFixed p key of None \<Rightarrow> True | Some fx \<Rightarrow> fx = euros (toCents fx) \<and> \<bar>toCents fx\<bar> \<le> 10 ^ 11))"

lemma euros_less_iff:
  assumes "\<bar>a\<bar> \<le> 10 ^ 11" "\<bar>b\<bar> \<le> 10 ^ 11"
  shows "euros a < euros b \<longleftrightarrow> a < b"
proof -
  define x y :: rat where "x = of_int a / 100" and "y = of_int b / 100"
  have n: "\<bar>euros a - x\<bar> \<le> 1 / 4000000" "\<bar>euros b - y\<bar> \<le> 1 / 4000000"
    using nearD(1) [OF near_euros [OF assms(1)]] nearD(1) [OF near_euros [OF assms(2)]]
    by (simp_all add: x_def y_def)
  have gap: "of_int i / 100 + 1 / 100 \<le> (of_int j / 100 :: rat)" if "i < j" for i j :: int
  proof -
    from that have "(of_int (i + 1) :: rat) \<le> of_int j" by (simp only: of_int_le_iff)
    then show ?thesis by simp
  qed
  show ?thesis
  proof (cases a b rule: linorder_cases)
    case less
    from n gap [OF this, folded x_def y_def] have "euros a < euros b" by linarith
    with less show ?thesis by simp
  next
    case greater
    from n gap [OF this, folded x_def y_def] have "euros b < euros a" by linarith
    with greater show ?thesis by simp
  qed simp
qed

lemma fixed_credit_cents:
  assumes "\<bar>s\<bar> \<le> 10 ^ 11" "op_Cost per = euros s" "op_Key per = key"
    and "case fp_PaidFixed p key of None \<Rightarrow> True | Some fx \<Rightarrow> fx = euros (toCents fx) \<and> \<bar>toCents fx\<bar> \<le> 10 ^ 11"
  shows "fixed_credit p per = map euros (fixed_cents p key s)"
proof (cases "fp_PaidFixed p key")
  case (Some fx)
  then have f: "fx = euros (toCents fx)" "\<bar>toCents fx\<bar> \<le> 10 ^ 11" using assms(4) by simp_all
  have "fx < euros s \<longleftrightarrow> toCents fx < s" using euros_less_iff [OF f(2) assms(1)] f(1) by simp
  then show ?thesis using Some assms(2,3) f(1)
    by (auto simp: fixed_credit_def fixed_cents_def min_def not_less)
qed (simp add: fixed_credit_def fixed_cents_def assms)

lemma periodPaidUnlocked_items:
  assumes "whole_cents p now"
  shows "periodPaidUnlocked p kind ref now locked settled
    = f_sum 0 (map euros (credit_items p kind ref now locked settled))"
proof -
  let ?sp = "subPeriods p (fp_StartDate p) (DayAfter now)"
  have "concat (map (period_credit p kind ref locked settled) (ElapsedPeriodsDetailed p now))
      = concat (map (\<lambda>sk. map euros (credit_cents p kind ref locked settled sk)) ?sp)"
    unfolding ElapsedPeriodsDetailed_def map_map
  proof (intro arg_cong [of _ _ concat] map_cong refl)
    fix sk assume sk: "sk \<in> set ?sp"
    obtain s e ps pe key where e: "sk = ((s, e, ps, pe), key)" by (cases sk) auto
    let ?sl = "(s, e, ps, pe)"
    have w: "\<bar>sliceCents p ?sl\<bar> \<le> 10 ^ 11"
      "case fp_PaidFixed p key of None \<Rightarrow> True | Some fx \<Rightarrow> fx = euros (toCents fx) \<and> \<bar>toCents fx\<bar> \<le> 10 ^ 11"
      using assms sk unfolding e whole_cents_def by (auto split: option.splits)
    have c: "fixed_credit p per = map euros (fixed_cents p key (sliceCents p ?sl))"
      if "op_Cost per = euros (sliceCents p ?sl)" "op_Key per = key" for per
      by (rule fixed_credit_cents [OF w(1) that w(2)])
    show "(period_credit p kind ref locked settled \<circ> (\<lambda>(sl, key). case sl of (s, e, pStart, pEnd) \<Rightarrow>
         (let end' = (case fp_EndDate p of None \<Rightarrow> pEnd
             | Some ed \<Rightarrow> (let endIncl = DayAfter ed in if before endIncl pEnd then endIncl else pEnd))
          in \<lparr>op_Key = key, op_Start = s, op_Cost = f_div (f_of_int (sliceCents p sl)) 100,
              op_Complete = before end' (DayAfter now)\<rparr>))) sk
        = map euros (credit_cents p kind ref locked settled sk)"
      by (simp add: e period_credit_def credit_cents_def euros_def [symmetric] c Let_def)
  qed
  then show ?thesis
    by (simp add: periodPaidUnlocked_def credit_items_def map_concat comp_def)
qed

subsection \<open>Sums of sums\<close>

lemma near_sum_of:
  assumes "near n a c" "\<forall>t \<in> set ts. near (fst t) (fst (snd t)) (snd (snd t))"
    and "n + (\<Sum>t \<leftarrow> ts. fst t + 1) \<le> 10000"
    and "\<bar>c\<bar> + (\<Sum>t \<leftarrow> ts. \<bar>snd (snd t)\<bar>) \<le> 10 ^ 11"
  shows "near (n + (\<Sum>t \<leftarrow> ts. fst t + 1)) (f_sum a (map (fst \<circ> snd) ts)) (c + (\<Sum>t \<leftarrow> ts. snd (snd t)))"
  using assms
proof (induction ts arbitrary: n a c)
  case (Cons t ts)
  have s: "0 \<le> (\<Sum>t \<leftarrow> ts. \<bar>snd (snd t)\<bar>)" by (intro sum_list_int_nonneg) auto
  have r: "0 \<le> (\<Sum>t \<leftarrow> ts. fst t + 1)"
    using Cons.prems(2) by (intro sum_list_int_nonneg) (auto dest!: nearD(2))
  have t: "near (fst t) (fst (snd t)) (snd (snd t))" using Cons.prems(2) by simp
  have "near (n + fst t + 1) (f_add a (fst (snd t))) (c + snd (snd t))"
    using Cons.prems(3,4) r s by (intro near_add [OF Cons.prems(1) t]) auto
  then have "near ((n + fst t + 1) + (\<Sum>t \<leftarrow> ts. fst t + 1))
      (f_sum (f_add a (fst (snd t))) (map (fst \<circ> snd) ts)) (c + snd (snd t) + (\<Sum>t \<leftarrow> ts. snd (snd t)))"
    using Cons.prems(2,3,4) by (intro Cons.IH) auto
  then show ?case by (simp add: algebra_simps comp_def)
qed simp

lemma near_items:
  assumes "int (length xs) \<le> 4000" "(\<Sum>x \<leftarrow> xs. \<bar>x\<bar>) \<le> 10 ^ 11"
  shows "near (2 * int (length xs)) (f_sum 0 (map euros xs)) (sum_list xs)"
  using assms by (intro f_sum_euros) auto

lemma sum_list_abs_le: "\<bar>sum_list xs\<bar> \<le> (\<Sum>x \<leftarrow> xs. \<bar>x\<bar>)" for xs :: "int list"
  by (induction xs) auto

lemma sum_list_abs_nonneg [simp]: "0 \<le> (\<Sum>x \<leftarrow> xs. \<bar>x\<bar>)" for xs :: "int list"
  by (intro sum_list_int_nonneg) auto

lemma near_concat:
  assumes "int (length (concat xss)) + int (length xss) \<le> 4000" "(\<Sum>x \<leftarrow> concat xss. \<bar>x\<bar>) \<le> 10 ^ 11"
  shows "near (2 * int (length (concat xss)) + int (length xss))
    (f_sum 0 (map (\<lambda>xs. f_sum 0 (map euros xs)) xss)) (sum_list (concat xss))"
proof -
  let ?t = "\<lambda>xs. (2 * int (length xs), f_sum 0 (map euros xs), sum_list xs)"
  have n: "\<forall>t \<in> set (map ?t xss). near (fst t) (fst (snd t)) (snd (snd t))"
  proof clarsimp
    fix xs assume "xs \<in> set xss"
    then obtain ys zs where z: "xss = ys @ xs # zs" by (auto simp: in_set_conv_decomp)
    show "near (2 * int (length xs)) (f_sum 0 (map euros xs)) (sum_list xs)"
      using assms sum_list_abs_nonneg [of "concat ys"] sum_list_abs_nonneg [of "concat zs"]
      unfolding z by (intro near_items) (auto simp del: sum_list_abs_nonneg)
  qed
  have len: "(\<Sum>t \<leftarrow> map ?t xss. fst t + 1) = 2 * int (length (concat xss)) + int (length xss)"
    by (induction xss) auto
  have tot: "(\<Sum>t \<leftarrow> map ?t xss. snd (snd t)) = sum_list (concat xss)"
    by (induction xss) auto
  have ab: "(\<Sum>t \<leftarrow> map ?t xss. \<bar>snd (snd t)\<bar>) \<le> (\<Sum>x \<leftarrow> concat xss. \<bar>x\<bar>)"
    by (induction xss) (auto intro: add_mono sum_list_abs_le)
  have "0 + (\<Sum>t \<leftarrow> map ?t xss. fst t + 1) \<le> 10000" unfolding len using assms(1) by linarith
  moreover have "\<bar>0\<bar> + (\<Sum>t \<leftarrow> map ?t xss. \<bar>snd (snd t)\<bar>) \<le> 10 ^ 11" using assms(2) ab by simp
  ultimately have "near (0 + (\<Sum>t \<leftarrow> map ?t xss. fst t + 1)) (f_sum 0 (map (fst \<circ> snd) (map ?t xss)))
      (0 + (\<Sum>t \<leftarrow> map ?t xss. snd (snd t)))"
    by (intro near_sum_of near_0 n)
  then show ?thesis unfolding len tot by (simp add: comp_def)
qed

subsection \<open>The balance\<close>

definition credit_lists :: "person_rows \<Rightarrow> time \<Rightarrow> int list list" where
  "credit_lists p now =
     map (\<lambda>a. credit_items a ''agreement'' (fp_ID a) now (pr_locked p) (pr_settled p)) (pr_agreements p)
     @ map (\<lambda>r. credit_items (recurring_AsPeriod r) ''recurring'' (rg_ID r) now (pr_locked p) (pr_settled p))
         (pr_recurring p)"

definition owed_items :: "person_rows \<Rightarrow> (int \<Rightarrow> category) \<Rightarrow> time \<Rightarrow> int list" where
  "owed_items p cats now =
     rent_items (pr_agreements p) (pr_vehicles p) cats zero_time (DayAfter now)
     @ map charge_cents (pr_charges p) @ map (recurring_cents now) (pr_recurring p) @ [pr_invoiced_tax p]"

definition exact_balance :: "person_rows \<Rightarrow> (int \<Rightarrow> category) \<Rightarrow> time \<Rightarrow> int" where
  "exact_balance p cats now =
     sum_list (owed_items p cats now) - pr_payments p - sum_list (concat (credit_lists p now))"

text \<open>At most four thousand items and a billion euros in all.\<close>

definition sound_books :: "person_rows \<Rightarrow> (int \<Rightarrow> category) \<Rightarrow> time \<Rightarrow> bool" where
  "sound_books p cats now \<longleftrightarrow>
     (\<forall>a \<in> set (pr_agreements p). whole_cents a now) \<and>
     (\<forall>r \<in> set (pr_recurring p). whole_cents (recurring_AsPeriod r) now) \<and>
     length (owed_items p cats now) + length (concat (credit_lists p now)) + length (credit_lists p now) \<le> 4000 \<and>
     (\<Sum>x \<leftarrow> owed_items p cats now. \<bar>x\<bar>) + \<bar>pr_payments p\<bar> + (\<Sum>x \<leftarrow> concat (credit_lists p now). \<bar>x\<bar>) \<le> 10 ^ 11"

lemma personPeriodPaid_lists:
  assumes "\<forall>a \<in> set (pr_agreements p). whole_cents a now"
    "\<forall>r \<in> set (pr_recurring p). whole_cents (recurring_AsPeriod r) now"
  shows "personPeriodPaid (pr_agreements p) (pr_recurring p) now (pr_locked p) (pr_settled p)
    = round2 (f_sum 0 (map (\<lambda>xs. f_sum 0 (map euros xs)) (credit_lists p now)))"
  using assms by (simp add: personPeriodPaid_def credit_lists_def periodPaidUnlocked_items comp_def cong: map_cong)

lemma sound_parts:
  assumes "sound_books p cats now"
  defines "R \<equiv> rent_items (pr_agreements p) (pr_vehicles p) cats zero_time (DayAfter now)"
    and "C \<equiv> map charge_cents (pr_charges p)" and "M \<equiv> map (recurring_cents now) (pr_recurring p)"
    and "K \<equiv> credit_lists p now"
  shows "near (2 * int (length R)) (personRent (pr_agreements p) (pr_vehicles p) cats zero_time (DayAfter now)) (sum_list R)"
    "near (2 * int (length C)) (personChargeSums (pr_agreements p) vp (pr_charges p)) (sum_list C)"
    "recurring_accrued (pr_recurring p) now = euros (sum_list M)"
    "personPeriodPaid (pr_agreements p) (pr_recurring p) now (pr_locked p) (pr_settled p) = euros (sum_list (concat K))"
    "int (length R) + int (length C) \<le> 3999"
    "\<bar>sum_list R\<bar> + \<bar>sum_list C\<bar> + \<bar>sum_list M\<bar> + \<bar>pr_invoiced_tax p\<bar> + \<bar>pr_payments p\<bar>
       + \<bar>sum_list (concat K)\<bar> \<le> 10 ^ 11"
proof -
  let ?a = "\<lambda>xs :: int list. \<Sum>x \<leftarrow> xs. \<bar>x\<bar>"
  have l: "length R + length C + length M + 1 + length (concat K) + length K \<le> 4000"
    and t: "?a R + ?a C + ?a M + \<bar>pr_invoiced_tax p\<bar> + \<bar>pr_payments p\<bar> + ?a (concat K) \<le> 10 ^ 11"
    using assms(1) by (simp_all add: sound_books_def owed_items_def R_def C_def M_def K_def)
  note nn = sum_list_abs_nonneg [of R] sum_list_abs_nonneg [of C] sum_list_abs_nonneg [of M]
    sum_list_abs_nonneg [of "concat K"]
  show "near (2 * int (length R)) (personRent (pr_agreements p) (pr_vehicles p) cats zero_time (DayAfter now)) (sum_list R)"
    unfolding personRent_items R_def [symmetric] using l t nn by (intro near_items) linarith+
  show "near (2 * int (length C)) (personChargeSums (pr_agreements p) vp (pr_charges p)) (sum_list C)"
    unfolding personChargeSums_items C_def [symmetric] using l t nn by (intro near_items) linarith+
  have "near (2 * int (length M)) (f_sum 0 (map euros M)) (sum_list M)"
    using l t nn by (intro near_items) linarith+
  then show "recurring_accrued (pr_recurring p) now = euros (sum_list M)"
    unfolding recurring_accrued_items M_def [symmetric] by (rule near_round2)
  have "near (2 * int (length (concat K)) + int (length K))
      (f_sum 0 (map (\<lambda>xs. f_sum 0 (map euros xs)) K)) (sum_list (concat K))"
    using l t nn by (intro near_concat) linarith+
  then have "round2 (f_sum 0 (map (\<lambda>xs. f_sum 0 (map euros xs)) K)) = euros (sum_list (concat K))"
    by (rule near_round2)
  then show "personPeriodPaid (pr_agreements p) (pr_recurring p) now (pr_locked p) (pr_settled p)
      = euros (sum_list (concat K))"
    using assms(1) unfolding K_def by (subst personPeriodPaid_lists) (simp_all add: sound_books_def)
  show "int (length R) + int (length C) \<le> 3999" using l by linarith
  show "\<bar>sum_list R\<bar> + \<bar>sum_list C\<bar> + \<bar>sum_list M\<bar> + \<bar>pr_invoiced_tax p\<bar> + \<bar>pr_payments p\<bar>
       + \<bar>sum_list (concat K)\<bar> \<le> 10 ^ 11"
    using t sum_list_abs_le [of R] sum_list_abs_le [of C] sum_list_abs_le [of M] sum_list_abs_le [of "concat K"]
    by linarith
qed

text \<open>The figure \<^verbatim>\<open>outstandingByPerson\<close> computes for one person.\<close>

definition outstanding_balance :: "person_rows \<Rightarrow> (int \<Rightarrow> category) \<Rightarrow> time \<Rightarrow> float64" where
  "outstanding_balance p cats now =
     (let charges = personChargeSums (pr_agreements p) (vehiclePaidMap (pr_vehicles p)) (pr_charges p);
          charges = (if pr_recurring p = [] then charges else f_add charges (recurring_accrued (pr_recurring p) now));
          tAcc = personRent (pr_agreements p) (pr_vehicles p) cats zero_time (DayAfter now);
          owed = f_sub (f_sub (f_add (f_add tAcc charges) (euros (pr_invoiced_tax p))) (euros (pr_payments p)))
            (personPeriodPaid (pr_agreements p) (pr_recurring p) now (pr_locked p) (pr_settled p))
      in round2 owed)"

lemma charges_by_person_at:
  "(case charges_by_person ags vp rows pid of None \<Rightarrow> 0 | Some x \<Rightarrow> x)
     = personChargeSums (ags pid) vp (map snd (filter (\<lambda>c. fst c = pid) rows))"
proof -
  let ?t = "\<lambda>pid c. fst (chargeAmounts (ags pid) vp (cg_vehicle c) (cg_amount c) (cg_quantity c) (cg_charged_on c) (cg_paid c))"
  let ?v = "\<lambda>m. case m pid of None \<Rightarrow> 0 | Some x \<Rightarrow> x"
  have "?v (foldl (\<lambda>m (pid, c). m(pid \<mapsto> f_add (case m pid of None \<Rightarrow> 0 | Some x \<Rightarrow> x) (?t pid c))) m rows)
      = f_sum (?v m) (map (?t pid) (map snd (filter (\<lambda>c. fst c = pid) rows)))" for m
    by (induction rows arbitrary: m) auto
  from this [of Map.empty] show ?thesis
    by (simp add: charges_by_person_def personChargeSums_def)
qed

lemma personChargeSums_paid: "personChargeSums ags vp cs = personChargeSums ags vp' cs"
  by (simp add: personChargeSums_items)

lemma outstanding_entry:
  assumes "outstandingByPerson bk cats sel now pid = Some b"
  shows "b = outstanding_balance (rows_of bk pid) cats now"
proof -
  have s: "sel = 0 \<or> pid = sel"
    using assms by (auto simp: outstandingByPerson_def Let_def split: if_splits)
  have f: "filter (\<lambda>x. g x = pid) (filter (\<lambda>x. sel = 0 \<or> g x = sel) xs) = filter (\<lambda>x. g x = pid) xs"
    for g :: "'x \<Rightarrow> int" and xs
    using s by (induction xs) auto
  show ?thesis
    using assms
    by (auto simp: outstandingByPerson_def outstanding_balance_def rows_of_def Let_def f charges_by_person_at
        personChargeSums_paid [of _ "vehiclePaidMap _" _ "\<lambda>_. False"] split: if_splits)
qed

lemma near_diff_round2:
  assumes "near n x c" "\<bar>c\<bar> + \<bar>t\<bar> + \<bar>u\<bar> + \<bar>v\<bar> \<le> 10 ^ 11" "n \<le> 9000"
  shows "round2 (f_sub (f_sub (f_add x (euros t)) (euros u)) (euros v)) = euros (c + t - u - v)"
proof -
  have e: "near 1 (euros t) t" "near 1 (euros u) u" "near 1 (euros v) v"
    using assms(2) by (auto intro!: near_euros)
  have "near (((n + 1 + 1) + 1 + 1) + 1 + 1) (f_sub (f_sub (f_add x (euros t)) (euros u)) (euros v)) (c + t - u - v)"
    using assms(2,3) by (intro near_sub near_add assms(1) e) linarith+
  then show ?thesis by (rule near_round2)
qed

lemma balance_exact:
  assumes "sound_books p cats now"
  shows "stats_balance p cats now = euros (exact_balance p cats now)
    \<and> outstanding_balance p cats now = euros (exact_balance p cats now)"
proof -
  note sp = sound_parts [OF assms]
  let ?R = "rent_items (pr_agreements p) (pr_vehicles p) cats zero_time (DayAfter now)"
  let ?C = "map charge_cents (pr_charges p)" and ?M = "map (recurring_cents now) (pr_recurring p)"
  let ?K = "concat (credit_lists p now)"
  let ?ch = "personChargeSums (pr_agreements p) (vehiclePaidMap (pr_vehicles p)) (pr_charges p)"
  have x: "exact_balance p cats now
      = (sum_list ?R + (sum_list ?C + sum_list ?M)) + pr_invoiced_tax p - pr_payments p - sum_list ?K"
    by (simp add: exact_balance_def owed_items_def)
  have m: "near 1 (euros (sum_list ?M)) (sum_list ?M)" using sp(6) by (intro near_euros) linarith
  have cm: "near (2 * int (length ?C) + 1 + 1) (f_add ?ch (euros (sum_list ?M))) (sum_list ?C + sum_list ?M)"
    using sp(5,6) by (intro near_add sp(2) m) linarith+
  have b: "\<bar>pr_invoiced_tax p\<bar> \<le> 10 ^ 11" "\<bar>pr_payments p\<bar> \<le> 10 ^ 11"
    "\<bar>sum_list ?R + (sum_list ?C + sum_list ?M)\<bar> + \<bar>pr_invoiced_tax p\<bar> + \<bar>pr_payments p\<bar> + \<bar>sum_list ?K\<bar> \<le> 10 ^ 11"
    using sp(6) by linarith+
  have "near (1 + 1 + 1) (f_add (euros (sum_list ?R)) (euros (sum_list ?C + sum_list ?M)))
      (sum_list ?R + (sum_list ?C + sum_list ?M))"
    using sp(6) by (intro near_add near_euros) linarith+
  then have 1: "stats_balance p cats now = euros (exact_balance p cats now)"
    unfolding x stats_balance_def Let_def near_round2 [OF sp(1)] sp(3,4) near_round2 [OF cm]
      round2_euros [OF b(1)] round2_euros [OF b(2)]
    by (rule near_diff_round2 [OF _ b(3)]) simp
  define ch where "ch = (if pr_recurring p = [] then ?ch else f_add ?ch (euros (sum_list ?M)))"
  have "near (2 * int (length ?C) + 1 + 1) ch (sum_list ?C + sum_list ?M)"
  proof (cases "pr_recurring p = []")
    case True
    then have "ch = ?ch" "sum_list ?M = 0" by (simp_all add: ch_def)
    then show ?thesis using near_mono [OF sp(2), of "2 * int (length ?C) + 1 + 1"] sp(5) by simp
  qed (use cm in \<open>simp add: ch_def\<close>)
  then have "near (2 * int (length ?R) + (2 * int (length ?C) + 1 + 1) + 1)
      (f_add (personRent (pr_agreements p) (pr_vehicles p) cats zero_time (DayAfter now)) ch)
      (sum_list ?R + (sum_list ?C + sum_list ?M))"
    using sp(5,6) by (intro near_add sp(1)) linarith+
  then have 2: "outstanding_balance p cats now = euros (exact_balance p cats now)"
    unfolding x outstanding_balance_def Let_def sp(3,4) ch_def [symmetric]
    by (rule near_diff_round2 [OF _ b(3)]) (use sp(5) in linarith)
  from 1 2 show ?thesis ..
qed

text \<open>C22: the open balance of a person is the exact sum of whole cents of the rent, the charges,
  the recurring costs and the invoiced tax, less the payments and the credited periods: adding up
  doubles loses no cent on the way. The statistics page of the person and the list of open
  balances, which compute it in different orders and round at different places, show that figure.\<close>

theorem balance_is_exact:
  assumes "sound_books (rows_of bk pid) cats now" "pid \<noteq> 0"
  shows "stats_balance (rows_of bk pid) cats now = euros (exact_balance (rows_of bk pid) cats now)
    \<and> outstandingByPerson bk cats 0 now pid \<in> {None, Some (euros (exact_balance (rows_of bk pid) cats now))}
    \<and> outstandingByPerson bk cats pid now pid = Some (euros (exact_balance (rows_of bk pid) cats now))"
proof -
  note x = balance_exact [OF assms(1)]
  have n: "outstandingByPerson bk cats pid now pid \<noteq> None"
    using assms(2) by (simp add: outstandingByPerson_def Let_def)
  have e: "b = euros (exact_balance (rows_of bk pid) cats now)"
    if "outstandingByPerson bk cats sel now pid = Some b" for sel b
    using outstanding_entry [OF that] x by simp
  from n obtain b where b: "outstandingByPerson bk cats pid now pid = Some b" by blast
  show ?thesis using x b e [OF b] e [of 0]
    by (cases "outstandingByPerson bk cats 0 now pid") simp_all
qed

definition example_books :: books where
  "example_books = \<lparr>bk_agreements = [example_agreement], bk_vehicles = [],
     bk_charges = [(7, \<lparr>cg_vehicle = None, cg_amount = 25, cg_quantity = 2,
       cg_charged_on = utc_midnight 19400, cg_paid = False\<rparr>)],
     bk_recurring = [], bk_payments = [7 \<mapsto> 1000], bk_invoiced_tax = Map.empty,
     bk_locked = (\<lambda>_ _. False), bk_settled = (\<lambda>_ _. False)\<rparr>"

lemma example_rows:
  "rows_of example_books 7 = \<lparr>pr_agreements = [example_agreement], pr_vehicles = [],
     pr_charges = [\<lparr>cg_vehicle = None, cg_amount = 25, cg_quantity = 2,
       cg_charged_on = utc_midnight 19400, cg_paid = False\<rparr>],
     pr_recurring = [], pr_payments = 1000, pr_invoiced_tax = 0, pr_locked = (\<lambda>_. False),
     pr_settled = (\<lambda>_. False)\<rparr>"
  by (simp add: rows_of_def example_books_def cents_or_0_def)
    (simp add: example_agreement_def)

lemma window_zero:
  assumes "dated a" "0 \<le> start_day a"
  shows "window a zero_time to = window a (fp_StartDate a) to"
proof -
  have "fp_StartDate a = utc_midnight (start_day a)"
    using assms(1) by (auto simp: dated_def is_date_def start_day_def)
  then have "max_time (fp_StartDate a) zero_time = fp_StartDate a"
    using assms(2) by (simp add: max_time_def zero_time_def before_def after_def)
  then show ?thesis by (simp add: window_def max_time_def)
qed

lemma example_subPeriods:
  "subPeriods example_agreement (fp_StartDate example_agreement) (DayAfter (utc_midnight 19732))
    = [((utc_midnight 19358, utc_midnight 19723, utc_midnight 19358, utc_midnight 19723), ''2023''),
       ((utc_midnight 19723, utc_midnight 19733, utc_midnight 19723, utc_midnight 20089), ''2024'')]"
  unfolding subPeriods_elapsed [OF example_dated] by (simp add: example_elapsed example_keys)

lemma example_owed:
  "cost_cents example_agreement zero_time (DayAfter (utc_midnight 19732)) = 123279"
proof -
  have "cost_cents example_agreement zero_time (DayAfter (utc_midnight 19732))
      = cost_cents example_agreement (fp_StartDate example_agreement) (DayAfter (utc_midnight 19732))"
    unfolding cost_cents_walk
    by (subst window_zero [OF example_dated]) (simp_all add: start_day_def example_agreement_def)
  then show ?thesis by (simp only: cost_cents_def example_subPeriods) (simp add: example_cents)
qed

theorem balance_is_exact_witness:
  "stats_balance (rows_of example_books 7) (\<lambda>_. undefined) (utc_midnight 19732) = euros 7279
    \<and> outstandingByPerson example_books (\<lambda>_. undefined) 7 (utc_midnight 19732) 7 = Some (euros 7279)"
proof -
  let ?cats = "\<lambda>_ :: int. undefined :: category" and ?now = "utc_midnight 19732"
  have ag: "fp_Paid example_agreement = False" "fp_PaidPeriods example_agreement = [''2023'']"
    "fp_PaidFixed example_agreement = Map.empty"
    by (simp_all add: example_agreement_def)
  have c: "charge_cents \<lparr>cg_vehicle = None, cg_amount = 25, cg_quantity = 2,
       cg_charged_on = utc_midnight 19400, cg_paid = False\<rparr> = 5000"
    using fl_of_int [of 50] fl_of_int [of 5000]
    by (simp add: charge_cents_def toCents_def f_mul_def go_round_of_int [of 5000, simplified])
  have o: "owed_items (rows_of example_books 7) ?cats ?now = [123279, 5000, 0]"
    by (simp only: owed_items_def rent_items_def own_vehicles_def example_rows person_rows.simps
        list.map filter.simps append.simps example_owed c)
  have k: "credit_lists (rows_of example_books 7) ?now = [[120000]]"
    by (simp add: credit_lists_def credit_items_def example_rows del: DayAfter_midnight)
      (simp add: example_subPeriods credit_cents_def periodKeySet_def fixed_cents_def ag example_cents
        del: DayAfter_midnight)
  have w: "whole_cents example_agreement ?now"
    by (simp add: whole_cents_def example_subPeriods example_cents ag del: DayAfter_midnight)
  have "sound_books (rows_of example_books 7) ?cats ?now"
    unfolding sound_books_def o k using w by (simp add: example_rows)
  moreover have "exact_balance (rows_of example_books 7) ?cats ?now = 7279"
    unfolding exact_balance_def o k by (simp add: example_rows)
  ultimately show ?thesis using balance_is_exact [of example_books 7 ?cats ?now] by simp
qed

end
