(* ===== verification/Settlement_Periods.thy ===== *)
theory Settlement_Periods
  imports Settlement_Properties
begin

text \<open>
  The rules around the periods of \<^verbatim>\<open>internal/handlers/stats.go\<close> and \<^verbatim>\<open>payments.go\<close>: months
  that are made to add up to the year, credits that never exceed the cost they credit, and the key
  that identifies one position of the ledger.
\<close>

subsection \<open>Distributing the residual\<close>

lemma sum_list_update_int:
  "i < length xs \<Longrightarrow> sum_list (xs[i := xs ! i + s]) = sum_list xs + (s :: int)"
  by (induction xs arbitrary: i) (auto split: nat.splits)

lemma bump_length [simp]: "length (bump_cents order s cents k) = length cents"
  by (simp add: bump_cents_def Let_def)

lemma bumps_length [simp]: "length (foldl (bump_cents order s) cents ks) = length cents"
  by (induction ks arbitrary: cents) auto

lemma sum_bump:
  "order ! (k mod length order) < length cents \<Longrightarrow>
    sum_list (bump_cents order s cents k) = sum_list cents + s"
  by (simp add: bump_cents_def Let_def sum_list_update_int)

lemma nth_bump:
  "order ! (k mod length order) < length cents \<Longrightarrow>
    bump_cents order s cents k ! i = cents ! i + (if order ! (k mod length order) = i then s else 0)"
  by (simp add: bump_cents_def Let_def nth_list_update)

lemma bumps_sum:
  assumes "order \<noteq> []" "set order \<subseteq> {..<length cents}"
  shows "sum_list (foldl (bump_cents order s) cents ks) = sum_list cents + s * int (length ks)"
  using assms(2)
proof (induction ks arbitrary: cents)
  case (Cons k ks)
  have "order ! (k mod length order) \<in> set order" using assms(1) by simp
  then have i: "order ! (k mod length order) < length cents" using Cons.prems by auto
  have "sum_list (foldl (bump_cents order s) (bump_cents order s cents k) ks)
      = sum_list (bump_cents order s cents k) + s * int (length ks)"
    using Cons.prems by (intro Cons.IH) simp
  with i show ?case by (simp add: sum_bump algebra_simps)
qed simp

text \<open>How often the first \<open>n\<close> bumps hit position \<open>j\<close> of the order: once per full round, and
  once more when the last, partial round reaches it.\<close>

definition hits :: "nat \<Rightarrow> nat \<Rightarrow> nat \<Rightarrow> nat" where
  "hits L j n = (n + L - 1 - j) div L"

lemma hits_Suc:
  assumes "j < L"
  shows "hits L j (Suc n) = hits L j n + (if n mod L = j then 1 else 0)"
proof -
  obtain m where m: "n + L - 1 - j = m" "Suc n + L - 1 - j = Suc m" using assms by auto
  have e: "Suc m = n + (L - j)" using m assms by linarith
  have "Suc m mod L = 0 \<longleftrightarrow> n mod L = j"
  proof -
    have "Suc m mod L = (n mod L + (L - j)) mod L" unfolding e by (simp add: mod_add_left_eq)
    moreover have "n mod L < L" using assms by simp
    moreover have "(n mod L + (L - j)) mod L = 0 \<longleftrightarrow> n mod L = j"
    proof (cases "n mod L < j")
      case True
      then have "n mod L + (L - j) < L" using assms by linarith
      with True assms show ?thesis by simp
    next
      case False
      then have "(n mod L + (L - j)) mod L = (n mod L - j) mod L"
        using assms by (metis le_add_diff_inverse2 less_imp_le mod_add_self2 not_less
            Nat.add_diff_assoc Nat.add_diff_assoc2 add.commute)
      moreover have "(n mod L - j) mod L = n mod L - j" using assms by (simp add: less_imp_diff_less)
      ultimately show ?thesis using False by auto
    qed
    ultimately show ?thesis by simp
  qed
  then show ?thesis unfolding hits_def m by (simp add: div_Suc)
qed

lemma bumps_at:
  assumes "distinct order" "set order = {..<length cents}" "j < length order"
  shows "foldl (bump_cents order s) cents [0..<n] ! (order ! j)
    = cents ! (order ! j) + s * int (hits (length order) j n)"
proof (induction n)
  case 0
  have "(length order - 1 - j) div length order = 0" using assms(3) by simp
  then show ?case by (simp add: hits_def)
next
  case (Suc n)
  let ?L = "length order"
  have L: "0 < ?L" using assms(3) by linarith
  have r: "order ! (n mod ?L) < length cents" using assms(2) L by (metis lessThan_iff mod_less_divisor nth_mem)
  have eq: "order ! (n mod ?L) = order ! j \<longleftrightarrow> n mod ?L = j"
    using assms(1,3) L by (simp add: nth_eq_iff_index_eq)
  show ?case
    using Suc.IH r by (simp add: nth_bump eq hits_Suc [OF assms(3)] algebra_simps)
qed

lemma hits_bound: "j < L \<Longrightarrow> n div L \<le> hits L j n \<and> hits L j n \<le> n div L + 1"
proof -
  assume j: "j < L"
  have "n div L \<le> (n + L - 1 - j) div L" using j by (intro div_le_mono) linarith
  moreover have "(n + L - 1 - j) div L \<le> (n + L) div L" by (intro div_le_mono) linarith
  moreover have "(n + L) div L = n div L + 1" using j by simp
  ultimately show ?thesis by (simp add: hits_def)
qed

definition residual :: "float64 list \<Rightarrow> float64 \<Rightarrow> int" where
  "residual months y = toCents y - (\<Sum>m \<leftarrow> months. toCents m)"

text \<open>C23: the months shown are made to add up to the total of the year exactly, whatever the
  monthly rounding left over. The remaining cents go round the months, largest first, so no two
  months are moved by amounts more than one cent apart.\<close>

theorem months_sum_to_year:
  assumes "months \<noteq> []"
    and "\<forall>m \<in> set months. m = euros (toCents m) \<and> \<bar>toCents m\<bar> + \<bar>residual months y\<bar> \<le> 2 ^ 50"
  shows "length (reconcileMonthsToYear months y) = length months
    \<and> (\<Sum>m \<leftarrow> reconcileMonthsToYear months y. toCents m) = toCents y
    \<and> (\<forall>i < length months.
         \<bar>toCents (reconcileMonthsToYear months y ! i) - toCents (months ! i)\<bar>
           \<in> {\<bar>residual months y\<bar> div int (length months), \<bar>residual months y\<bar> div int (length months) + 1})"
proof (cases "residual months y = 0")
  case True
  then have "reconcileMonthsToYear months y = months"
    by (simp add: reconcileMonthsToYear_def toCents_def residual_def Let_def)
  with True show ?thesis by (simp add: residual_def)
next
  case False
  define r where "r = residual months y"
  have r0: "r \<noteq> 0" using False by (simp add: r_def)
  let ?n = "length months" and ?cents = "map toCents months"
  let ?order = "sort_key (\<lambda>i. - (?cents ! i)) [0..<?n]"
  define s :: int where "s = (if r < 0 then - 1 else 1)"
  define out where "out = foldl (bump_cents ?order s) ?cents [0..<nat \<bar>r\<bar>]"
  have e: "reconcileMonthsToYear months y = map euros out"
    
    using r0 assms(1) unfolding reconcileMonthsToYear_def toCents_def [symmetric] euros_def [symmetric] Let_def
    by (simp add: r_def residual_def out_def s_def)
  have o: "set ?order = {..<length ?cents}" "distinct ?order" "length ?order = ?n" "?order \<noteq> []"
    using assms(1) by (auto simp: distinct_sort lessThan_atLeast0 simp flip: length_greater_0_conv)
  have sum: "sum_list out = toCents y"
  proof -
    have "sum_list out = sum_list ?cents + s * int (length [0..<nat \<bar>r\<bar>])"
      unfolding out_def using o by (intro bumps_sum) auto
    moreover have "s * \<bar>r\<bar> = r" by (simp add: s_def)
    ultimately show ?thesis by (simp add: r_def residual_def)
  qed
  have ent: "\<exists>h. out ! i = ?cents ! i + s * int h \<and> nat \<bar>r\<bar> div ?n \<le> h \<and> h \<le> nat \<bar>r\<bar> div ?n + 1 \<and> h \<le> nat \<bar>r\<bar>"
    if i: "i < ?n" for i
  proof -
    have "i \<in> set ?order" using i o(1) by simp
    then obtain j where j: "j < length ?order" "?order ! j = i" unfolding in_set_conv_nth by blast
    let ?h = "hits (length ?order) j (nat \<bar>r\<bar>)"
    have "?h \<le> nat \<bar>r\<bar>"
    proof -
      have "nat \<bar>r\<bar> \<noteq> 0" using r0 by simp
      then obtain m where m: "nat \<bar>r\<bar> = Suc m" using not0_implies_Suc by blast
      have "?h \<le> (m + length ?order) div length ?order" unfolding hits_def m by (intro div_le_mono) simp
      also have "\<dots> = m div length ?order + 1" using j(1) by (intro div_add_self2) linarith
      also have "\<dots> \<le> Suc m" using div_le_dividend [of m "length ?order"] by linarith
      finally show ?thesis using m by simp
    qed
    moreover have "out ! i = ?cents ! i + s * int ?h"
      unfolding out_def using bumps_at [OF o(2,1) j(1), of s "nat \<bar>r\<bar>"] j(2) by simp
    ultimately show ?thesis using hits_bound [OF j(1), of "nat \<bar>r\<bar>"] o(3) by auto
  qed
  have len: "length out = ?n" by (simp add: out_def)
  have big: "\<bar>out ! i\<bar> \<le> 2 ^ 50" if i: "i < ?n" for i
  proof -
    obtain h where h: "out ! i = ?cents ! i + s * int h" "h \<le> nat \<bar>r\<bar>" using ent [OF i] by blast
    have "\<bar>?cents ! i\<bar> + \<bar>r\<bar> \<le> 2 ^ 50" using assms(2) i by (simp add: r_def)
    then show ?thesis using h by (auto simp: s_def)
  qed
  have rd: "map toCents (map euros out) = out"
    using big len by (auto simp: list_eq_iff_nth_eq toCents_euros)
  have "(\<Sum>m \<leftarrow> reconcileMonthsToYear months y. toCents m) = toCents y"
    unfolding e using rd sum by simp
  moreover have "\<bar>toCents (reconcileMonthsToYear months y ! i) - toCents (months ! i)\<bar>
      \<in> {\<bar>r\<bar> div int ?n, \<bar>r\<bar> div int ?n + 1}" if i: "i < ?n" for i
  proof -
    obtain h where h: "out ! i = ?cents ! i + s * int h" "nat \<bar>r\<bar> div ?n \<le> h" "h \<le> nat \<bar>r\<bar> div ?n + 1"
      using ent [OF i] by blast
    have "toCents (reconcileMonthsToYear months y ! i) = out ! i"
      unfolding e using i len big [OF i] by (simp add: toCents_euros)
    with h(1) i have "\<bar>toCents (reconcileMonthsToYear months y ! i) - toCents (months ! i)\<bar> = int h"
      by (simp add: s_def)
    moreover have "int (nat \<bar>r\<bar> div ?n) = \<bar>r\<bar> div int ?n" by (simp add: zdiv_int)
    ultimately show ?thesis using h(2,3) by auto
  qed
  ultimately show ?thesis using e len by (simp add: r_def)
qed

theorem months_sum_to_year_witness:
  "(\<Sum>m \<leftarrow> reconcileMonthsToYear [euros 1001, euros 3003, euros 2002] (euros 6010). toCents m) = 6010"
  using months_sum_to_year [of "[euros 1001, euros 3003, euros 2002]" "euros 6010"]
  by (simp add: toCents_euros residual_def)

subsection \<open>Credits and keys\<close>

lemma fmt_int_inj: "fmt_int j = fmt_int k \<longleftrightarrow> j = k"
proof -
  have no_sign: "digits n \<noteq> CHR ''-'' # xs" for n xs
  proof
    assume "digits n = CHR ''-'' # xs"
    then have "CHR ''-'' \<in> set (digits n)" by simp
    from digits_range [OF this] show False by simp
  qed
  have inj: "digits m = digits n \<Longrightarrow> m = n" for m n by (metis digits_value_digits)
  show ?thesis
    using no_sign no_sign [symmetric] by (auto simp: fmt_int_def dest: inj)
qed

lemma fmt_int_no_colon: "CHR '':'' \<notin> set (fmt_int k)"
proof
  assume "CHR '':'' \<in> set (fmt_int k)"
  then obtain n where "CHR '':'' \<in> set (digits n)" by (auto simp: fmt_int_def split: if_splits)
  from digits_range [OF this] show False by simp
qed

lemma split_at_char:
  assumes "c \<notin> set a" "c \<notin> set b" "a @ c # x = b @ c # y"
  shows "a = b \<and> x = y"
proof -
  have "takeWhile (\<lambda>z. z \<noteq> c) (a @ c # x) = a" "takeWhile (\<lambda>z. z \<noteq> c) (b @ c # y) = b"
    using assms(1,2) by (subst takeWhile_append2; force)+
  then show ?thesis using assms(3) by simp
qed

text \<open>The key under which positions are claimed, locked and settled identifies the position:
  for kinds without a colon, as the ones in use, two positions share a key only if their kind,
  their row and their period agree.\<close>

theorem lock_key_identifies:
  assumes "CHR '':'' \<notin> set k" "CHR '':'' \<notin> set k'" "lockKey k r p = lockKey k' r' p'"
  shows "k = k' \<and> r = r' \<and> p = p'"
proof -
  have "k @ CHR '':'' # (fmt_int r @ CHR '':'' # p) = k' @ CHR '':'' # (fmt_int r' @ CHR '':'' # p')"
    using assms(3) by (simp add: lockKey_def)
  from split_at_char [OF assms(1,2) this]
  have "k = k'" "fmt_int r @ CHR '':'' # p = fmt_int r' @ CHR '':'' # p'" by simp_all
  moreover from split_at_char [OF fmt_int_no_colon fmt_int_no_colon this(2)]
  have "fmt_int r = fmt_int r'" "p = p'" by simp_all
  ultimately show ?thesis by (simp add: fmt_int_inj)
qed

theorem lock_key_identifies_witness:
  "lockKey ''recurring'' 12 ''2024-03'' \<noteq> lockKey ''recurring'' 1 ''2:2024-03''"
  using lock_key_identifies [of "''recurring''" "''recurring''" 12 "''2024-03''" 1 "''2:2024-03''"] by auto

lemma fixed_cents_bounds: "0 \<le> cost \<Longrightarrow> sum_list (fixed_cents p key cost) \<le> cost"
  by (simp add: fixed_cents_def split: option.split)

lemma credit_cents_le:
  "0 \<le> sliceCents p sl \<Longrightarrow> sum_list (credit_cents p kind ref locked settled (sl, key)) \<le> sliceCents p sl"
  by (auto simp: credit_cents_def fixed_cents_bounds)

lemma credit_items_le:
  assumes "\<forall>(sl, key) \<in> set (subPeriods p (fp_StartDate p) (DayAfter now)). 0 \<le> sliceCents p sl"
  shows "sum_list (credit_items p kind ref now locked settled) \<le> cost_cents p (fp_StartDate p) (DayAfter now)"
proof -
  have "sum_list (concat (map (credit_cents p kind ref locked settled) xs)) \<le> (\<Sum>(sl, key) \<leftarrow> xs. sliceCents p sl)"
    if "\<forall>(sl, key) \<in> set xs. 0 \<le> sliceCents p sl" for xs
    using that by (induction xs) (auto intro!: add_mono credit_cents_le)
  from this [OF assms] show ?thesis by (simp add: credit_items_def cost_cents_def)
qed

text \<open>What a master flag, paid keys and fixed parts credit off the books never exceeds what the
  elapsed periods cost, to the cent; and when payments settle all of the periods nothing is credited
  on top of them.\<close>

theorem credit_within_cost:
  assumes "dated p" "nonneg_rates p" "whole_cents p now"
    "length (credit_items p kind ref now locked settled) \<le> 4000"
    "(\<Sum>x \<leftarrow> credit_items p kind ref now locked settled. \<bar>x\<bar>) \<le> 10 ^ 11"
  shows "toCents (periodPaidUnlocked p kind ref now locked settled) \<le> accrued_cents p now
    \<and> ((\<forall>key \<in> set (ElapsedPeriodKeys p now). settled (lockKey kind ref key))
        \<longrightarrow> periodPaidUnlocked p kind ref now locked settled = 0)"
proof -
  let ?c = "credit_items p kind ref now locked settled"
  have "near (2 * int (length ?c)) (periodPaidUnlocked p kind ref now locked settled) (sum_list ?c)"
    unfolding periodPaidUnlocked_items [OF assms(3)] using assms(4,5) by (intro near_items) linarith+
  then have t: "toCents (periodPaidUnlocked p kind ref now locked settled) = sum_list ?c"
    by (rule near_toCents)
  have sp: "subPeriods p (fp_StartDate p) (DayAfter now)
      = map (\<lambda>sl. (sl, PeriodKey p (fst (snd (snd sl))))) (elapsed p now)"
    by (rule subPeriods_elapsed [OF assms(1)])
  have "\<forall>(sl, key) \<in> set (subPeriods p (fp_StartDate p) (DayAfter now)). 0 \<le> sliceCents p sl"
    using elapsed_cents_nonneg [OF assms(2)] unfolding sp by auto
  from credit_items_le [OF this] have "sum_list ?c \<le> accrued_cents p now"
    by (simp add: cost_cents_def sp accrued_cents_def comp_def)
  moreover have "periodPaidUnlocked p kind ref now locked settled = 0"
    if "\<forall>key \<in> set (ElapsedPeriodKeys p now). settled (lockKey kind ref key)"
  proof -
    have "?c = []" using that
      by (auto simp: credit_items_def credit_cents_def ElapsedPeriodKeys_def)
    then show ?thesis by (simp add: periodPaidUnlocked_items [OF assms(3)])
  qed
  ultimately show ?thesis using t by simp
qed

theorem credit_within_cost_witness:
  "toCents (periodPaidUnlocked example_agreement ''agreement'' 1 (utc_midnight 19732) (\<lambda>_. False) (\<lambda>_. False)) \<le> 123279"
proof -
  have c: "credit_items example_agreement ''agreement'' 1 (utc_midnight 19732) (\<lambda>_. False) (\<lambda>_. False) = [120000]"
    unfolding credit_items_def example_subPeriods
    by (simp add: credit_cents_def periodKeySet_def fixed_cents_def example_cents)
      (simp add: example_agreement_def)
  have w: "whole_cents example_agreement (utc_midnight 19732)"
    unfolding whole_cents_def example_subPeriods by (simp add: example_cents) (simp add: example_agreement_def)
  have n: "nonneg_rates example_agreement"
    by (simp add: nonneg_rates_def example_agreement_def euros_def f_div_def f_of_int_def fl_nonneg)
  from credit_within_cost [OF example_dated n w, of "''agreement''" 1 "\<lambda>_. False" "\<lambda>_. False"] show ?thesis
    by (simp add: c accrued_cents_def example_elapsed example_cents)
qed

end
