(* ===== verification/Payment_Model.thy ===== *)
theory Payment_Model
  imports Settlement_Properties
begin

text \<open>
  Money received: the tables behind \<^verbatim>\<open>internal/handlers/payments.go\<close>, \<^verbatim>\<open>period_history_guard.go\<close>,
  \<^verbatim>\<open>payment_year_guard.go\<close> and \<^verbatim>\<open>invoice_credit.go\<close>, and the operations on them. A transaction is
  a function on the tables that returns an error, which rolls it back, or the new tables. Columns
  of type NUMERIC(12,2) are integers of cents.
\<close>

subsection \<open>Tables\<close>

record pay_row =
  pm_ID :: int
  pm_PersonID :: int
  pm_Amount :: int
  pm_PaidOn :: time
  pm_Method :: string
  pm_Note :: string
  pm_Auto :: bool
  pm_Reversed :: bool
  pm_Settles :: "(string \<times> int \<times> string) option"
  pm_CreatedBy :: "int option"
  pm_Key :: "(string \<times> string) option"
  pm_ReceivedOn :: "time option"

record alloc_row =
  al_Payment :: int
  al_Kind :: string
  al_Ref :: int
  al_Amount :: int
  al_CreatedAt :: time

record charge_entry =
  ch_ID :: int
  ch_PersonID :: int
  ch_VehicleID :: "int option"
  ch_Description :: string
  ch_Amount :: float64
  ch_Quantity :: float64
  ch_ChargedOn :: time
  ch_Paid :: bool

record invoice_row =
  iv_ID :: int
  iv_PersonID :: int
  iv_Canceled :: bool
  iv_Cancels :: "int option"
  iv_Total :: int
  iv_Paid :: int

record source_row =
  so_Invoice :: int
  so_Kind :: string
  so_Ref :: int
  so_Period :: string

record invpay_row =
  ip_Invoice :: int
  ip_Payment :: int
  ip_Amount :: int

record bank_row =
  bt_ID :: int
  bt_Payment :: "int option"
  bt_Status :: string
  bt_Person :: "int option"

record ledger =
  lg_payments :: "pay_row list"
  lg_allocs :: "alloc_row list"
  lg_charges :: "charge_entry list"
  lg_vehicles :: "vehicle list"
  lg_cats :: "int \<Rightarrow> category"
  lg_agreements :: "flat_rate_period list"
  lg_recurring :: "recurring_charge list"
  lg_invoices :: "invoice_row list"
  lg_sources :: "source_row list"
  lg_invpays :: "invpay_row list"
  lg_bank :: "bank_row list"
  lg_persons :: "int list"
  lg_locked_years :: "int list"
  lg_next :: int

text \<open>What one request sees from outside: the clock, the business day, the database's
  \<^verbatim>\<open>CURRENT_DATE\<close>, the acting user, the rounding of NUMERIC columns and the request hash.\<close>

record pay_env =
  pe_now :: time
  pe_today :: time
  pe_user :: "int option"
  pe_numeric :: "float64 \<Rightarrow> int"

datatype conflict =
    Year_Locked int
  | Period_History
  | Position_Changed
  | Position_Invoiced
  | Paid_By_Payment

datatype pay_error =
    Settlement_Conflict conflict
  | Settlement_Race
  | Charge_Claimed
  | Check_Violation
  | Unique_Violation
  | Foreign_Key_Violation
  | Idempotency_Conflict
  | Payment_Not_Found
  | Period_Managed

subsection \<open>Closed tax years\<close>

definition periodicKinds :: "string \<Rightarrow> bool" where
  "periodicKinds k \<longleftrightarrow> k \<in> {''vehicle'', ''agreement'', ''recurring''}"

definition taxRuleYear :: "time \<Rightarrow> string \<Rightarrow> string \<Rightarrow> int" where
  "taxRuleYear paidOn kind period =
     (let y = time_year paidOn; m = time_month paidOn; d = time_day paidOn
      in if \<not> periodicKinds kind \<or> period = [] then y
         else case parse_month period of
             Some pm \<Rightarrow>
               (if m = 1 \<and> d \<le> 15 \<and> time_year pm = y - 1 \<and> time_month pm = 12 then y - 1
                else if m = 12 \<and> d \<ge> 17 \<and> time_year pm = y + 1 \<and> time_month pm = 1 then y + 1
                else y)
           | None \<Rightarrow>
               (case atoi period of
                  Some py \<Rightarrow> if length period = 4 \<and> m = 12 \<and> d \<ge> 17 \<and> py = y + 1 then y + 1 else y
                | None \<Rightarrow> y))"

definition guarded_years :: "ledger \<Rightarrow> int list \<Rightarrow> time list \<Rightarrow> int list" where
  "guarded_years L ids dates =
     map time_year dates
     @ concat (map (\<lambda>p.
         let received = (case pm_ReceivedOn p of None \<Rightarrow> pm_PaidOn p | Some t \<Rightarrow> t);
             kind = (case pm_Settles p of None \<Rightarrow> [] | Some (k, _, _) \<Rightarrow> k);
             period = (case pm_Settles p of None \<Rightarrow> [] | Some (_, _, q) \<Rightarrow> q)
         in [time_year (pm_PaidOn p), time_year received, taxRuleYear received kind period])
       (filter (\<lambda>p. pm_ID p \<in> set ids) (lg_payments L)))"

definition protectPaymentChangesTx :: "ledger \<Rightarrow> int list \<Rightarrow> time list \<Rightarrow> pay_error option" where
  "protectPaymentChangesTx L ids dates =
     (case find (\<lambda>y. y \<in> set (lg_locked_years L)) (sort (remdups (guarded_years L ids dates))) of
        None \<Rightarrow> None
      | Some y \<Rightarrow> Some (Settlement_Conflict (Year_Locked y)))"

definition settles_one :: "string \<Rightarrow> int \<Rightarrow> string list option \<Rightarrow> pay_row \<Rightarrow> bool" where
  "settles_one kind ref periods p \<longleftrightarrow>
     (case pm_Settles p of
        None \<Rightarrow> False
      | Some (k, r, q) \<Rightarrow> k = kind \<and> r = ref \<and> (case periods of None \<Rightarrow> True | Some qs \<Rightarrow> q \<in> set qs))"

definition protectPeriodPaymentsTx :: "ledger \<Rightarrow> string \<Rightarrow> int \<Rightarrow> string list option \<Rightarrow> pay_error option" where
  "protectPeriodPaymentsTx L kind ref periods =
     protectPaymentChangesTx L
       (map pm_ID (filter (\<lambda>p. pm_Auto p \<and> settles_one kind ref periods p) (lg_payments L))) []"

definition protectCurrentReceiptTx :: "pay_env \<Rightarrow> ledger \<Rightarrow> string \<Rightarrow> string \<Rightarrow> pay_error option" where
  "protectCurrentReceiptTx env L kind period =
     (let today = pe_today env
      in protectPaymentChangesTx L [] [today, date_utc (taxRuleYear today kind period) 1 1])"

subsection \<open>Receipts of single periods\<close>

definition preservePeriodPaymentHistoryTx :: "ledger \<Rightarrow> string \<Rightarrow> int \<Rightarrow> string list option \<Rightarrow> pay_error option" where
  "preservePeriodPaymentHistoryTx L kind ref periods =
     (case protectPeriodPaymentsTx L kind ref periods of
        Some e \<Rightarrow> Some e
      | None \<Rightarrow>
          if \<exists>p \<in> set (lg_payments L). settles_one kind ref periods p
          then Some (Settlement_Conflict Period_History) else None)"

definition insert_payment :: "pay_row \<Rightarrow> ledger \<Rightarrow> pay_error + ledger" where
  "insert_payment p L =
     (if pm_Amount p \<le> 0 then Inl Check_Violation
      else if pm_Settles p \<noteq> None \<and> (\<exists>q \<in> set (lg_payments L). pm_Settles q = pm_Settles p) then Inl Unique_Violation
      else if pm_PersonID p \<notin> set (lg_persons L) then Inl Foreign_Key_Violation
      else Inr (L\<lparr>lg_payments := lg_payments L @ [p\<lparr>pm_ID := lg_next L\<rparr>], lg_next := lg_next L + 1\<rparr>))"

definition recordPeriodPaymentTx ::
  "pay_env \<Rightarrow> ledger \<Rightarrow> int \<Rightarrow> string \<Rightarrow> int \<Rightarrow> string \<Rightarrow> float64 \<Rightarrow> pay_error + ledger" where
  "recordPeriodPaymentTx env L person kind ref period amount =
     (let existing = find (\<lambda>p. pm_Auto p \<and> \<not> pm_Reversed p \<and> pm_Settles p = Some (kind, ref, period)) (lg_payments L)
      in if (case existing of None \<Rightarrow> False | Some p \<Rightarrow> round2 (euros (pm_Amount p)) = round2 amount) then Inr L
         else case preservePeriodPaymentHistoryTx L kind ref (Some [period]) of
             Some e \<Rightarrow> Inl e
           | None \<Rightarrow>
               (case protectCurrentReceiptTx env L kind period of
                  Some e \<Rightarrow> Inl e
                | None \<Rightarrow>
                    if amount < fl (5 / 1000) then Inr L
                    else insert_payment
                      \<lparr>pm_ID = 0, pm_PersonID = person, pm_Amount = pe_numeric env amount, pm_PaidOn = pe_today env,
                       pm_Method = ''bar'', pm_Note = periodPaymentNote kind period, pm_Auto = True,
                       pm_Reversed = False, pm_Settles = Some (kind, ref, period),
                       pm_CreatedBy = pe_user env, pm_Key = None, pm_ReceivedOn = None\<rparr> L))"

definition deletePeriodPaymentTx :: "ledger \<Rightarrow> string \<Rightarrow> int \<Rightarrow> string \<Rightarrow> pay_error + ledger" where
  "deletePeriodPaymentTx L kind ref period =
     (case preservePeriodPaymentHistoryTx L kind ref (Some [period]) of Some e \<Rightarrow> Inl e | None \<Rightarrow> Inr L)"

subsection \<open>Claims on positions\<close>

text \<open>An allocation row: the claim guard of a charge, the positive amount, and the unique index on
  (kind, ref) that makes a second claim do nothing.\<close>

definition active_source :: "ledger \<Rightarrow> (source_row \<Rightarrow> bool) \<Rightarrow> bool" where
  "active_source L P \<longleftrightarrow>
     (\<exists>s \<in> set (lg_sources L). P s \<and> (\<exists>i \<in> set (lg_invoices L). iv_ID i = so_Invoice s \<and> \<not> iv_Canceled i))"

definition claimed :: "ledger \<Rightarrow> string \<Rightarrow> int \<Rightarrow> bool" where
  "claimed L kind ref \<longleftrightarrow> (\<exists>a \<in> set (lg_allocs L). al_Kind a = kind \<and> al_Ref a = ref)"

definition claim_position :: "int \<Rightarrow> string \<Rightarrow> int \<Rightarrow> int \<Rightarrow> time \<Rightarrow> ledger \<Rightarrow> pay_error + bool \<times> ledger" where
  "claim_position pid kind ref amount created L =
     (if kind = ''charge'' \<and> active_source L (\<lambda>s. so_Kind s = ''charge'' \<and> so_Ref s = ref \<and> so_Period s = [])
      then Inl Charge_Claimed
      else if amount \<le> 0 then Inl Check_Violation
      else if claimed L kind ref then Inr (False, L)
      else Inr (True, L\<lparr>lg_allocs := lg_allocs L @
        [\<lparr>al_Payment = pid, al_Kind = kind, al_Ref = ref, al_Amount = amount, al_CreatedAt = created\<rparr>]\<rparr>))"

definition periodInvoicedTx :: "ledger \<Rightarrow> string \<Rightarrow> int \<Rightarrow> string \<Rightarrow> bool" where
  "periodInvoicedTx L kind ref period =
     active_source L (\<lambda>s. so_Kind s = kind \<and> so_Ref s = ref \<and> (period = [] \<or> so_Period s = period))"

definition lockedPositionsFrom :: "ledger \<Rightarrow> int \<Rightarrow> string list" where
  "lockedPositionsFrom L person =
     map (\<lambda>s. lockKey (so_Kind s) (so_Ref s) (so_Period s))
       (filter (\<lambda>s. \<exists>i \<in> set (lg_invoices L). iv_ID i = so_Invoice s \<and> iv_PersonID i = person \<and> \<not> iv_Canceled i)
         (lg_sources L))"

subsection \<open>Open positions\<close>

record owed_item =
  oi_Date :: time
  oi_Kind :: string
  oi_ID :: int
  oi_Period :: string
  oi_Label :: string
  oi_Quantity :: float64
  oi_UnitAmount :: float64
  oi_LineTotal :: float64

definition before_last_colon :: "string \<Rightarrow> string option" where
  "before_last_colon k =
     (case dropWhile (\<lambda>c. c \<noteq> CHR '':'') (rev k) of [] \<Rightarrow> None | _ # r \<Rightarrow> Some (rev r))"

definition vehicle_label :: "vehicle \<Rightarrow> string" where
  "vehicle_label v =
     (if trim_space (vh_Label v) \<noteq> [] then trim_space (vh_Label v)
      else if trim_space (vh_LicensePlate v) \<noteq> [] then trim_space (vh_LicensePlate v)
      else vh_CategoryName v)"

definition format_dmy :: "time \<Rightarrow> string" where
  "format_dmy t = fmt_0d 2 (time_day t) @ ''.'' @ fmt_0d 2 (time_month t) @ ''.'' @ fmt_0d 4 (time_year t)"

definition vehicle_accrued :: "pay_env \<Rightarrow> ledger \<Rightarrow> vehicle \<Rightarrow> float64" where
  "vehicle_accrued env L v = round2 (AccruedCostAsOf v (lg_cats L (vh_CategoryID v)) (pe_now env))"

definition vehicle_items :: "pay_env \<Rightarrow> ledger \<Rightarrow> int \<Rightarrow> owed_item list" where
  "vehicle_items env L person =
     (let ags = filter (\<lambda>a. fp_PersonID a = person) (lg_agreements L);
          vs = sort_key (\<lambda>v. t_inst (vh_StartDate v)) (filter (\<lambda>v. vh_PersonID v = person) (lg_vehicles L))
      in map (\<lambda>v. \<lparr>oi_Date = vh_StartDate v, oi_Kind = ''vehicle'', oi_ID = vh_ID v, oi_Period = [],
            oi_Label = ''Einstellplatz: '' @ vehicle_label v @ '' (ab '' @ format_dmy (vh_StartDate v) @ '')'',
            oi_Quantity = 1, oi_UnitAmount = vehicle_accrued env L v, oi_LineTotal = vehicle_accrued env L v\<rparr>)
          (filter (\<lambda>v. \<not> (vh_Paid v \<or> vh_Archived v \<or> vehicle_accrued env L v \<le> fl (5 / 1000)
              \<or> coveringAgreements ags (vh_ID v) (vh_StartDate v) \<noteq> [])) vs))"

definition line_total :: "float64 \<Rightarrow> float64 \<Rightarrow> float64" where
  "line_total unit qty = round2 (f_mul unit (if qty \<le> 0 then 1 else qty))"

definition charge_items :: "ledger \<Rightarrow> int \<Rightarrow> owed_item list" where
  "charge_items L person =
     map (\<lambda>c. \<lparr>oi_Date = ch_ChargedOn c, oi_Kind = ''charge'', oi_ID = ch_ID c, oi_Period = [],
         oi_Label = ch_Description c, oi_Quantity = (if ch_Quantity c \<le> 0 then 1 else ch_Quantity c),
         oi_UnitAmount = ch_Amount c, oi_LineTotal = line_total (ch_Amount c) (ch_Quantity c)\<rparr>)
       (filter (\<lambda>c. ch_PersonID c = person \<and> ch_VehicleID c = None \<and> \<not> ch_Paid c
           \<and> \<not> claimed L ''charge'' (ch_ID c) \<and> fl (5 / 1000) < line_total (ch_Amount c) (ch_Quantity c))
         (lg_charges L))"

definition openOwedItemsFrom :: "pay_env \<Rightarrow> ledger \<Rightarrow> int \<Rightarrow> owed_item list" where
  "openOwedItemsFrom env L person =
     (let lockedRef = map before_last_colon (lockedPositionsFrom L person);
          items = filter (\<lambda>it. Some (oi_Kind it @ '':'' @ fmt_int (oi_ID it)) \<notin> set lockedRef)
            (vehicle_items env L person @ charge_items L person)
      in sort_key (\<lambda>it. t_inst (oi_Date it)) items)"

subsection \<open>The paid toggle of one position\<close>

record bound_charge =
  bc_id :: int
  bc_total :: float64

definition bound_charges :: "ledger \<Rightarrow> int \<Rightarrow> bound_charge list" where
  "bound_charges L vehicle =
     map (\<lambda>c. \<lparr>bc_id = ch_ID c, bc_total = line_total (ch_Amount c) (ch_Quantity c)\<rparr>)
       (filter (\<lambda>c. ch_VehicleID c = Some vehicle \<and> \<not> ch_Paid c
           \<and> \<not> active_source L (\<lambda>s. so_Kind s = ''charge'' \<and> so_Ref s = ch_ID c)
           \<and> fl (5 / 1000) < line_total (ch_Amount c) (ch_Quantity c)) (lg_charges L))"

definition toggleOwedFrom :: "pay_env \<Rightarrow> ledger \<Rightarrow> string \<Rightarrow> int \<Rightarrow> int \<Rightarrow> float64 \<times> bound_charge list" where
  "toggleOwedFrom env L kind ref person =
     (foldl (\<lambda>amt it. if oi_Kind it = kind \<and> oi_ID it = ref then oi_LineTotal it else amt) 0
        (openOwedItemsFrom env L person),
      if kind = ''vehicle'' then bound_charges L ref else [])"

definition set_charge_paid :: "bool \<Rightarrow> (charge_entry \<Rightarrow> bool) \<Rightarrow> ledger \<Rightarrow> ledger" where
  "set_charge_paid paid P L =
     L\<lparr>lg_charges := map (\<lambda>c. if P c then c\<lparr>ch_Paid := paid\<rparr> else c) (lg_charges L)\<rparr>"

definition reverseTogglePaymentTx :: "int \<Rightarrow> ledger \<Rightarrow> ledger" where
  "reverseTogglePaymentTx pid L =
     L\<lparr>lg_payments := map (\<lambda>p. if pm_ID p = pid \<and> pm_Auto p \<and> \<not> pm_Reversed p then p\<lparr>pm_Reversed := True\<rparr> else p)
         (lg_payments L),
       lg_allocs := filter (\<lambda>a. al_Payment a \<noteq> pid) (lg_allocs L)\<rparr>"

definition toggle_payments :: "ledger \<Rightarrow> string \<Rightarrow> int \<Rightarrow> int list" where
  "toggle_payments L kind ref =
     sort (map pm_ID (filter (\<lambda>p. pm_Auto p \<and> \<not> pm_Reversed p
       \<and> (\<exists>a \<in> set (lg_allocs L). al_Payment a = pm_ID p \<and> al_Kind a = kind \<and> al_Ref a = ref)) (lg_payments L)))"

definition toggle_open :: "ledger \<Rightarrow> string \<Rightarrow> int \<Rightarrow> pay_error + ledger" where
  "toggle_open L kind ref =
     (let ids = toggle_payments L kind ref
      in case protectPaymentChangesTx L ids [] of
           Some e \<Rightarrow> Inl e
         | None \<Rightarrow>
             (let stamped = (\<lambda>c. ch_VehicleID c = Some ref \<and>
                    (\<exists>ca \<in> set (lg_allocs L). al_Kind ca = ''charge'' \<and> al_Ref ca = ch_ID c \<and>
                       (\<exists>va \<in> set (lg_allocs L). al_Kind va = ''vehicle'' \<and> al_Ref va = ref \<and> al_Payment va = al_Payment ca)));
                  L = (if kind = ''vehicle'' then set_charge_paid False stamped L else L)
              in Inr (fold reverseTogglePaymentTx ids L)))"

fun claim_bound :: "pay_env \<Rightarrow> int \<Rightarrow> bound_charge list \<Rightarrow> ledger \<Rightarrow> pay_error + ledger" where
  "claim_bound env pid [] L = Inr L"
| "claim_bound env pid (b # bs) L =
     (case claim_position pid ''charge'' (bc_id b) (pe_numeric env (bc_total b)) (pe_now env) L of
        Inl e \<Rightarrow> Inl e
      | Inr (False, _) \<Rightarrow> Inl Settlement_Race
      | Inr (True, L) \<Rightarrow> claim_bound env pid bs (set_charge_paid True (\<lambda>c. ch_ID c = bc_id b) L))"

definition toggle_note :: string where
  "toggle_note = ''Slider '' @ utf8_text [226, 128, 158] @ ''bezahlt'' @ utf8_text [34]"

definition toggle_paid ::
  "pay_env \<Rightarrow> ledger \<Rightarrow> string \<Rightarrow> int \<Rightarrow> int \<Rightarrow> float64 \<Rightarrow> bound_charge list \<Rightarrow> pay_error + ledger" where
  "toggle_paid env L kind ref person amt bound =
     (if f_add amt (f_sum 0 (map bc_total bound)) < fl (5 / 1000) then Inr L
      else if claimed L kind ref then Inr L
      else case protectCurrentReceiptTx env L [] [] of
          Some e \<Rightarrow> Inl e
        | None \<Rightarrow>
            (let claimable = filter (\<lambda>b. \<not> claimed L ''charge'' (bc_id b)) bound;
                 total = f_sum amt (map bc_total claimable);
                 pid = lg_next L
             in case insert_payment
                  \<lparr>pm_ID = 0, pm_PersonID = person, pm_Amount = pe_numeric env (round2 total),
                   pm_PaidOn = pe_today env, pm_Method = ''bar'', pm_Note = toggle_note, pm_Auto = True,
                   pm_Reversed = False, pm_Settles = None, pm_CreatedBy = pe_user env, pm_Key = None,
                   pm_ReceivedOn = None\<rparr> L of
                  Inl e \<Rightarrow> Inl e
                | Inr L \<Rightarrow>
                    (case claim_position pid kind ref (pe_numeric env amt) (pe_now env) L of
                       Inl e \<Rightarrow> Inl e
                     | Inr (False, _) \<Rightarrow> Inl Settlement_Race
                     | Inr (True, L) \<Rightarrow> claim_bound env pid claimable L)))"

definition syncTogglePaymentTx ::
  "pay_env \<Rightarrow> ledger \<Rightarrow> string \<Rightarrow> int \<Rightarrow> int \<Rightarrow> bool \<Rightarrow> float64 \<Rightarrow> bound_charge list \<Rightarrow> pay_error + ledger" where
  "syncTogglePaymentTx env L kind ref person paid amt bound =
     (if \<not> paid then toggle_open L kind ref else toggle_paid env L kind ref person amt bound)"

end
