(* ===== verification/Payment_Flow.thy ===== *)
theory Payment_Flow
  imports Payment_Model "HOL-Library.List_Lexorder" "HOL-Library.Product_Lexorder" "HOL-Library.Char_ord"
begin

text \<open>
  The handlers that move money: recording a payment, reversing it, the paid switches of vehicles
  and charges, and the drawdown of credit. \<open>mid\<close> is what other requests change between a
  handler's first reads and its transaction.
\<close>

subsection \<open>Settling positions with a payment\<close>

definition settleItemTx :: "pay_env \<Rightarrow> int \<Rightarrow> owed_item \<Rightarrow> ledger \<Rightarrow> pay_error + bool \<times> int \<times> ledger" where
  "settleItemTx env pid it L =
     (if oi_Kind it = ''vehicle'' \<and> periodInvoicedTx L ''vehicle'' (oi_ID it) [] then Inr (False, 0, L)
      else case claim_position pid (oi_Kind it) (oi_ID it) (pe_numeric env (oi_LineTotal it)) (pe_now env) L of
          Inl e \<Rightarrow> Inl e
        | Inr (False, L) \<Rightarrow> Inr (False, 0, L)
        | Inr (True, L) \<Rightarrow>
            (if oi_Kind it = ''vehicle''
             then Inr (True, oi_ID it, L\<lparr>lg_vehicles := map (\<lambda>v. if vh_ID v = oi_ID it
                then v\<lparr>vh_Paid := True, vh_PaidThrough := Some (businessDay (pe_now env))\<rparr> else v) (lg_vehicles L)\<rparr>)
             else if oi_Kind it = ''charge''
             then Inr (True, 0, set_charge_paid True (\<lambda>c. ch_ID c = oi_ID it \<and> ch_VehicleID c = None) L)
             else Inr (True, 0, L)))"

record paymentRequest =
  pq_Amount :: float64
  pq_PaidOn :: string
  pq_Method :: string
  pq_Note :: string
  pq_Allocate :: bool
  pq_Allocations :: "(string \<times> int) list"

fun settle_loop ::
  "pay_env \<Rightarrow> int \<Rightarrow> bool \<Rightarrow> owed_item list \<Rightarrow> float64 \<Rightarrow> nat \<Rightarrow> int list \<Rightarrow> ledger \<Rightarrow> pay_error + nat \<times> int list \<times> ledger" where
  "settle_loop env pid strict [] remaining settled archive L = Inr (settled, archive, L)"
| "settle_loop env pid strict (it # its) remaining settled archive L =
     (if f_add remaining (fl (5 / 1000)) < oi_LineTotal it
      then (if strict then Inr (settled, archive, L) else settle_loop env pid strict its remaining settled archive L)
      else case settleItemTx env pid it L of
          Inl e \<Rightarrow> Inl e
        | Inr (False, _, L) \<Rightarrow> settle_loop env pid strict its remaining settled archive L
        | Inr (True, veh, L) \<Rightarrow>
            settle_loop env pid strict its (f_sub remaining (oi_LineTotal it)) (settled + 1)
              (if veh > 0 then archive @ [veh] else archive) L)"

definition settlePaymentTx ::
  "pay_env \<Rightarrow> int \<Rightarrow> paymentRequest \<Rightarrow> owed_item list \<Rightarrow> ledger \<Rightarrow> pay_error + nat \<times> int list \<times> ledger" where
  "settlePaymentTx env pid req items L =
     (let want = map (\<lambda>(k, i). k @ '':'' @ fmt_int i) (pq_Allocations req);
          explicit = pq_Allocations req \<noteq> [];
          targets = (if explicit then filter (\<lambda>it. (oi_Kind it @ '':'' @ fmt_int (oi_ID it)) \<in> set want) items
            else if pq_Allocate req then items else [])
      in settle_loop env pid (\<not> explicit \<and> pq_Allocate req) targets (pq_Amount req) 0 [] L)"

subsection \<open>Closing a vehicle\<close>

text \<open>The closing condition of a vehicle is a condition on nullable columns; \<open>None\<close> is NULL.\<close>

definition sql_not :: "bool option \<Rightarrow> bool option" where "sql_not = map_option Not"

definition sql_and :: "bool option \<Rightarrow> bool option \<Rightarrow> bool option" where
  "sql_and a b = (if a = Some False \<or> b = Some False then Some False
     else if a = None \<or> b = None then None else Some True)"

definition sql_or :: "bool option \<Rightarrow> bool option \<Rightarrow> bool option" where
  "sql_or a b = sql_not (sql_and (sql_not a) (sql_not b))"

definition sql_ge :: "time option \<Rightarrow> time option \<Rightarrow> bool option" where
  "sql_ge a b = (case (a, b) of (Some x, Some y) \<Rightarrow> Some (\<not> before x y) | _ \<Rightarrow> None)"

text \<open>The sub-periods from the start to the end of a rental: first day, last day and key.\<close>

definition rental_periods :: "vehicle \<Rightarrow> time \<Rightarrow> (time \<times> string) list" where
  "rental_periods v e =
     (if vh_BillingPeriod v = BillingYearly
      then map (\<lambda>y. (utc_midnight (ystart (y + 1) - 1), format_year (utc_midnight (ystart y))))
        [year_of_day (local_day (vh_StartDate v))..year_of_day (local_day e)]
      else map (\<lambda>m. (utc_midnight (mstart (m + 1) - 1), format_month (utc_midnight (mstart m))))
        [month_index (local_day (vh_StartDate v))..month_index (local_day e)])"

definition period_uncovered :: "ledger \<Rightarrow> vehicle \<Rightarrow> time \<Rightarrow> time \<times> string \<Rightarrow> bool" where
  "period_uncovered L v e per =
     (case per of (lastDay, key) \<Rightarrow>
       \<not> (vh_Paid v \<and> (case vh_PaidThrough v of None \<Rightarrow> False | Some t \<Rightarrow> \<not> before t (min_time e lastDay)))
       \<and> \<not> active_source L (\<lambda>s. so_Kind s = ''vehicle'' \<and> so_Ref s = vh_ID v \<and> so_Period s = key))"

definition vehicleArchivePredicate :: "ledger \<Rightarrow> time \<Rightarrow> vehicle \<Rightarrow> bool option" where
  "vehicleArchivePredicate L today v =
     (let collected = Some (vh_Status v = StatusCollected);
          sources = (\<lambda>s. so_Kind s = ''vehicle'' \<and> so_Ref s = vh_ID v);
          unpaid = (\<exists>s \<in> set (lg_sources L). sources s \<and> (\<exists>i \<in> set (lg_invoices L).
             iv_ID i = so_Invoice s \<and> \<not> iv_Canceled i \<and> 0 < iv_Total i - iv_Paid i))
      in sql_or (Some (vh_Status v = StatusCancelled))
          (sql_or (sql_and collected (sql_and (Some (vh_Paid v)) (sql_ge (vh_PaidThrough v) (vh_EndDate v))))
            (sql_and collected (sql_and (sql_not (sql_ge (vh_EndDate v) (Some today)))
              (sql_and (Some (active_source L sources)) (sql_and (Some (\<not> unpaid))
                (Some (case vh_EndDate v of None \<Rightarrow> True
                   | Some e \<Rightarrow> \<not> list_ex (period_uncovered L v e) (rental_periods v e)))))))))"

definition archive_if :: "ledger \<Rightarrow> time \<Rightarrow> (vehicle \<Rightarrow> bool) \<Rightarrow> ledger" where
  "archive_if L today P =
     L\<lparr>lg_vehicles := map (\<lambda>v. if P v \<and> \<not> vh_Archived v \<and> vehicleArchivePredicate L today v = Some True
         then v\<lparr>vh_Archived := True\<rparr> else v) (lg_vehicles L)\<rparr>"

definition autoArchiveIfClosed :: "pay_env \<Rightarrow> int \<Rightarrow> ledger \<Rightarrow> ledger" where
  "autoArchiveIfClosed env vid L = archive_if L (businessDay (pe_now env)) (\<lambda>v. vh_ID v = vid)"

definition archiveInvoiceSettledCollected :: "pay_env \<Rightarrow> int \<Rightarrow> ledger \<Rightarrow> ledger" where
  "archiveInvoiceSettledCollected env person L =
     archive_if L (businessDay (pe_now env)) (\<lambda>v. vh_PersonID v = person \<and> vh_Status v = StatusCollected)"

subsection \<open>Checking a request\<close>

definition maxMoneyAmount :: float64 where "maxMoneyAmount = 1000000000"

definition paymentMethods :: "string \<Rightarrow> bool" where
  "paymentMethods m \<longleftrightarrow> m \<in> {''bar'', ''ueberweisung'', ''paypal'', ''sonstiges''}"

definition validNameLength :: "string \<Rightarrow> bool" where "validNameLength s \<longleftrightarrow> length s \<le> 100"
definition validDateLength :: "string \<Rightarrow> bool" where "validDateLength s \<longleftrightarrow> length s \<le> 20"

definition validatePayment :: "time \<Rightarrow> paymentRequest \<Rightarrow> string + paymentRequest \<times> time" where
  "validatePayment now req =
     (let req = req\<lparr>pq_Method := trim_space (pq_Method req), pq_Note := trim_space (pq_Note req)\<rparr>;
          req = (if pq_Method req = [] then req\<lparr>pq_Method := ''bar''\<rparr> else req);
          on = trim_space (pq_PaidOn req)
      in if \<not> paymentMethods (pq_Method req) then Inl ''unknown payment method''
         else if pq_Amount req \<le> 0 then Inl ''amount must be greater than 0''
         else if maxMoneyAmount < pq_Amount req then Inl ''amount exceeds the allowed maximum''
         else if \<not> validNameLength (pq_Note req) then Inl ''note is too long''
         else if on = [] then Inr (req, now)
         else if \<not> validDateLength on then Inl ''paid_on is too long''
         else case parse_date on of
             None \<Rightarrow> Inl ''paid_on must be YYYY-MM-DD''
           | Some t \<Rightarrow> Inr (req, t))"

definition validIdempotencyKey :: "string \<Rightarrow> bool" where
  "validIdempotencyKey key \<longleftrightarrow>
     8 \<le> length key \<and> length key \<le> 128 \<and> trim_space key = key
     \<and> list_all (\<lambda>c. 0x21 \<le> (of_char c :: nat) \<and> (of_char c :: nat) \<le> 0x7e) key"

type_synonym payload = "int \<times> float64 \<times> string \<times> string \<times> string \<times> bool \<times> (string \<times> int) list"

definition paymentFingerprint :: "(payload \<Rightarrow> string) \<Rightarrow> int \<Rightarrow> paymentRequest \<Rightarrow> time \<Rightarrow> string" where
  "paymentFingerprint hash person req paidOn =
     hash (person, pq_Amount req, format_date paidOn, pq_Method req, pq_Note req, pq_Allocate req,
       sort (pq_Allocations req))"

text \<open>The prior result under an actor and a key: none, a conflict, or the row with its claims.\<close>

definition idempotentPayment ::
  "ledger \<Rightarrow> int option \<Rightarrow> string \<Rightarrow> string \<Rightarrow> pay_error + (pay_row \<times> nat) option" where
  "idempotentPayment L actor key fingerprint =
     (case find (\<lambda>p. pm_CreatedBy p = actor \<and> map_option fst (pm_Key p) = Some key) (lg_payments L) of
        None \<Rightarrow> Inr None
      | Some p \<Rightarrow>
          if map_option snd (pm_Key p) \<noteq> Some fingerprint then Inl Idempotency_Conflict
          else Inr (Some (p, length (filter (\<lambda>a. al_Payment a = pm_ID p) (lg_allocs L)))))"

subsection \<open>Recording a payment\<close>

datatype pay_reply =
    Bad_Request
  | Not_Found
  | Conflict_Reply
  | Server_Error
  | Recorded pay_row nat bool
  | Settled nat
  | Reversed
  | Toggled

definition write_toggle_error :: "pay_error \<Rightarrow> pay_reply" where
  "write_toggle_error e =
     (case e of
        Settlement_Conflict _ \<Rightarrow> Conflict_Reply
      | Settlement_Race \<Rightarrow> Conflict_Reply
      | Charge_Claimed \<Rightarrow> Conflict_Reply
      | _ \<Rightarrow> Server_Error)"

definition write_pay_error :: "pay_error \<Rightarrow> pay_reply" where
  "write_pay_error e =
     (case e of
        Settlement_Conflict _ \<Rightarrow> Conflict_Reply
      | Settlement_Race \<Rightarrow> Conflict_Reply
      | Charge_Claimed \<Rightarrow> Conflict_Reply
      | Idempotency_Conflict \<Rightarrow> Conflict_Reply
      | Foreign_Key_Violation \<Rightarrow> Bad_Request
      | Check_Violation \<Rightarrow> Server_Error
      | Unique_Violation \<Rightarrow> Server_Error
      | Payment_Not_Found \<Rightarrow> Not_Found
      | Period_Managed \<Rightarrow> Conflict_Reply)"

definition new_payment :: "pay_env \<Rightarrow> int \<Rightarrow> paymentRequest \<Rightarrow> time \<Rightarrow> (string \<times> string) option \<Rightarrow> pay_row" where
  "new_payment env person req paidOn k =
     \<lparr>pm_ID = 0, pm_PersonID = person, pm_Amount = pe_numeric env (pq_Amount req), pm_PaidOn = businessDay paidOn,
      pm_Method = pq_Method req, pm_Note = pq_Note req, pm_Auto = False, pm_Reversed = False,
      pm_Settles = None, pm_CreatedBy = pe_user env, pm_Key = k, pm_ReceivedOn = None\<rparr>"

definition key_taken :: "ledger \<Rightarrow> int option \<Rightarrow> (string \<times> string) option \<Rightarrow> bool" where
  "key_taken L actor k \<longleftrightarrow> k \<noteq> None \<and>
     (\<exists>p \<in> set (lg_payments L). map_option fst (pm_Key p) = map_option fst k
        \<and> (case pm_CreatedBy p of None \<Rightarrow> 0 | Some u \<Rightarrow> u) = (case actor of None \<Rightarrow> 0 | Some u \<Rightarrow> u))"

definition create_payment_tx ::
  "pay_env \<Rightarrow> int \<Rightarrow> paymentRequest \<Rightarrow> time \<Rightarrow> (string \<times> string) option \<Rightarrow> ledger
     \<Rightarrow> pay_error + (pay_row \<times> nat \<times> bool \<times> int list) \<times> ledger" where
  "create_payment_tx env person req paidOn k L =
     (let items = (if pq_Allocate req \<or> pq_Allocations req \<noteq> [] then openOwedItemsFrom env L person else []);
          prior = (case k of None \<Rightarrow> Inr None | Some (key, fp) \<Rightarrow> idempotentPayment L (pe_user env) key fp)
      in case prior of
           Inl e \<Rightarrow> Inl e
         | Inr (Some (p, n)) \<Rightarrow> Inr ((p, n, True, []), L)
         | Inr None \<Rightarrow>
             (case protectPaymentChangesTx L [] [paidOn] of
                Some e \<Rightarrow> Inl e
              | None \<Rightarrow>
                  if key_taken L (pe_user env) k then Inl Unique_Violation
                  else let p = new_payment env person req paidOn k
                  in case insert_payment p L of
                       Inl e \<Rightarrow> Inl e
                     | Inr L' \<Rightarrow>
                         (case settlePaymentTx env (lg_next L) req items L' of
                            Inl e \<Rightarrow> Inl e
                          | Inr (n, archive, L') \<Rightarrow> Inr ((p\<lparr>pm_ID := lg_next L\<rparr>, n, False, archive), L'))))"

definition CreatePayment ::
  "pay_env \<Rightarrow> (payload \<Rightarrow> string) \<Rightarrow> (ledger \<Rightarrow> ledger) \<Rightarrow> int \<Rightarrow> paymentRequest \<Rightarrow> string \<Rightarrow> ledger \<Rightarrow> pay_reply \<times> ledger" where
  "CreatePayment env hash mid person req key L =
     (case validatePayment (pe_now env) req of
        Inl _ \<Rightarrow> (Bad_Request, L)
      | Inr (req, paidOn) \<Rightarrow>
          if key \<noteq> [] \<and> \<not> validIdempotencyKey key then (Bad_Request, L)
          else let k = (if key = [] then None else Some (key, paymentFingerprint hash person req paidOn));
              prior = (case k of None \<Rightarrow> Inr None | Some (key, fp) \<Rightarrow> idempotentPayment L (pe_user env) key fp)
          in case prior of
               Inl e \<Rightarrow> (Conflict_Reply, L)
             | Inr (Some (p, n)) \<Rightarrow> (Recorded p n True, L)
             | Inr None \<Rightarrow>
                 (let L = mid L
                  in case create_payment_tx env person req paidOn k L of
                       Inl e \<Rightarrow> (write_pay_error e, L)
                     | Inr ((p, n, replayed, archive), L') \<Rightarrow> (Recorded p n replayed, fold (autoArchiveIfClosed env) archive L')))"

subsection \<open>Reopening what a payment had closed\<close>

definition reopenUncoveredVehiclesTx :: "time \<Rightarrow> int list \<Rightarrow> ledger \<Rightarrow> ledger" where
  "reopenUncoveredVehiclesTx today ids L =
     L\<lparr>lg_vehicles := map (\<lambda>v. if vh_ID v \<in> set ids \<and> vh_Archived v \<and> vh_Status v = StatusCollected
           \<and> vehicleArchivePredicate L today v = Some False
         then v\<lparr>vh_Archived := False\<rparr> else v) (lg_vehicles L)\<rparr>"

definition invoiceVehicleIDsTx :: "ledger \<Rightarrow> int list \<Rightarrow> int list" where
  "invoiceVehicleIDsTx L invoices =
     sort (remdups (map so_Ref (filter (\<lambda>s. so_Kind s = ''vehicle'' \<and> so_Invoice s \<in> set invoices) (lg_sources L))))"

definition reopenPaymentBankTransactionsTx :: "int \<Rightarrow> ledger \<Rightarrow> ledger" where
  "reopenPaymentBankTransactionsTx pid L =
     L\<lparr>lg_bank := map (\<lambda>b. if bt_Payment b = Some pid \<and> bt_Status b = ''zugeordnet''
         then b\<lparr>bt_Status := ''offen'', bt_Person := None\<rparr> else b) (lg_bank L)\<rparr>"

subsection \<open>Reversing a payment\<close>

definition unstamp :: "string \<times> int \<Rightarrow> ledger \<Rightarrow> ledger" where
  "unstamp rf L =
     (case rf of (kind, ref) \<Rightarrow>
       if claimed L kind ref then L
       else if kind = ''vehicle''
       then L\<lparr>lg_vehicles := map (\<lambda>v. if vh_ID v = ref then v\<lparr>vh_Paid := False, vh_PaidThrough := None\<rparr> else v) (lg_vehicles L)\<rparr>
       else if kind = ''charge'' then set_charge_paid False (\<lambda>c. ch_ID c = ref \<and> ch_VehicleID c = None) L
       else L)"

definition give_back :: "int \<times> int \<Rightarrow> ledger \<Rightarrow> ledger" where
  "give_back ip L =
     (case ip of (invoice, amount) \<Rightarrow>
       L\<lparr>lg_invoices := map (\<lambda>i. if iv_ID i = invoice then i\<lparr>iv_Paid := max 0 (iv_Paid i - amount)\<rparr> else i) (lg_invoices L)\<rparr>)"

definition release_payment :: "int \<Rightarrow> ledger \<Rightarrow> ledger" where
  "release_payment pid L =
     L\<lparr>lg_payments := map (\<lambda>p. if pm_ID p = pid \<and> \<not> pm_Reversed p then p\<lparr>pm_Reversed := True\<rparr> else p) (lg_payments L),
       lg_allocs := filter (\<lambda>a. al_Payment a \<noteq> pid) (lg_allocs L),
       lg_invpays := filter (\<lambda>a. ip_Payment a \<noteq> pid) (lg_invpays L)\<rparr>"

definition delete_payment_tx :: "pay_env \<Rightarrow> int \<Rightarrow> ledger \<Rightarrow> pay_error + ledger" where
  "delete_payment_tx env pid L =
     (case find (\<lambda>p. pm_ID p = pid) (lg_payments L) of
        None \<Rightarrow> Inl Payment_Not_Found
      | Some p \<Rightarrow>
          if pm_Reversed p then Inl Payment_Not_Found
          else if pm_Settles p \<noteq> None then Inl Period_Managed
          else case protectPaymentChangesTx L [pid] [] of
              Some e \<Rightarrow> Inl e
            | None \<Rightarrow>
                (let refs = map (\<lambda>a. (al_Kind a, al_Ref a)) (filter (\<lambda>a. al_Payment a = pid) (lg_allocs L));
                     invPays = map (\<lambda>a. (ip_Invoice a, ip_Amount a)) (filter (\<lambda>a. ip_Payment a = pid) (lg_invpays L));
                     vehicleIDs = invoiceVehicleIDsTx L (map fst invPays)
                       @ map snd (filter (\<lambda>r. fst r = ''vehicle'') refs);
                     L = fold give_back invPays (fold unstamp refs (release_payment pid L))
                 in Inr (reopenPaymentBankTransactionsTx pid
                      (reopenUncoveredVehiclesTx (businessDay (pe_now env)) vehicleIDs L))))"

definition DeletePayment :: "pay_env \<Rightarrow> int \<Rightarrow> ledger \<Rightarrow> pay_reply \<times> ledger" where
  "DeletePayment env pid L =
     (case delete_payment_tx env pid L of Inl e \<Rightarrow> (write_pay_error e, L) | Inr L' \<Rightarrow> (Reversed, L'))"

subsection \<open>Paid switches\<close>

definition claimed_by_hand :: "ledger \<Rightarrow> string \<Rightarrow> int \<Rightarrow> bool" where
  "claimed_by_hand L kind ref \<longleftrightarrow>
     (\<exists>a \<in> set (lg_allocs L). al_Kind a = kind \<and> al_Ref a = ref
        \<and> (\<exists>p \<in> set (lg_payments L). pm_ID p = al_Payment a \<and> \<not> pm_Auto p))"

definition set_vehicle_paid :: "int \<Rightarrow> bool \<Rightarrow> time option \<Rightarrow> ledger \<Rightarrow> ledger" where
  "set_vehicle_paid vid paid through L =
     L\<lparr>lg_vehicles := map (\<lambda>v. if vh_ID v = vid then v\<lparr>vh_Paid := paid, vh_PaidThrough := through\<rparr> else v) (lg_vehicles L)\<rparr>"

text \<open>The boundary a settlement of the rent records: today, or the booking day of an older claim.\<close>

definition paid_through_day :: "pay_env \<Rightarrow> ledger \<Rightarrow> int \<Rightarrow> time" where
  "paid_through_day env L vid =
     (let today = businessDay (pe_now env)
      in case filter (\<lambda>a. al_Kind a = ''vehicle'' \<and> al_Ref a = vid) (lg_allocs L) of
           [] \<Rightarrow> today
         | a # as \<Rightarrow>
             (let d = businessDay (foldl max_time (al_CreatedAt a) (map al_CreatedAt as))
              in if before d today then d else today))"

definition mark_paid_tx :: "pay_env \<Rightarrow> int \<Rightarrow> int \<Rightarrow> bool \<Rightarrow> ledger \<Rightarrow> pay_error + ledger" where
  "mark_paid_tx env vid person paid L =
     (case find (\<lambda>v. vh_ID v = vid) (lg_vehicles L) of
        None \<Rightarrow> Inl Payment_Not_Found
      | Some v \<Rightarrow>
          if vh_PersonID v \<noteq> person \<or> vh_Archived v then Inl (Settlement_Conflict Position_Changed)
          else if paid \<and> \<not> vh_Paid v
          then (case toggleOwedFrom env L ''vehicle'' vid person of
                  (amt, bound) \<Rightarrow>
                    if periodInvoicedTx L ''vehicle'' vid [] then Inl (Settlement_Conflict Position_Invoiced)
                    else case syncTogglePaymentTx env L ''vehicle'' vid person True amt bound of
                        Inl e \<Rightarrow> Inl e
                      | Inr L \<Rightarrow> Inr (set_vehicle_paid vid True (Some (paid_through_day env L vid)) L))
          else if \<not> paid \<and> vh_Paid v \<and> claimed_by_hand L ''vehicle'' vid
          then Inl (Settlement_Conflict Paid_By_Payment)
          else let L' = set_vehicle_paid vid paid (if paid then vh_PaidThrough v else None) L
          in if \<not> paid \<and> vh_Paid v then syncTogglePaymentTx env L' ''vehicle'' vid person False 0 []
             else Inr L')"

definition MarkPaid :: "pay_env \<Rightarrow> (ledger \<Rightarrow> ledger) \<Rightarrow> int \<Rightarrow> bool \<Rightarrow> ledger \<Rightarrow> pay_reply \<times> ledger" where
  "MarkPaid env mid vid paid L =
     (case find (\<lambda>v. vh_ID v = vid) (lg_vehicles L) of
        None \<Rightarrow> (Not_Found, L)
      | Some v \<Rightarrow>
          if vh_Archived v then (Conflict_Reply, L)
          else case mark_paid_tx env vid (vh_PersonID v) paid (mid L) of
              Inl e \<Rightarrow> (write_toggle_error e, mid L)
            | Inr L' \<Rightarrow> (Toggled, autoArchiveIfClosed env vid L'))"

definition set_charge_paid_tx :: "pay_env \<Rightarrow> int \<Rightarrow> int \<Rightarrow> bool \<Rightarrow> ledger \<Rightarrow> pay_error + ledger" where
  "set_charge_paid_tx env cid person paid L =
     (case find (\<lambda>c. ch_ID c = cid) (lg_charges L) of
        None \<Rightarrow> Inl Payment_Not_Found
      | Some c \<Rightarrow>
          if ch_PersonID c \<noteq> person \<or> ch_VehicleID c \<noteq> None then Inl (Settlement_Conflict Position_Changed)
          else if paid \<noteq> ch_Paid c \<and> periodInvoicedTx L ''charge'' cid [] then Inl (Settlement_Conflict Position_Invoiced)
          else if \<not> paid \<and> ch_Paid c \<and> claimed_by_hand L ''charge'' cid then Inl (Settlement_Conflict Paid_By_Payment)
          else case (if paid \<and> \<not> ch_Paid c
                     then (case toggleOwedFrom env L ''charge'' cid person of
                         (amt, bound) \<Rightarrow> syncTogglePaymentTx env L ''charge'' cid person True amt bound)
                     else Inr L) of
              Inl e \<Rightarrow> Inl e
            | Inr L1 \<Rightarrow>
                (let L1 = set_charge_paid paid (\<lambda>x. ch_ID x = cid \<and> ch_VehicleID x = None) L1
                 in if \<not> paid \<and> ch_Paid c then syncTogglePaymentTx env L1 ''charge'' cid person False 0 [] else Inr L1))"

definition SetChargePaid :: "pay_env \<Rightarrow> (ledger \<Rightarrow> ledger) \<Rightarrow> int \<Rightarrow> bool \<Rightarrow> ledger \<Rightarrow> pay_reply \<times> ledger" where
  "SetChargePaid env mid cid paid L =
     (case find (\<lambda>c. ch_ID c = cid) (lg_charges L) of
        None \<Rightarrow> (Not_Found, L)
      | Some c \<Rightarrow>
          if ch_VehicleID c \<noteq> None then (Conflict_Reply, L)
          else case set_charge_paid_tx env cid (ch_PersonID c) paid (mid L) of
              Inl e \<Rightarrow> (write_toggle_error e, mid L)
            | Inr L' \<Rightarrow> (Toggled, L'))"

subsection \<open>Drawing down credit\<close>

definition spent :: "ledger \<Rightarrow> int \<Rightarrow> int" where
  "spent L pid =
     (\<Sum>a \<leftarrow> filter (\<lambda>a. al_Payment a = pid) (lg_allocs L). al_Amount a)
     + (\<Sum>a \<leftarrow> filter (\<lambda>a. ip_Payment a = pid) (lg_invpays L). ip_Amount a)"

definition creditPaymentIDsTx :: "ledger \<Rightarrow> int \<Rightarrow> int list" where
  "creditPaymentIDsTx L person =
     sort (map pm_ID (filter (\<lambda>p. pm_PersonID p = person \<and> \<not> pm_Reversed p \<and> pm_Settles p = None
       \<and> 0 < pm_Amount p - spent L (pm_ID p)) (lg_payments L)))"

definition personAccruedTotalFrom :: "pay_env \<Rightarrow> ledger \<Rightarrow> int \<Rightarrow> float64" where
  "personAccruedTotalFrom env L person =
     (let vs = filter (\<lambda>v. vh_PersonID v = person) (lg_vehicles L);
          ags = filter (\<lambda>a. fp_PersonID a = person) (lg_agreements L);
          recs = filter (\<lambda>r. rg_PersonID r = person) (lg_recurring L);
          rows = map (\<lambda>c. \<lparr>cg_vehicle = ch_VehicleID c, cg_amount = ch_Amount c, cg_quantity = ch_Quantity c,
              cg_charged_on = ch_ChargedOn c, cg_paid = ch_Paid c\<rparr>)
            (filter (\<lambda>c. ch_PersonID c = person) (lg_charges L))
      in round2 (f_add (f_add (personRent ags vs (lg_cats L) zero_time (DayAfter (pe_now env)))
             (personChargeSums ags (vehiclePaidMap vs) rows))
           (recurring_accrued recs (pe_now env))))"

definition payments_total :: "ledger \<Rightarrow> int \<Rightarrow> int" where
  "payments_total L person =
     (\<Sum>p \<leftarrow> filter (\<lambda>p. pm_PersonID p = person \<and> \<not> pm_Reversed p) (lg_payments L). pm_Amount p)"

definition credit_source :: "pay_env \<Rightarrow> ledger \<Rightarrow> int \<Rightarrow> float64 \<Rightarrow> pay_row option" where
  "credit_source env L person need =
     (case sort_key (\<lambda>p. (t_inst (pm_PaidOn p), pm_ID p))
         (filter (\<lambda>p. pm_PersonID p = person \<and> \<not> pm_Reversed p \<and> pm_Settles p = None
            \<and> pe_numeric env need \<le> pm_Amount p - spent L (pm_ID p)) (lg_payments L)) of
        [] \<Rightarrow> None
      | p # _ \<Rightarrow> Some p)"

fun credit_loop ::
  "pay_env \<Rightarrow> int \<Rightarrow> owed_item list \<Rightarrow> float64 \<Rightarrow> nat \<Rightarrow> int list \<Rightarrow> ledger \<Rightarrow> pay_error + (nat \<times> int list) \<times> ledger" where
  "credit_loop env person [] budget settled archive L = Inr ((settled, archive), L)"
| "credit_loop env person (it # its) budget settled archive L =
     (if budget < fl (5 / 1000) then Inr ((settled, archive), L)
      else if f_add budget (fl (5 / 1000)) < oi_LineTotal it then credit_loop env person its budget settled archive L
      else case credit_source env L person (oi_LineTotal it) of
          None \<Rightarrow> credit_loop env person its budget settled archive L
        | Some p \<Rightarrow>
            if f_add (euros (pm_Amount p - spent L (pm_ID p))) (fl (5 / 1000)) < oi_LineTotal it
            then credit_loop env person its budget settled archive L
            else case protectPaymentChangesTx L [pm_ID p] [] of
                Some e \<Rightarrow> Inl e
              | None \<Rightarrow>
                  (case settleItemTx env (pm_ID p) it L of
                     Inl e \<Rightarrow> Inl e
                   | Inr (False, _, L) \<Rightarrow> credit_loop env person its budget settled archive L
                   | Inr (True, veh, L) \<Rightarrow>
                       credit_loop env person its (f_sub budget (oi_LineTotal it)) (settled + 1)
                         (if veh > 0 then archive @ [veh] else archive) L))"

definition link_payment :: "int \<Rightarrow> int \<Rightarrow> int \<Rightarrow> ledger \<Rightarrow> ledger" where
  "link_payment iid pid c L =
     L\<lparr>lg_invpays := lg_invpays L @ [\<lparr>ip_Invoice = iid, ip_Payment = pid, ip_Amount = c\<rparr>],
       lg_invoices := map (\<lambda>i. if iv_ID i = iid then i\<lparr>iv_Paid := iv_Paid i + c\<rparr> else i) (lg_invoices L)\<rparr>"

text \<open>Invoices: the open amount goes through the payments in order of their ids.\<close>

fun invoice_credit ::
  "int \<Rightarrow> int list \<Rightarrow> float64 \<Rightarrow> float64 \<Rightarrow> pay_env \<Rightarrow> ledger \<Rightarrow> pay_error + float64 \<times> ledger" where
  "invoice_credit ivid [] open_amount applied env L = Inr (applied, L)"
| "invoice_credit ivid (pid # pids) open_amount applied env L =
     (if open_amount < fl (5 / 1000) then Inr (applied, L)
      else case find (\<lambda>p. pm_ID p = pid \<and> \<not> pm_Reversed p) (lg_payments L) of
          None \<Rightarrow> Inl Payment_Not_Found
        | Some p \<Rightarrow>
            (let amount = round2 (min (euros (pm_Amount p - spent L pid)) open_amount)
             in if amount < fl (5 / 1000) then invoice_credit ivid pids open_amount applied env L
                else case protectPaymentChangesTx L [pid] [] of
                    Some e \<Rightarrow> Inl e
                  | None \<Rightarrow>
                      (let c = pe_numeric env amount
                       in if c \<le> 0 then Inl Check_Violation
                          else invoice_credit ivid pids (round2 (f_sub open_amount amount)) (f_add applied amount) env
                            (link_payment ivid pid c L))))"

fun invoices_credit :: "pay_env \<Rightarrow> int list \<Rightarrow> invoice_row list \<Rightarrow> nat \<Rightarrow> ledger \<Rightarrow> pay_error + nat \<times> ledger" where
  "invoices_credit env pids [] n L = Inr (n, L)"
| "invoices_credit env pids (i # is) n L =
     (case invoice_credit (iv_ID i) pids (euros (iv_Total i - iv_Paid i)) 0 env L of
        Inl e \<Rightarrow> Inl e
      | Inr (applied, L) \<Rightarrow> invoices_credit env pids is (if fl (5 / 1000) < applied then n + 1 else n) L)"

definition open_invoices :: "ledger \<Rightarrow> int \<Rightarrow> invoice_row list" where
  "open_invoices L person =
     sort_key iv_ID (filter (\<lambda>i. iv_PersonID i = person \<and> \<not> iv_Canceled i \<and> iv_Cancels i = None
        \<and> 0 < iv_Total i - iv_Paid i) (lg_invoices L))"

definition applyInvoiceCreditTx :: "pay_env \<Rightarrow> int \<Rightarrow> int list \<Rightarrow> ledger \<Rightarrow> pay_error + nat \<times> ledger" where
  "applyInvoiceCreditTx env person pids L =
     (if pids = [] then Inr (0, L) else invoices_credit env pids (open_invoices L person) 0 L)"

definition apply_credit_tx :: "pay_env \<Rightarrow> int \<Rightarrow> ledger \<Rightarrow> pay_error + (nat \<times> int list) \<times> ledger" where
  "apply_credit_tx env person L =
     (let creditIDs = creditPaymentIDsTx L person;
          items = openOwedItemsFrom env L person;
          accrued = personAccruedTotalFrom env L person;
          openTotal = f_sum 0 (map oi_LineTotal items);
          budget = round2 (f_sub (euros (payments_total L person)) (round2 (f_sub accrued openTotal)))
      in case credit_loop env person items budget 0 [] L of
           Inl e \<Rightarrow> Inl e
         | Inr ((n, archive), L) \<Rightarrow>
             (case applyInvoiceCreditTx env person creditIDs L of
                Inl e \<Rightarrow> Inl e
              | Inr (m, L) \<Rightarrow> Inr ((n + m, archive), L)))"

definition ApplyCredit :: "pay_env \<Rightarrow> (ledger \<Rightarrow> ledger) \<Rightarrow> int \<Rightarrow> ledger \<Rightarrow> pay_reply \<times> ledger" where
  "ApplyCredit env mid person L =
     (let invoiceOpen = euros (\<Sum>i \<leftarrow> open_invoices L person. iv_Total i - iv_Paid i)
      in if openOwedItemsFrom env L person = [] \<and> invoiceOpen < fl (5 / 1000) then (Settled 0, L)
         else if filter (\<lambda>p. pm_PersonID p = person \<and> \<not> pm_Reversed p) (lg_payments L) = [] then (Settled 0, L)
         else case apply_credit_tx env person (mid L) of
             Inl e \<Rightarrow> (write_toggle_error e, mid L)
           | Inr ((n, archive), L') \<Rightarrow>
               (Settled n, archiveInvoiceSettledCollected env person (fold (autoArchiveIfClosed env) archive L')))"

end
