(* ===== verification/Payment_Ledger.thy ===== *)
theory Payment_Ledger
  imports Payment_Flow
begin

text \<open>
  The state invariant of the money tables: a position is claimed by at most one payment, a payment
  never gives out more than it received, only live payments hold claims, and a charge is claimed
  either by a payment or by an invoice. Every operation keeps it; the locale \<open>kept\<close> carries it to
  whole runs.
\<close>

subsection \<open>Runs\<close>

locale kept =
  fixes step :: "'s \<Rightarrow> 's \<Rightarrow> bool" and inv :: "'s \<Rightarrow> bool"
  assumes keeps: "step s t \<Longrightarrow> inv s \<Longrightarrow> inv t"
begin

lemma run_keeps: "step\<^sup>*\<^sup>* s t \<Longrightarrow> inv s \<Longrightarrow> inv t"
  by (induction rule: rtranclp_induct) (auto intro: keeps)

end

subsection \<open>The invariant\<close>

definition claim_of :: "alloc_row \<Rightarrow> string \<times> int" where
  "claim_of a = (al_Kind a, al_Ref a)"

definition live :: "ledger \<Rightarrow> int \<Rightarrow> bool" where
  "live L pid \<longleftrightarrow> (\<exists>p \<in> set (lg_payments L). pm_ID p = pid \<and> \<not> pm_Reversed p \<and> pm_Settles p = None)"

definition charge_invoiced :: "ledger \<Rightarrow> int \<Rightarrow> bool" where
  "charge_invoiced L ref \<longleftrightarrow> active_source L (\<lambda>s. so_Kind s = ''charge'' \<and> so_Ref s = ref \<and> so_Period s = [])"

definition sound_ledger :: "ledger \<Rightarrow> bool" where
  "sound_ledger L \<longleftrightarrow>
     distinct (map claim_of (lg_allocs L))
     \<and> (\<forall>a \<in> set (lg_allocs L). live L (al_Payment a) \<and> 0 < al_Amount a
          \<and> (al_Kind a = ''charge'' \<longrightarrow> \<not> charge_invoiced L (al_Ref a)))
     \<and> (\<forall>a \<in> set (lg_invpays L). live L (ip_Payment a) \<and> 0 < ip_Amount a)
     \<and> (\<forall>p \<in> set (lg_payments L). 0 < pm_Amount p \<and> spent L (pm_ID p) \<le> pm_Amount p)
     \<and> distinct (map pm_ID (lg_payments L)) \<and> (\<forall>p \<in> set (lg_payments L). pm_ID p < lg_next L)
     \<and> distinct (map pm_Settles (filter (\<lambda>p. pm_Settles p \<noteq> None) (lg_payments L)))"

definition payable :: "ledger \<Rightarrow> int \<Rightarrow> int \<Rightarrow> bool" where
  "payable L pid amount \<longleftrightarrow>
     (\<exists>p \<in> set (lg_payments L). pm_ID p = pid \<and> \<not> pm_Reversed p \<and> pm_Settles p = None
        \<and> spent L pid + amount \<le> pm_Amount p)"

lemma soundD:
  assumes "sound_ledger L"
  shows "distinct (map claim_of (lg_allocs L))"
    "\<And>a. a \<in> set (lg_allocs L) \<Longrightarrow> live L (al_Payment a)"
    "\<And>a. a \<in> set (lg_allocs L) \<Longrightarrow> 0 < al_Amount a"
    "\<And>a. a \<in> set (lg_allocs L) \<Longrightarrow> al_Kind a = ''charge'' \<Longrightarrow> \<not> charge_invoiced L (al_Ref a)"
    "\<And>a. a \<in> set (lg_invpays L) \<Longrightarrow> live L (ip_Payment a)"
    "\<And>a. a \<in> set (lg_invpays L) \<Longrightarrow> 0 < ip_Amount a"
    "\<And>p. p \<in> set (lg_payments L) \<Longrightarrow> 0 < pm_Amount p"
    "\<And>p. p \<in> set (lg_payments L) \<Longrightarrow> spent L (pm_ID p) \<le> pm_Amount p"
    "distinct (map pm_ID (lg_payments L))"
    "\<And>p. p \<in> set (lg_payments L) \<Longrightarrow> pm_ID p < lg_next L"
    "distinct (map pm_Settles (filter (\<lambda>p. pm_Settles p \<noteq> None) (lg_payments L)))"
  using assms by (simp_all add: sound_ledger_def)

text \<open>The tables of positions do not matter for it.\<close>

lemma spent_frame [simp]:
  "spent (L\<lparr>lg_charges := cs\<rparr>) pid = spent L pid" "spent (L\<lparr>lg_vehicles := vs\<rparr>) pid = spent L pid"
  "spent (L\<lparr>lg_invoices := is\<rparr>) pid = spent L pid" "spent (L\<lparr>lg_bank := bs\<rparr>) pid = spent L pid"
  "spent (L\<lparr>lg_payments := ps\<rparr>) pid = spent L pid" "spent (L\<lparr>lg_next := n\<rparr>) pid = spent L pid"
  by (simp_all add: spent_def)

lemma live_frame [simp]:
  "live (L\<lparr>lg_charges := cs\<rparr>) = live L" "live (L\<lparr>lg_vehicles := vs\<rparr>) = live L"
  "live (L\<lparr>lg_invoices := is\<rparr>) = live L" "live (L\<lparr>lg_bank := bs\<rparr>) = live L"
  "live (L\<lparr>lg_allocs := al\<rparr>) = live L" "live (L\<lparr>lg_invpays := ip\<rparr>) = live L" "live (L\<lparr>lg_next := n\<rparr>) = live L"
  by (simp_all add: live_def fun_eq_iff)

lemma charge_invoiced_frame [simp]:
  "charge_invoiced (L\<lparr>lg_charges := cs\<rparr>) = charge_invoiced L" "charge_invoiced (L\<lparr>lg_vehicles := vs\<rparr>) = charge_invoiced L"
  "charge_invoiced (L\<lparr>lg_bank := bs\<rparr>) = charge_invoiced L" "charge_invoiced (L\<lparr>lg_allocs := al\<rparr>) = charge_invoiced L"
  "charge_invoiced (L\<lparr>lg_payments := ps\<rparr>) = charge_invoiced L" "charge_invoiced (L\<lparr>lg_invpays := ip\<rparr>) = charge_invoiced L"
  "charge_invoiced (L\<lparr>lg_next := n\<rparr>) = charge_invoiced L"
  by (simp_all add: charge_invoiced_def active_source_def fun_eq_iff)

lemma sound_frame [simp]:
  "sound_ledger (L\<lparr>lg_charges := cs\<rparr>) = sound_ledger L" "sound_ledger (L\<lparr>lg_vehicles := vs\<rparr>) = sound_ledger L"
  "sound_ledger (L\<lparr>lg_bank := bs\<rparr>) = sound_ledger L"
  by (simp_all add: sound_ledger_def)

text \<open>An update of the invoices that keeps ids and cancellations.\<close>

definition same_invoices :: "invoice_row list \<Rightarrow> invoice_row list \<Rightarrow> bool" where
  "same_invoices is js \<longleftrightarrow> map (\<lambda>i. (iv_ID i, iv_Canceled i)) is = map (\<lambda>i. (iv_ID i, iv_Canceled i)) js"

lemma charge_invoiced_same:
  assumes "same_invoices is (lg_invoices L)"
  shows "charge_invoiced (L\<lparr>lg_invoices := is\<rparr>) = charge_invoiced L"
proof -
  have "(\<exists>i \<in> set js. iv_ID i = n \<and> \<not> iv_Canceled i) \<longleftrightarrow> (n, False) \<in> set (map (\<lambda>i. (iv_ID i, iv_Canceled i)) js)"
    for js n by force
  note this [of "is"] this [of "lg_invoices L"]
  then show ?thesis
    using assms unfolding same_invoices_def by (simp only: charge_invoiced_def active_source_def fun_eq_iff) simp
qed

lemma sound_same: "same_invoices is (lg_invoices L) \<Longrightarrow> sound_ledger (L\<lparr>lg_invoices := is\<rparr>) = sound_ledger L"
  by (simp add: sound_ledger_def charge_invoiced_same)

lemma same_invoices_map:
  "(\<And>i. iv_ID (f i) = iv_ID i \<and> iv_Canceled (f i) = iv_Canceled i) \<Longrightarrow> same_invoices (map f js) js"
  by (simp add: same_invoices_def comp_def)

subsection \<open>Adding claims and payments\<close>

lemma spent_claim: "spent (L\<lparr>lg_allocs := lg_allocs L @ [a]\<rparr>) pid = spent L pid + (if al_Payment a = pid then al_Amount a else 0)"
  by (simp add: spent_def)

lemma spent_invpay: "spent (L\<lparr>lg_invpays := lg_invpays L @ [a]\<rparr>) pid = spent L pid + (if ip_Payment a = pid then ip_Amount a else 0)"
  by (simp add: spent_def)

lemma unique_payment:
  assumes "distinct (map pm_ID ps)" "p \<in> set ps" "q \<in> set ps" "pm_ID p = pm_ID q" shows "p = q"
  using assms by (metis distinct_map inj_onD)

lemma claimed_iff: "claimed L k r \<longleftrightarrow> (k, r) \<in> set (map claim_of (lg_allocs L))"
  by (auto simp: claimed_def claim_of_def)

lemma sound_claim:
  assumes "sound_ledger L" "payable L pid amount" "claim_position pid kind ref amount t L = Inr (True, L')"
  shows "sound_ledger L'"
proof -
  let ?a = "\<lparr>al_Payment = pid, al_Kind = kind, al_Ref = ref, al_Amount = amount, al_CreatedAt = t\<rparr>"
  have c: "L' = L\<lparr>lg_allocs := lg_allocs L @ [?a]\<rparr>" "0 < amount" "\<not> claimed L kind ref"
    "kind = ''charge'' \<Longrightarrow> \<not> charge_invoiced L ref"
    using assms(3) by (auto simp: claim_position_def charge_invoiced_def split: if_splits)
  obtain p where p: "p \<in> set (lg_payments L)" "pm_ID p = pid" "\<not> pm_Reversed p" "pm_Settles p = None"
    "spent L pid + amount \<le> pm_Amount p" using assms(2) by (auto simp: payable_def)
  note s = soundD [OF assms(1)]
  have "live L pid" using p by (auto simp: live_def)
  moreover have "spent L (pm_ID q) + amount \<le> pm_Amount q" if "q \<in> set (lg_payments L)" "pid = pm_ID q" for q
    using that p unique_payment [OF s(9) p(1) that(1)] by auto
  ultimately show ?thesis
    using s c p unfolding c(1) sound_ledger_def
    by (auto simp: spent_claim claimed_iff claim_of_def [of ?a])
qed

lemma sound_invpay:
  assumes "sound_ledger L" "payable L pid amount" "0 < amount"
  shows "sound_ledger (L\<lparr>lg_invpays := lg_invpays L @ [\<lparr>ip_Invoice = i, ip_Payment = pid, ip_Amount = amount\<rparr>]\<rparr>)"
proof -
  obtain p where p: "p \<in> set (lg_payments L)" "pm_ID p = pid" "\<not> pm_Reversed p" "pm_Settles p = None"
    "spent L pid + amount \<le> pm_Amount p" using assms(2) by (auto simp: payable_def)
  note s = soundD [OF assms(1)]
  have "live L pid" using p by (auto simp: live_def)
  moreover have "spent L (pm_ID q) + amount \<le> pm_Amount q" if "q \<in> set (lg_payments L)" "pid = pm_ID q" for q
    using that p unique_payment [OF s(9) p(1) that(1)] by auto
  ultimately show ?thesis
    using s assms(3) unfolding sound_ledger_def by (auto simp: spent_invpay)
qed

lemma spent_fresh: "sound_ledger L \<Longrightarrow> spent L (lg_next L) = 0"
proof -
  assume s: "sound_ledger L"
  have "\<not> live L (lg_next L)" using soundD(10) [OF s] by (fastforce simp: live_def)
  then have "al_Payment a \<noteq> lg_next L" if "a \<in> set (lg_allocs L)" for a
    using soundD(2) [OF s that] by auto
  moreover have "ip_Payment a \<noteq> lg_next L" if "a \<in> set (lg_invpays L)" for a
    using soundD(5) [OF s that] \<open>\<not> live L (lg_next L)\<close> by auto
  ultimately show ?thesis by (simp add: spent_def)
qed

lemma insert_payment_Inr:
  assumes "insert_payment p L = Inr L'"
  shows "L' = L\<lparr>lg_payments := lg_payments L @ [p\<lparr>pm_ID := lg_next L\<rparr>], lg_next := lg_next L + 1\<rparr>"
    "0 < pm_Amount p" "pm_Settles p = None \<or> (\<forall>q \<in> set (lg_payments L). pm_Settles q \<noteq> pm_Settles p)"
  using assms by (auto simp: insert_payment_def split: if_splits)

lemma sound_insert:
  assumes "sound_ledger L" "insert_payment p L = Inr L'" "\<not> pm_Reversed p"
  shows "sound_ledger L'" and "pm_Settles p = None \<Longrightarrow> amount \<le> pm_Amount p \<Longrightarrow> payable L' (lg_next L) amount"
proof -
  note s = soundD [OF assms(1)] and i = insert_payment_Inr [OF assms(2)]
  have lv: "live L' q" if "live L q" for q using that by (auto simp: i(1) live_def)
  have "pm_Settles p \<noteq> None \<Longrightarrow> pm_Settles p \<notin> pm_Settles ` set (filter (\<lambda>p. pm_Settles p \<noteq> None) (lg_payments L))"
    using i(3) by force
  moreover have "lg_next L \<notin> pm_ID ` set (lg_payments L)" using s(10) by fastforce
  ultimately show "sound_ledger L'"
    using s i(2) lv spent_fresh [OF assms(1)] unfolding sound_ledger_def
    by (auto simp: i(1) intro: less_imp_le)
  show "payable L' (lg_next L) amount" if "pm_Settles p = None" "amount \<le> pm_Amount p"
    using that assms(3) spent_fresh [OF assms(1)] by (simp add: payable_def i(1))
qed

subsection \<open>Switch payments are spent in full\<close>

definition alloc_sum :: "ledger \<Rightarrow> int \<Rightarrow> int" where
  "alloc_sum L pid = (\<Sum>a \<leftarrow> filter (\<lambda>a. al_Payment a = pid) (lg_allocs L). al_Amount a)"

definition autos_full :: "ledger \<Rightarrow> bool" where
  "autos_full L \<longleftrightarrow> (\<forall>p \<in> set (lg_payments L).
     pm_Auto p \<and> \<not> pm_Reversed p \<and> pm_Settles p = None \<longrightarrow> alloc_sum L (pm_ID p) = pm_Amount p)"

lemma alloc_sum_frame [simp]:
  "alloc_sum (L\<lparr>lg_charges := cs\<rparr>) pid = alloc_sum L pid" "alloc_sum (L\<lparr>lg_vehicles := vs\<rparr>) pid = alloc_sum L pid"
  "alloc_sum (L\<lparr>lg_invoices := is\<rparr>) pid = alloc_sum L pid" "alloc_sum (L\<lparr>lg_bank := bs\<rparr>) pid = alloc_sum L pid"
  "alloc_sum (L\<lparr>lg_invpays := ip\<rparr>) pid = alloc_sum L pid" "alloc_sum (L\<lparr>lg_payments := ps\<rparr>) pid = alloc_sum L pid"
  "alloc_sum (L\<lparr>lg_next := n\<rparr>) pid = alloc_sum L pid"
  by (simp_all add: alloc_sum_def)

lemma autos_full_frame [simp]:
  "autos_full (L\<lparr>lg_charges := cs\<rparr>) = autos_full L" "autos_full (L\<lparr>lg_vehicles := vs\<rparr>) = autos_full L"
  "autos_full (L\<lparr>lg_invoices := is\<rparr>) = autos_full L" "autos_full (L\<lparr>lg_bank := bs\<rparr>) = autos_full L"
  "autos_full (L\<lparr>lg_invpays := ip\<rparr>) = autos_full L"
  by (simp_all add: autos_full_def)

lemma alloc_sum_claim:
  "alloc_sum (L\<lparr>lg_allocs := lg_allocs L @ [a]\<rparr>) pid = alloc_sum L pid + (if al_Payment a = pid then al_Amount a else 0)"
  by (simp add: alloc_sum_def)

lemma spent_alloc:
  "spent L pid = alloc_sum L pid + (\<Sum>a \<leftarrow> filter (\<lambda>a. ip_Payment a = pid) (lg_invpays L). ip_Amount a)"
  by (simp add: spent_def alloc_sum_def)

lemma full_no_invpay:
  assumes "sound_ledger L" "p \<in> set (lg_payments L)" "alloc_sum L (pm_ID p) = pm_Amount p" "a \<in> set (lg_invpays L)"
  shows "ip_Payment a \<noteq> pm_ID p"
proof
  assume a: "ip_Payment a = pm_ID p"
  have "(\<Sum>a \<leftarrow> filter (\<lambda>a. ip_Payment a = pm_ID p) (lg_invpays L). ip_Amount a) \<le> 0"
    using soundD(8) [OF assms(1,2)] assms(3) by (simp add: spent_alloc)
  moreover have "0 < (\<Sum>a \<leftarrow> xs. ip_Amount a)" if "\<forall>a \<in> set xs. 0 < ip_Amount a" "xs \<noteq> []" for xs
    using that(2,1) by (induction xs rule: list_nonempty_induct) auto
  moreover have "filter (\<lambda>a. ip_Payment a = pm_ID p) (lg_invpays L) \<noteq> []"
    using assms(4) a by (auto simp: filter_empty_conv)
  ultimately show False using soundD(6) [OF assms(1)] by (meson filter_is_subset leD subsetD)
qed

subsection \<open>Taking claims away\<close>

text \<open>A payment is marked reversed and loses its claims; \<open>keep\<close> says which invoice links stay.\<close>

definition drop_payment :: "int \<Rightarrow> (pay_row \<Rightarrow> bool) \<Rightarrow> invpay_row list \<Rightarrow> ledger \<Rightarrow> ledger" where
  "drop_payment pid P ips L =
     L\<lparr>lg_payments := map (\<lambda>p. if pm_ID p = pid \<and> P p then p\<lparr>pm_Reversed := True\<rparr> else p) (lg_payments L),
       lg_allocs := filter (\<lambda>a. al_Payment a \<noteq> pid) (lg_allocs L), lg_invpays := ips\<rparr>"

lemma reverse_drop: "reverseTogglePaymentTx pid L = drop_payment pid (\<lambda>p. pm_Auto p \<and> \<not> pm_Reversed p) (lg_invpays L) L"
  by (simp add: reverseTogglePaymentTx_def drop_payment_def)

lemma release_drop:
  "release_payment pid L = drop_payment pid (\<lambda>p. \<not> pm_Reversed p) (filter (\<lambda>a. ip_Payment a \<noteq> pid) (lg_invpays L)) L"
  by (simp add: release_payment_def drop_payment_def)

lemma drop_sound:
  assumes "sound_ledger L" "ips = filter (\<lambda>a. ip_Payment a \<noteq> pid) (lg_invpays L)"
  shows "sound_ledger (drop_payment pid P ips L)"
proof -
  let ?L = "drop_payment pid P ips L"
  let ?f = "\<lambda>p. if pm_ID p = pid \<and> P p then p\<lparr>pm_Reversed := True\<rparr> else p"
  note s = soundD [OF assms(1)]
  have pay: "lg_payments ?L = map ?f (lg_payments L)"
    and al: "lg_allocs ?L = filter (\<lambda>a. al_Payment a \<noteq> pid) (lg_allocs L)"
    and ip: "lg_invpays ?L = filter (\<lambda>a. ip_Payment a \<noteq> pid) (lg_invpays L)"
    and nx: "lg_next ?L = lg_next L"
    by (simp_all add: drop_payment_def assms(2))
  have ch: "charge_invoiced ?L = charge_invoiced L"
    by (simp add: charge_invoiced_def active_source_def drop_payment_def fun_eq_iff)
  have lv: "live ?L q" if "live L q" "q \<noteq> pid" for q
    using that unfolding live_def pay by force
  have sp: "spent ?L q \<le> spent L q" for q
  proof -
    have nn: "0 \<le> (\<Sum>a \<leftarrow> filter (\<lambda>a. al_Payment a = q) (lg_allocs L). al_Amount a)"
      "0 \<le> (\<Sum>a \<leftarrow> filter (\<lambda>a. ip_Payment a = q) (lg_invpays L). ip_Amount a)"
      using s(3,6) by (intro sum_list_int_nonneg; fastforce)+
    show ?thesis
    proof (cases "q = pid")
      case True
      have "filter (\<lambda>a. al_Payment a = q) (lg_allocs ?L) = []" "filter (\<lambda>a. ip_Payment a = q) (lg_invpays ?L) = []"
        unfolding al ip True by (auto simp: filter_empty_conv)
      with nn show ?thesis by (simp add: spent_def)
    next
      case False
      then have "filter (\<lambda>a. al_Payment a = q) (lg_allocs ?L) = filter (\<lambda>a. al_Payment a = q) (lg_allocs L)"
        "filter (\<lambda>a. ip_Payment a = q) (lg_invpays ?L) = filter (\<lambda>a. ip_Payment a = q) (lg_invpays L)"
        unfolding al ip by (auto intro!: filter_cong simp: conj_commute)
      then show ?thesis by (simp add: spent_def)
    qed
  qed
  have ids: "map pm_ID (map ?f ps) = map pm_ID ps" for ps by simp
  have st: "map pm_Settles (filter (\<lambda>p. pm_Settles p \<noteq> None) (map ?f ps))
      = map pm_Settles (filter (\<lambda>p. pm_Settles p \<noteq> None) ps)" for ps
    by (induction ps) auto
  show ?thesis
    unfolding sound_ledger_def
  proof (intro conjI)
    show "distinct (map claim_of (lg_allocs ?L))"
      unfolding al using s(1) by (simp add: distinct_map_filter)
    show "\<forall>a \<in> set (lg_allocs ?L). live ?L (al_Payment a) \<and> 0 < al_Amount a
        \<and> (al_Kind a = ''charge'' \<longrightarrow> \<not> charge_invoiced ?L (al_Ref a))"
      unfolding al ch using s(2,3,4) lv by auto
    show "\<forall>a \<in> set (lg_invpays ?L). live ?L (ip_Payment a) \<and> 0 < ip_Amount a"
      unfolding ip using s(5,6) lv by auto
    show "\<forall>p \<in> set (lg_payments ?L). 0 < pm_Amount p \<and> spent ?L (pm_ID p) \<le> pm_Amount p"
      unfolding pay using s(7) order_trans [OF sp s(8)] by auto
    show "distinct (map pm_ID (lg_payments ?L))" unfolding pay ids by (rule s(9))
    show "\<forall>p \<in> set (lg_payments ?L). pm_ID p < lg_next ?L" unfolding pay nx using s(10) by auto
    show "distinct (map pm_Settles (filter (\<lambda>p. pm_Settles p \<noteq> None) (lg_payments ?L)))"
      unfolding pay st by (rule s(11))
  qed
qed

lemma drop_full:
  assumes "autos_full L" "\<forall>p \<in> set (lg_payments L). pm_ID p = pid \<longrightarrow> P p \<or> pm_Reversed p"
  shows "autos_full (drop_payment pid P ips L)"
  unfolding autos_full_def
proof (intro ballI impI)
  fix p assume p: "p \<in> set (lg_payments (drop_payment pid P ips L))"
    "pm_Auto p \<and> \<not> pm_Reversed p \<and> pm_Settles p = None"
  then obtain q where q: "q \<in> set (lg_payments L)" "p = (if pm_ID q = pid \<and> P q then q\<lparr>pm_Reversed := True\<rparr> else q)"
    by (auto simp: drop_payment_def)
  then have "pm_ID q \<noteq> pid" "p = q" using p(2) assms(2) by (auto split: if_splits)
  then have "filter (\<lambda>a. al_Payment a = pm_ID p) (lg_allocs (drop_payment pid P ips L))
      = filter (\<lambda>a. al_Payment a = pm_ID p) (lg_allocs L)"
    by (auto simp: drop_payment_def intro!: filter_cong)
  then show "alloc_sum (drop_payment pid P ips L) (pm_ID p) = pm_Amount p"
    using assms(1) q(1) \<open>p = q\<close> p(2) by (simp add: autos_full_def alloc_sum_def)
qed

end
