(* ===== verification/Payment_Steps.thy ===== *)
theory Payment_Steps
  imports Payment_Ledger
begin

text \<open>
  Every transaction of the payment handlers keeps the invariant of \<open>Payment_Ledger\<close>. The amounts
  that meet in a transaction are doubles; \<open>moderate\<close> bounds them so that no cent is lost.
\<close>

subsection \<open>Amounts\<close>

definition numeric_ok :: "(float64 \<Rightarrow> int) \<Rightarrow> bool" where
  "numeric_ok f \<longleftrightarrow> (\<forall>c. \<bar>c\<bar> \<le> 10 ^ 11 \<longrightarrow> f (euros c) = c)"

definition line_cents :: "charge_entry \<Rightarrow> int" where
  "line_cents c = toCents (f_mul (ch_Amount c) (if ch_Quantity c \<le> 0 then 1 else ch_Quantity c))"

definition accrued_now :: "pay_env \<Rightarrow> ledger \<Rightarrow> vehicle \<Rightarrow> int" where
  "accrued_now env L v = toCents (AccruedCostAsOf v (lg_cats L (vh_CategoryID v)) (pe_now env))"

definition moderate :: "pay_env \<Rightarrow> ledger \<Rightarrow> bool" where
  "moderate env L \<longleftrightarrow>
     numeric_ok (pe_numeric env) \<and> length (lg_charges L) \<le> 2000 \<and> length (lg_vehicles L) \<le> 1000
     \<and> (\<forall>v \<in> set (lg_vehicles L). \<bar>accrued_now env L v\<bar> \<le> 10 ^ 10)
     \<and> (\<Sum>c \<leftarrow> lg_charges L. \<bar>line_cents c\<bar>) \<le> 9 * 10 ^ 10
     \<and> (\<forall>p \<in> set (lg_payments L). pm_Amount p \<le> 10 ^ 11)
     \<and> (\<forall>i \<in> set (lg_invoices L). \<bar>iv_Total i - iv_Paid i\<bar> \<le> 10 ^ 11)"

lemma line_total_euros: "line_total (ch_Amount c) (ch_Quantity c) = euros (line_cents c)"
  by (simp add: line_total_def line_cents_def round2_def toCents_def euros_def)

lemma vehicle_accrued_euros: "vehicle_accrued env L v = euros (accrued_now env L v)"
  by (simp add: vehicle_accrued_def accrued_now_def round2_def toCents_def euros_def)

lemma half_cent: "0 < fl (5 / 1000)" "\<bar>fl (5 / 1000) - 5 / 1000\<bar> \<le> 1 / 1000000"
proof -
  have "\<bar>fl (5 / 1000) - 5 / 1000\<bar> \<le> \<bar>5 / 1000\<bar> / 2 ^ 53" by (rule fl_error)
  also have "\<dots> \<le> 1 / 1000000" by simp
  finally show *: "\<bar>fl (5 / 1000) - 5 / 1000\<bar> \<le> 1 / 1000000" .
  then show "0 < fl (5 / 1000)" by linarith
qed

lemma slack: "near n x c \<Longrightarrow> \<bar>f_add x (fl (5 / 1000)) - (x + 5 / 1000)\<bar> \<le> 1 / 400000"
proof -
  assume n: "near n x c"
  have "\<bar>x + fl (5 / 1000)\<bar> \<le> 1000000002"
    using off_bounds [OF nearD(1,3,4) [OF n]] half_cent by linarith
  then have "\<bar>x + fl (5 / 1000)\<bar> / 2 ^ 53 \<le> 1 / 1000000" by simp
  then show ?thesis using fl_error [of "x + fl (5 / 1000)"] half_cent(2) unfolding f_add_def by linarith
qed

lemma above_half_cent:
  assumes "fl (5 / 1000) < euros c" "\<bar>c\<bar> \<le> 10 ^ 11" shows "0 < c"
proof (rule ccontr)
  assume "\<not> 0 < c"
  then have "euros c \<le> 0" using euros_less_iff [of 0 c] assms(2) by simp
  with assms(1) half_cent(1) show False by simp
qed

text \<open>The comparison with half a cent of slack is the comparison of the cents.\<close>

lemma covered_cents:
  assumes "near n x c" "n \<le> 9990" "\<bar>d\<bar> \<le> 10 ^ 11" "\<not> f_add x (fl (5 / 1000)) < euros d"
  shows "d \<le> c"
proof (rule ccontr)
  assume "\<not> d \<le> c"
  then have "(of_int (c + 1) :: rat) \<le> of_int d" by (simp only: of_int_le_iff)
  then have gap: "of_int c / 100 + 1 / 100 \<le> (of_int d / 100 :: rat)" by simp
  define a b e where "a = (of_int c / 100 :: rat)" and "b = (of_int d / 100 :: rat)" and "e = (of_int n / 4000000 :: rat)"
  have x: "\<bar>x - a\<bar> \<le> e" using nearD(1) [OF assms(1)] by (simp only: a_def e_def)
  have e: "e \<le> 1 / 400" using assms(2) by (simp add: e_def)
  have d: "\<bar>euros d - b\<bar> \<le> 1 / 4000000" using nearD(1) [OF near_euros [OF assms(3)]] by (simp add: b_def)
  then show False
    using x e d slack [OF assms(1)] gap assms(4) unfolding a_def [symmetric] b_def [symmetric] by linarith
qed

lemma enough_cents:
  assumes "near n x c" "n \<le> 9990" "\<bar>d\<bar> \<le> 10 ^ 11" "d \<le> c"
  shows "\<not> f_add x (fl (5 / 1000)) < euros d"
proof -
  define a b e where "a = (of_int c / 100 :: rat)" and "b = (of_int d / 100 :: rat)" and "e = (of_int n / 4000000 :: rat)"
  have "(of_int d :: rat) \<le> of_int c" using assms(4) by (simp only: of_int_le_iff)
  then have gap: "b \<le> a" by (simp add: a_def b_def)
  have x: "\<bar>x - a\<bar> \<le> e" using nearD(1) [OF assms(1)] by (simp only: a_def e_def)
  have e: "e \<le> 1 / 400" using assms(2) by (simp add: e_def)
  have d: "\<bar>euros d - b\<bar> \<le> 1 / 4000000" using nearD(1) [OF near_euros [OF assms(3)]] by (simp add: b_def)
  then show ?thesis using x e d slack [OF assms(1)] gap by linarith
qed

subsection \<open>Open positions are whole positive amounts\<close>

lemma charge_le_total: "c \<in> set cs \<Longrightarrow> \<bar>line_cents c\<bar> \<le> (\<Sum>c \<leftarrow> cs. \<bar>line_cents c\<bar>)"
  by (rule member_le_sum_list) (auto simp: image_iff)

lemma open_item_cents:
  assumes "moderate env L" "it \<in> set (openOwedItemsFrom env L person)"
  shows "\<exists>c. oi_LineTotal it = euros c \<and> 0 < c \<and> c \<le> 10 ^ 11"
proof -
  have "it \<in> set (vehicle_items env L person) \<or> it \<in> set (charge_items L person)"
    using assms(2) by (auto simp: openOwedItemsFrom_def Let_def)
  then show ?thesis
  proof
    assume "it \<in> set (vehicle_items env L person)"
    then obtain v where v: "v \<in> set (lg_vehicles L)" "oi_LineTotal it = vehicle_accrued env L v"
      "fl (5 / 1000) < vehicle_accrued env L v" by (auto simp: vehicle_items_def Let_def)
    have b: "\<bar>accrued_now env L v\<bar> \<le> 10 ^ 10" using assms(1) v(1) by (simp add: moderate_def)
    then have "\<bar>accrued_now env L v\<bar> \<le> 10 ^ 11" by simp
    then show ?thesis using v above_half_cent [of "accrued_now env L v"]
      by (intro exI [of _ "accrued_now env L v"]) (simp add: vehicle_accrued_euros)
  next
    assume "it \<in> set (charge_items L person)"
    then obtain c where c: "c \<in> set (lg_charges L)" "oi_LineTotal it = line_total (ch_Amount c) (ch_Quantity c)"
      "fl (5 / 1000) < line_total (ch_Amount c) (ch_Quantity c)" by (auto simp: charge_items_def)
    have "\<bar>line_cents c\<bar> \<le> 9 * 10 ^ 10" using assms(1) charge_le_total [OF c(1)] by (simp add: moderate_def)
    then have b: "\<bar>line_cents c\<bar> \<le> 10 ^ 11" by simp
    then show ?thesis using c above_half_cent [of "line_cents c"]
      by (intro exI [of _ "line_cents c"]) (simp add: line_total_euros)
  qed
qed

lemma open_items_count:
  "moderate env L \<Longrightarrow> length (openOwedItemsFrom env L person) \<le> 3000"
proof -
  assume m: "moderate env L"
  have "length (vehicle_items env L person) \<le> length (lg_vehicles L)"
    unfolding vehicle_items_def Let_def length_map
    by (rule order_trans [OF length_filter_le]) simp
  moreover have "length (charge_items L person) \<le> length (lg_charges L)"
    by (simp add: charge_items_def)
  moreover have "length (openOwedItemsFrom env L person)
      \<le> length (vehicle_items env L person @ charge_items L person)"
    by (simp only: openOwedItemsFrom_def Let_def length_sort length_filter_le)
  ultimately show ?thesis using m by (simp add: moderate_def)
qed

subsection \<open>Claims of one payment\<close>

lemma claim_True:
  assumes "claim_position pid k r amt t L = Inr (True, L')"
  shows "L' = L\<lparr>lg_allocs := lg_allocs L @
      [\<lparr>al_Payment = pid, al_Kind = k, al_Ref = r, al_Amount = amt, al_CreatedAt = t\<rparr>]\<rparr>" "0 < amt"
  using assms by (auto simp: claim_position_def split: if_splits)

lemma claim_False: "claim_position pid k r amt t L = Inr (False, L') \<Longrightarrow> L' = L"
  by (auto simp: claim_position_def split: if_splits)

lemma payable_claim:
  assumes "payable L pid (amt + rest)" "claim_position pid k r amt t L = Inr (True, L')"
  shows "payable L' pid rest"
  using assms(1) unfolding claim_True(1) [OF assms(2)] by (auto simp: payable_def spent_claim)

lemma payable_le: "payable L pid a \<Longrightarrow> b \<le> a \<Longrightarrow> payable L pid b"
  by (auto simp: payable_def)

lemma alloc_after_claim:
  "claim_position pid k r amt t L = Inr (True, L') \<Longrightarrow>
    alloc_sum L' q = alloc_sum L q + (if q = pid then amt else 0)"
  by (subst claim_True(1)) (auto simp: alloc_sum_claim)

lemma pays_after_claim: "claim_position pid k r amt t L = Inr (True, L') \<Longrightarrow> lg_payments L' = lg_payments L"
  by (subst claim_True(1)) auto

lemma payable_frame [simp]:
  "payable (L\<lparr>lg_charges := cs\<rparr>) = payable L" "payable (L\<lparr>lg_vehicles := vs\<rparr>) = payable L"
  by (simp_all add: payable_def fun_eq_iff)

lemma set_charge_frame [simp]:
  "sound_ledger (set_charge_paid b P L) = sound_ledger L" "autos_full (set_charge_paid b P L) = autos_full L"
  "payable (set_charge_paid b P L) = payable L" "alloc_sum (set_charge_paid b P L) = alloc_sum L"
  "lg_payments (set_charge_paid b P L) = lg_payments L" "lg_allocs (set_charge_paid b P L) = lg_allocs L"
  "lg_invpays (set_charge_paid b P L) = lg_invpays L" "lg_invoices (set_charge_paid b P L) = lg_invoices L"
  "lg_vehicles (set_charge_paid b P L) = lg_vehicles L"
  by (simp_all add: set_charge_paid_def fun_eq_iff)

lemma set_vehicle_frame [simp]:
  "sound_ledger (set_vehicle_paid v b t L) = sound_ledger L" "autos_full (set_vehicle_paid v b t L) = autos_full L"
  "lg_payments (set_vehicle_paid v b t L) = lg_payments L" "lg_allocs (set_vehicle_paid v b t L) = lg_allocs L"
  "lg_charges (set_vehicle_paid v b t L) = lg_charges L" "lg_invpays (set_vehicle_paid v b t L) = lg_invpays L"
  by (simp_all add: set_vehicle_paid_def)

definition claims_kept :: "ledger \<Rightarrow> int \<Rightarrow> int \<Rightarrow> ledger \<Rightarrow> bool" where
  "claims_kept L pid amount L' \<longleftrightarrow>
     sound_ledger L' \<and> lg_payments L' = lg_payments L
     \<and> (\<forall>q. alloc_sum L' q = alloc_sum L q + (if q = pid then amount else 0))"

lemma claim_keeps:
  assumes "sound_ledger L" "payable L pid amt" "claim_position pid k r amt t L = Inr (True, L')"
  shows "claims_kept L pid amt L'"
  using sound_claim [OF assms] alloc_after_claim [OF assms(3)] pays_after_claim [OF assms(3)]
  by (simp add: claims_kept_def)

lemma claims_kept_trans:
  "claims_kept L pid a L' \<Longrightarrow> claims_kept L' pid b L'' \<Longrightarrow> claims_kept L pid (a + b) L''"
  by (simp add: claims_kept_def)

lemma claims_kept_charge [simp]:
  "claims_kept L pid a (set_charge_paid b P L') = claims_kept L pid a L'"
  "claims_kept (set_charge_paid b P L) pid a L' = claims_kept L pid a L'"
  "claims_kept L pid a (L'\<lparr>lg_vehicles := vs\<rparr>) = claims_kept L pid a L'"
  by (simp_all add: claims_kept_def)

lemma claim_bound_pos: "claim_bound env pid bs L = Inr L' \<Longrightarrow> 0 \<le> (\<Sum>b \<leftarrow> bs. pe_numeric env (bc_total b))"
  by (induction bs arbitrary: L)
    (fastforce split: sum.splits bool.splits dest: claim_True(2) intro: add_nonneg_nonneg)+

lemma claim_bound_keeps:
  assumes "claim_bound env pid bs L = Inr L'" "sound_ledger L"
    "payable L pid (\<Sum>b \<leftarrow> bs. pe_numeric env (bc_total b))"
  shows "claims_kept L pid (\<Sum>b \<leftarrow> bs. pe_numeric env (bc_total b)) L'"
  using assms
proof (induction bs arbitrary: L)
  case Nil
  then show ?case by (simp add: claims_kept_def)
next
  case (Cons b bs)
  let ?n = "\<lambda>b. pe_numeric env (bc_total b)"
  from Cons.prems(1) obtain L1 where c: "claim_position pid ''charge'' (bc_id b) (?n b) (pe_now env) L = Inr (True, L1)"
    and r: "claim_bound env pid bs (set_charge_paid True (\<lambda>c. ch_ID c = bc_id b) L1) = Inr L'"
    by (auto split: sum.splits bool.splits)
  have p: "payable L pid (?n b + (\<Sum>b \<leftarrow> bs. ?n b))" using Cons.prems(3) by simp
  have "claims_kept L pid (?n b) L1" if "payable L pid (?n b)"
    using claim_keeps [OF Cons.prems(2) that c] .
  moreover have s: "sound_ledger L1" if "payable L pid (?n b)"
    using sound_claim [OF Cons.prems(2) that c] .
  moreover have p1: "payable L1 pid (\<Sum>b \<leftarrow> bs. ?n b)" by (rule payable_claim [OF p c])
  moreover have "payable L pid (?n b)"
    by (rule payable_le [OF p]) (use claim_bound_pos [OF r] in simp)
  ultimately show ?case
    using Cons.IH [OF r] by (auto intro: claims_kept_trans)
qed

subsection \<open>The switches\<close>

lemma autos_full_claims:
  assumes "autos_full L" "claims_kept L pid amount L'"
    "\<forall>p \<in> set (lg_payments L). pm_ID p = pid \<longrightarrow> \<not> pm_Auto p \<or> pm_Reversed p \<or> pm_Settles p \<noteq> None"
  shows "autos_full L'"
  using assms by (auto simp: autos_full_def claims_kept_def)

lemma sum_list_abs_filter:
  "(\<Sum>x \<leftarrow> filter P xs. \<bar>f x\<bar>) \<le> (\<Sum>x \<leftarrow> xs. \<bar>f x :: int\<bar>)"
  by (induction xs) auto

definition cents_ok :: "pay_env \<Rightarrow> int \<Rightarrow> bound_charge list \<Rightarrow> bool" where
  "cents_ok env a bound \<longleftrightarrow> numeric_ok (pe_numeric env) \<and> length bound \<le> 4000
     \<and> (\<forall>b \<in> set bound. bc_total b = euros (pe_numeric env (bc_total b)))
     \<and> \<bar>a\<bar> + (\<Sum>b \<leftarrow> bound. \<bar>pe_numeric env (bc_total b)\<bar>) \<le> 10 ^ 11"

lemma numeric_total:
  assumes "cents_ok env a bound"
  shows "pe_numeric env (euros a) = a"
    "pe_numeric env (round2 (f_sum (euros a) (map bc_total (filter P bound))))
      = a + (\<Sum>b \<leftarrow> filter P bound. pe_numeric env (bc_total b))"
proof -
  let ?n = "\<lambda>b. pe_numeric env (bc_total b)" and ?bs = "filter P bound"
  note c = assms [unfolded cents_ok_def]
  have l: "length ?bs \<le> 4000" using c length_filter_le [of P bound] by linarith
  have t: "\<bar>a\<bar> + (\<Sum>b \<leftarrow> ?bs. \<bar>?n b\<bar>) \<le> 10 ^ 11"
    using c sum_list_abs_filter [of ?n P bound] by linarith
  have "0 \<le> (\<Sum>b \<leftarrow> ?bs. \<bar>?n b\<bar>)" by (intro sum_list_int_nonneg) auto
  then have a: "\<bar>a\<bar> \<le> 10 ^ 11" using t by linarith
  then show "pe_numeric env (euros a) = a" using c by (simp add: numeric_ok_def)
  have m: "map bc_total ?bs = map euros (map ?n ?bs)"
    using c by (auto simp: comp_def)
  have "near (1 + 2 * int (length (map ?n ?bs))) (f_sum (euros a) (map euros (map ?n ?bs))) (a + sum_list (map ?n ?bs))"
    using l t by (intro near_f_sum near_euros a) (auto simp: comp_def)
  then have "round2 (f_sum (euros a) (map bc_total ?bs)) = euros (a + (\<Sum>b \<leftarrow> ?bs. ?n b))"
    unfolding m by (rule near_round2)
  moreover have "\<bar>a + (\<Sum>b \<leftarrow> ?bs. ?n b)\<bar> \<le> 10 ^ 11"
    using t sum_list_abs_le [of "map ?n ?bs"] by (simp add: comp_def)
  ultimately show "pe_numeric env (round2 (f_sum (euros a) (map bc_total ?bs))) = a + (\<Sum>b \<leftarrow> ?bs. ?n b)"
    using c by (simp add: numeric_ok_def)
qed

lemma toggle_paid_keeps:
  assumes "sound_ledger L" "autos_full L" "toggle_paid env L kind ref person (euros a) bound = Inr L'"
    "cents_ok env a bound"
  shows "sound_ledger L' \<and> autos_full L'"
proof (cases "L' = L")
  case False
  let ?bs = "filter (\<lambda>b. \<not> claimed L ''charge'' (bc_id b)) bound"
  let ?n = "\<lambda>b. pe_numeric env (bc_total b)" and ?pid = "lg_next L"
  let ?row = "\<lparr>pm_ID = 0, pm_PersonID = person, pm_Amount = pe_numeric env (round2 (f_sum (euros a) (map bc_total ?bs))),
    pm_PaidOn = pe_today env, pm_Method = ''bar'', pm_Note = toggle_note, pm_Auto = True, pm_Reversed = False,
    pm_Settles = None, pm_CreatedBy = pe_user env, pm_Key = None, pm_ReceivedOn = None\<rparr>"
  from assms(3) False obtain L1 L2 where
    i: "insert_payment ?row L = Inr L1" and
    c: "claim_position ?pid kind ref (pe_numeric env (euros a)) (pe_now env) L1 = Inr (True, L2)" and
    b: "claim_bound env ?pid ?bs L2 = Inr L'"
    by (auto simp: toggle_paid_def Let_def split: if_splits option.splits sum.splits bool.splits)
  note n = numeric_total [OF assms(4)]
  have amt: "pm_Amount ?row = a + (\<Sum>b \<leftarrow> ?bs. ?n b)" using n(2) by simp
  have s1: "sound_ledger L1" by (rule sound_insert(1) [OF assms(1) i]) simp
  have p1: "payable L1 ?pid (a + (\<Sum>b \<leftarrow> ?bs. ?n b))"
    by (rule sound_insert(2) [OF assms(1) i]) (simp, simp, simp only: amt order_refl)
  have c': "claim_position ?pid kind ref a (pe_now env) L1 = Inr (True, L2)" using c n(1) by simp
  have pa: "payable L1 ?pid a" using claim_bound_pos [OF b] by (intro payable_le [OF p1]) simp
  note s2 = sound_claim [OF s1 pa c'] and k1 = claim_keeps [OF s1 pa c']
  have k2: "claims_kept L2 ?pid (\<Sum>b \<leftarrow> ?bs. ?n b) L'"
    by (rule claim_bound_keeps [OF b s2 payable_claim [OF p1 c']])
  from claims_kept_trans [OF k1 k2] have k: "claims_kept L1 ?pid (a + (\<Sum>b \<leftarrow> ?bs. ?n b)) L'" .
  have i': "lg_payments L1 = lg_payments L @ [?row\<lparr>pm_ID := ?pid\<rparr>]" "\<And>q. alloc_sum L1 q = alloc_sum L q"
    by (simp_all add: insert_payment_Inr(1) [OF i])
  have fresh: "\<forall>p \<in> set (lg_payments L). pm_ID p \<noteq> ?pid" using soundD(10) [OF assms(1)] by force
  have "alloc_sum L ?pid \<le> 0"
  proof -
    have "alloc_sum L ?pid = 0"
      using spent_fresh [OF assms(1)] soundD(3,6) [OF assms(1)]
      unfolding spent_alloc alloc_sum_def
      by (smt (verit) filter_is_subset image_iff set_map subsetD sum_list_int_nonneg)
    then show ?thesis by simp
  qed
  moreover have "0 \<le> alloc_sum L ?pid"
    unfolding alloc_sum_def using soundD(3) [OF assms(1)] by (intro sum_list_int_nonneg) fastforce
  ultimately have z: "alloc_sum L ?pid = 0" by simp
  have "autos_full L'"
    unfolding autos_full_def
  proof (intro ballI impI)
    fix p assume p: "p \<in> set (lg_payments L')" "pm_Auto p \<and> \<not> pm_Reversed p \<and> pm_Settles p = None"
    then have "p \<in> set (lg_payments L) \<or> p = ?row\<lparr>pm_ID := ?pid\<rparr>" using k i'(1) by (auto simp: claims_kept_def)
    then show "alloc_sum L' (pm_ID p) = pm_Amount p"
    proof
      assume "p \<in> set (lg_payments L)"
      then show ?thesis using p(2) assms(2) fresh k i'(2) by (auto simp: autos_full_def claims_kept_def)
    next
      assume "p = ?row\<lparr>pm_ID := ?pid\<rparr>"
      then show ?thesis using k i'(2) z amt by (simp add: claims_kept_def)
    qed
  qed
  then show ?thesis using k by (simp add: claims_kept_def)
qed (use assms in simp)

lemma bound_cents:
  assumes "moderate env L" "b \<in> set (bound_charges L vid)"
  shows "bc_total b = euros (pe_numeric env (bc_total b))"
proof -
  obtain c where c: "c \<in> set (lg_charges L)" "bc_total b = line_total (ch_Amount c) (ch_Quantity c)"
    using assms(2) by (auto simp: bound_charges_def)
  have "\<bar>line_cents c\<bar> \<le> 9 * 10 ^ 10" using assms(1) charge_le_total [OF c(1)] by (simp add: moderate_def)
  then have "\<bar>line_cents c\<bar> \<le> 10 ^ 11" by simp
  then have "pe_numeric env (euros (line_cents c)) = line_cents c"
    using assms(1) unfolding moderate_def numeric_ok_def by blast
  then show ?thesis using c(2) by (simp add: line_total_euros)
qed

lemma bound_total:
  assumes "moderate env L"
  shows "(\<Sum>b \<leftarrow> bound_charges L vid. \<bar>pe_numeric env (bc_total b)\<bar>) \<le> 9 * 10 ^ 10"
proof -
  let ?P = "\<lambda>c. ch_VehicleID c = Some vid \<and> \<not> ch_Paid c
    \<and> \<not> active_source L (\<lambda>s. so_Kind s = ''charge'' \<and> so_Ref s = ch_ID c)
    \<and> fl (5 / 1000) < line_total (ch_Amount c) (ch_Quantity c)"
  have e: "pe_numeric env (line_total (ch_Amount c) (ch_Quantity c)) = line_cents c" if "c \<in> set (lg_charges L)" for c
  proof -
    have "\<bar>line_cents c\<bar> \<le> 9 * 10 ^ 10" using assms charge_le_total [OF that] by (simp add: moderate_def)
    then have "\<bar>line_cents c\<bar> \<le> 10 ^ 11" by simp
    then show ?thesis using assms unfolding moderate_def numeric_ok_def line_total_euros by blast
  qed
  have "(\<Sum>b \<leftarrow> bound_charges L vid. \<bar>pe_numeric env (bc_total b)\<bar>) = (\<Sum>c \<leftarrow> filter ?P (lg_charges L). \<bar>line_cents c\<bar>)"
    unfolding bound_charges_def map_map
    by (intro arg_cong [of _ _ sum_list] map_cong refl) (simp add: e)
  then show ?thesis using sum_list_abs_filter [of line_cents ?P "lg_charges L"] assms
    by (simp add: moderate_def)
qed

lemma foldl_pick:
  "foldl (\<lambda>amt it. if Q it then h it else amt) z xs = z \<or> (\<exists>it \<in> set xs. Q it \<and> foldl (\<lambda>amt it. if Q it then h it else amt) z xs = h it)"
  by (induction xs rule: rev_induct) auto

lemma vehicle_item_cents:
  assumes "moderate env L" "it \<in> set (openOwedItemsFrom env L person)" "oi_Kind it = ''vehicle''"
  shows "\<exists>c. oi_LineTotal it = euros c \<and> \<bar>c\<bar> \<le> 10 ^ 10"
proof -
  have "it \<in> set (vehicle_items env L person)"
    using assms(2,3) by (auto simp: openOwedItemsFrom_def Let_def charge_items_def)
  then obtain v where "v \<in> set (lg_vehicles L)" "oi_LineTotal it = vehicle_accrued env L v"
    by (auto simp: vehicle_items_def Let_def)
  then show ?thesis using assms(1) by (auto simp: moderate_def vehicle_accrued_euros)
qed

lemma toggle_owed_cents:
  assumes "moderate env L" "toggleOwedFrom env L kind ref person = (amt, bound)"
  shows "\<exists>a. amt = euros a \<and> cents_ok env a bound"
proof -
  let ?Q = "\<lambda>it. oi_Kind it = kind \<and> oi_ID it = ref"
  have amt: "amt = foldl (\<lambda>amt it. if ?Q it then oi_LineTotal it else amt) 0 (openOwedItemsFrom env L person)"
    and bound: "bound = (if kind = ''vehicle'' then bound_charges L ref else [])"
    using assms(2) by (auto simp: toggleOwedFrom_def)
  have num: "numeric_ok (pe_numeric env)" using assms(1) by (simp add: moderate_def)
  have "\<exists>a. amt = euros a \<and> \<bar>a\<bar> \<le> 10 ^ 11 \<and> (kind = ''vehicle'' \<longrightarrow> \<bar>a\<bar> \<le> 10 ^ 10)"
    using foldl_pick [of ?Q oi_LineTotal 0 "openOwedItemsFrom env L person"]
  proof
    assume "foldl (\<lambda>amt it. if ?Q it then oi_LineTotal it else amt) 0 (openOwedItemsFrom env L person) = 0"
    then show ?thesis using amt by (intro exI [of _ 0]) simp
  next
    assume "\<exists>it \<in> set (openOwedItemsFrom env L person). ?Q it
      \<and> foldl (\<lambda>amt it. if ?Q it then oi_LineTotal it else amt) 0 (openOwedItemsFrom env L person) = oi_LineTotal it"
    then obtain it where it: "it \<in> set (openOwedItemsFrom env L person)" "oi_Kind it = kind" "amt = oi_LineTotal it"
      using amt by auto
    show ?thesis
    proof (cases "kind = ''vehicle''")
      case True
      then obtain c where "amt = euros c" "\<bar>c\<bar> \<le> 10 ^ 10"
        using vehicle_item_cents [OF assms(1) it(1)] it by auto
      then show ?thesis by (intro exI [of _ c]) auto
    next
      case False
      then show ?thesis using open_item_cents [OF assms(1) it(1)] it(3) by auto
    qed
  qed
  then obtain a where a: "amt = euros a" "\<bar>a\<bar> \<le> 10 ^ 11" "kind = ''vehicle'' \<Longrightarrow> \<bar>a\<bar> \<le> 10 ^ 10" by blast
  have "cents_ok env a bound"
  proof (cases "kind = ''vehicle''")
    case True
    have "length (bound_charges L ref) \<le> 2000"
      using assms(1) length_filter_le [of _ "lg_charges L"] unfolding bound_charges_def length_map moderate_def
      by (meson order_trans)
    then show ?thesis
      using True a(3) num bound bound_total [OF assms(1), of ref] bound_cents [OF assms(1), of _ ref]
      by (simp add: cents_ok_def)
  next
    case False
    then show ?thesis using a(2) num bound by (simp add: cents_ok_def)
  qed
  with a(1) show ?thesis by blast
qed

text \<open>Opening a position again: the switch payments behind it are reversed one by one.\<close>

lemma reverse_keeps:
  assumes "sound_ledger L" "autos_full L" "\<forall>a \<in> set (lg_invpays L). ip_Payment a \<noteq> pid"
    "\<forall>p \<in> set (lg_payments L). pm_ID p = pid \<longrightarrow> pm_Auto p"
  shows "sound_ledger (reverseTogglePaymentTx pid L)" "autos_full (reverseTogglePaymentTx pid L)"
proof -
  have "filter (\<lambda>a. ip_Payment a \<noteq> pid) (lg_invpays L) = lg_invpays L" using assms(3) by simp
  then show "sound_ledger (reverseTogglePaymentTx pid L)"
    unfolding reverse_drop by (intro drop_sound [OF assms(1)]) simp
  show "autos_full (reverseTogglePaymentTx pid L)"
    unfolding reverse_drop using assms(4) by (intro drop_full [OF assms(2)]) auto
qed

lemma reverse_fold_keeps:
  assumes "sound_ledger L" "autos_full L" "\<forall>a \<in> set (lg_invpays L). ip_Payment a \<notin> set ids"
    "\<forall>p \<in> set (lg_payments L). pm_ID p \<in> set ids \<longrightarrow> pm_Auto p"
  shows "sound_ledger (fold reverseTogglePaymentTx ids L) \<and> autos_full (fold reverseTogglePaymentTx ids L)"
  using assms
proof (induction ids arbitrary: L)
  case (Cons pid ids)
  have r: "sound_ledger (reverseTogglePaymentTx pid L)" "autos_full (reverseTogglePaymentTx pid L)"
    using Cons.prems by (intro reverse_keeps; simp)+
  moreover have "\<forall>a \<in> set (lg_invpays (reverseTogglePaymentTx pid L)). ip_Payment a \<notin> set ids"
    using Cons.prems(3) by (simp add: reverseTogglePaymentTx_def)
  moreover have "\<forall>p \<in> set (lg_payments (reverseTogglePaymentTx pid L)). pm_ID p \<in> set ids \<longrightarrow> pm_Auto p"
    using Cons.prems(4) by (auto simp: reverseTogglePaymentTx_def)
  ultimately show ?case using Cons.IH by simp
qed simp

lemma toggle_payments_full:
  assumes "sound_ledger L" "autos_full L" "pid \<in> set (toggle_payments L kind ref)"
  shows "\<exists>p \<in> set (lg_payments L). pm_ID p = pid \<and> pm_Auto p \<and> \<not> pm_Reversed p \<and> pm_Settles p = None
    \<and> alloc_sum L pid = pm_Amount p"
proof -
  from assms(3) obtain p a where p: "p \<in> set (lg_payments L)" "pm_ID p = pid" "pm_Auto p" "\<not> pm_Reversed p"
    and a: "a \<in> set (lg_allocs L)" "al_Payment a = pid" by (auto simp: toggle_payments_def)
  from soundD(2) [OF assms(1) a(1)] obtain q where q: "q \<in> set (lg_payments L)" "pm_ID q = pid" "pm_Settles q = None"
    using a(2) by (auto simp: live_def)
  have "q = p" using unique_payment [OF soundD(9) [OF assms(1)] q(1) p(1)] q(2) p(2) by simp
  then show ?thesis using p q assms(2) by (auto simp: autos_full_def)
qed

lemma toggle_open_keeps:
  assumes "sound_ledger L" "autos_full L" "toggle_open L kind ref = Inr L'"
  shows "sound_ledger L' \<and> autos_full L'"
proof -
  let ?ids = "toggle_payments L kind ref"
  obtain P where L': "L' = fold reverseTogglePaymentTx ?ids (if kind = ''vehicle'' then set_charge_paid False P L else L)"
    using assms(3) by (auto simp: toggle_open_def Let_def split: option.splits)
  note full = toggle_payments_full [OF assms(1,2)]
  have "ip_Payment a \<notin> set ?ids" if "a \<in> set (lg_invpays L)" for a
    using full [of "ip_Payment a" kind ref] full_no_invpay [OF assms(1) _ _ that] by metis
  moreover have "pm_Auto p" if "p \<in> set (lg_payments L)" "pm_ID p \<in> set ?ids" for p
    using full [OF that(2)] unique_payment [OF soundD(9) [OF assms(1)] that(1)] by metis
  ultimately show ?thesis
    unfolding L' using assms(1,2) by (intro reverse_fold_keeps) auto
qed

lemma mark_paid_keeps:
  assumes "sound_ledger L" "autos_full L" "moderate env L" "mark_paid_tx env vid person paid L = Inr L'"
  shows "sound_ledger L' \<and> autos_full L'"
proof -
  obtain v where v: "find (\<lambda>v. vh_ID v = vid) (lg_vehicles L) = Some v"
    using assms(4) by (auto simp: mark_paid_tx_def split: option.splits)
  obtain amt bound where t: "toggleOwedFrom env L ''vehicle'' vid person = (amt, bound)" by fastforce
  obtain a where a: "amt = euros a" "cents_ok env a bound" using toggle_owed_cents [OF assms(3) t] by blast
  show ?thesis
  proof (cases "paid \<and> \<not> vh_Paid v")
    case True
    then obtain L1 where "toggle_paid env L ''vehicle'' vid person (euros a) bound = Inr L1"
      and l: "L' = set_vehicle_paid vid True (Some (paid_through_day env L1 vid)) L1"
      using assms(4) v t a by (auto simp: mark_paid_tx_def syncTogglePaymentTx_def split: if_splits sum.splits)
    from toggle_paid_keeps [OF assms(1,2) this(1) a(2)] l show ?thesis by simp
  next
    case False
    let ?L = "set_vehicle_paid vid paid (if paid then vh_PaidThrough v else None) L"
    from False assms(4) v have "L' = ?L \<or> toggle_open ?L ''vehicle'' vid = Inr L'"
      by (auto simp: mark_paid_tx_def syncTogglePaymentTx_def Let_def split: if_splits)
    then show ?thesis using assms(1,2) toggle_open_keeps [of ?L "''vehicle''" vid L'] by auto
  qed
qed

lemma charge_switch_keeps:
  assumes "sound_ledger L" "autos_full L" "moderate env L" "set_charge_paid_tx env cid person paid L = Inr L'"
  shows "sound_ledger L' \<and> autos_full L'"
proof -
  obtain c where c: "find (\<lambda>c. ch_ID c = cid) (lg_charges L) = Some c"
    using assms(4) by (auto simp: set_charge_paid_tx_def split: option.splits)
  obtain amt bound where t: "toggleOwedFrom env L ''charge'' cid person = (amt, bound)" by fastforce
  obtain a where a: "amt = euros a" "cents_ok env a bound" using toggle_owed_cents [OF assms(3) t] by blast
  let ?set = "set_charge_paid paid (\<lambda>x. ch_ID x = cid \<and> ch_VehicleID x = None)"
  show ?thesis
  proof (cases "paid \<and> \<not> ch_Paid c")
    case True
    then obtain L1 where "toggle_paid env L ''charge'' cid person (euros a) bound = Inr L1" and l: "L' = ?set L1"
      using assms(4) c t a
      by (auto simp: set_charge_paid_tx_def syncTogglePaymentTx_def Let_def split: if_splits sum.splits)
    from toggle_paid_keeps [OF assms(1,2) this(1) a(2)] l show ?thesis by simp
  next
    case False
    from False assms(4) c have "L' = ?set L \<or> toggle_open (?set L) ''charge'' cid = Inr L'"
      by (auto simp: set_charge_paid_tx_def syncTogglePaymentTx_def Let_def split: if_splits sum.splits)
    then show ?thesis using assms(1,2) toggle_open_keeps [of "?set L" "''charge''" cid L'] by auto
  qed
qed

subsection \<open>Recording, reversing and drawing down\<close>

definition by_hand :: "ledger \<Rightarrow> int \<Rightarrow> bool" where
  "by_hand L pid \<longleftrightarrow> (\<forall>p \<in> set (lg_payments L). pm_ID p = pid \<longrightarrow> \<not> pm_Auto p \<or> pm_Reversed p \<or> pm_Settles p \<noteq> None)"

lemma settle_item_True:
  assumes "settleItemTx env pid it L = Inr (True, veh, L')"
  shows "\<exists>L1. claim_position pid (oi_Kind it) (oi_ID it) (pe_numeric env (oi_LineTotal it)) (pe_now env) L = Inr (True, L1)
    \<and> (\<forall>L0 q a. claims_kept L0 q a L' = claims_kept L0 q a L1) \<and> payable L' = payable L1"
  using assms by (fastforce simp: settleItemTx_def split: if_splits sum.splits bool.splits)

lemma settle_item_keeps:
  assumes "settleItemTx env pid it L = Inr (ok, veh, L')" "sound_ledger L"
    "payable L pid (pe_numeric env (oi_LineTotal it) + rest)" "0 \<le> rest"
  shows "claims_kept L pid (if ok then pe_numeric env (oi_LineTotal it) else 0) L'
    \<and> payable L' pid (if ok then rest else pe_numeric env (oi_LineTotal it) + rest)"
proof -
  let ?n = "pe_numeric env (oi_LineTotal it)"
  show ?thesis
  proof (cases ok)
    case True
    then obtain L1 where c: "claim_position pid (oi_Kind it) (oi_ID it) ?n (pe_now env) L = Inr (True, L1)"
      and l: "\<And>L0 q a. claims_kept L0 q a L' = claims_kept L0 q a L1" "payable L' = payable L1"
      using settle_item_True [of env pid it L veh L'] assms(1) by auto
    have p: "payable L pid ?n" using assms(4) by (intro payable_le [OF assms(3)]) simp
    have "claims_kept L pid ?n L1" "payable L1 pid rest"
      using claim_keeps [OF assms(2) p c] payable_claim [OF assms(3) c] by auto
    then show ?thesis using l True by simp
  next
    case False
    then have "L' = L" using assms(1)
      by (auto simp: settleItemTx_def dest: claim_False split: if_splits sum.splits bool.splits)
    then show ?thesis using False assms(2,3) by (simp add: claims_kept_def)
  qed
qed

lemma settle_loop_keeps:
  assumes "settle_loop env pid strict its remaining settled archive L = Inr (m, vs, L')"
    "sound_ledger L" "autos_full L" "by_hand L pid" "numeric_ok (pe_numeric env)"
    "near n remaining r" "n + 2 * int (length its) \<le> 9990" "0 \<le> r" "payable L pid r"
    "\<forall>it \<in> set its. \<exists>c. oi_LineTotal it = euros c \<and> 0 < c \<and> c \<le> 10 ^ 11"
  shows "sound_ledger L' \<and> autos_full L' \<and> lg_payments L' = lg_payments L"
  using assms
proof (induction its arbitrary: remaining settled archive L n r)
  case (Cons it its)
  obtain c where c: "oi_LineTotal it = euros c" "0 < c" "c \<le> 10 ^ 11" using Cons.prems(10) by auto
  have num: "pe_numeric env (oi_LineTotal it) = c" using Cons.prems(5) c by (simp add: numeric_ok_def)
  show ?case
  proof (cases "f_add remaining (fl (5 / 1000)) < oi_LineTotal it")
    case True
    with Cons.prems(1-9) show ?thesis
      using Cons.IH [OF _ Cons.prems(2-6), of settled archive] Cons.prems(10)
      by (auto split: if_splits)
  next
    case False
    have cr: "c \<le> r" using covered_cents [OF Cons.prems(6)] Cons.prems(7) c False by simp
    from False Cons.prems(1) obtain ok veh L1 where s: "settleItemTx env pid it L = Inr (ok, veh, L1)"
      by (auto split: sum.splits)
    have p: "payable L pid (pe_numeric env (oi_LineTotal it) + (r - c))" using Cons.prems(9) num by simp
    from settle_item_keeps [OF s Cons.prems(2) p] cr num
    have k: "claims_kept L pid (if ok then c else 0) L1" "payable L1 pid (if ok then r - c else r)" by auto
    have h: "sound_ledger L1" "autos_full L1" "by_hand L1 pid" "lg_payments L1 = lg_payments L"
      using k(1) autos_full_claims [OF Cons.prems(3) k(1)] Cons.prems(4)
      by (auto simp: claims_kept_def by_hand_def)
    show ?thesis
    proof (cases ok)
      case True
      have "\<bar>r - c\<bar> \<le> 10 ^ 11" using nearD(4) [OF Cons.prems(6)] cr c(2) by simp
      then have "near (n + 1 + 1) (f_sub remaining (euros c)) (r - c)"
        using Cons.prems(6,7) c by (intro near_sub near_euros) auto
      moreover from True s False Cons.prems(1) have
        "settle_loop env pid strict its (f_sub remaining (euros c)) (settled + 1)
          (if veh > 0 then archive @ [veh] else archive) L1 = Inr (m, vs, L')" using c(1) by simp
      ultimately show ?thesis
        using Cons.IH [OF _ h(1,2,3) Cons.prems(5), of _ _ _ "n + 1 + 1" "r - c"] Cons.prems(7,10) cr k(2) True h(4) by auto
    next
      case no: False
      with s False Cons.prems(1) have "settle_loop env pid strict its remaining settled archive L1 = Inr (m, vs, L')" by simp
      then show ?thesis
        using Cons.IH [OF _ h(1,2,3) Cons.prems(5,6)] Cons.prems(7,8,10) k(2) no h(4) by auto
    qed
  qed
qed simp

lemma insert_full:
  assumes "insert_payment p L = Inr L'" "autos_full L" "\<not> pm_Auto p \<or> pm_Settles p \<noteq> None"
  shows "autos_full L'"
  using assms(2,3) by (auto simp: insert_payment_Inr(1) [OF assms(1)] autos_full_def)

lemma record_keeps:
  assumes "sound_ledger L" "autos_full L" "recordPeriodPaymentTx env L person kind ref period amount = Inr L'"
  shows "sound_ledger L' \<and> autos_full L'"
proof (cases "L' = L")
  case False
  with assms(3) obtain p where "insert_payment p L = Inr L'" "\<not> pm_Reversed p" "pm_Settles p \<noteq> None"
    by (auto simp: recordPeriodPaymentTx_def Let_def split: if_splits option.splits)
  then show ?thesis using sound_insert(1) [OF assms(1)] insert_full assms(2) by blast
qed (use assms in simp)

lemma create_keeps:
  assumes "sound_ledger L" "autos_full L" "moderate env L"
    "pq_Amount req = euros A" "0 < A" "A \<le> 10 ^ 11"
    "create_payment_tx env person req paidOn k L = Inr ((p, n, replayed, archive), L')"
  shows "sound_ledger L' \<and> autos_full L'"
proof (cases "L' = L")
  case False
  let ?items = "if pq_Allocate req \<or> pq_Allocations req \<noteq> [] then openOwedItemsFrom env L person else []"
  let ?p = "new_payment env person req paidOn k"
  from assms(7) False obtain L1 vs where i: "insert_payment ?p L = Inr L1"
    and s: "settlePaymentTx env (lg_next L) req ?items L1 = Inr (n, vs, L')"
    by (auto simp: create_payment_tx_def Let_def split: if_splits option.splits sum.splits)
  have num: "numeric_ok (pe_numeric env)" using assms(3) by (simp add: moderate_def)
  have amt: "pm_Amount ?p = A" using num assms(4-6) by (simp add: new_payment_def numeric_ok_def)
  have pr: "\<not> pm_Reversed ?p" "pm_Settles ?p = None" "\<not> pm_Auto ?p" by (simp_all add: new_payment_def)
  obtain its strict where t: "settle_loop env (lg_next L) strict its (euros A) 0 [] L1 = Inr (n, vs, L')"
    "set its \<subseteq> set ?items" "length its \<le> length ?items"
    using s assms(4) unfolding settlePaymentTx_def Let_def
    by (cases "pq_Allocations req = []"; cases "pq_Allocate req") (fastforce split: if_splits)+
  have len: "length its \<le> 3000"
    using t(3) open_items_count [OF assms(3), of person] by (auto split: if_splits)
  have its: "\<forall>it \<in> set its. \<exists>c. oi_LineTotal it = euros c \<and> 0 < c \<and> c \<le> 10 ^ 11"
    using t(2) open_item_cents [OF assms(3)] by (auto split: if_splits)
  have s1: "sound_ledger L1" by (rule sound_insert(1) [OF assms(1) i pr(1)])
  have "autos_full L1" using insert_full [OF i assms(2)] pr by blast
  moreover have "payable L1 (lg_next L) A" using sound_insert(2) [OF assms(1) i pr(1,2)] amt by simp
  moreover have "by_hand L1 (lg_next L)"
    using soundD(10) [OF assms(1)] pr unfolding by_hand_def insert_payment_Inr(1) [OF i] by fastforce
  moreover have "near 1 (euros A) A" using assms(5,6) by (intro near_euros) simp
  ultimately show ?thesis
    using settle_loop_keeps [OF t(1) s1 _ _ num, of 1 A] its len assms(5) by auto
qed (use assms in simp)

lemma fold_frame:
  assumes "\<And>x L. P (f x L) = P L" shows "P (fold f xs L) = P L"
  by (induction xs arbitrary: L) (simp_all add: assms)

lemma unstamp_frame: "sound_ledger (unstamp r L) = sound_ledger L" "autos_full (unstamp r L) = autos_full L"
  by (auto simp: unstamp_def split: prod.splits)

lemma give_back_frame: "sound_ledger (give_back r L) = sound_ledger L" "autos_full (give_back r L) = autos_full L"
  by (auto simp: give_back_def sound_same same_invoices_map split: prod.splits)

lemma delete_keeps:
  assumes "sound_ledger L" "autos_full L" "delete_payment_tx env pid L = Inr L'"
  shows "sound_ledger L' \<and> autos_full L'"
proof -
  obtain refs ips ids where L': "L' = reopenPaymentBankTransactionsTx pid (reopenUncoveredVehiclesTx
      (businessDay (pe_now env)) ids (fold give_back ips (fold unstamp refs (release_payment pid L))))"
    using assms(3) by (auto simp: delete_payment_tx_def Let_def split: option.splits if_splits)
  have "sound_ledger (release_payment pid L)" "autos_full (release_payment pid L)"
    unfolding release_drop by (intro drop_sound [OF assms(1)] drop_full [OF assms(2)]; simp)+
  then show ?thesis
    by (simp add: L' reopenPaymentBankTransactionsTx_def reopenUncoveredVehiclesTx_def
        fold_frame [of sound_ledger] fold_frame [of autos_full] unstamp_frame give_back_frame)
qed

lemma live_payable:
  assumes "p \<in> set (lg_payments L)" "\<not> pm_Reversed p" "pm_Settles p = None" "a \<le> pm_Amount p - spent L (pm_ID p)"
  shows "payable L (pm_ID p) a"
  using assms by (auto simp: payable_def)

lemma spent_ge_alloc: "sound_ledger L \<Longrightarrow> alloc_sum L pid \<le> spent L pid"
proof -
  assume "sound_ledger L"
  then have "0 \<le> (\<Sum>a \<leftarrow> filter (\<lambda>a. ip_Payment a = pid) (lg_invpays L). ip_Amount a)"
    by (intro sum_list_int_nonneg) (auto dest: soundD(6))
  then show ?thesis by (simp add: spent_alloc)
qed

lemma rest_by_hand:
  assumes "sound_ledger L" "autos_full L" "p \<in> set (lg_payments L)" "0 < pm_Amount p - spent L (pm_ID p)"
  shows "by_hand L (pm_ID p)"
  unfolding by_hand_def
proof (intro ballI impI)
  fix q assume q: "q \<in> set (lg_payments L)" "pm_ID q = pm_ID p"
  then have "q = p" using unique_payment [OF soundD(9) [OF assms(1)] q(1) assms(3)] by simp
  show "\<not> pm_Auto q \<or> pm_Reversed q \<or> pm_Settles q \<noteq> None"
  proof (rule ccontr)
    assume "\<not> (\<not> pm_Auto q \<or> pm_Reversed q \<or> pm_Settles q \<noteq> None)"
    with \<open>q = p\<close> have "alloc_sum L (pm_ID p) = pm_Amount p"
      using assms(2,3) unfolding autos_full_def by (cases "pm_Settles p") auto
    then show False using assms(4) spent_ge_alloc [OF assms(1), of "pm_ID p"] by simp
  qed
qed

lemma credit_loop_keeps:
  assumes "credit_loop env person its budget n vs L = Inr (m, L')" "sound_ledger L" "autos_full L"
    "numeric_ok (pe_numeric env)" "\<forall>it \<in> set its. \<exists>c. oi_LineTotal it = euros c \<and> 0 < c \<and> c \<le> 10 ^ 11"
  shows "sound_ledger L' \<and> autos_full L' \<and> lg_payments L' = lg_payments L \<and> lg_invoices L' = lg_invoices L"
  using assms
proof (induction its arbitrary: budget n vs L)
  case (Cons it its)
  obtain c where c: "oi_LineTotal it = euros c" "0 < c" "c \<le> 10 ^ 11" using Cons.prems(5) by auto
  have num: "pe_numeric env (oi_LineTotal it) = c" using Cons.prems(4) c by (simp add: numeric_ok_def)
  have skip: ?case if "credit_loop env person its budget' n' vs' L = Inr (m, L')" for budget' n' vs'
    using Cons.IH [OF that Cons.prems(2-4)] Cons.prems(5) by simp
  show ?case
  proof (cases "L' = L \<or> (\<exists>budget' n' vs'. credit_loop env person its budget' n' vs' L = Inr (m, L'))")
    case True
    then show ?thesis using skip Cons.prems(2,3) by auto
  next
    case False
    with Cons.prems(1) obtain p ok veh L1 where p: "credit_source env L person (oi_LineTotal it) = Some p"
      and s: "settleItemTx env (pm_ID p) it L = Inr (ok, veh, L1)"
      and r: "\<exists>budget' n' vs'. credit_loop env person its budget' n' vs' L1 = Inr (m, L')"
      by (auto split: if_splits option.splits sum.splits bool.splits prod.splits) blast+
    from p have mem: "p \<in> set (filter (\<lambda>p. pm_PersonID p = person \<and> \<not> pm_Reversed p \<and> pm_Settles p = None
            \<and> pe_numeric env (oi_LineTotal it) \<le> pm_Amount p - spent L (pm_ID p)) (lg_payments L))"
      unfolding credit_source_def by (metis (no_types, lifting) list.case_eq_if list.set_sel(1) option.inject option.distinct(1) set_sort)
    then have q: "p \<in> set (lg_payments L)" "\<not> pm_Reversed p" "pm_Settles p = None" "c \<le> pm_Amount p - spent L (pm_ID p)"
      using num by auto
    have "payable L (pm_ID p) (pe_numeric env (oi_LineTotal it) + 0)" using live_payable [OF q] num by simp
    from settle_item_keeps [OF s Cons.prems(2) this] have k: "claims_kept L (pm_ID p) (if ok then c else 0) L1"
      using num by (cases ok) auto
    have h: "by_hand L (pm_ID p)" using rest_by_hand [OF Cons.prems(2,3) q(1)] q(4) c(2) by simp
    have "autos_full L1" using autos_full_claims [OF Cons.prems(3) k] h by (auto simp: by_hand_def)
    moreover have "lg_invoices L1 = lg_invoices L"
      using s by (auto simp: settleItemTx_def set_charge_paid_def dest!: claim_True(1) claim_False split: if_splits sum.splits bool.splits)
    ultimately show ?thesis
      using r Cons.IH [of _ _ _ L1] Cons.prems(4,5) k by (auto simp: claims_kept_def)
  qed
qed simp

lemma euros_le_iff: "\<bar>a\<bar> \<le> 10 ^ 11 \<Longrightarrow> \<bar>b\<bar> \<le> 10 ^ 11 \<Longrightarrow> euros a \<le> euros b \<longleftrightarrow> a \<le> b"
  using euros_less_iff [of b a] by (simp add: not_less [symmetric])

lemma min_euros: "\<bar>a\<bar> \<le> 10 ^ 11 \<Longrightarrow> \<bar>b\<bar> \<le> 10 ^ 11 \<Longrightarrow> min (euros a) (euros b) = euros (min a b)"
  by (simp add: min_def euros_le_iff)

text \<open>Invoices: what one payment adds is the smaller of what it has left and what is open.\<close>

lemma sound_link:
  assumes "sound_ledger L" "payable L pid c" "0 < c" shows "sound_ledger (link_payment iid pid c L)"
proof -
  have "sound_ledger (L\<lparr>lg_invpays := lg_invpays L @ [\<lparr>ip_Invoice = iid, ip_Payment = pid, ip_Amount = c\<rparr>]\<rparr>)"
    by (rule sound_invpay [OF assms])
  then show ?thesis
    unfolding link_payment_def
    by (subst sound_same) (simp_all add: same_invoices_def comp_def if_distrib cong: if_cong)
qed

lemma link_frame [simp]:
  "lg_payments (link_payment iid pid c L) = lg_payments L" "autos_full (link_payment iid pid c L) = autos_full L"
  by (simp_all add: link_payment_def)

lemma invoice_credit_step:
  assumes "invoice_credit i (pid # pids) (euros due) applied env L = Inr (x, L')" "sound_ledger L"
    "numeric_ok (pe_numeric env)" "\<bar>due\<bar> \<le> 10 ^ 11" "\<forall>p \<in> set (lg_payments L). pm_Amount p \<le> 10 ^ 11"
    "\<forall>p \<in> set (lg_payments L). pm_ID p = pid \<longrightarrow> pm_Settles p = None"
  shows "L' = L \<or> invoice_credit i pids (euros due) applied env L = Inr (x, L')
    \<or> (\<exists>c ap. 0 < c \<and> c \<le> due \<and> payable L pid c
        \<and> invoice_credit i pids (euros (due - c)) ap env (link_payment i pid c L) = Inr (x, L'))"
proof (cases "L' = L")
  case False
  then have ns: "\<not> euros due < fl (5 / 1000)" using assms(1) by auto
  with assms(1) False obtain p where f: "find (\<lambda>p. pm_ID p = pid \<and> \<not> pm_Reversed p) (lg_payments L) = Some p"
    by (auto split: option.splits)
  then have p: "p \<in> set (lg_payments L)" "pm_ID p = pid" "\<not> pm_Reversed p" by (auto simp: find_Some_iff)
  have st: "pm_Settles p = None" using assms(6) p(1,2) by simp
  define rest where "rest = pm_Amount p - spent L pid"
  have "0 \<le> spent L pid"
    unfolding spent_def using soundD(3,6) [OF assms(2)] by (intro add_nonneg_nonneg sum_list_int_nonneg) fastforce+
  then have rest: "0 \<le> rest" "\<bar>rest\<bar> \<le> 10 ^ 11"
    using soundD(8) [OF assms(2) p(1)] assms(5) p by (auto simp: rest_def)
  define c where "c = min rest due"
  have cb: "\<bar>c\<bar> \<le> 10 ^ 11" using rest assms(4) by (auto simp: c_def)
  have am: "round2 (min (euros rest) (euros due)) = euros c"
    using rest(2) assms(4) cb by (simp add: min_euros c_def)
  have num: "pe_numeric env (euros c) = c" using assms(3) cb by (simp add: numeric_ok_def)
  show ?thesis
  proof (cases "euros c < fl (5 / 1000)")
    case True
    then show ?thesis using assms(1) ns f am by (simp add: rest_def Let_def)
  next
    case no: False
    have r: "0 < c" "invoice_credit i pids (round2 (f_sub (euros due) (euros c))) (f_add applied (euros c)) env
        (link_payment i pid c L) = Inr (x, L')"
      using assms(1) ns f am no num
      by (auto simp: rest_def [symmetric] Let_def split: if_splits option.splits)
    have oc: "\<bar>due - c\<bar> \<le> 10 ^ 11" using assms(4) r(1) rest by (auto simp: c_def)
    have "near (1 + 1 + 1) (f_sub (euros due) (euros c)) (due - c)"
      using assms(4) cb oc by (intro near_sub near_euros) auto
    then have e: "round2 (f_sub (euros due) (euros c)) = euros (due - c)" by (rule near_round2)
    have "payable L pid c" using live_payable [OF p(1,3) st, of c] p(2) by (simp add: c_def rest_def)
    then show ?thesis using r e by (auto simp: c_def)
  qed
qed simp

lemma invoice_credit_keeps:
  assumes "invoice_credit i pids (euros due) applied env L = Inr (applied', L')" "sound_ledger L" "autos_full L"
    "numeric_ok (pe_numeric env)" "\<bar>due\<bar> \<le> 10 ^ 11" "\<forall>p \<in> set (lg_payments L). pm_Amount p \<le> 10 ^ 11"
    "\<forall>pid \<in> set pids. \<forall>p \<in> set (lg_payments L). pm_ID p = pid \<longrightarrow> pm_Settles p = None"
  shows "sound_ledger L' \<and> autos_full L' \<and> lg_payments L' = lg_payments L"
  using assms
proof (induction pids arbitrary: due applied L)
  case (Cons pid pids)
  have settles: "\<forall>p \<in> set (lg_payments L). pm_ID p = pid \<longrightarrow> pm_Settles p = None" using Cons.prems(7) by simp
  from invoice_credit_step [OF Cons.prems(1,2,4,5,6) settles]
  consider "L' = L" | "invoice_credit i pids (euros due) applied env L = Inr (applied', L')"
    | c ap where "0 < c" "c \<le> due" "payable L pid c"
      "invoice_credit i pids (euros (due - c)) ap env (link_payment i pid c L) = Inr (applied', L')"
    by blast
  then show ?case
  proof cases
    case 3
    then show ?thesis
      using Cons.IH [OF 3(4)] sound_link [OF Cons.prems(2) 3(3,1)] Cons.prems(3-7) by simp
  qed (use Cons in simp_all)
qed simp

lemma invoices_credit_keeps:
  assumes "invoices_credit env pids is n L = Inr (m, L')" "sound_ledger L" "autos_full L"
    "numeric_ok (pe_numeric env)" "\<forall>i \<in> set is. \<bar>iv_Total i - iv_Paid i\<bar> \<le> 10 ^ 11"
    "\<forall>p \<in> set (lg_payments L). pm_Amount p \<le> 10 ^ 11"
    "\<forall>pid \<in> set pids. \<forall>p \<in> set (lg_payments L). pm_ID p = pid \<longrightarrow> pm_Settles p = None"
  shows "sound_ledger L' \<and> autos_full L'"
  using assms
proof (induction "is" arbitrary: n L)
  case (Cons i js)
  from Cons.prems(1) obtain a L1 n' where c: "invoice_credit (iv_ID i) pids (euros (iv_Total i - iv_Paid i)) 0 env L = Inr (a, L1)"
    and r: "invoices_credit env pids js n' L1 = Inr (m, L')" by (auto split: sum.splits)
  have "sound_ledger L1 \<and> autos_full L1 \<and> lg_payments L1 = lg_payments L"
    using Cons.prems(5,6,7) by (intro invoice_credit_keeps [OF c Cons.prems(2-4)]) auto
  then show ?case using Cons.IH [OF r] Cons.prems(4-7) by simp
qed simp

lemma apply_credit_keeps:
  assumes "sound_ledger L" "autos_full L" "moderate env L" "apply_credit_tx env person L = Inr (n, L')"
  shows "sound_ledger L' \<and> autos_full L'"
proof -
  from assms(4) obtain b n1 L1 m where c: "credit_loop env person (openOwedItemsFrom env L person) b 0 [] L = Inr (n1, L1)"
    and a: "applyInvoiceCreditTx env person (creditPaymentIDsTx L person) L1 = Inr (m, L')"
    by (auto simp: apply_credit_tx_def Let_def split: sum.splits)
  have num: "numeric_ok (pe_numeric env)" using assms(3) by (simp add: moderate_def)
  have s: "sound_ledger L1 \<and> autos_full L1 \<and> lg_payments L1 = lg_payments L \<and> lg_invoices L1 = lg_invoices L"
    using open_item_cents [OF assms(3)] by (intro credit_loop_keeps [OF c assms(1,2) num]) blast
  show ?thesis
  proof (cases "creditPaymentIDsTx L person = []")
    case True
    then show ?thesis using a s by (simp add: applyInvoiceCreditTx_def)
  next
    case False
    then have i: "invoices_credit env (creditPaymentIDsTx L person) (open_invoices L1 person) 0 L1 = Inr (m, L')"
      using a by (simp add: applyInvoiceCreditTx_def)
    have "\<forall>pid \<in> set (creditPaymentIDsTx L person). \<forall>p \<in> set (lg_payments L1). pm_ID p = pid \<longrightarrow> pm_Settles p = None"
    proof (intro ballI impI)
      fix pid p assume h: "pid \<in> set (creditPaymentIDsTx L person)" "p \<in> set (lg_payments L1)" "pm_ID p = pid"
      then obtain q where q: "q \<in> set (lg_payments L)" "pm_ID q = pid" "pm_Settles q = None"
        by (auto simp: creditPaymentIDsTx_def)
      have "p = q" using unique_payment [OF soundD(9) [OF assms(1)] _ q(1)] h s q(2) by simp
      then show "pm_Settles p = None" using q(3) by simp
    qed
    moreover have "\<forall>i \<in> set (open_invoices L1 person). \<bar>iv_Total i - iv_Paid i\<bar> \<le> 10 ^ 11"
      using s assms(3) by (auto simp: open_invoices_def moderate_def)
    ultimately show ?thesis
      using s assms(3) by (intro invoices_credit_keeps [OF i _ _ num]) (auto simp: moderate_def)
  qed
qed

end
