(* ===== verification/Payment_Properties.thy ===== *)
theory Payment_Properties
  imports Payment_Steps
begin

text \<open>
  What the payment handlers guarantee, over runs of their transactions: claims stay unique and
  covered, closed tax years stay as they are, a reversal releases what the payment held, repeated
  requests book once.
\<close>

subsection \<open>One committed transaction\<close>

inductive ledger_step :: "ledger \<Rightarrow> ledger \<Rightarrow> bool" where
  period: "recordPeriodPaymentTx env L person kind ref period amount = Inr L' \<Longrightarrow> ledger_step L L'"
| vehicle_switch: "moderate env L \<Longrightarrow> mark_paid_tx env vid person paid L = Inr L' \<Longrightarrow> ledger_step L L'"
| charge_switch: "moderate env L \<Longrightarrow> set_charge_paid_tx env cid person paid L = Inr L' \<Longrightarrow> ledger_step L L'"
| record_payment: "moderate env L \<Longrightarrow> pq_Amount req = euros a \<Longrightarrow> 0 < a \<Longrightarrow> a \<le> 10 ^ 11 \<Longrightarrow>
    create_payment_tx env person req paidOn k L = Inr (res, L') \<Longrightarrow> ledger_step L L'"
| reverse_payment: "delete_payment_tx env pid L = Inr L' \<Longrightarrow> ledger_step L L'"
| draw_down: "moderate env L \<Longrightarrow> apply_credit_tx env person L = Inr (res, L') \<Longrightarrow> ledger_step L L'"
| close_vehicle: "ledger_step L (autoArchiveIfClosed env vid L)"
| close_settled: "ledger_step L (archiveInvoiceSettledCollected env person L)"

lemma step_keeps: "ledger_step L L' \<Longrightarrow> sound_ledger L \<and> autos_full L \<Longrightarrow> sound_ledger L' \<and> autos_full L'"
proof (induction rule: ledger_step.induct)
  case (record_payment env L req a person paidOn k res L')
  obtain p n b vs where "res = (p, n, b, vs)" by (cases res)
  then show ?case using create_keeps record_payment by blast
next
  case (draw_down env L person res L')
  then show ?case using apply_credit_keeps by blast
next
  case (close_vehicle L env vid)
  then show ?case by (simp add: autoArchiveIfClosed_def archive_if_def)
next
  case (close_settled L env person)
  then show ?case by (simp add: archiveInvoiceSettledCollected_def archive_if_def)
qed (blast dest: record_keeps mark_paid_keeps charge_switch_keeps delete_keeps)+

interpretation ledger: kept ledger_step "\<lambda>L. sound_ledger L \<and> autos_full L"
  by unfold_locales (rule step_keeps)

text \<open>A payment of 50 euros that settles a charge of that amount.\<close>

definition example_charge :: charge_entry where
  "example_charge = \<lparr>ch_ID = 7, ch_PersonID = 3, ch_VehicleID = None, ch_Description = ''Reinigung'', ch_Amount = 25,
     ch_Quantity = 2, ch_ChargedOn = utc_midnight 19400, ch_Paid = True\<rparr>"

definition example_payment :: pay_row where
  "example_payment = \<lparr>pm_ID = 1, pm_PersonID = 3, pm_Amount = 5000, pm_PaidOn = utc_midnight 19410, pm_Method = ''bar'',
     pm_Note = [], pm_Auto = False, pm_Reversed = False, pm_Settles = None, pm_CreatedBy = None, pm_Key = None,
     pm_ReceivedOn = None\<rparr>"

definition example_ledger :: ledger where
  "example_ledger = \<lparr>lg_payments = [example_payment],
     lg_allocs = [\<lparr>al_Payment = 1, al_Kind = ''charge'', al_Ref = 7, al_Amount = 5000, al_CreatedAt = utc_midnight 19410\<rparr>],
     lg_charges = [example_charge], lg_vehicles = [], lg_cats = (\<lambda>_. \<lparr>cat_ID = 0, cat_Name = [], cat_DefaultMonthlyCost = 0, cat_DefaultYearlyCost = 0\<rparr>),
     lg_agreements = [], lg_recurring = [], lg_invoices = [], lg_sources = [], lg_invpays = [], lg_bank = [],
     lg_persons = [3], lg_locked_years = [2022], lg_next = 2\<rparr>"

definition example_env :: pay_env where
  "example_env = \<lparr>pe_now = utc_midnight 19420, pe_today = utc_midnight 19420, pe_user = Some 1,
     pe_numeric = (\<lambda>x. go_round (f_mul x 100))\<rparr>"

lemmas example_defs = example_ledger_def example_payment_def example_charge_def

lemma example_sound: "sound_ledger example_ledger" "autos_full example_ledger"
  by (simp_all add: sound_ledger_def autos_full_def example_defs live_def spent_def charge_invoiced_def active_source_def)

lemma example_years: "time_year (utc_midnight 19410) = 2023"
  using year_of_day_iff [of 19410 2023] by (simp add: time_year_midnight cal_eval)

definition example_reversed :: ledger where
  "example_reversed = example_ledger\<lparr>lg_payments := [example_payment\<lparr>pm_Reversed := True\<rparr>], lg_allocs := [],
     lg_charges := [example_charge\<lparr>ch_Paid := False\<rparr>]\<rparr>"

lemma example_delete: "delete_payment_tx example_env 1 example_ledger = Inr example_reversed"
proof -
  have "protectPaymentChangesTx example_ledger [1] [] = None"
    by (simp add: protectPaymentChangesTx_def guarded_years_def taxRuleYear_def periodicKinds_def example_defs example_years)
  then show ?thesis
    unfolding delete_payment_tx_def
    by (simp add: example_defs example_reversed_def release_payment_def unstamp_def claimed_def set_charge_paid_def
        reopenPaymentBankTransactionsTx_def reopenUncoveredVehiclesTx_def)
qed

text \<open>C24: whatever transactions run, in whatever order, a position is never claimed by two payments
  and never by a payment and an invoice, no payment settles more than it received, only payments
  that are not reversed hold claims, and a period has at most one receipt.\<close>

theorem claims_stay_sound:
  assumes "ledger_step\<^sup>*\<^sup>* L L'" "sound_ledger L" "autos_full L"
  shows "distinct (map (\<lambda>a. (al_Kind a, al_Ref a)) (lg_allocs L'))
    \<and> (\<forall>p \<in> set (lg_payments L'). spent L' (pm_ID p) \<le> pm_Amount p)
    \<and> (\<forall>a \<in> set (lg_allocs L'). \<exists>p \<in> set (lg_payments L'). pm_ID p = al_Payment a \<and> \<not> pm_Reversed p)
    \<and> (\<forall>a \<in> set (lg_allocs L'). al_Kind a = ''charge'' \<longrightarrow>
         \<not> active_source L' (\<lambda>s. so_Kind s = ''charge'' \<and> so_Ref s = al_Ref a \<and> so_Period s = []))
    \<and> distinct (map pm_Settles (filter (\<lambda>p. pm_Settles p \<noteq> None) (lg_payments L')))"
proof -
  have s: "sound_ledger L'" using ledger.run_keeps [OF assms(1)] assms(2,3) by simp
  have "distinct (map (\<lambda>a. (al_Kind a, al_Ref a)) (lg_allocs L'))"
    using soundD(1) [OF s] by (simp add: claim_of_def [abs_def])
  moreover have "\<forall>a \<in> set (lg_allocs L'). \<exists>p \<in> set (lg_payments L'). pm_ID p = al_Payment a \<and> \<not> pm_Reversed p"
    using soundD(2) [OF s] by (fastforce simp: live_def)
  ultimately show ?thesis
    using soundD(4,8,11) [OF s] by (auto simp: charge_invoiced_def)
qed

theorem claims_stay_sound_witness:
  "spent example_reversed 1 \<le> 5000 \<and> distinct (map (\<lambda>a. (al_Kind a, al_Ref a)) (lg_allocs example_reversed))"
proof -
  have "ledger_step\<^sup>*\<^sup>* example_ledger example_reversed"
    by (intro r_into_rtranclp reverse_payment [OF example_delete])
  from claims_stay_sound [OF this example_sound] show ?thesis
    by (simp add: example_reversed_def example_defs)
qed

subsection \<open>Reversing a payment\<close>

definition unstamped_charge :: "ledger \<Rightarrow> (string \<times> int) list \<Rightarrow> charge_entry \<Rightarrow> charge_entry" where
  "unstamped_charge L refs c =
     (if ch_VehicleID c = None \<and> (''charge'', ch_ID c) \<in> set refs \<and> \<not> claimed L ''charge'' (ch_ID c)
      then c\<lparr>ch_Paid := False\<rparr> else c)"

definition unstamped_vehicle :: "ledger \<Rightarrow> (string \<times> int) list \<Rightarrow> vehicle \<Rightarrow> vehicle" where
  "unstamped_vehicle L refs v =
     (if (''vehicle'', vh_ID v) \<in> set refs \<and> \<not> claimed L ''vehicle'' (vh_ID v)
      then v\<lparr>vh_Paid := False, vh_PaidThrough := None\<rparr> else v)"

lemma unstamp_keeps [simp]:
  "lg_allocs (unstamp r L) = lg_allocs L" "lg_invpays (unstamp r L) = lg_invpays L"
  "lg_payments (unstamp r L) = lg_payments L" "lg_sources (unstamp r L) = lg_sources L"
  "lg_locked_years (unstamp r L) = lg_locked_years L"
  by (simp_all add: unstamp_def set_charge_paid_def split: prod.split)

lemma give_back_keeps [simp]:
  "lg_allocs (give_back r L) = lg_allocs L" "lg_invpays (give_back r L) = lg_invpays L"
  "lg_payments (give_back r L) = lg_payments L" "lg_sources (give_back r L) = lg_sources L"
  "lg_charges (give_back r L) = lg_charges L" "lg_vehicles (give_back r L) = lg_vehicles L"
  "lg_locked_years (give_back r L) = lg_locked_years L"
  by (simp_all add: give_back_def split: prod.split)

lemma claimed_unstamp [simp]: "claimed (unstamp r L) = claimed L"
  by (simp add: claimed_def fun_eq_iff)

lemma unstamp_charges: "lg_charges (fold unstamp refs L) = map (unstamped_charge L refs) (lg_charges L)"
proof (induction refs arbitrary: L)
  case (Cons r refs)
  obtain k n where r: "r = (k, n)" by (cases r)
  have "lg_charges (unstamp r L) = map (unstamped_charge L [r]) (lg_charges L)"
  proof (cases "claimed L k n \<or> k \<noteq> ''charge''")
    case True
    then have "unstamped_charge L [r] = (\<lambda>x. x)" "lg_charges (unstamp r L) = lg_charges L"
      by (auto simp: unstamped_charge_def r fun_eq_iff unstamp_def set_charge_paid_def)
    then show ?thesis by simp
  next
    case False
    then have "unstamped_charge L [r] = (\<lambda>x. if ch_ID x = n \<and> ch_VehicleID x = None then x\<lparr>ch_Paid := False\<rparr> else x)"
      by (auto simp: unstamped_charge_def r fun_eq_iff)
    then show ?thesis using False by (auto simp: unstamp_def r set_charge_paid_def)
  qed
  moreover have "unstamped_charge (unstamp r L) refs (unstamped_charge L [r] x) = unstamped_charge L (r # refs) x" for x
    by (cases "claimed L ''charge'' (ch_ID x)"; cases "ch_VehicleID x") (simp_all add: unstamped_charge_def)
  ultimately show ?case by (simp add: Cons)
qed (simp add: unstamped_charge_def [abs_def])

lemma unstamp_vehicles: "lg_vehicles (fold unstamp refs L) = map (unstamped_vehicle L refs) (lg_vehicles L)"
proof (induction refs arbitrary: L)
  case (Cons r refs)
  obtain k n where r: "r = (k, n)" by (cases r)
  have "lg_vehicles (unstamp r L) = map (unstamped_vehicle L [r]) (lg_vehicles L)"
  proof (cases "claimed L k n \<or> k \<noteq> ''vehicle''")
    case True
    then have "unstamped_vehicle L [r] = (\<lambda>x. x)" "lg_vehicles (unstamp r L) = lg_vehicles L"
      by (auto simp: unstamped_vehicle_def r fun_eq_iff unstamp_def set_charge_paid_def)
    then show ?thesis by simp
  next
    case False
    then have "unstamped_vehicle L [r] = (\<lambda>x. if vh_ID x = n then x\<lparr>vh_Paid := False, vh_PaidThrough := None\<rparr> else x)"
      by (auto simp: unstamped_vehicle_def r fun_eq_iff)
    then show ?thesis using False by (auto simp: unstamp_def r set_charge_paid_def)
  qed
  moreover have "unstamped_vehicle (unstamp r L) refs (unstamped_vehicle L [r] x) = unstamped_vehicle L (r # refs) x" for x
    by (cases "claimed L ''vehicle'' (vh_ID x)") (simp_all add: unstamped_vehicle_def)
  ultimately show ?case by (simp add: Cons)
qed (simp add: unstamped_vehicle_def [abs_def])

lemma unstamp_all_keeps [simp]:
  "lg_allocs (fold unstamp rs L) = lg_allocs L" "lg_invpays (fold unstamp rs L) = lg_invpays L"
  "lg_payments (fold unstamp rs L) = lg_payments L" "lg_sources (fold unstamp rs L) = lg_sources L"
  "lg_locked_years (fold unstamp rs L) = lg_locked_years L"
  by (rule fold_frame, simp)+

lemma give_all_back_keeps [simp]:
  "lg_allocs (fold give_back rs L) = lg_allocs L" "lg_invpays (fold give_back rs L) = lg_invpays L"
  "lg_payments (fold give_back rs L) = lg_payments L" "lg_sources (fold give_back rs L) = lg_sources L"
  "lg_charges (fold give_back rs L) = lg_charges L" "lg_vehicles (fold give_back rs L) = lg_vehicles L"
  "lg_locked_years (fold give_back rs L) = lg_locked_years L"
  by (rule fold_frame, simp)+

lemma claimed_cong: "lg_allocs L = lg_allocs L' \<Longrightarrow> claimed L = claimed L'"
  by (simp add: claimed_def fun_eq_iff)

lemma delete_Inr:
  assumes "delete_payment_tx env pid L = Inr L'"
  obtains p refs where "find (\<lambda>p. pm_ID p = pid) (lg_payments L) = Some p" "\<not> pm_Reversed p" "pm_Settles p = None"
    "protectPaymentChangesTx L [pid] [] = None"
    "refs = map (\<lambda>a. (al_Kind a, al_Ref a)) (filter (\<lambda>a. al_Payment a = pid) (lg_allocs L))"
    "lg_payments L' = lg_payments (release_payment pid L)" "lg_allocs L' = filter (\<lambda>a. al_Payment a \<noteq> pid) (lg_allocs L)"
    "lg_invpays L' = filter (\<lambda>a. ip_Payment a \<noteq> pid) (lg_invpays L)"
    "lg_charges L' = map (unstamped_charge L' refs) (lg_charges L)"
    "\<forall>v' \<in> set (lg_vehicles L'). \<exists>v \<in> set (lg_vehicles L). vh_ID v' = vh_ID v
       \<and> vh_Paid v' = vh_Paid (unstamped_vehicle L' refs v)"
    "charge_invoiced L' = charge_invoiced L" "lg_locked_years L' = lg_locked_years L"
proof -
  obtain p where p1: "find (\<lambda>p. pm_ID p = pid) (lg_payments L) = Some p"
    using assms by (cases "find (\<lambda>p. pm_ID p = pid) (lg_payments L)") (simp_all add: delete_payment_tx_def)
  then have p2: "\<not> pm_Reversed p" using assms by (cases "pm_Reversed p") (simp_all add: delete_payment_tx_def)
  then have p3: "pm_Settles p = None" using assms p1 by (cases "pm_Settles p") (simp_all add: delete_payment_tx_def)
  then have "protectPaymentChangesTx L [pid] [] = None"
    using assms p1 p2 by (cases "protectPaymentChangesTx L [pid] []") (simp_all add: delete_payment_tx_def)
  note p = p1 p2 p3 this
  define refs where "refs = map (\<lambda>a. (al_Kind a, al_Ref a)) (filter (\<lambda>a. al_Payment a = pid) (lg_allocs L))"
  obtain ips ids where "L' = reopenPaymentBankTransactionsTx pid (reopenUncoveredVehiclesTx
      (businessDay (pe_now env)) ids (fold give_back ips (fold unstamp refs (release_payment pid L))))"
    using assms p unfolding delete_payment_tx_def Let_def refs_def by auto
  moreover define M where "M = fold give_back ips (fold unstamp refs (release_payment pid L))"
  ultimately have L'M: "L' = reopenPaymentBankTransactionsTx pid (reopenUncoveredVehiclesTx (businessDay (pe_now env)) ids M)"
    by simp
  have M: "lg_allocs M = lg_allocs (release_payment pid L)" "lg_payments M = lg_payments (release_payment pid L)"
    "lg_invpays M = lg_invpays (release_payment pid L)" "lg_sources M = lg_sources (release_payment pid L)"
    "lg_locked_years M = lg_locked_years (release_payment pid L)"
    "lg_charges M = map (unstamped_charge (release_payment pid L) refs) (lg_charges (release_payment pid L))"
    "lg_vehicles M = map (unstamped_vehicle (release_payment pid L) refs) (lg_vehicles (release_payment pid L))"
    by (simp_all add: M_def unstamp_charges unstamp_vehicles)
  have "\<exists>v \<in> set (lg_vehicles M). vh_ID v' = vh_ID v \<and> vh_Paid v' = vh_Paid v" if "v' \<in> set (lg_vehicles L')" for v'
    using that by (auto simp: L'M reopenPaymentBankTransactionsTx_def reopenUncoveredVehiclesTx_def)
  moreover have "vh_ID (unstamped_vehicle K refs v) = vh_ID v" for K v
    by (simp add: unstamped_vehicle_def)
  ultimately have "\<forall>v' \<in> set (lg_vehicles L'). \<exists>v \<in> set (lg_vehicles (release_payment pid L)). vh_ID v' = vh_ID v
       \<and> vh_Paid v' = vh_Paid (unstamped_vehicle (release_payment pid L) refs v)"
    unfolding M(7) by fastforce
  moreover have "lg_allocs L' = lg_allocs M" "lg_payments L' = lg_payments M" "lg_invpays L' = lg_invpays M"
    "lg_charges L' = lg_charges M" "lg_sources L' = lg_sources M" "lg_locked_years L' = lg_locked_years M"
    by (simp_all add: L'M reopenPaymentBankTransactionsTx_def reopenUncoveredVehiclesTx_def)
  ultimately have L': "lg_allocs L' = lg_allocs (release_payment pid L)"
    "lg_payments L' = lg_payments (release_payment pid L)" "lg_invpays L' = lg_invpays (release_payment pid L)"
    "lg_charges L' = map (unstamped_charge (release_payment pid L) refs) (lg_charges (release_payment pid L))"
    "lg_sources L' = lg_sources (release_payment pid L)" "lg_locked_years L' = lg_locked_years (release_payment pid L)"
    "\<forall>v' \<in> set (lg_vehicles L'). \<exists>v \<in> set (lg_vehicles (release_payment pid L)). vh_ID v' = vh_ID v
       \<and> vh_Paid v' = vh_Paid (unstamped_vehicle (release_payment pid L) refs v)"
    using M by simp_all
  have "unstamped_charge (release_payment pid L) = unstamped_charge L'"
    "unstamped_vehicle (release_payment pid L) = unstamped_vehicle L'"
    using claimed_cong [OF L'(1)] by (simp_all add: unstamped_charge_def unstamped_vehicle_def fun_eq_iff)
  with L' have "lg_charges L' = map (unstamped_charge L' refs) (lg_charges L)"
    "\<forall>v' \<in> set (lg_vehicles L'). \<exists>v \<in> set (lg_vehicles L). vh_ID v' = vh_ID v
       \<and> vh_Paid v' = vh_Paid (unstamped_vehicle L' refs v)"
    by (simp_all add: release_payment_def)
  moreover have "lg_allocs L' = filter (\<lambda>a. al_Payment a \<noteq> pid) (lg_allocs L)"
    "lg_invpays L' = filter (\<lambda>a. ip_Payment a \<noteq> pid) (lg_invpays L)" "lg_sources L' = lg_sources L"
    "lg_locked_years L' = lg_locked_years L"
    using L' by (simp_all add: release_payment_def)
  moreover have "charge_invoiced (unstamp r K) = charge_invoiced K" "charge_invoiced (give_back g K) = charge_invoiced K" for r g K
    by (auto simp: unstamp_def set_charge_paid_def give_back_def charge_invoiced_same same_invoices_map split: prod.splits)
  then have "charge_invoiced L' = charge_invoiced L"
    by (simp add: L'M M_def reopenPaymentBankTransactionsTx_def reopenUncoveredVehiclesTx_def
        fold_frame [of charge_invoiced] release_payment_def)
  ultimately show ?thesis using that [OF p refs_def L'(2)] by blast
qed

lemma released_unclaimed:
  assumes "sound_ledger L" "lg_allocs L' = filter (\<lambda>a. al_Payment a \<noteq> pid) (lg_allocs L)"
    "a \<in> set (lg_allocs L)" "al_Payment a = pid"
  shows "\<not> claimed L' (al_Kind a) (al_Ref a)"
proof
  assume "claimed L' (al_Kind a) (al_Ref a)"
  then obtain b where b: "b \<in> set (lg_allocs L)" "al_Payment b \<noteq> pid" "claim_of b = claim_of a"
    using assms(2) by (auto simp: claimed_def claim_of_def)
  then have "b = a" using soundD(1) [OF assms(1)] assms(3) by (metis distinct_map inj_onD)
  with b assms(4) show False by simp
qed

lemma payments_total_release:
  assumes "sound_ledger L" "find (\<lambda>p. pm_ID p = pid) (lg_payments L) = Some p" "\<not> pm_Reversed p"
    "lg_payments L' = lg_payments (release_payment pid L)"
  shows "payments_total L' person = payments_total L person - (if pm_PersonID p = person then pm_Amount p else 0)"
proof -
  let ?f = "\<lambda>q. if pm_ID q = pid \<and> \<not> pm_Reversed q then q\<lparr>pm_Reversed := True\<rparr> else q"
  let ?P = "\<lambda>q. pm_PersonID q = person \<and> \<not> pm_Reversed q"
  have pid: "pm_ID p = pid" "p \<in> set (lg_payments L)"
    using assms(2) by (auto simp: find_Some_iff)
  have "(\<Sum>q \<leftarrow> filter ?P (map ?f qs). pm_Amount q)
      = (\<Sum>q \<leftarrow> filter ?P qs. pm_Amount q) - (if pm_PersonID p = person \<and> p \<in> set qs then pm_Amount p else 0)"
    if "distinct (map pm_ID qs)" "\<forall>q \<in> set qs. pm_ID q = pid \<longrightarrow> q = p" for qs
    using that by (induction qs) (use pid assms(3) in auto)
  moreover have "\<forall>q \<in> set (lg_payments L). pm_ID q = pid \<longrightarrow> q = p"
    using unique_payment [OF soundD(9) [OF assms(1)]] pid by blast
  ultimately show ?thesis
    using soundD(9) [OF assms(1)] pid(2) assms(4) by (simp add: payments_total_def release_payment_def)
qed

text \<open>C25: reversing a payment takes its amount, and nothing else, out of what the person has paid;
  its claims and its links to invoices are gone and no other payment's, and every rental or
  standalone charge it had settled is open again.\<close>

theorem reversal_releases:
  assumes "sound_ledger L" "delete_payment_tx env pid L = Inr L'"
  shows "(\<exists>p \<in> set (lg_payments L). pm_ID p = pid \<and> (\<forall>person.
        payments_total L' person = payments_total L person - (if pm_PersonID p = person then pm_Amount p else 0)))
    \<and> lg_allocs L' = filter (\<lambda>a. al_Payment a \<noteq> pid) (lg_allocs L)
    \<and> lg_invpays L' = filter (\<lambda>a. ip_Payment a \<noteq> pid) (lg_invpays L)
    \<and> (\<forall>a \<in> set (lg_allocs L). al_Payment a = pid \<longrightarrow>
         (\<forall>c \<in> set (lg_charges L'). al_Kind a = ''charge'' \<and> ch_ID c = al_Ref a \<and> ch_VehicleID c = None \<longrightarrow> \<not> ch_Paid c)
       \<and> (\<forall>v \<in> set (lg_vehicles L'). al_Kind a = ''vehicle'' \<and> vh_ID v = al_Ref a \<longrightarrow> \<not> vh_Paid v))"
proof -
  from assms(2) obtain p refs where p: "find (\<lambda>p. pm_ID p = pid) (lg_payments L) = Some p" "\<not> pm_Reversed p"
      "pm_Settles p = None" "protectPaymentChangesTx L [pid] [] = None"
    and refs: "refs = map (\<lambda>a. (al_Kind a, al_Ref a)) (filter (\<lambda>a. al_Payment a = pid) (lg_allocs L))"
    and L': "lg_payments L' = lg_payments (release_payment pid L)" "lg_allocs L' = filter (\<lambda>a. al_Payment a \<noteq> pid) (lg_allocs L)"
      "lg_invpays L' = filter (\<lambda>a. ip_Payment a \<noteq> pid) (lg_invpays L)"
      "lg_charges L' = map (unstamped_charge L' refs) (lg_charges L)"
      "\<forall>v' \<in> set (lg_vehicles L'). \<exists>v \<in> set (lg_vehicles L). vh_ID v' = vh_ID v
       \<and> vh_Paid v' = vh_Paid (unstamped_vehicle L' refs v)"
      "charge_invoiced L' = charge_invoiced L" "lg_locked_years L' = lg_locked_years L"
    by (rule delete_Inr)
  have "p \<in> set (lg_payments L)" "pm_ID p = pid" using p(1) by (auto simp: find_Some_iff)
  then have total: "\<exists>p \<in> set (lg_payments L). pm_ID p = pid \<and> (\<forall>person.
      payments_total L' person = payments_total L person - (if pm_PersonID p = person then pm_Amount p else 0))"
    using payments_total_release [OF assms(1) p(1,2) L'(1)] by blast
  have open_again: "(\<forall>c \<in> set (lg_charges L'). al_Kind a = ''charge'' \<and> ch_ID c = al_Ref a \<and> ch_VehicleID c = None \<longrightarrow> \<not> ch_Paid c)
       \<and> (\<forall>v \<in> set (lg_vehicles L'). al_Kind a = ''vehicle'' \<and> vh_ID v = al_Ref a \<longrightarrow> \<not> vh_Paid v)"
    if a: "a \<in> set (lg_allocs L)" "al_Payment a = pid" for a
  proof -
    have "\<not> claimed L' (al_Kind a) (al_Ref a)" by (rule released_unclaimed [OF assms(1) L'(2) a])
    moreover have "(al_Kind a, al_Ref a) \<in> set refs" using a by (auto simp: refs)
    ultimately have closed: "ch_VehicleID c = None \<Longrightarrow> al_Kind a = ''charge'' \<Longrightarrow> ch_ID c = al_Ref a \<Longrightarrow> \<not> ch_Paid (unstamped_charge L' refs c)"
      "al_Kind a = ''vehicle'' \<Longrightarrow> vh_ID v = al_Ref a \<Longrightarrow> \<not> vh_Paid (unstamped_vehicle L' refs v)" for c v
      by (auto simp: unstamped_charge_def unstamped_vehicle_def)
    have same: "ch_VehicleID (unstamped_charge L' refs c) = ch_VehicleID c" "ch_ID (unstamped_charge L' refs c) = ch_ID c" for c
      by (simp_all add: unstamped_charge_def)
    have "\<not> ch_Paid c" if "c \<in> set (lg_charges L')" "al_Kind a = ''charge''" "ch_ID c = al_Ref a" "ch_VehicleID c = None" for c
    proof -
      have "set (lg_charges L') = unstamped_charge L' refs ` set (lg_charges L)"
        using arg_cong [OF L'(4), of set] by (simp only: set_map)
      then have "c \<in> unstamped_charge L' refs ` set (lg_charges L)" using that(1) by (simp only:)
      then obtain d where c: "c = unstamped_charge L' refs d" by (rule imageE)
      have d: "ch_ID d = al_Ref a" "ch_VehicleID d = None"
        using that(3,4) same [of d] unfolding c by (simp_all only:)
      show ?thesis unfolding c by (rule closed(1) [OF d(2) that(2) d(1)])
    qed
    moreover have "\<not> vh_Paid v" if "v \<in> set (lg_vehicles L')" "al_Kind a = ''vehicle''" "vh_ID v = al_Ref a" for v
      using L'(5) closed(2) that by metis
    ultimately show ?thesis by blast
  qed
  show ?thesis using total L'(2,3) open_again by blast
qed

theorem reversal_releases_witness:
  "payments_total example_reversed 3 = 0 \<and> lg_allocs example_reversed = []"
proof -
  from reversal_releases [OF example_sound(1) example_delete]
  have "payments_total example_reversed 3 = payments_total example_ledger 3 - 5000"
    "lg_allocs example_reversed = filter (\<lambda>a. al_Payment a \<noteq> 1) (lg_allocs example_ledger)"
    by (auto simp: example_defs)
  then show ?thesis by (simp add: payments_total_def example_defs)
qed

text \<open>C26: a charge bound to a vehicle that was settled together with its rent stays marked as paid
  when that payment is reversed, though no payment and no invoice stands for it any more, and from
  then on neither a payment nor the switch of the vehicle collects it. Taking the switch back itself
  opens it again.\<close>

theorem reversed_switch_keeps_bound_charge:
  assumes "sound_ledger L" "delete_payment_tx env pid L = Inr L'"
    "a \<in> set (lg_allocs L)" "al_Payment a = pid" "al_Kind a = ''charge''" "al_Ref a = ch_ID c"
    "c \<in> set (lg_charges L)" "ch_VehicleID c = Some vid" "ch_Paid c" "distinct (map ch_ID (lg_charges L))"
  shows "c \<in> set (lg_charges L') \<and> ch_Paid c \<and> \<not> claimed L' ''charge'' (ch_ID c) \<and> \<not> charge_invoiced L' (ch_ID c)
    \<and> (\<forall>it \<in> set (charge_items L' person). oi_ID it \<noteq> ch_ID c)
    \<and> (\<forall>b \<in> set (bound_charges L' vid). bc_id b \<noteq> ch_ID c)"
proof -
  from assms(2) obtain p refs where "find (\<lambda>p. pm_ID p = pid) (lg_payments L) = Some p" "\<not> pm_Reversed p"
      "pm_Settles p = None" "protectPaymentChangesTx L [pid] [] = None"
      "refs = map (\<lambda>a. (al_Kind a, al_Ref a)) (filter (\<lambda>a. al_Payment a = pid) (lg_allocs L))"
      "lg_payments L' = lg_payments (release_payment pid L)"
    and L': "lg_allocs L' = filter (\<lambda>a. al_Payment a \<noteq> pid) (lg_allocs L)"
      "lg_invpays L' = filter (\<lambda>a. ip_Payment a \<noteq> pid) (lg_invpays L)"
      "lg_charges L' = map (unstamped_charge L' refs) (lg_charges L)"
      "\<forall>v' \<in> set (lg_vehicles L'). \<exists>v \<in> set (lg_vehicles L). vh_ID v' = vh_ID v
       \<and> vh_Paid v' = vh_Paid (unstamped_vehicle L' refs v)"
      "charge_invoiced L' = charge_invoiced L" "lg_locked_years L' = lg_locked_years L"
    by (rule delete_Inr)
  have ids: "map ch_ID (lg_charges L') = map ch_ID (lg_charges L)"
    unfolding L'(3) map_map by (simp add: unstamped_charge_def)
  have "unstamped_charge L' refs c = c" using assms(8) by (simp add: unstamped_charge_def)
  then have c: "c \<in> set (lg_charges L')" using assms(7) L'(3) by (metis image_eqI list.set_map)
  have only: "d = c" if "d \<in> set (lg_charges L')" "ch_ID d = ch_ID c" for d
    using assms(10) c that ids by (metis distinct_map inj_onD)
  have "\<forall>it \<in> set (charge_items L' person). oi_ID it \<noteq> ch_ID c"
    "\<forall>b \<in> set (bound_charges L' vid). bc_id b \<noteq> ch_ID c"
    using only assms(9) by (fastforce simp: charge_items_def bound_charges_def)+
  moreover have "\<not> claimed L' ''charge'' (ch_ID c)"
    using released_unclaimed [OF assms(1) L'(1) assms(3,4)] assms(5,6) by simp
  moreover have "\<not> charge_invoiced L' (ch_ID c)"
    using soundD(4) [OF assms(1,3,5)] assms(6) L'(5) by simp
  ultimately show ?thesis using c assms(9) by blast
qed

definition parked :: vehicle where
  "parked = \<lparr>vh_ID = 4, vh_PersonID = 3, vh_CategoryID = 0, vh_Label = ''Caravan'', vh_LicensePlate = [],
     vh_BillingPeriod = ''monthly'', vh_Rate = 80, vh_CostOverride = None, vh_StartDate = utc_midnight 19400,
     vh_EndDate = None, vh_Status = ''stored'', vh_Paid = True, vh_PaidThrough = Some (utc_midnight 19410),
     vh_Archived = False, vh_CategoryName = [], vh_AccruedCost = 80, vh_EffectiveRate = 80, vh_IsActive = True,
     vh_RateChanges = [], vh_Pauses = []\<rparr>"

definition bound_ledger :: ledger where
  "bound_ledger = example_ledger\<lparr>
     lg_payments := [example_payment\<lparr>pm_Amount := 13000, pm_Auto := True\<rparr>],
     lg_allocs := [\<lparr>al_Payment = 1, al_Kind = ''vehicle'', al_Ref = 4, al_Amount = 8000, al_CreatedAt = utc_midnight 19410\<rparr>,
       \<lparr>al_Payment = 1, al_Kind = ''charge'', al_Ref = 7, al_Amount = 5000, al_CreatedAt = utc_midnight 19410\<rparr>],
     lg_charges := [example_charge\<lparr>ch_VehicleID := Some 4\<rparr>], lg_vehicles := [parked]\<rparr>"

lemmas bound_defs = bound_ledger_def parked_def example_defs

lemma bound_sound: "sound_ledger bound_ledger"
  by (simp add: sound_ledger_def bound_defs live_def spent_def charge_invoiced_def active_source_def claim_of_def)

theorem reversed_switch_keeps_bound_charge_witness:
  "\<exists>L'. delete_payment_tx example_env 1 bound_ledger = Inr L'
    \<and> example_charge\<lparr>ch_VehicleID := Some 4\<rparr> \<in> set (lg_charges L') \<and> \<not> claimed L' ''charge'' 7"
proof -
  have "protectPaymentChangesTx bound_ledger [1] [] = None"
    by (simp add: protectPaymentChangesTx_def guarded_years_def taxRuleYear_def periodicKinds_def bound_defs example_years)
  then obtain L' where d: "delete_payment_tx example_env 1 bound_ledger = Inr L'"
    by (cases "delete_payment_tx example_env 1 bound_ledger") (auto simp: delete_payment_tx_def bound_defs Let_def)
  have "\<lparr>al_Payment = 1, al_Kind = ''charge'', al_Ref = 7, al_Amount = 5000, al_CreatedAt = utc_midnight 19410\<rparr>
      \<in> set (lg_allocs bound_ledger)"
    by (simp add: bound_defs)
  from reversed_switch_keeps_bound_charge [OF bound_sound d this, of "example_charge\<lparr>ch_VehicleID := Some 4\<rparr>" 4] d
  show ?thesis by (simp add: bound_defs)
qed

lemma switched_off_opens_bound_charge:
  assumes "toggle_open L ''vehicle'' vid = Inr L'"
    "a \<in> set (lg_allocs L)" "al_Kind a = ''charge''" "al_Ref a = ch_ID c"
    "va \<in> set (lg_allocs L)" "al_Kind va = ''vehicle''" "al_Ref va = vid" "al_Payment va = al_Payment a"
    "ch_VehicleID c = Some vid" "c' \<in> set (lg_charges L')" "ch_ID c' = ch_ID c" "ch_VehicleID c' = Some vid"
  shows "\<not> ch_Paid c'"
proof -
  have keep: "lg_charges (fold reverseTogglePaymentTx ids K) = lg_charges K" for ids K
    by (induction ids arbitrary: K) (simp_all add: reverseTogglePaymentTx_def)
  show ?thesis
    using assms
    by (auto simp: toggle_open_def Let_def keep set_charge_paid_def split: option.splits if_splits)
qed

subsection \<open>Switches without an own amount\<close>

lemma sum_list_ge_len: "\<forall>x \<in> set xs. 1 \<le> (x :: int) \<Longrightarrow> int (length xs) \<le> sum_list xs"
  by (induction xs) auto

lemma bound_enough:
  assumes "moderate env L" "bound_charges L vid \<noteq> []"
  shows "\<not> f_add 0 (f_sum 0 (map bc_total (bound_charges L vid))) < fl (5 / 1000)"
proof -
  let ?bs = "bound_charges L vid" and ?n = "\<lambda>b. pe_numeric env (bc_total b)"
  have pos: "1 \<le> ?n b" if b: "b \<in> set ?bs" for b
  proof -
    have "\<bar>?n b\<bar> \<le> (\<Sum>b \<leftarrow> ?bs. \<bar>?n b\<bar>)" using b by (intro member_le_sum_list) auto
    then have "\<bar>?n b\<bar> \<le> 10 ^ 11" using bound_total [OF assms(1), of vid] by simp
    moreover have "fl (5 / 1000) < bc_total b" using b by (auto simp: bound_charges_def)
    ultimately show ?thesis using above_half_cent [of "?n b"] bound_cents [OF assms(1) b] by simp
  qed
  have len: "length ?bs \<le> 2000"
    using assms(1) length_filter_le [of _ "lg_charges L"] unfolding bound_charges_def length_map moderate_def
    by (meson order_trans)
  have eq: "map bc_total ?bs = map euros (map ?n ?bs)"
    using bound_cents [OF assms(1)] by (auto simp: comp_def)
  have tot: "(\<Sum>b \<leftarrow> ?bs. \<bar>?n b\<bar>) \<le> 10 ^ 11" using bound_total [OF assms(1), of vid] by simp
  have "near (0 + 2 * int (length (map ?n ?bs))) (f_sum 0 (map euros (map ?n ?bs))) (0 + sum_list (map ?n ?bs))"
    using len tot by (intro near_f_sum near_0) (auto simp: comp_def)
  moreover have "\<bar>sum_list (map ?n ?bs)\<bar> \<le> 10 ^ 11"
    using tot sum_list_abs_le [of "map ?n ?bs"] by (simp add: comp_def)
  ultimately have n: "near (0 + 2 * int (length ?bs) + 1) (f_add 0 (f_sum 0 (map bc_total ?bs))) (sum_list (map ?n ?bs))"
    using near_add [OF near_0, of "2 * int (length ?bs)" "f_sum 0 (map euros (map ?n ?bs))" "sum_list (map ?n ?bs)"] len
    by (simp add: eq)
  have "int (length (map ?n ?bs)) \<le> sum_list (map ?n ?bs)"
    by (rule sum_list_ge_len) (use pos in auto)
  then have "1 \<le> sum_list (map ?n ?bs)" using assms(2) by (cases ?bs) auto
  then have one: "(1 :: rat) \<le> of_int (sum_list (map ?n ?bs))" by (metis of_int_1_le_iff)
  define x s e where "x = f_add 0 (f_sum 0 (map bc_total ?bs))"
    and "s = (of_int (sum_list (map ?n ?bs)) :: rat)" and "e = (of_int (0 + 2 * int (length ?bs) + 1) / 4000000 :: rat)"
  have "\<bar>x - s / 100\<bar> \<le> e" using nearD(1) [OF n] by (simp only: x_def s_def e_def)
  moreover have "e \<le> 1 / 800" using len by (simp add: e_def)
  moreover have "1 \<le> s" using one by (simp add: s_def)
  ultimately have "1 / 100 - 1 / 800 \<le> x" by linarith
  moreover have "fl (5 / 1000) \<le> 5 / 1000 + 1 / 1000000" using half_cent(2) by linarith
  ultimately show ?thesis unfolding x_def [symmetric] by linarith
qed

text \<open>C27: a vehicle whose own rent is not open, because a Pauschale covers it or nothing has
  accrued, but that carries an open bound charge, cannot be marked as paid: the claim on the rent
  has amount zero, which the table refuses, and the request fails as a server error.\<close>

theorem zero_rent_switch_fails:
  assumes "moderate env L" "find (\<lambda>v. vh_ID v = vid) (lg_vehicles L) = Some v" "\<not> vh_Archived v" "\<not> vh_Paid v"
    "vh_PersonID v \<in> set (lg_persons L)" "\<not> periodInvoicedTx L ''vehicle'' vid []" "\<not> claimed L ''vehicle'' vid"
    "protectCurrentReceiptTx env L [] [] = None" "bound_charges L vid \<noteq> []"
    "\<forall>it \<in> set (openOwedItemsFrom env L (vh_PersonID v)). \<not> (oi_Kind it = ''vehicle'' \<and> oi_ID it = vid)"
  shows "MarkPaid env (\<lambda>L. L) vid True L = (Server_Error, L)"
proof -
  let ?bs = "bound_charges L vid"
  have "foldl (\<lambda>amt it. if oi_Kind it = ''vehicle'' \<and> oi_ID it = vid then oi_LineTotal it else amt) 0 its = 0"
    if "\<forall>it \<in> set its. \<not> (oi_Kind it = ''vehicle'' \<and> oi_ID it = vid)" for its
    using that by (induction its) auto
  then have owed: "toggleOwedFrom env L ''vehicle'' vid (vh_PersonID v) = (0, ?bs)"
    using assms(10) by (simp add: toggleOwedFrom_def)
  have num: "pe_numeric env 0 = 0"
    using assms(1) unfolding moderate_def numeric_ok_def by (metis abs_zero euros_0 zero_le_numeral zero_le_power)
  have "toggle_paid env L ''vehicle'' vid (vh_PersonID v) 0 ?bs = Inl Check_Violation"
    using bound_enough [OF assms(1,9)] assms(5,7,8)
    by (auto simp: toggle_paid_def Let_def num insert_payment_def claim_position_def split: if_splits)
  then have "mark_paid_tx env vid (vh_PersonID v) True L = Inl Check_Violation"
    using assms(2-4,6) owed by (simp add: mark_paid_tx_def syncTogglePaymentTx_def)
  then show ?thesis using assms(2,3) by (simp add: MarkPaid_def write_toggle_error_def)
qed

text \<open>A place reserved from 22 May 2023 on with a deposit that is already charged.\<close>

definition reserved_ledger :: ledger where
  "reserved_ledger = example_ledger\<lparr>lg_payments := [], lg_allocs := [], lg_locked_years := [],
     lg_charges := [example_charge\<lparr>ch_VehicleID := Some 4, ch_Paid := False\<rparr>],
     lg_vehicles := [parked\<lparr>vh_StartDate := utc_midnight 19500, vh_Paid := False, vh_PaidThrough := None\<rparr>]\<rparr>"

lemmas reserved_defs = reserved_ledger_def bound_defs

lemma f_mul_ints: "\<bar>a * b\<bar> \<le> 2 ^ 53 \<Longrightarrow> f_mul (of_int a) (of_int b) = of_int (a * b)"
  using fl_of_int [of "a * b"] by (simp add: f_mul_def)

lemma deposit_cents: "line_total 25 2 = 50" "toCents (f_mul 25 2) = 5000"
proof -
  have "f_mul 25 2 = (50 :: rat)" "f_mul 50 100 = (5000 :: rat)"
    using f_mul_ints [of 25 2] f_mul_ints [of 50 100] by simp_all
  moreover have "go_round 5000 = 5000" using go_round_of_int [of 5000] by simp
  moreover have "f_div 5000 100 = (50 :: rat)" using fl_of_int [of 50] by (simp add: f_div_def)
  ultimately show "line_total 25 2 = 50" "toCents (f_mul 25 2) = 5000"
    using fl_of_int [of 5000] by (simp_all add: line_total_def round2_def toCents_def f_of_int_def)
qed

lemma reserved_accrued: "AccruedCostAsOf (parked\<lparr>vh_StartDate := utc_midnight 19500, vh_Paid := p, vh_PaidThrough := q\<rparr>) cat (utc_midnight 19420) = 0"
  by (simp add: AccruedCostAsOf_def vehicle_CostInRange_def CostInRange_def window_def vehicle_AsPeriod_def parked_def)

lemma example_numeric: "numeric_ok (pe_numeric example_env)"
  by (auto simp: numeric_ok_def example_env_def intro: near_cents [OF near_euros])

lemma no_year: "find (\<lambda>y. False) ys = None"
  by (simp add: find_None_iff)

lemma reserved_moderate: "moderate example_env reserved_ledger"
proof -
  have "toCents 0 = 0" by (simp add: toCents_def f_mul_def)
  then show ?thesis
    using example_numeric reserved_accrued
    by (simp add: moderate_def reserved_ledger_def example_defs line_cents_def deposit_cents accrued_now_def example_env_def)
qed

theorem zero_rent_switch_fails_witness:
  "MarkPaid example_env (\<lambda>L. L) 4 True reserved_ledger = (Server_Error, reserved_ledger)"
proof -
  let ?v = "parked\<lparr>vh_StartDate := utc_midnight 19500, vh_Paid := False, vh_PaidThrough := None\<rparr>"
  have "fl (5 / 1000) < 50" using half_cent(2) by linarith
  then have bound: "bound_charges reserved_ledger 4 \<noteq> []"
    by (simp add: bound_charges_def reserved_ledger_def example_defs deposit_cents active_source_def)
  have "round2 0 = 0" by (simp add: round2_def f_mul_def f_div_def f_of_int_def)
  then have "vehicle_accrued example_env reserved_ledger ?v = 0"
    by (simp add: vehicle_accrued_def example_env_def reserved_accrued)
  then have "openOwedItemsFrom example_env reserved_ledger 3 = []"
    using half_cent(1)
    by (simp add: openOwedItemsFrom_def Let_def vehicle_items_def charge_items_def reserved_ledger_def example_defs)
  moreover have "protectCurrentReceiptTx example_env reserved_ledger [] [] = None"
    by (simp add: protectCurrentReceiptTx_def protectPaymentChangesTx_def reserved_ledger_def Let_def no_year)
  moreover have "vh_PersonID ?v = 3" "\<not> vh_Archived ?v" "\<not> vh_Paid ?v"
    "find (\<lambda>v. vh_ID v = 4) (lg_vehicles reserved_ledger) = Some ?v"
    by (simp_all add: parked_def reserved_ledger_def)
  moreover have "\<not> periodInvoicedTx reserved_ledger ''vehicle'' 4 []" "\<not> claimed reserved_ledger ''vehicle'' 4"
    "3 \<in> set (lg_persons reserved_ledger)"
    by (simp_all add: periodInvoicedTx_def active_source_def claimed_def reserved_ledger_def example_defs)
  ultimately show ?thesis
    by (intro zero_rent_switch_fails [OF reserved_moderate, of 4 ?v] bound) simp_all
qed

subsection \<open>Repeated requests\<close>

lemma settle_item_rows:
  assumes "settleItemTx env pid it L = Inr (ok, v, L')"
  shows "lg_payments L' = lg_payments L
    \<and> length (filter (\<lambda>a. al_Payment a = pid) (lg_allocs L'))
      = length (filter (\<lambda>a. al_Payment a = pid) (lg_allocs L)) + (if ok then 1 else 0)"
  using assms
  by (auto simp: settleItemTx_def claim_position_def set_charge_paid_def split: if_splits)

lemma settle_loop_rows:
  assumes "settle_loop env pid strict its r n vs L = Inr (m, vs', L')"
  shows "lg_payments L' = lg_payments L
    \<and> length (filter (\<lambda>a. al_Payment a = pid) (lg_allocs L')) + n
      = length (filter (\<lambda>a. al_Payment a = pid) (lg_allocs L)) + m"
  using assms
proof (induction env pid strict its r n vs L rule: settle_loop.induct)
  case (2 env pid strict it its r n vs L)
  show ?case
  proof (cases "f_add r (fl (5 / 1000)) < oi_LineTotal it")
    case True
    then show ?thesis using 2 by (auto split: if_splits)
  next
    case False
    then obtain ok v L1 where s: "settleItemTx env pid it L = Inr (ok, v, L1)"
      using "2.prems" by (cases "settleItemTx env pid it L") auto
    show ?thesis
    proof (cases ok)
      case True
      with s have s: "settleItemTx env pid it L = Inr (True, v, L1)" by simp
      from settle_item_rows [OF this] "2.IH"(2) [OF False s refl refl refl] "2.prems" False s show ?thesis by simp
    next
      case nok: False
      with s have s: "settleItemTx env pid it L = Inr (False, v, L1)" by simp
      from settle_item_rows [OF this] "2.IH"(3) [OF False s refl refl refl] "2.prems" False s show ?thesis by simp
    qed
  qed
qed simp

lemma archive_rows: "lg_payments (fold (autoArchiveIfClosed env) vs L) = lg_payments L"
  "lg_allocs (fold (autoArchiveIfClosed env) vs L) = lg_allocs L"
  by (rule fold_frame, simp add: autoArchiveIfClosed_def archive_if_def)+

lemma find_last: "find P xs = None \<Longrightarrow> P x \<Longrightarrow> find P (xs @ [x]) = Some x"
  by (induction xs) (auto split: if_splits)

lemma not_recorded [simp]: "write_pay_error e \<noteq> Recorded p n b"
  by (simp add: write_pay_error_def split: pay_error.split)

text \<open>C28: a payment that was recorded under an idempotency key is not recorded again: the same
  request under the same key gives the same row and the same number of settled positions and changes
  nothing, and a different request under that key is refused.\<close>

theorem replay_books_once:
  assumes "sound_ledger (mid L)" "CreatePayment env hash mid person req key L = (Recorded p n False, L')" "key \<noteq> []"
    "validatePayment (pe_now env) req = Inr (req1, paidOn)"
  shows "CreatePayment env hash mid2 person req key L' = (Recorded p n True, L')
    \<and> (\<forall>person2 req2 req3 paidOn2. validatePayment (pe_now env) req2 = Inr (req3, paidOn2)
         \<and> paymentFingerprint hash person2 req3 paidOn2 \<noteq> paymentFingerprint hash person req1 paidOn
         \<longrightarrow> CreatePayment env hash mid2 person2 req2 key L' = (Conflict_Reply, L'))"
proof -
  let ?fp = "paymentFingerprint hash person req1 paidOn"
  let ?k = "Some (key, ?fp)"
  let ?P = "\<lambda>p. pm_CreatedBy p = pe_user env \<and> map_option fst (pm_Key p) = Some key"
  have key: "validIdempotencyKey key"
    using assms(2,3,4) by (cases "validIdempotencyKey key") (auto simp: CreatePayment_def)
  obtain vs M where tx: "create_payment_tx env person req1 paidOn ?k (mid L) = Inr ((p, n, False, vs), M)"
    and L': "L' = fold (autoArchiveIfClosed env) vs M"
    using assms(2,3,4) key
    by (auto simp: CreatePayment_def Let_def split: sum.splits option.splits prod.splits)
  let ?L = "mid L" and ?p = "new_payment env person req1 paidOn ?k"
  let ?items = "if pq_Allocate req1 \<or> pq_Allocations req1 \<noteq> [] then openOwedItemsFrom env ?L person else []"
  obtain L1 where i: "insert_payment ?p ?L = Inr L1" and none: "idempotentPayment ?L (pe_user env) key ?fp = Inr None"
    and s: "settlePaymentTx env (lg_next ?L) req1 ?items L1 = Inr (n, vs, M)" and p: "p = ?p\<lparr>pm_ID := lg_next ?L\<rparr>"
    using tx by (auto simp: create_payment_tx_def Let_def split: if_splits option.splits sum.splits)
  have first: "find ?P (lg_payments ?L) = None"
    using none by (cases "find ?P (lg_payments ?L)") (auto simp: idempotentPayment_def split: if_splits)
  have rows: "lg_payments L1 = lg_payments ?L @ [p]" "lg_allocs L1 = lg_allocs ?L"
    using i p by (auto simp: insert_payment_def split: if_splits)
  have "filter (\<lambda>a. al_Payment a = lg_next ?L) (lg_allocs ?L) = []"
    using soundD(2,10) [OF assms(1)] by (fastforce simp: filter_empty_conv live_def)
  then have "lg_payments M = lg_payments ?L @ [p]" "length (filter (\<lambda>a. al_Payment a = pm_ID p) (lg_allocs M)) = n"
    using settle_loop_rows [OF s [unfolded settlePaymentTx_def Let_def]] rows p by simp_all
  then have rows2: "lg_payments L' = lg_payments ?L @ [p]" "length (filter (\<lambda>a. al_Payment a = pm_ID p) (lg_allocs L')) = n"
    by (simp_all add: L' archive_rows)
  have "?P p" "map_option snd (pm_Key p) = Some ?fp" by (simp_all add: p new_payment_def)
  then have "find ?P (lg_payments L') = Some p"
    using first find_last [of ?P "lg_payments ?L" p] by (simp only: rows2(1))
  then have found: "idempotentPayment L' (pe_user env) key f = (if f \<noteq> ?fp then Inl Idempotency_Conflict else Inr (Some (p, n)))" for f
    using rows2(2) by (auto simp: idempotentPayment_def p new_payment_def)
  then show ?thesis using assms(3,4) key by (auto simp: CreatePayment_def Let_def)
qed

definition example_request :: paymentRequest where
  "example_request = \<lparr>pq_Amount = 50, pq_PaidOn = [], pq_Method = ''paypal'', pq_Note = [], pq_Allocate = False,
     pq_Allocations = []\<rparr>"

lemma example_key: "validIdempotencyKey ''k-2023-05''"
  by (simp add: validIdempotencyKey_def trim_space_examples)

lemma example_valid: "validatePayment (pe_now example_env) example_request = Inr (example_request, utc_midnight 19420)"
  by (simp add: validatePayment_def example_request_def trim_space_examples maxMoneyAmount_def paymentMethods_def
      validNameLength_def example_env_def)

lemma example_years2: "time_year (utc_midnight 19420) = 2023"
  using year_of_day_iff [of 19420 2023] by (simp add: time_year_midnight cal_eval)

lemma example_amount: "pe_numeric example_env 50 = 5000"
  using near_cents [OF near_euros [of 5000]] fl_of_int [of 50] by (simp add: example_env_def euros_def f_div_def f_of_int_def fl_of_int [of 5000, simplified])

theorem replay_books_once_witness:
  "\<exists>p L'. CreatePayment example_env (\<lambda>_. ''digest'') (\<lambda>L. L) 3 example_request ''k-2023-05'' example_ledger = (Recorded p 0 False, L')
    \<and> CreatePayment example_env (\<lambda>_. ''digest'') (\<lambda>L. L) 3 example_request ''k-2023-05'' L' = (Recorded p 0 True, L')"
proof -
  have "protectPaymentChangesTx example_ledger [] [utc_midnight 19420] = None"
    by (simp add: protectPaymentChangesTx_def guarded_years_def example_defs example_years2)
  moreover define fp where "fp = paymentFingerprint (\<lambda>_. ''digest'') 3 example_request (utc_midnight 19420)"
  ultimately obtain L' where "create_payment_tx example_env 3 example_request (utc_midnight 19420) (Some (''k-2023-05'', fp))
      example_ledger
      = Inr ((new_payment example_env 3 example_request (utc_midnight 19420) (Some (''k-2023-05'', fp)) \<lparr>pm_ID := 2\<rparr>, 0, False, []), L')"
    by (simp add: create_payment_tx_def idempotentPayment_def example_request_def settlePaymentTx_def key_taken_def
        insert_payment_def new_payment_def example_amount example_defs)
  moreover have "idempotentPayment example_ledger (pe_user example_env) ''k-2023-05'' fp = Inr None"
    by (simp add: idempotentPayment_def example_defs)
  ultimately have "CreatePayment example_env (\<lambda>_. ''digest'') (\<lambda>L. L) 3 example_request ''k-2023-05'' example_ledger
      = (Recorded (new_payment example_env 3 example_request (utc_midnight 19420) (Some (''k-2023-05'', fp)) \<lparr>pm_ID := 2\<rparr>) 0 False, L')"
    using example_key by (simp add: CreatePayment_def example_valid fp_def [symmetric])
  then show ?thesis using replay_books_once [where mid = "\<lambda>L. L", OF _ _ _ example_valid] example_sound(1) by blast
qed

end
