(* ===== verification/Payment_Relations.thy ===== *)
theory Payment_Relations
  imports Payment_Steps
begin

text \<open>
  Facts that hold between the ledger before and after a transaction. The locale \<open>tracked\<close> names what
  such a relation has to respect: single claims, inserted and reversed payments, paid flags. It
  then holds for whole transactions. \<open>may L pid\<close> says which payments the relation lets change and
  \<open>fit t\<close> on which days a payment may be booked; both are what the guard of closed years grants.
\<close>

locale tracked =
  fixes rel :: "ledger \<Rightarrow> ledger \<Rightarrow> bool" and may :: "ledger \<Rightarrow> int \<Rightarrow> bool"
    and fit :: "time \<Rightarrow> bool" and ctx :: "ledger \<Rightarrow> bool"
  assumes rel_refl: "rel L L"
    and rel_trans: "rel L M \<Longrightarrow> rel M N \<Longrightarrow> rel L N"
    and may_kept: "rel L M \<Longrightarrow> may M = may L"
    and ctx_kept: "rel L M \<Longrightarrow> ctx L \<Longrightarrow> ctx M"
    and rel_charge: "rel L (set_charge_paid b P L)"
    and rel_vehicles: "rel L (L\<lparr>lg_vehicles := vs\<rparr>)"
    and rel_claim: "claim_position pid k r amt t L = Inr (b, L') \<Longrightarrow> may L pid \<Longrightarrow> rel L L'"
    and rel_insert: "insert_payment p L = Inr L' \<Longrightarrow> fit (pm_PaidOn p) \<Longrightarrow> rel L L'"
    and insert_fresh: "sound_ledger L \<Longrightarrow> insert_payment p L = Inr L' \<Longrightarrow> fit (pm_PaidOn p) \<Longrightarrow> may L' (lg_next L)"
    and rel_reverse: "may L pid \<Longrightarrow> rel L (reverseTogglePaymentTx pid L)"
    and guard_day: "protectPaymentChangesTx L ids dates = None \<Longrightarrow> ctx L \<Longrightarrow> t \<in> set dates \<Longrightarrow> fit t"
    and guard_id: "protectPaymentChangesTx L ids dates = None \<Longrightarrow> ctx L \<Longrightarrow> pid \<in> set ids \<Longrightarrow> may L pid"
    and fit_day: "fit (businessDay t) = fit t"
begin

lemma fold_rel:
  assumes "\<And>x M. x \<in> set xs \<Longrightarrow> rel L M \<Longrightarrow> rel M (f x M)" shows "rel L (fold f xs L)"
proof -
  have "rel L M \<Longrightarrow> (\<And>x M. x \<in> set xs \<Longrightarrow> rel L M \<Longrightarrow> rel M (f x M)) \<Longrightarrow> rel L (fold f xs M)" for M
  proof (induction xs arbitrary: M)
    case (Cons x xs)
    have "rel L (f x M)" using Cons.prems by (intro rel_trans [of L M "f x M"]) simp_all
    then have "rel L (fold f xs (f x M))" using Cons.prems by (intro Cons.IH) simp_all
    then show ?case by simp
  qed simp
  then show ?thesis using assms rel_refl by simp
qed

lemma toggle_open_rel:
  assumes "toggle_open L kind ref = Inr L'" "ctx L"
  shows "rel L L'"
proof -
  let ?ids = "toggle_payments L kind ref"
  obtain M where M: "M = L \<or> (\<exists>P. M = set_charge_paid False P L)" and L': "L' = fold reverseTogglePaymentTx ?ids M"
    and g: "protectPaymentChangesTx L ?ids [] = None"
    using assms(1) by (auto simp: toggle_open_def Let_def split: option.splits if_splits)
  have lM: "rel L M" using M rel_refl rel_charge by auto
  have "rel M (fold reverseTogglePaymentTx ?ids M)"
  proof (rule fold_rel)
    fix pid N assume "pid \<in> set ?ids" and N: "rel M N"
    then have "may N pid" using guard_id [OF g assms(2)] may_kept [OF N] may_kept [OF lM] by simp
    then show "rel N (reverseTogglePaymentTx pid N)" by (rule rel_reverse)
  qed
  with lM show ?thesis unfolding L' by (rule rel_trans)
qed

lemma claim_bound_rel:
  assumes "claim_bound env pid bs L = Inr L'" "may L pid" shows "rel L L'"
  using assms
proof (induction env pid bs L rule: claim_bound.induct)
  case (2 env pid b bs L)
  then obtain M where c: "claim_position pid ''charge'' (bc_id b) (pe_numeric env (bc_total b)) (pe_now env) L = Inr (True, M)"
    and r: "claim_bound env pid bs (set_charge_paid True (\<lambda>c. ch_ID c = bc_id b) M) = Inr L'"
    by (auto split: sum.splits bool.splits)
  have l: "rel L (set_charge_paid True (\<lambda>c. ch_ID c = bc_id b) M)"
    by (rule rel_trans [OF rel_claim [OF c "2.prems"(2)] rel_charge])
  have "rel (set_charge_paid True (\<lambda>c. ch_ID c = bc_id b) M) L'"
    using "2.IH" [OF c refl refl r] "2.prems"(2) may_kept [OF l] by simp
  with l show ?case by (rule rel_trans)
qed (simp add: rel_refl)

lemma today_fit: "protectCurrentReceiptTx env L kind period = None \<Longrightarrow> ctx L \<Longrightarrow> fit (pe_today env)"
  using guard_day [of L "[]" _ "pe_today env"] by (simp add: protectCurrentReceiptTx_def Let_def)

lemma toggle_paid_rel:
  assumes "toggle_paid env L kind ref person amt bound = Inr L'" "sound_ledger L" "ctx L"
  shows "rel L L'"
proof (cases "L' = L")
  case False
  then obtain p M N where g: "protectCurrentReceiptTx env L [] [] = None"
    and i: "insert_payment p L = Inr M" "pm_PaidOn p = pe_today env"
    and c: "claim_position (lg_next L) kind ref (pe_numeric env amt) (pe_now env) M = Inr (True, N)"
    and r: "claim_bound env (lg_next L) (filter (\<lambda>b. \<not> claimed L ''charge'' (bc_id b)) bound) N = Inr L'"
    using assms(1) unfolding toggle_paid_def Let_def
    by (auto split: if_splits option.splits sum.splits bool.splits)
  have y: "fit (pm_PaidOn p)" using today_fit [OF g assms(3)] i(2) by simp
  have fresh: "may M (lg_next L)" by (rule insert_fresh [OF assms(2) i(1) y])
  have MN: "rel M N" by (rule rel_claim [OF c fresh])
  then have "rel N L'" using claim_bound_rel [OF r] fresh may_kept by simp
  then show ?thesis using rel_insert [OF i(1) y] MN rel_trans by blast
qed (simp add: rel_refl)

lemma vehicle_switch_rel:
  assumes "mark_paid_tx env vid person paid L = Inr L'" "sound_ledger L" "ctx L"
  shows "rel L L'"
proof -
  have set_rel: "rel K (set_vehicle_paid vid b through K)" for b through K
    unfolding set_vehicle_paid_def by (rule rel_vehicles)
  obtain v where v: "find (\<lambda>v. vh_ID v = vid) (lg_vehicles L) = Some v"
    using assms(1) by (auto simp: mark_paid_tx_def split: option.splits)
  show ?thesis
  proof (cases "paid \<and> \<not> vh_Paid v")
    case True
    then obtain amt bound L1 where "toggle_paid env L ''vehicle'' vid person amt bound = Inr L1"
      and "L' = set_vehicle_paid vid True (Some (paid_through_day env L1 vid)) L1"
      using assms(1) v by (auto simp: mark_paid_tx_def syncTogglePaymentTx_def split: if_splits sum.splits prod.splits)
    then show ?thesis using toggle_paid_rel assms(2,3) set_rel rel_trans by blast
  next
    case False
    let ?L = "set_vehicle_paid vid paid (if paid then vh_PaidThrough v else None) L"
    from False assms(1) v have "L' = ?L \<or> toggle_open ?L ''vehicle'' vid = Inr L'"
      by (auto simp: mark_paid_tx_def syncTogglePaymentTx_def Let_def split: if_splits)
    then show ?thesis using toggle_open_rel ctx_kept [OF set_rel assms(3)] set_rel rel_trans by blast
  qed
qed

lemma charge_switch_rel:
  assumes "set_charge_paid_tx env cid person paid L = Inr L'" "sound_ledger L" "ctx L"
  shows "rel L L'"
proof -
  obtain c where c: "find (\<lambda>c. ch_ID c = cid) (lg_charges L) = Some c"
    using assms(1) by (auto simp: set_charge_paid_tx_def split: option.splits)
  let ?P = "\<lambda>x. ch_ID x = cid \<and> ch_VehicleID x = None"
  show ?thesis
  proof (cases "paid \<and> \<not> ch_Paid c")
    case True
    then obtain amt bound L1 where "toggle_paid env L ''charge'' cid person amt bound = Inr L1"
      and "L' = set_charge_paid True ?P L1"
      using assms(1) c by (auto simp: set_charge_paid_tx_def syncTogglePaymentTx_def split: if_splits sum.splits prod.splits)
    then show ?thesis using toggle_paid_rel assms(2,3) rel_charge rel_trans by blast
  next
    case False
    let ?L = "set_charge_paid paid ?P L"
    from False assms(1) c have "L' = ?L \<or> toggle_open ?L ''charge'' cid = Inr L'"
      by (auto simp: set_charge_paid_tx_def syncTogglePaymentTx_def Let_def split: if_splits)
    then show ?thesis using toggle_open_rel ctx_kept [OF rel_charge assms(3)] rel_charge rel_trans by blast
  qed
qed

lemma settle_item_rel:
  assumes "settleItemTx env pid it L = Inr (ok, v, L')" "may L pid" shows "rel L L'"
proof -
  obtain M where "M = L \<or> (\<exists>b. claim_position pid (oi_Kind it) (oi_ID it) (pe_numeric env (oi_LineTotal it)) (pe_now env) L = Inr (b, M))"
    "L' = M \<or> (\<exists>vs. L' = M\<lparr>lg_vehicles := vs\<rparr>) \<or> (\<exists>b P. L' = set_charge_paid b P M)"
    using assms(1) by (auto simp: settleItemTx_def split: if_splits sum.splits bool.splits prod.splits)
  then have "rel L M" "rel M L'" using rel_refl rel_claim assms(2) rel_vehicles rel_charge by blast+
  then show ?thesis by (rule rel_trans)
qed

lemma settle_loop_rel:
  assumes "settle_loop env pid strict its r n vs L = Inr (m, vs', L')" "may L pid" shows "rel L L'"
  using assms
proof (induction env pid strict its r n vs L rule: settle_loop.induct)
  case (2 env pid strict it its r n vs L)
  show ?case
  proof (cases "f_add r (fl (5 / 1000)) < oi_LineTotal it")
    case True
    then show ?thesis using 2 rel_refl by (auto split: if_splits)
  next
    case False
    then obtain ok v L1 where s: "settleItemTx env pid it L = Inr (ok, v, L1)"
      using "2.prems" by (cases "settleItemTx env pid it L") auto
    have l: "rel L L1" by (rule settle_item_rel [OF s "2.prems"(2)])
    then have b: "may L1 pid" using "2.prems"(2) may_kept by simp
    have "rel L1 L'"
    proof (cases ok)
      case True
      with s have s: "settleItemTx env pid it L = Inr (True, v, L1)" by simp
      from "2.IH"(2) [OF False s refl refl refl _ b] "2.prems" False s show ?thesis by simp
    next
      case nok: False
      with s have s: "settleItemTx env pid it L = Inr (False, v, L1)" by simp
      from "2.IH"(3) [OF False s refl refl refl _ b] "2.prems" False s show ?thesis by simp
    qed
    with l show ?thesis by (rule rel_trans)
  qed
qed (simp add: rel_refl)

lemma record_rel:
  assumes "recordPeriodPaymentTx env L person kind ref period amount = Inr L'" "ctx L"
  shows "rel L L'"
proof (cases "L' = L")
  case False
  with assms(1) obtain p where p: "insert_payment p L = Inr L'" "pm_PaidOn p = pe_today env"
    "protectCurrentReceiptTx env L kind period = None"
    by (auto simp: recordPeriodPaymentTx_def Let_def split: if_splits option.splits)
  then show ?thesis using rel_insert [OF p(1)] today_fit [OF p(3) assms(2)] by simp
qed (simp add: rel_refl)

lemma create_rel:
  assumes "create_payment_tx env person req paidOn k L = Inr (res, L')" "sound_ledger L" "ctx L"
  shows "rel L L'"
proof (cases "L' = L")
  case False
  let ?items = "if pq_Allocate req \<or> pq_Allocations req \<noteq> [] then openOwedItemsFrom env L person else []"
  let ?p = "new_payment env person req paidOn k"
  from assms(1) False obtain L1 n vs where i: "insert_payment ?p L = Inr L1"
    and s: "settlePaymentTx env (lg_next L) req ?items L1 = Inr (n, vs, L')"
    and g: "protectPaymentChangesTx L [] [paidOn] = None"
    by (auto simp: create_payment_tx_def Let_def split: if_splits option.splits sum.splits)
  have y: "fit (pm_PaidOn ?p)" using guard_day [OF g assms(3), of paidOn] by (simp add: new_payment_def fit_day)
  have "rel L1 L'"
    using settle_loop_rel [OF s [unfolded settlePaymentTx_def Let_def] insert_fresh [OF assms(2) i y]] .
  with rel_insert [OF i y] show ?thesis by (rule rel_trans)
qed (simp add: rel_refl)

lemma credit_loop_rel:
  assumes "credit_loop env person its budget n vs L = Inr (m, L')" "ctx L"
  shows "rel L L'"
  using assms
proof (induction its arbitrary: budget n vs L)
  case (Cons it its)
  show ?case
  proof (cases "L' = L \<or> (\<exists>budget' n' vs'. credit_loop env person its budget' n' vs' L = Inr (m, L'))")
    case True
    then show ?thesis using Cons.IH Cons.prems(2) rel_refl by auto
  next
    case False
    with Cons.prems(1) obtain p :: pay_row and ok veh L1 where g: "protectPaymentChangesTx L [pm_ID p] [] = None"
      and s: "settleItemTx env (pm_ID p) it L = Inr (ok, veh, L1)"
      and r: "\<exists>budget' n' vs'. credit_loop env person its budget' n' vs' L1 = Inr (m, L')"
      by (auto split: if_splits option.splits sum.splits bool.splits prod.splits) blast+
    have l: "rel L L1" by (rule settle_item_rel [OF s]) (use guard_id [OF g Cons.prems(2)] in simp)
    then have "rel L1 L'" using r Cons.IH [of _ _ _ L1] ctx_kept [OF l Cons.prems(2)] by auto
    with l show ?thesis by (rule rel_trans)
  qed
qed (simp add: rel_refl)

lemma archive_rel: "rel L (autoArchiveIfClosed env vid L)" "rel L (archiveInvoiceSettledCollected env person L)"
  by (simp_all add: autoArchiveIfClosed_def archiveInvoiceSettledCollected_def archive_if_def rel_vehicles)

end

end
