(* ===== verification/Payment_Years.thy ===== *)
theory Payment_Years
  imports Payment_Properties Payment_Relations
begin

text \<open>
  A closed tax year: the payments booked in it and what they settle stay as they are, whichever
  transactions of the payment handlers run.
\<close>

subsection \<open>The book of a year\<close>

definition booked :: "int \<Rightarrow> ledger \<Rightarrow> int \<Rightarrow> bool" where
  "booked y L pid \<longleftrightarrow> (\<exists>p \<in> set (lg_payments L). pm_ID p = pid \<and> time_year (pm_PaidOn p) = y)"

definition book :: "int \<Rightarrow> ledger \<Rightarrow> pay_row list \<times> alloc_row list \<times> invpay_row list" where
  "book y L = (filter (\<lambda>p. time_year (pm_PaidOn p) = y) (lg_payments L),
     filter (\<lambda>a. booked y L (al_Payment a)) (lg_allocs L),
     filter (\<lambda>a. booked y L (ip_Payment a)) (lg_invpays L))"

lemma booked_alt: "booked y L pid \<longleftrightarrow> pid \<in> pm_ID ` set (filter (\<lambda>p. time_year (pm_PaidOn p) = y) (lg_payments L))"
  by (auto simp: booked_def)

text \<open>A step on the ledger that leaves the book of a closed year alone.\<close>

definition leaves :: "int \<Rightarrow> ledger \<Rightarrow> ledger \<Rightarrow> bool" where
  "leaves y L L' \<longleftrightarrow> book y L' = book y L \<and> booked y L' = booked y L \<and> lg_locked_years L' = lg_locked_years L"

lemma leaves_refl [simp]: "leaves y L L"
  by (simp add: leaves_def)

lemma leaves_trans: "leaves y L M \<Longrightarrow> leaves y M N \<Longrightarrow> leaves y L N"
  by (simp add: leaves_def)

lemma leaves_booked: "leaves y L M \<Longrightarrow> booked y M = booked y L"
  by (simp add: leaves_def)

lemma leaves_locked: "leaves y L M \<Longrightarrow> lg_locked_years M = lg_locked_years L"
  by (simp add: leaves_def)

lemma leaves_frame [simp]:
  "leaves y L (M\<lparr>lg_charges := cs\<rparr>) = leaves y L M" "leaves y L (M\<lparr>lg_vehicles := vs\<rparr>) = leaves y L M"
  "leaves y L (M\<lparr>lg_invoices := is\<rparr>) = leaves y L M" "leaves y L (M\<lparr>lg_bank := bs\<rparr>) = leaves y L M"
  "leaves y (L\<lparr>lg_charges := cs\<rparr>) M = leaves y L M" "leaves y (L\<lparr>lg_vehicles := vs\<rparr>) M = leaves y L M"
  by (simp_all add: leaves_def book_def booked_def fun_eq_iff)

lemma leaves_charge [simp]: "leaves y L (set_charge_paid b P M) = leaves y L M"
  "leaves y (set_charge_paid b P L) M = leaves y L M"
  by (simp_all add: set_charge_paid_def)

lemma leaves_vehicle [simp]: "leaves y L (set_vehicle_paid v b t M) = leaves y L M"
  "leaves y (set_vehicle_paid v b t L) M = leaves y L M"
  by (simp_all add: set_vehicle_paid_def)

subsection \<open>The year guard\<close>

lemma guard_None:
  assumes "protectPaymentChangesTx L ids dates = None" "y \<in> set (lg_locked_years L)"
  shows "t \<in> set dates \<Longrightarrow> time_year t \<noteq> y" "pid \<in> set ids \<Longrightarrow> \<not> booked y L pid"
proof -
  have none: "find (\<lambda>y. y \<in> set (lg_locked_years L)) (sort (remdups (guarded_years L ids dates))) = None"
    using assms(1) by (simp add: protectPaymentChangesTx_def split: option.splits)
  then have y: "y \<notin> set (guarded_years L ids dates)"
    using assms(2) by (auto simp: find_None_iff)
  show "t \<in> set dates \<Longrightarrow> time_year t \<noteq> y" using y by (auto simp: guarded_years_def)
  show "pid \<in> set ids \<Longrightarrow> \<not> booked y L pid"
    using y by (fastforce simp: guarded_years_def booked_def Let_def)
qed

subsection \<open>Steps that leave the book alone\<close>

lemma claim_leaves:
  assumes "claim_position pid k r amt t L = Inr (ok, L')" "\<not> booked y L pid"
  shows "leaves y L L'"
  using assms
  by (auto simp: claim_position_def leaves_def book_def booked_def split: if_splits)

lemma invpay_leaves:
  "\<not> booked y L (ip_Payment a) \<Longrightarrow> leaves y L (L\<lparr>lg_invpays := lg_invpays L @ [a]\<rparr>)"
  by (auto simp: leaves_def book_def booked_def)

lemma insert_leaves:
  assumes "insert_payment p L = Inr L'" "time_year (pm_PaidOn p) \<noteq> y"
  shows "leaves y L L'"
  using assms by (auto simp: insert_payment_def leaves_def book_def booked_def fun_eq_iff split: if_splits)

lemma insert_fresh:
  assumes "sound_ledger L" "insert_payment p L = Inr L'" "time_year (pm_PaidOn p) \<noteq> y"
  shows "\<not> booked y L' (lg_next L)"
  using soundD(10) [OF assms(1)] assms(2,3) by (fastforce simp: insert_payment_def booked_def split: if_splits)

lemma drop_leaves:
  assumes "\<not> booked y L pid" "ips = lg_invpays L \<or> ips = filter (\<lambda>a. ip_Payment a \<noteq> pid) (lg_invpays L)"
  shows "leaves y L (drop_payment pid P ips L)"
proof -
  let ?f = "\<lambda>p. if pm_ID p = pid \<and> P p then p\<lparr>pm_Reversed := True\<rparr> else p"
  have same: "filter (\<lambda>p. time_year (pm_PaidOn p) = y) (map ?f ps) = filter (\<lambda>p. time_year (pm_PaidOn p) = y) ps"
    if "\<forall>p \<in> set ps. pm_ID p = pid \<longrightarrow> time_year (pm_PaidOn p) \<noteq> y" for ps
    using that by (induction ps) auto
  have b: "booked y (drop_payment pid P ips L) = booked y L"
    using assms(1) same [of "lg_payments L"]
    by (simp add: booked_alt drop_payment_def fun_eq_iff) (auto simp: booked_def)
  have "filter (\<lambda>a. booked y L (al_Payment a)) (filter (\<lambda>a. al_Payment a \<noteq> pid) as)
      = filter (\<lambda>a. booked y L (al_Payment a)) as"
    "filter (\<lambda>a. booked y L (ip_Payment a)) (filter (\<lambda>a. ip_Payment a \<noteq> pid) is)
      = filter (\<lambda>a. booked y L (ip_Payment a)) is" for as "is"
    using assms(1) by (auto intro!: filter_cong)
  then show ?thesis
    using assms b same [of "lg_payments L"]
    by (auto simp: leaves_def book_def) (auto simp: drop_payment_def booked_def)
qed

lemma year_of_businessDay: "time_year (businessDay t) = time_year t"
  by (simp add: businessDay_def DayAfter_eq time_year_def time_date_def)

interpretation year: tracked "leaves y" "\<lambda>L pid. \<not> booked y L pid" "\<lambda>t. time_year t \<noteq> y" "\<lambda>L. y \<in> set (lg_locked_years L)" for y
proof
  fix L M N p pid k r amt t b ids dates P vs
  show "leaves y L L" "leaves y L (set_charge_paid b P L)" "leaves y L (L\<lparr>lg_vehicles := vs\<rparr>)" by simp_all
  show "leaves y L M \<Longrightarrow> leaves y M N \<Longrightarrow> leaves y L N" by (rule leaves_trans)
  show "leaves y L M \<Longrightarrow> (\<lambda>pid. \<not> booked y M pid) = (\<lambda>pid. \<not> booked y L pid)" by (simp add: leaves_booked)
  show "leaves y L M \<Longrightarrow> y \<in> set (lg_locked_years L) \<Longrightarrow> y \<in> set (lg_locked_years M)" by (simp add: leaves_locked)
  show "claim_position pid k r amt t L = Inr (b, M) \<Longrightarrow> \<not> booked y L pid \<Longrightarrow> leaves y L M" by (rule claim_leaves)
  show "insert_payment p L = Inr M \<Longrightarrow> time_year (pm_PaidOn p) \<noteq> y \<Longrightarrow> leaves y L M" by (rule insert_leaves)
  show "sound_ledger L \<Longrightarrow> insert_payment p L = Inr M \<Longrightarrow> time_year (pm_PaidOn p) \<noteq> y \<Longrightarrow> \<not> booked y M (lg_next L)"
    by (rule insert_fresh)
  show "\<not> booked y L pid \<Longrightarrow> leaves y L (reverseTogglePaymentTx pid L)" unfolding reverse_drop by (simp add: drop_leaves)
  show "protectPaymentChangesTx L ids dates = None \<Longrightarrow> y \<in> set (lg_locked_years L) \<Longrightarrow> t \<in> set dates \<Longrightarrow> time_year t \<noteq> y"
    by (rule guard_None(1))
  show "protectPaymentChangesTx L ids dates = None \<Longrightarrow> y \<in> set (lg_locked_years L) \<Longrightarrow> pid \<in> set ids \<Longrightarrow> \<not> booked y L pid"
    by (rule guard_None(2))
  show "(time_year (businessDay t) \<noteq> y) = (time_year t \<noteq> y)" by (simp add: year_of_businessDay)
qed

subsection \<open>The transactions\<close>

lemma delete_leaves:
  assumes "delete_payment_tx env pid L = Inr L'" "y \<in> set (lg_locked_years L)" shows "leaves y L L'"
proof -
  obtain refs ips ids where L': "L' = reopenPaymentBankTransactionsTx pid (reopenUncoveredVehiclesTx
      (businessDay (pe_now env)) ids (fold give_back ips (fold unstamp refs (release_payment pid L))))"
    and g: "protectPaymentChangesTx L [pid] [] = None"
    using assms(1) by (auto simp: delete_payment_tx_def Let_def split: option.splits if_splits)
  have "leaves y L (release_payment pid L)"
    unfolding release_drop by (rule drop_leaves) (use guard_None(2) [OF g assms(2)] in simp_all)
  moreover have "leaves y M (unstamp r M)" "leaves y M (give_back i M)" for r i M
    by (auto simp: unstamp_def give_back_def split: prod.splits)
  then have "leaves y M (fold unstamp refs M)" "leaves y M (fold give_back ips M)" for M
    by (blast intro: year.fold_rel)+
  ultimately show ?thesis
    unfolding L' reopenPaymentBankTransactionsTx_def reopenUncoveredVehiclesTx_def
    by (simp, meson leaves_trans)
qed

lemma invoice_credit_leaves:
  assumes "invoice_credit ivid pids due applied env L = Inr (x, L')" "y \<in> set (lg_locked_years L)"
  shows "leaves y L L'"
  using assms
proof (induction pids arbitrary: due applied L)
  case (Cons pid pids)
  show ?case
  proof (cases "L' = L \<or> invoice_credit ivid pids due applied env L = Inr (x, L')")
    case True
    then show ?thesis using Cons.IH Cons.prems(2) by auto
  next
    case False
    with Cons.prems(1) obtain c due' applied' where g: "protectPaymentChangesTx L [pid] [] = None"
      and r: "invoice_credit ivid pids due' applied' env (link_payment ivid pid c L) = Inr (x, L')"
      by (auto simp: Let_def split: if_splits option.splits)
    have l: "leaves y L (link_payment ivid pid c L)"
      unfolding link_payment_def
      using invpay_leaves [of y L "\<lparr>ip_Invoice = ivid, ip_Payment = pid, ip_Amount = c\<rparr>"]
        guard_None(2) [OF g Cons.prems(2)] by simp
    have "leaves y (link_payment ivid pid c L) L'"
      by (rule Cons.IH [OF r]) (use Cons.prems(2) in \<open>simp add: link_payment_def\<close>)
    with l show ?thesis by (rule leaves_trans)
  qed
qed simp

lemma invoices_credit_leaves:
  assumes "invoices_credit env pids is n L = Inr (m, L')" "y \<in> set (lg_locked_years L)" shows "leaves y L L'"
  using assms
proof (induction "is" arbitrary: n L)
  case (Cons i js)
  from Cons.prems(1) obtain a L1 n' where c: "invoice_credit (iv_ID i) pids (euros (iv_Total i - iv_Paid i)) 0 env L = Inr (a, L1)"
    and r: "invoices_credit env pids js n' L1 = Inr (m, L')" by (auto split: sum.splits)
  have l: "leaves y L L1" by (rule invoice_credit_leaves [OF c Cons.prems(2)])
  have "leaves y L1 L'" by (rule Cons.IH [OF r]) (use Cons.prems(2) leaves_locked [OF l] in simp)
  with l show ?case by (rule leaves_trans)
qed simp

lemma apply_credit_leaves:
  assumes "apply_credit_tx env person L = Inr (n, L')" "y \<in> set (lg_locked_years L)" shows "leaves y L L'"
proof -
  from assms(1) obtain b n1 L1 m where c: "credit_loop env person (openOwedItemsFrom env L person) b 0 [] L = Inr (n1, L1)"
    and a: "applyInvoiceCreditTx env person (creditPaymentIDsTx L person) L1 = Inr (m, L')"
    by (auto simp: apply_credit_tx_def Let_def split: sum.splits)
  have l: "leaves y L L1" by (rule year.credit_loop_rel [OF c assms(2)])
  moreover have "leaves y L1 L'"
    using a invoices_credit_leaves leaves_locked [OF l] assms(2)
    by (fastforce simp: applyInvoiceCreditTx_def split: if_splits)
  ultimately show ?thesis by (rule leaves_trans)
qed

lemma step_leaves:
  assumes "ledger_step L L'" "sound_ledger L" "y \<in> set (lg_locked_years L)" shows "leaves y L L'"
  using assms
proof (induction rule: ledger_step.induct)
  case period
  then show ?case using year.record_rel by blast
next
  case vehicle_switch
  then show ?case using year.vehicle_switch_rel by blast
next
  case charge_switch
  then show ?case using year.charge_switch_rel by blast
next
  case record_payment
  then show ?case using year.create_rel by blast
next
  case reverse_payment
  then show ?case using delete_leaves by blast
next
  case draw_down
  then show ?case using apply_credit_leaves by blast
qed (rule year.archive_rel)+

interpretation closed_year: kept ledger_step
  "\<lambda>L. (sound_ledger L \<and> autos_full L) \<and> leaves y L0 L \<and> y \<in> set (lg_locked_years L0)" for y L0
  by unfold_locales (metis step_keeps step_leaves leaves_trans leaves_locked)

text \<open>C29: once a tax year is closed, the payments booked in it, the positions they settle and the
  invoices they pay are the same after any sequence of transactions, and the year stays closed.\<close>

theorem closed_year_is_frozen:
  assumes "ledger_step\<^sup>*\<^sup>* L L'" "sound_ledger L" "autos_full L" "y \<in> set (lg_locked_years L)"
  shows "book y L' = book y L \<and> y \<in> set (lg_locked_years L')"
  using closed_year.run_keeps [OF assms(1), of y L] assms(2-4) by (simp add: leaves_def)

theorem closed_year_is_frozen_witness:
  "book 2022 example_reversed = book 2022 example_ledger \<and> 2022 \<in> set (lg_locked_years example_reversed)"
proof -
  have "ledger_step\<^sup>*\<^sup>* example_ledger example_reversed"
    by (intro r_into_rtranclp reverse_payment [OF example_delete])
  then show ?thesis by (rule closed_year_is_frozen [OF _ example_sound]) (simp add: example_defs)
qed

end
