(* ===== verification/Invoice_Model.thy ===== *)
theory Invoice_Model
  imports Payment_Flow
begin

text \<open>
  Invoices (\<^verbatim>\<open>internal/handlers/billing.go\<close>): the settings, the lines of what a person owes and no
  invoice has billed yet, issuing an invoice with the next number, cancelling it by a counter
  document, and payments on invoices. The row of an invoice that payments change
  (\<open>invoice_row\<close>) lies in the ledger; the immutable document is an \<open>invoice_doc\<close> with the same id.
\<close>

subsection \<open>Settings\<close>

record billing_settings =
  bs_SellerName :: string
  bs_SellerAddress :: string
  bs_SellerUID :: string
  bs_Kleinunternehmer :: bool
  bs_UStRate :: float64
  bs_InvoicePrefix :: string
  bs_NextInvoiceNo :: int
  bs_NumberPad :: int
  bs_IBAN :: string
  bs_BIC :: string
  bs_PaymentTermsDays :: int
  bs_FooterNote :: string

definition austrianRates :: "float64 \<Rightarrow> bool" where
  "austrianRates r \<longleftrightarrow> r \<in> {20, 13, 10}"

definition validAddressLength :: "string \<Rightarrow> bool" where "validAddressLength s \<longleftrightarrow> length s \<le> 500"
definition validNoteLength :: "string \<Rightarrow> bool" where "validNoteLength s \<longleftrightarrow> length s \<le> 2000"

definition trim_settings :: "billing_settings \<Rightarrow> billing_settings" where
  "trim_settings s =
     s\<lparr>bs_SellerName := trim_space (bs_SellerName s), bs_SellerAddress := trim_space (bs_SellerAddress s),
       bs_SellerUID := trim_space (bs_SellerUID s), bs_InvoicePrefix := trim_space (bs_InvoicePrefix s),
       bs_IBAN := trim_space (bs_IBAN s), bs_BIC := trim_space (bs_BIC s), bs_FooterNote := trim_space (bs_FooterNote s)\<rparr>"

definition check_settings :: "billing_settings \<Rightarrow> string option" where
  "check_settings s =
     (if \<not> validNameLength (bs_SellerName s) then Some ''seller_name is too long''
      else if \<not> validAddressLength (bs_SellerAddress s) then Some ''seller_address is too long''
      else if \<not> validNameLength (bs_SellerUID s) then Some ''seller_uid is too long''
      else if \<not> validNameLength (bs_InvoicePrefix s) then Some ''invoice_prefix is too long''
      else if \<not> validNameLength (bs_IBAN s) then Some ''iban is too long''
      else if \<not> validNameLength (bs_BIC s) then Some ''bic is too long''
      else if \<not> validNoteLength (bs_FooterNote s) then Some ''footer_note is too long''
      else if \<not> bs_Kleinunternehmer s \<and> \<not> austrianRates (bs_UStRate s) then Some ''USt-Satz muss 20, 13 oder 10 sein''
      else if \<not> bs_Kleinunternehmer s \<and> bs_SellerUID s = [] then Some ''bei USt-Ausweis ist die UID-Nummer Pflicht''
      else None)"

definition clamp_settings :: "billing_settings \<Rightarrow> billing_settings" where
  "clamp_settings s =
     s\<lparr>bs_NumberPad := (if bs_NumberPad s < 1 \<or> bs_NumberPad s > 10 then 4 else bs_NumberPad s),
       bs_NextInvoiceNo := max 1 (bs_NextInvoiceNo s), bs_PaymentTermsDays := max 0 (bs_PaymentTermsDays s)\<rparr>"

text \<open>The running number never goes back; an error leaves the settings as they were.\<close>

definition SaveBillingSettings :: "billing_settings \<Rightarrow> billing_settings \<Rightarrow> string option \<times> billing_settings" where
  "SaveBillingSettings req old =
     (let s = trim_settings req
      in case check_settings s of
           Some msg \<Rightarrow> (Some msg, old)
         | None \<Rightarrow>
             (let s = clamp_settings s
              in (None, s\<lparr>bs_NextInvoiceNo := max (bs_NextInvoiceNo old) (bs_NextInvoiceNo s)\<rparr>)))"

subsection \<open>Documents\<close>

record invoice_line = owed_item +
  il_End :: "time option"

record doc_item =
  di_Pos :: nat
  di_Description :: string
  di_Quantity :: int
  di_UnitAmount :: int
  di_LineTotal :: int

record invoice_doc =
  dc_ID :: int
  dc_Number :: string
  dc_PersonID :: int
  dc_IssuedOn :: time
  dc_DueOn :: "time option"
  dc_LeistungFrom :: "time option"
  dc_LeistungTo :: "time option"
  dc_Subtotal :: int
  dc_UStRate :: float64
  dc_TaxAmount :: int
  dc_Total :: int
  dc_Kleinunternehmer :: bool
  dc_Seller :: "string list"
  dc_Buyer :: "string list"
  dc_Note :: string
  dc_CreatedBy :: "int option"
  dc_CancelsID :: "int option"
  dc_Items :: "doc_item list"

record office =
  of_settings :: billing_settings
  of_docs :: "invoice_doc list"
  of_people :: "int \<Rightarrow> (string \<times> string \<times> string) option"
  of_ledger :: ledger
  of_next :: int

definition invoiceStatus :: "float64 \<Rightarrow> float64 \<Rightarrow> bool \<Rightarrow> int option \<Rightarrow> string" where
  "invoiceStatus amount paid canceled cancelsID =
     (if cancelsID \<noteq> None then ''storno''
      else if canceled then ''storniert''
      else if fl (5 / 1000) < amount \<and> amount \<le> f_add paid (fl (5 / 1000)) then ''bezahlt''
      else if fl (5 / 1000) < paid then ''teilbezahlt''
      else ''offen'')"

subsection \<open>Lines of periodic positions\<close>

definition periodKeyEnd :: "string \<Rightarrow> time" where
  "periodKeyEnd key =
     (case parse_month key of
        Some t \<Rightarrow> add_date t 0 1 0
      | None \<Rightarrow> (case parse_year key of Some t \<Rightarrow> add_date t 1 0 0 | None \<Rightarrow> zero_time))"

definition settledPortion :: "flat_rate_period \<Rightarrow> string \<Rightarrow> time \<Rightarrow> float64 \<Rightarrow> time option \<Rightarrow> float64" where
  "settledPortion p key start cost settledUntil =
     (case settledUntil of
        None \<Rightarrow> 0
      | Some u \<Rightarrow>
          if is_zero_time u \<or> \<not> after u start then 0
          else if \<not> before u (periodKeyEnd key) then cost
          else (let part = round2 (CostInRange p start u) in if part < cost then part else cost))"

definition period_line ::
  "flat_rate_period \<Rightarrow> string \<Rightarrow> int \<Rightarrow> string \<Rightarrow> string list \<Rightarrow> (string \<Rightarrow> time \<Rightarrow> float64 \<Rightarrow> float64)
     \<Rightarrow> open_period \<Rightarrow> invoice_line option" where
  "period_line p kind ref labelBase locked paidFor per =
     (let cost = round2 (op_Cost per);
          open_amount = round2 (f_sub cost (paidFor (op_Key per) (op_Start per) cost));
          e0 = periodKeyEnd (op_Key per);
          e = (case fp_EndDate p of None \<Rightarrow> e0 | Some d \<Rightarrow> if before (DayAfter d) e0 then DayAfter d else e0)
      in if \<not> op_Complete per \<or> cost \<le> fl (5 / 1000) \<or> open_amount \<le> fl (5 / 1000)
           \<or> lockKey kind ref (op_Key per) \<in> set locked then None
         else Some \<lparr>oi_Date = op_Start per, oi_Kind = kind, oi_ID = ref, oi_Period = op_Key per,
             oi_Label = labelBase @ '' '' @ utf8_text [194, 183] @ '' '' @ op_Key per, oi_Quantity = 1,
             oi_UnitAmount = open_amount, oi_LineTotal = open_amount, il_End = Some (add_date e 0 0 (- 1))\<rparr>)"

definition periodOwedLines ::
  "flat_rate_period \<Rightarrow> time \<Rightarrow> string \<Rightarrow> int \<Rightarrow> string \<Rightarrow> string list \<Rightarrow> (string \<Rightarrow> time \<Rightarrow> float64 \<Rightarrow> float64)
     \<Rightarrow> invoice_line list" where
  "periodOwedLines p now kind ref labelBase locked paidFor =
     List.map_filter (period_line p kind ref labelBase locked paidFor) (ElapsedPeriodsDetailed p now)"

subsection \<open>What a person owes and no invoice has billed\<close>

definition person_vehicles :: "ledger \<Rightarrow> int \<Rightarrow> vehicle list" where
  "person_vehicles L person =
     sort_key (\<lambda>v. t_inst (vh_StartDate v)) (filter (\<lambda>v. vh_PersonID v = person) (lg_vehicles L))"

definition person_agreements :: "ledger \<Rightarrow> int \<Rightarrow> flat_rate_period list" where
  "person_agreements L person =
     sort_key (\<lambda>a. (- t_inst (fp_StartDate a), - fp_ID a)) (filter (\<lambda>a. fp_PersonID a = person) (lg_agreements L))"

definition person_recurring :: "ledger \<Rightarrow> int \<Rightarrow> recurring_charge list" where
  "person_recurring L person =
     sort_key (\<lambda>r. (- t_inst (rg_StartDate r), - rg_ID r)) (filter (\<lambda>r. rg_PersonID r = person) (lg_recurring L))"

definition vehLabel :: "vehicle list \<Rightarrow> int \<Rightarrow> string" where
  "vehLabel vs vid =
     (case find (\<lambda>v. vh_ID v = vid) vs of None \<Rightarrow> ''Gef'' @ utf8_text [195, 164] @ ''hrt'' | Some v \<Rightarrow> vehicle_label v)"

definition with_end :: "owed_item \<Rightarrow> time option \<Rightarrow> invoice_line" where
  "with_end it e =
     \<lparr>oi_Date = oi_Date it, oi_Kind = oi_Kind it, oi_ID = oi_ID it, oi_Period = oi_Period it, oi_Label = oi_Label it,
      oi_Quantity = oi_Quantity it, oi_UnitAmount = oi_UnitAmount it, oi_LineTotal = oi_LineTotal it, il_End = e\<rparr>"

definition vehicle_lines :: "pay_env \<Rightarrow> ledger \<Rightarrow> int \<Rightarrow> string list \<Rightarrow> invoice_line list" where
  "vehicle_lines env L person locked =
     (let vs = person_vehicles L person; ags = person_agreements L person
      in concat (map (\<lambda>v.
           let vp = vehicle_AsPeriod v (lg_cats L (vh_CategoryID v));
               settledUntil = map_option (\<lambda>t. add_date t 0 0 1) (vh_PaidThrough v)
           in periodOwedLines vp (pe_now env) ''vehicle'' (vh_ID v) (''Einstellplatz: '' @ vehLabel vs (vh_ID v)) locked
                (\<lambda>key start cost. settledPortion vp key start cost settledUntil))
         (filter (\<lambda>v. \<not> vh_Archived v \<and> coveringAgreements ags (vh_ID v) (vh_StartDate v) = []) vs)))"

definition bound_lines :: "ledger \<Rightarrow> int \<Rightarrow> invoice_line list" where
  "bound_lines L person =
     List.map_filter (\<lambda>c. case ch_VehicleID c of
         None \<Rightarrow> None
       | Some vid \<Rightarrow>
           if ch_PersonID c \<noteq> person \<or> ch_Paid c \<or> claimed L ''charge'' (ch_ID c)
              \<or> line_total (ch_Amount c) (ch_Quantity c) \<le> fl (5 / 1000) then None
           else Some \<lparr>oi_Date = ch_ChargedOn c, oi_Kind = ''charge'', oi_ID = ch_ID c, oi_Period = [],
               oi_Label = vehLabel (person_vehicles L person) vid @ '': '' @ ch_Description c,
               oi_Quantity = (if ch_Quantity c \<le> 0 then 1 else ch_Quantity c), oi_UnitAmount = ch_Amount c,
               oi_LineTotal = line_total (ch_Amount c) (ch_Quantity c), il_End = None\<rparr>) (lg_charges L)"

definition agreement_lines :: "pay_env \<Rightarrow> ledger \<Rightarrow> int \<Rightarrow> string list \<Rightarrow> invoice_line list" where
  "agreement_lines env L person locked =
     concat (map (\<lambda>a.
         periodOwedLines a (pe_now env) ''agreement'' (fp_ID a)
           (if trim_space (fp_Note a) \<noteq> [] then ''Pauschale: '' @ trim_space (fp_Note a) else ''Pauschale'') locked
           (\<lambda>key start cost. if fp_Paid a \<or> periodKeySet (fp_PaidPeriods a) key then cost
              else case fp_PaidFixed a key of None \<Rightarrow> 0 | Some x \<Rightarrow> x))
       (person_agreements L person))"

definition recurring_lines :: "pay_env \<Rightarrow> ledger \<Rightarrow> int \<Rightarrow> string list \<Rightarrow> invoice_line list" where
  "recurring_lines env L person locked =
     concat (map (\<lambda>rc.
         let base = (if trim_space (rg_Description rc) \<noteq> [] then trim_space (rg_Description rc) else ''Nebenkosten'');
             label = (case rg_VehicleID rc of None \<Rightarrow> base | Some vid \<Rightarrow> vehLabel (person_vehicles L person) vid @ '': '' @ base)
         in periodOwedLines (recurring_AsPeriod rc) (pe_now env) ''recurring'' (rg_ID rc) label locked
              (\<lambda>key start cost. if periodKeySet (rg_PaidPeriods rc) key then cost
                 else case rg_PaidFixed rc key of None \<Rightarrow> 0 | Some x \<Rightarrow> x))
       (person_recurring L person))"

definition invoiceLinesFrom :: "pay_env \<Rightarrow> ledger \<Rightarrow> int \<Rightarrow> invoice_line list" where
  "invoiceLinesFrom env L person =
     (let locked = lockedPositionsFrom L person;
          standalone = map (\<lambda>it. with_end it None) (filter (\<lambda>it. oi_Kind it \<noteq> ''vehicle'') (openOwedItemsFrom env L person))
      in filter (\<lambda>it. \<not> (oi_Kind it = ''charge'' \<and> lockKey (oi_Kind it) (oi_ID it) [] \<in> set locked))
           (standalone @ vehicle_lines env L person locked @ bound_lines L person
            @ agreement_lines env L person locked @ recurring_lines env L person locked))"

subsection \<open>Issuing an invoice\<close>

datatype invoice_error =
    Person_Unknown
  | No_Open_Items
  | Not_Compliant string bool
  | Invoice_Not_Open
  | Already_Canceled
  | Ledger_Error pay_error

definition compliance_missing :: "billing_settings \<Rightarrow> string \<Rightarrow> string \<Rightarrow> float64 \<Rightarrow> (string \<times> bool) list" where
  "compliance_missing s buyerName buyerAddress grossTotal =
     (if trim_space (bs_SellerName s) = [] then [(''Name des Ausstellers'', True)] else [])
     @ (if trim_space (bs_SellerAddress s) = [] then [(''Anschrift des Ausstellers'', True)] else [])
     @ (if trim_space buyerName = [] then [(''Name des Leistungsempf'' @ utf8_text [195, 164] @ ''ngers'', False)] else [])
     @ (if 400 < grossTotal \<and> trim_space buyerAddress = []
        then [(''Anschrift des Leistungsempf'' @ utf8_text [195, 164] @ ''ngers (> 400 '' @ utf8_text [226, 130, 172] @ '' brutto)'', False)] else [])
     @ (if bs_Kleinunternehmer s then []
        else (if trim_space (bs_SellerUID s) = [] then [(''UID-Nummer (bei USt-Ausweis Pflicht)'', True)] else [])
          @ (if \<not> austrianRates (bs_UStRate s)
             then [(''g'' @ utf8_text [195, 188] @ ''ltiger USt-Satz (20/13/10)'', True)] else []))"

definition join_comma :: "string list \<Rightarrow> string" where
  "join_comma ss = concat (map (\<lambda>(i, s). if i = 0 then s else '', '' @ s) (enumerate 0 ss))"

definition invoiceComplianceDetail :: "billing_settings \<Rightarrow> string \<Rightarrow> string \<Rightarrow> float64 \<Rightarrow> (string \<times> bool) option" where
  "invoiceComplianceDetail s buyerName buyerAddress grossTotal =
     (let missing = compliance_missing s buyerName buyerAddress grossTotal
      in if missing = [] then None
         else Some (''Rechnung nicht ausstellbar '' @ utf8_text [226, 128, 147] @ '' Pflichtangaben fehlen ('' @ utf8_text [194, 167]
             @ '' 11 UStG): '' @ join_comma (map fst missing)
             @ ''. Bitte unter Rechnungen '' @ utf8_text [226, 134, 146] @ '' Einstellungen erg'' @ utf8_text [195, 164] @ ''nzen.'',
           list_ex snd missing))"

text \<open>A position is claimed for an invoice: the guard of charges, then the unique index.\<close>

definition claim_source :: "int \<Rightarrow> string \<Rightarrow> int \<Rightarrow> string \<Rightarrow> ledger \<Rightarrow> pay_error + ledger" where
  "claim_source inv_id kind ref period L =
     (if kind = ''charge'' \<and> period = [] \<and> claimed L ''charge'' ref then Inl Charge_Claimed
      else if \<exists>s \<in> set (lg_sources L). so_Kind s = kind \<and> so_Ref s = ref \<and> so_Period s = period then Inl Unique_Violation
      else Inr (L\<lparr>lg_sources := lg_sources L @ [\<lparr>so_Invoice = inv_id, so_Kind = kind, so_Ref = ref, so_Period = period\<rparr>]\<rparr>))"

fun claim_sources :: "int \<Rightarrow> invoice_line list \<Rightarrow> ledger \<Rightarrow> pay_error + ledger" where
  "claim_sources inv_id [] L = Inr L"
| "claim_sources inv_id (it # its) L =
     (if oi_Kind it \<in> {''vehicle'', ''charge'', ''agreement'', ''recurring''}
      then (case claim_source inv_id (oi_Kind it) (oi_ID it) (oi_Period it) L of
          Inl e \<Rightarrow> Inl e
        | Inr L \<Rightarrow> claim_sources inv_id its L)
      else claim_sources inv_id its L)"

definition invoice_number :: "billing_settings \<Rightarrow> string" where
  "invoice_number s = bs_InvoicePrefix s @ fmt_0d (nat (bs_NumberPad s)) (bs_NextInvoiceNo s)"

text \<open>The service period: from the earliest position, or today, to the last day billed.\<close>

definition line_last :: "invoice_line \<Rightarrow> time" where
  "line_last it = (case il_End it of None \<Rightarrow> oi_Date it | Some e \<Rightarrow> if is_zero_time e then oi_Date it else e)"

definition leistung_from :: "time \<Rightarrow> invoice_line list \<Rightarrow> time" where
  "leistung_from issued its =
     foldl (\<lambda>t it. if \<not> is_zero_time (oi_Date it) \<and> before (oi_Date it) t then oi_Date it else t) issued its"

definition leistung_to :: "time \<Rightarrow> invoice_line list \<Rightarrow> time" where
  "leistung_to issued its =
     (let t = foldl (\<lambda>t it. if after (line_last it) t then line_last it else t) zero_time its
      in if is_zero_time t then issued else t)"

definition doc_items :: "pay_env \<Rightarrow> invoice_line list \<Rightarrow> doc_item list" where
  "doc_items env its =
     map (\<lambda>(i, it). \<lparr>di_Pos = i + 1, di_Description = oi_Label it, di_Quantity = pe_numeric env (oi_Quantity it),
         di_UnitAmount = pe_numeric env (oi_UnitAmount it), di_LineTotal = pe_numeric env (oi_LineTotal it)\<rparr>)
       (enumerate 0 its)"

definition invoice_amounts :: "billing_settings \<Rightarrow> invoice_line list \<Rightarrow> float64 \<times> float64 \<times> float64 \<times> float64" where
  "invoice_amounts s its =
     (let subtotal = round2 (f_sum 0 (map oi_LineTotal its));
          rate = (if bs_Kleinunternehmer s then 0 else bs_UStRate s);
          tax = (if bs_Kleinunternehmer s then 0 else round2 (f_div (f_mul subtotal rate) 100))
      in (subtotal, rate, tax, round2 (f_add subtotal tax)))"

definition insert_doc :: "invoice_doc \<Rightarrow> int \<Rightarrow> office \<Rightarrow> invoice_error + office" where
  "insert_doc d paid Off =
     (if \<exists>e \<in> set (of_docs Off). dc_Number e = dc_Number d then Inl (Ledger_Error Unique_Violation)
      else Inr (Off\<lparr>of_docs := of_docs Off @ [d], of_next := of_next Off + 1,
        of_settings := (of_settings Off)\<lparr>bs_NextInvoiceNo := bs_NextInvoiceNo (of_settings Off) + 1\<rparr>,
        of_ledger := (of_ledger Off)\<lparr>lg_invoices := lg_invoices (of_ledger Off) @
          [\<lparr>iv_ID = dc_ID d, iv_PersonID = dc_PersonID d, iv_Canceled = False, iv_Cancels = dc_CancelsID d,
            iv_Total = dc_Total d, iv_Paid = paid\<rparr>]\<rparr>\<rparr>))"

definition new_invoice ::
  "pay_env \<Rightarrow> int \<Rightarrow> string \<Rightarrow> string \<times> string \<times> string \<Rightarrow> invoice_line list \<Rightarrow> office \<Rightarrow> invoice_doc" where
  "new_invoice env person note who its Off =
     (let s = of_settings Off; now = pe_now env
      in case invoice_amounts s its of (subtotal, rate, tax, amount) \<Rightarrow>
        \<lparr>dc_ID = of_next Off, dc_Number = invoice_number s, dc_PersonID = person, dc_IssuedOn = businessDay now,
         dc_DueOn = Some (businessDay (add_date now 0 0 (bs_PaymentTermsDays s))),
         dc_LeistungFrom = Some (businessDay (leistung_from now its)),
         dc_LeistungTo = Some (businessDay (leistung_to now its)),
         dc_Subtotal = pe_numeric env subtotal, dc_UStRate = rate, dc_TaxAmount = pe_numeric env tax,
         dc_Total = pe_numeric env amount, dc_Kleinunternehmer = bs_Kleinunternehmer s,
         dc_Seller = [bs_SellerName s, bs_SellerAddress s, bs_SellerUID s, bs_IBAN s, bs_BIC s, bs_FooterNote s],
         dc_Buyer = (case who of (first, lst, address) \<Rightarrow> [trim_space (first @ '' '' @ lst), address]),
         dc_Note = trim_space note, dc_CreatedBy = pe_user env, dc_CancelsID = None, dc_Items = doc_items env its\<rparr>)"

definition create_invoice_tx :: "pay_env \<Rightarrow> int \<Rightarrow> string \<Rightarrow> office \<Rightarrow> invoice_error + invoice_doc \<times> office" where
  "create_invoice_tx env person note Off =
     (case of_people Off person of
        None \<Rightarrow> Inl Person_Unknown
      | Some (first, lst, address) \<Rightarrow>
          (let its = invoiceLinesFrom env (of_ledger Off) person
           in if its = [] then Inl No_Open_Items
              else case invoice_amounts (of_settings Off) its of (subtotal, rate, tax, amount) \<Rightarrow>
                (case invoiceComplianceDetail (of_settings Off) (trim_space (first @ '' '' @ lst)) address amount of
                   Some (msg, sellerSide) \<Rightarrow> Inl (Not_Compliant msg sellerSide)
                 | None \<Rightarrow>
                     (let d = new_invoice env person note (first, lst, address) its Off
                      in case insert_doc d 0 Off of
                           Inl e \<Rightarrow> Inl e
                         | Inr Off \<Rightarrow>
                             (case claim_sources (dc_ID d) its (of_ledger Off) of
                                Inl e \<Rightarrow> Inl (Ledger_Error e)
                              | Inr L \<Rightarrow> Inr (d, Off\<lparr>of_ledger := L\<rparr>))))))"

datatype invoice_reply =
    Invoice_Bad_Request
  | Invoice_Not_Found
  | Invoice_Raced
  | Invoice_No_Items
  | Invoice_Noncompliant string bool
  | Invoice_Charge_Conflict
  | Invoice_Conflict
  | Invoice_Server_Error
  | Invoice_Issued invoice_doc
  | Invoice_Paid int int int int bool

definition max_payment :: "ledger \<Rightarrow> int \<Rightarrow> int" where
  "max_payment L person = foldl max 0 (map pm_ID (filter (\<lambda>p. pm_PersonID p = person) (lg_payments L)))"

text \<open>\<open>mid\<close> is what other requests change before the transaction, \<open>late\<close> what they change after a
  failure.\<close>

definition CreateInvoice ::
  "pay_env \<Rightarrow> (office \<Rightarrow> office) \<Rightarrow> (office \<Rightarrow> office) \<Rightarrow> int \<Rightarrow> string \<Rightarrow> office \<Rightarrow> invoice_reply \<times> office" where
  "CreateInvoice env mid late person note Off =
     (if \<not> validNoteLength note then (Invoice_Bad_Request, Off)
      else let watermark = max_payment (of_ledger Off) person; Off1 = mid Off
      in case create_invoice_tx env person note Off1 of
           Inr (d, Off2) \<Rightarrow> (Invoice_Issued d, Off2)
         | Inl e \<Rightarrow>
             (let Off3 = late Off1
              in (case e of
                    Person_Unknown \<Rightarrow> Invoice_Not_Found
                  | No_Open_Items \<Rightarrow>
                      if watermark < max_payment (of_ledger Off3) person then Invoice_Raced else Invoice_No_Items
                  | Not_Compliant msg seller \<Rightarrow> Invoice_Noncompliant msg seller
                  | Ledger_Error Charge_Claimed \<Rightarrow> Invoice_Charge_Conflict
                  | Ledger_Error Unique_Violation \<Rightarrow> Invoice_Raced
                  | Ledger_Error (Settlement_Conflict c) \<Rightarrow> Invoice_Conflict
                  | Ledger_Error Settlement_Race \<Rightarrow> Invoice_Conflict
                  | _ \<Rightarrow> Invoice_Server_Error, Off3)))"

subsection \<open>Cancelling an invoice\<close>

definition counter_item :: "doc_item \<Rightarrow> doc_item" where
  "counter_item it = it\<lparr>di_UnitAmount := - di_UnitAmount it, di_LineTotal := - di_LineTotal it\<rparr>"

definition counter_doc :: "pay_env \<Rightarrow> invoice_doc \<Rightarrow> office \<Rightarrow> invoice_doc" where
  "counter_doc env d Off =
     d\<lparr>dc_ID := of_next Off, dc_Number := invoice_number (of_settings Off), dc_IssuedOn := businessDay (pe_now env),
       dc_DueOn := None, dc_Subtotal := - dc_Subtotal d, dc_TaxAmount := - dc_TaxAmount d, dc_Total := - dc_Total d,
       dc_Note := ''Storno zu Rechnung '' @ dc_Number d, dc_CreatedBy := pe_user env, dc_CancelsID := Some (dc_ID d),
       dc_Items := map counter_item (dc_Items d)\<rparr>"

definition release_invoice :: "int \<Rightarrow> ledger \<Rightarrow> ledger" where
  "release_invoice iid L =
     L\<lparr>lg_invoices := map (\<lambda>i. if iv_ID i = iid \<and> \<not> iv_Canceled i then i\<lparr>iv_Canceled := True, iv_Paid := 0\<rparr> else i)
         (lg_invoices L),
       lg_sources := filter (\<lambda>s. so_Invoice s \<noteq> iid) (lg_sources L),
       lg_invpays := filter (\<lambda>p. ip_Invoice p \<noteq> iid) (lg_invpays L)\<rparr>"

definition cancel_invoice_tx :: "pay_env \<Rightarrow> invoice_doc \<Rightarrow> office \<Rightarrow> invoice_error + invoice_doc \<times> office" where
  "cancel_invoice_tx env d Off =
     (let L = of_ledger Off; iid = dc_ID d;
          paymentIDs = sort (map ip_Payment (filter (\<lambda>p. ip_Invoice p = iid) (lg_invpays L)))
      in case protectPaymentChangesTx L paymentIDs [] of
           Some e \<Rightarrow> Inl (Ledger_Error e)
         | None \<Rightarrow>
             (let vehicleIDs = invoiceVehicleIDsTx L [iid]; c = counter_doc env d Off
              in case insert_doc c 0 Off of
                   Inl e \<Rightarrow> Inl e
                 | Inr Off \<Rightarrow>
                     if \<not> (\<exists>i \<in> set (lg_invoices (of_ledger Off)). iv_ID i = iid \<and> \<not> iv_Canceled i) then Inl Already_Canceled
                     else Inr (c, Off\<lparr>of_ledger := reopenUncoveredVehiclesTx (businessDay (pe_now env)) vehicleIDs
                       (release_invoice iid (of_ledger Off))\<rparr>)))"

definition CancelInvoice :: "pay_env \<Rightarrow> (office \<Rightarrow> office) \<Rightarrow> int \<Rightarrow> office \<Rightarrow> invoice_reply \<times> office" where
  "CancelInvoice env mid iid Off =
     (case find (\<lambda>d. dc_ID d = iid) (of_docs Off) of
        None \<Rightarrow> (Invoice_Not_Found, Off)
      | Some d \<Rightarrow>
          if \<exists>i \<in> set (lg_invoices (of_ledger Off)). iv_ID i = iid \<and> iv_Canceled i then (Invoice_Conflict, Off)
          else if dc_CancelsID d \<noteq> None then (Invoice_Bad_Request, Off)
          else let Off = mid Off
          in case cancel_invoice_tx env d Off of
               Inr (c, Off') \<Rightarrow> (Invoice_Issued c, Off')
             | Inl e \<Rightarrow>
                 (case e of
                    Already_Canceled \<Rightarrow> Invoice_Conflict
                  | Ledger_Error (Settlement_Conflict c) \<Rightarrow> Invoice_Conflict
                  | _ \<Rightarrow> Invoice_Server_Error, Off))"

subsection \<open>Payments on invoices\<close>

record payInvoicesRequest =
  pi_Amount :: float64
  pi_PaidOn :: string
  pi_Method :: string
  pi_Note :: string
  pi_Auto :: bool
  pi_Allocations :: "(int \<times> float64) list"

definition as_payment :: "payInvoicesRequest \<Rightarrow> paymentRequest" where
  "as_payment req =
     \<lparr>pq_Amount = pi_Amount req, pq_PaidOn = pi_PaidOn req, pq_Method = pi_Method req, pq_Note = pi_Note req,
      pq_Allocate = False, pq_Allocations = []\<rparr>"

type_synonym invoice_payload = "string \<times> int \<times> float64 \<times> string \<times> string \<times> string \<times> bool \<times> (int \<times> float64) list"

definition payInvoicesFingerprint ::
  "(invoice_payload \<Rightarrow> string) \<Rightarrow> int \<Rightarrow> payInvoicesRequest \<Rightarrow> paymentRequest \<Rightarrow> time \<Rightarrow> string" where
  "payInvoicesFingerprint hash person req pr paidOn =
     hash (''pay-invoices'', person, pq_Amount pr, format_date paidOn, pq_Method pr, pq_Note pr, pi_Auto req,
       sort (pi_Allocations req))"

text \<open>What a booked payment answers: its id, the sum on invoices, the rest and the number of invoices.\<close>

definition idempotentInvoicePayment ::
  "ledger \<Rightarrow> int option \<Rightarrow> string \<Rightarrow> string \<Rightarrow> pay_error + (int \<times> int \<times> int \<times> int) option" where
  "idempotentInvoicePayment L actor key fingerprint =
     (case find (\<lambda>p. pm_CreatedBy p = actor \<and> map_option fst (pm_Key p) = Some key) (lg_payments L) of
        None \<Rightarrow> Inr None
      | Some p \<Rightarrow>
          if map_option snd (pm_Key p) \<noteq> Some fingerprint then Inl Idempotency_Conflict
          else let links = filter (\<lambda>a. ip_Payment a = pm_ID p) (lg_invpays L); allocated = (\<Sum>a \<leftarrow> links. ip_Amount a)
          in Inr (Some (pm_ID p, allocated, pm_Amount p - allocated, int (length links))))"

definition issued_on :: "office \<Rightarrow> invoice_row \<Rightarrow> int" where
  "issued_on Off i = (case find (\<lambda>d. dc_ID d = iv_ID i) (of_docs Off) of None \<Rightarrow> 0 | Some d \<Rightarrow> t_inst (dc_IssuedOn d))"

definition payable_invoices :: "office \<Rightarrow> int \<Rightarrow> invoice_row list" where
  "payable_invoices Off person =
     sort_key (\<lambda>i. (issued_on Off i, iv_ID i))
       (filter (\<lambda>i. iv_PersonID i = person \<and> \<not> iv_Canceled i \<and> iv_Cancels i = None \<and> 0 < iv_Total i - iv_Paid i)
         (lg_invoices (of_ledger Off)))"

definition explicit_amount :: "payInvoicesRequest \<Rightarrow> int \<Rightarrow> float64 option" where
  "explicit_amount req iid = map_of (rev (pi_Allocations req)) iid"

definition pay_on_invoice :: "payInvoicesRequest \<Rightarrow> invoice_row \<Rightarrow> float64 \<Rightarrow> float64" where
  "pay_on_invoice req i remaining =
     (let pay = round2 (f_sub (euros (iv_Total i)) (euros (iv_Paid i)));
          pay = (if remaining < pay then round2 remaining else pay)
      in case explicit_amount req (iv_ID i) of
           None \<Rightarrow> pay
         | Some amt \<Rightarrow> if amt < pay then round2 amt else pay)"

fun pay_loop ::
  "pay_env \<Rightarrow> payInvoicesRequest \<Rightarrow> int \<Rightarrow> invoice_row list \<Rightarrow> float64 \<Rightarrow> nat \<Rightarrow> ledger \<Rightarrow> pay_error + float64 \<times> nat \<times> ledger" where
  "pay_loop env req pid [] remaining n L = Inr (remaining, n, L)"
| "pay_loop env req pid (i # is) remaining n L =
     (if remaining < fl (5 / 1000) then Inr (remaining, n, L)
      else if pi_Allocations req \<noteq> [] \<and>
        (case explicit_amount req (iv_ID i) of None \<Rightarrow> True | Some amt \<Rightarrow> amt \<le> 0) then pay_loop env req pid is remaining n L
      else if pi_Allocations req = [] \<and> \<not> pi_Auto req then Inr (remaining, n, L)
      else let pay = pay_on_invoice req i remaining
      in if pay < fl (5 / 1000) then pay_loop env req pid is remaining n L
         else let c = pe_numeric env pay
         in if c \<le> 0 then Inl Check_Violation
            else pay_loop env req pid is (f_sub remaining pay) (n + 1) (link_payment (iv_ID i) pid c L))"

definition recordInvoicePaymentTx ::
  "pay_env \<Rightarrow> int \<Rightarrow> payInvoicesRequest \<Rightarrow> paymentRequest \<Rightarrow> time \<Rightarrow> (string \<times> string) option \<Rightarrow> office
     \<Rightarrow> invoice_error + (int \<times> int \<times> int \<times> int \<times> bool) \<times> office" where
  "recordInvoicePaymentTx env person req pr paidOn k Off =
     (let L = of_ledger Off
      in case protectPaymentChangesTx L [] [paidOn] of
           Some e \<Rightarrow> Inl (Ledger_Error e)
         | None \<Rightarrow>
             if key_taken L (pe_user env) k
             then (case k of
                 None \<Rightarrow> Inl (Ledger_Error Unique_Violation)
               | Some (key, fp) \<Rightarrow>
                   (case idempotentInvoicePayment L (pe_user env) key fp of
                      Inl e \<Rightarrow> Inl (Ledger_Error e)
                    | Inr None \<Rightarrow> Inl (Ledger_Error Unique_Violation)
                    | Inr (Some (pid, a, u, n)) \<Rightarrow> Inr ((pid, a, u, n, True), Off)))
             else (case insert_payment (new_payment env person pr paidOn k) L of
                 Inl e \<Rightarrow> Inl (Ledger_Error e)
               | Inr L' \<Rightarrow>
                   (let is = payable_invoices Off person
                    in if list_ex (\<lambda>(iid, _). iid \<notin> set (map iv_ID is)) (pi_Allocations req) then Inl Invoice_Not_Open
                       else case pay_loop env req (lg_next L) is (pq_Amount pr) 0 L' of
                           Inl e \<Rightarrow> Inl (Ledger_Error e)
                         | Inr (remaining, n, L'') \<Rightarrow>
                             Inr ((lg_next L, toCents (round2 (f_sub (pq_Amount pr) remaining)),
                               toCents (round2 remaining), int n, False), Off\<lparr>of_ledger := L''\<rparr>))))"

definition invoice_pay_reply :: "invoice_error \<Rightarrow> invoice_reply" where
  "invoice_pay_reply e =
     (case e of
        Ledger_Error (Settlement_Conflict c) \<Rightarrow> Invoice_Conflict
      | Ledger_Error Settlement_Race \<Rightarrow> Invoice_Conflict
      | Ledger_Error Charge_Claimed \<Rightarrow> Invoice_Conflict
      | Ledger_Error Idempotency_Conflict \<Rightarrow> Invoice_Conflict
      | Invoice_Not_Open \<Rightarrow> Invoice_Bad_Request
      | _ \<Rightarrow> Invoice_Server_Error)"

definition PayInvoices ::
  "pay_env \<Rightarrow> (invoice_payload \<Rightarrow> string) \<Rightarrow> (office \<Rightarrow> office) \<Rightarrow> int \<Rightarrow> payInvoicesRequest \<Rightarrow> string \<Rightarrow> office
     \<Rightarrow> invoice_reply \<times> office" where
  "PayInvoices env hash mid person req key Off =
     (case validatePayment (pe_now env) (as_payment req) of
        Inl _ \<Rightarrow> (Invoice_Bad_Request, Off)
      | Inr (pr, paidOn) \<Rightarrow>
          if key \<noteq> [] \<and> \<not> validIdempotencyKey key then (Invoice_Bad_Request, Off)
          else let k = (if key = [] then None else Some (key, payInvoicesFingerprint hash person req pr paidOn));
              prior = (case k of None \<Rightarrow> Inr None | Some (key, fp) \<Rightarrow> idempotentInvoicePayment (of_ledger Off) (pe_user env) key fp)
          in case prior of
               Inl e \<Rightarrow> (Invoice_Conflict, Off)
             | Inr (Some (pid, a, u, n)) \<Rightarrow> (Invoice_Paid pid a u n True, Off)
             | Inr None \<Rightarrow>
                 (let Off = mid Off
                  in case recordInvoicePaymentTx env person req pr paidOn k Off of
                       Inl e \<Rightarrow> (invoice_pay_reply e, Off)
                     | Inr ((pid, a, u, n, replayed), Off') \<Rightarrow>
                         (Invoice_Paid pid a u n replayed,
                          if replayed then Off'
                          else Off'\<lparr>of_ledger := archiveInvoiceSettledCollected env person (of_ledger Off')\<rparr>)))"

end
