(* ===== verification/Invoice_Books.thy ===== *)
theory Invoice_Books
  imports Invoice_Model Payment_Relations Payment_Properties
begin

text \<open>
  The books of the invoices: what an invoice shows as paid is the sum of the payments linked to it
  and never more than its total, links and claimed positions belong to invoices that are not
  cancelled, and a position is claimed by one invoice at most. The transactions on payments and
  those on invoices keep them.
\<close>

subsection \<open>The invariant\<close>

definition linked :: "ledger \<Rightarrow> int \<Rightarrow> int" where
  "linked L iid = (\<Sum>a \<leftarrow> filter (\<lambda>a. ip_Invoice a = iid) (lg_invpays L). ip_Amount a)"

definition issued :: "invoice_row list \<Rightarrow> int \<Rightarrow> bool" where
  "issued is iid \<longleftrightarrow> (\<exists>i \<in> set is. iv_ID i = iid \<and> \<not> iv_Canceled i \<and> iv_Cancels i = None)"

definition source_of :: "source_row \<Rightarrow> string \<times> int \<times> string" where
  "source_of s = (so_Kind s, so_Ref s, so_Period s)"

definition books_ok :: "ledger \<Rightarrow> bool" where
  "books_ok L \<longleftrightarrow>
     distinct (map iv_ID (lg_invoices L))
     \<and> (\<forall>a \<in> set (lg_invpays L). issued (lg_invoices L) (ip_Invoice a))
     \<and> (\<forall>i \<in> set (lg_invoices L). iv_Paid i = linked L (iv_ID i))
     \<and> (\<forall>i \<in> set (lg_invoices L). iv_Cancels i = None \<longrightarrow> iv_Paid i \<le> iv_Total i)
     \<and> distinct (map source_of (lg_sources L))
     \<and> (\<forall>s \<in> set (lg_sources L). issued (lg_invoices L) (so_Invoice s))"

lemma books_okD:
  assumes "books_ok L"
  shows "distinct (map iv_ID (lg_invoices L))"
    "\<And>a. a \<in> set (lg_invpays L) \<Longrightarrow> issued (lg_invoices L) (ip_Invoice a)"
    "\<And>i. i \<in> set (lg_invoices L) \<Longrightarrow> iv_Paid i = linked L (iv_ID i)"
    "\<And>i. i \<in> set (lg_invoices L) \<Longrightarrow> iv_Cancels i = None \<Longrightarrow> iv_Paid i \<le> iv_Total i"
    "distinct (map source_of (lg_sources L))"
    "\<And>s. s \<in> set (lg_sources L) \<Longrightarrow> issued (lg_invoices L) (so_Invoice s)"
  using assms unfolding books_ok_def by blast+

lemma unique_invoice: "books_ok L \<Longrightarrow> i \<in> set (lg_invoices L) \<Longrightarrow> j \<in> set (lg_invoices L) \<Longrightarrow> iv_ID i = iv_ID j \<Longrightarrow> i = j"
  using books_okD(1) by (metis distinct_map inj_onD)

subsection \<open>Transactions that do not touch invoices\<close>

definition quiet :: "ledger \<Rightarrow> ledger \<Rightarrow> bool" where
  "quiet L M \<longleftrightarrow> lg_invoices M = lg_invoices L \<and> lg_invpays M = lg_invpays L \<and> lg_sources M = lg_sources L"

lemma books_quiet: "quiet L M \<Longrightarrow> books_ok M = books_ok L"
  by (simp add: books_ok_def quiet_def linked_def)

interpretation quiet: tracked quiet "\<lambda>_ _. True" "\<lambda>_. True" "\<lambda>_. True"
proof
  fix L M N p pid k r amt t b P vs
  show "quiet L L" "quiet L (set_charge_paid b P L)" "quiet L (L\<lparr>lg_vehicles := vs\<rparr>)" "quiet L (reverseTogglePaymentTx pid L)"
    by (simp_all add: quiet_def set_charge_paid_def reverseTogglePaymentTx_def)
  show "quiet L M \<Longrightarrow> quiet M N \<Longrightarrow> quiet L N" by (simp add: quiet_def)
  show "claim_position pid k r amt t L = Inr (b, M) \<Longrightarrow> quiet L M"
    by (auto simp: claim_position_def quiet_def split: if_splits)
  show "insert_payment p L = Inr M \<Longrightarrow> quiet L M"
    by (auto simp: insert_payment_def quiet_def split: if_splits)
qed simp_all

subsection \<open>Reversing a payment\<close>

definition paid_back :: "(int \<times> int) list \<Rightarrow> invoice_row \<Rightarrow> int" where
  "paid_back ips i = foldl (\<lambda>p (iid, a). if iid = iv_ID i then max 0 (p - a) else p) (iv_Paid i) ips"

lemma give_back_rows: "lg_invoices (fold give_back ips L) = map (\<lambda>i. i\<lparr>iv_Paid := paid_back ips i\<rparr>) (lg_invoices L)"
proof (induction ips arbitrary: L)
  case (Cons ip ips)
  obtain iid a where ip: "ip = (iid, a)" by (cases ip)
  have "lg_invoices (give_back ip L) = map (\<lambda>i. if iv_ID i = iid then i\<lparr>iv_Paid := max 0 (iv_Paid i - a)\<rparr> else i) (lg_invoices L)"
    by (simp add: give_back_def ip)
  then show ?case by (auto simp: Cons ip paid_back_def)
qed (simp add: paid_back_def)

lemma paid_back_sum:
  assumes "\<forall>x \<in> set ips. 0 \<le> snd x" "(\<Sum>x \<leftarrow> filter (\<lambda>x. fst x = iv_ID i) ips. snd x) \<le> iv_Paid i"
  shows "paid_back ips i = iv_Paid i - (\<Sum>x \<leftarrow> filter (\<lambda>x. fst x = iv_ID i) ips. snd x)"
proof -
  have "foldl (\<lambda>p (iid, a). if iid = k then max 0 (p - a) else p) p0 ips = p0 - (\<Sum>x \<leftarrow> filter (\<lambda>x. fst x = k) ips. snd x)"
    if "\<forall>x \<in> set ips. 0 \<le> snd x" "(\<Sum>x \<leftarrow> filter (\<lambda>x. fst x = k) ips. snd x) \<le> p0" for k :: int and p0 and ips :: "(int \<times> int) list"
    using that
  proof (induction ips arbitrary: p0)
    case (Cons ip ips)
    obtain iid a where ip: "ip = (iid, a)" by (cases ip)
    have "0 \<le> (\<Sum>x \<leftarrow> filter (\<lambda>x. fst x = k) ips. snd x)"
      using Cons.prems(1) by (intro sum_list_int_nonneg) auto
    then show ?case using Cons ip by (auto simp: max_def)
  qed simp
  then show ?thesis using assms by (simp add: paid_back_def)
qed

lemma linked_split:
  "linked L iid = (\<Sum>x \<leftarrow> filter (\<lambda>x. fst x = iid) (map (\<lambda>a. (ip_Invoice a, ip_Amount a)) (filter (\<lambda>a. ip_Payment a = pid) (lg_invpays L))). snd x)
    + (\<Sum>a \<leftarrow> filter (\<lambda>a. ip_Invoice a = iid) (filter (\<lambda>a. ip_Payment a \<noteq> pid) (lg_invpays L)). ip_Amount a)"
proof -
  have "(\<Sum>a \<leftarrow> filter (\<lambda>a. ip_Invoice a = iid) xs. ip_Amount a)
    = (\<Sum>x \<leftarrow> filter (\<lambda>x. fst x = iid) (map (\<lambda>a. (ip_Invoice a, ip_Amount a)) (filter (\<lambda>a. ip_Payment a = pid) xs)). snd x)
    + (\<Sum>a \<leftarrow> filter (\<lambda>a. ip_Invoice a = iid) (filter (\<lambda>a. ip_Payment a \<noteq> pid) xs). ip_Amount a)" for xs
    by (induction xs) auto
  then show ?thesis by (simp add: linked_def)
qed

lemma delete_books:
  assumes "sound_ledger L" "books_ok L" "delete_payment_tx env pid L = Inr L'"
  shows "books_ok L'"
proof -
  define ips where "ips = map (\<lambda>a. (ip_Invoice a, ip_Amount a)) (filter (\<lambda>a. ip_Payment a = pid) (lg_invpays L))"
  obtain refs ids where "L' = reopenPaymentBankTransactionsTx pid (reopenUncoveredVehiclesTx
      (businessDay (pe_now env)) ids (fold give_back ips (fold unstamp refs (release_payment pid L))))"
    using assms(3) by (auto simp: delete_payment_tx_def ips_def Let_def split: option.splits if_splits)
  moreover have "lg_invoices (fold unstamp refs (release_payment pid L)) = lg_invoices L"
    by (subst fold_frame) (simp_all add: unstamp_def set_charge_paid_def release_payment_def split: prod.splits)
  ultimately have L': "lg_invoices L' = map (\<lambda>i. i\<lparr>iv_Paid := paid_back ips i\<rparr>) (lg_invoices L)"
    "lg_invpays L' = filter (\<lambda>a. ip_Payment a \<noteq> pid) (lg_invpays L)" "lg_sources L' = lg_sources L"
    by (simp_all add: reopenPaymentBankTransactionsTx_def reopenUncoveredVehiclesTx_def give_back_rows release_payment_def)
  have nonneg: "\<forall>x \<in> set ips. 0 \<le> snd x" using soundD(6) [OF assms(1)] by (fastforce simp: ips_def)
  have paid: "paid_back ips i = linked L' (iv_ID i) \<and> paid_back ips i \<le> iv_Paid i" if i: "i \<in> set (lg_invoices L)" for i
  proof -
    have s: "iv_Paid i = (\<Sum>x \<leftarrow> filter (\<lambda>x. fst x = iv_ID i) ips. snd x) + linked L' (iv_ID i)"
      using books_okD(3) [OF assms(2) i] linked_split [of L "iv_ID i" pid] by (simp add: ips_def linked_def L'(2))
    have "0 \<le> linked L' (iv_ID i)"
      unfolding linked_def L'(2) using soundD(6) [OF assms(1)] by (intro sum_list_int_nonneg) fastforce
    moreover have "0 \<le> (\<Sum>x \<leftarrow> filter (\<lambda>x. fst x = iv_ID i) ips. snd x)"
      using nonneg by (intro sum_list_int_nonneg) auto
    ultimately show ?thesis using paid_back_sum [OF nonneg, of i] s by simp
  qed
  have iss: "issued (map (\<lambda>i. i\<lparr>iv_Paid := paid_back ips i\<rparr>) is) k = issued is k" for "is" k
    by (auto simp: issued_def)
  show ?thesis
    using books_okD [OF assms(2)] paid
    by (fastforce simp: books_ok_def L' iss comp_def intro: order_trans)
qed

subsection \<open>Linking a payment to an invoice\<close>

definition row_due :: "ledger \<Rightarrow> int \<Rightarrow> int \<Rightarrow> bool" where
  "row_due L iid d \<longleftrightarrow> (\<exists>i \<in> set (lg_invoices L). iv_ID i = iid \<and> \<not> iv_Canceled i \<and> iv_Cancels i = None
     \<and> iv_Total i - iv_Paid i = d)"

lemma linked_link: "linked (link_payment iid pid c L) k = linked L k + (if k = iid then c else 0)"
  by (simp add: linked_def link_payment_def)

lemma row_due_link:
  shows "row_due L iid d \<Longrightarrow> row_due (link_payment iid pid c L) iid (d - c)"
    and "k \<noteq> iid \<Longrightarrow> row_due L k d \<Longrightarrow> row_due (link_payment iid pid c L) k d"
proof -
  let ?f = "\<lambda>i. if iv_ID i = iid then i\<lparr>iv_Paid := iv_Paid i + c\<rparr> else i"
  have rows: "lg_invoices (link_payment iid pid c L) = map ?f (lg_invoices L)" by (simp add: link_payment_def)
  have mem: "i \<in> set (lg_invoices L) \<Longrightarrow> ?f i \<in> set (lg_invoices (link_payment iid pid c L))" for i
    unfolding rows set_map by (rule imageI)
  {
    assume "row_due L iid d"
    then obtain i where "i \<in> set (lg_invoices L)" "iv_ID i = iid" "\<not> iv_Canceled i" "iv_Cancels i = None" "iv_Total i - iv_Paid i = d"
      by (auto simp: row_due_def)
    then show "row_due (link_payment iid pid c L) iid (d - c)"
      unfolding row_due_def using mem [of i] by (intro bexI [of _ "?f i"]) auto
  next
    assume "k \<noteq> iid" "row_due L k d"
    then obtain i where "i \<in> set (lg_invoices L)" "iv_ID i = k" "\<not> iv_Canceled i" "iv_Cancels i = None" "iv_Total i - iv_Paid i = d"
      by (auto simp: row_due_def)
    then show "row_due (link_payment iid pid c L) k d"
      unfolding row_due_def using mem [of i] \<open>k \<noteq> iid\<close> by (intro bexI [of _ "?f i"]) auto
  }
qed

text \<open>The documents stay as they are: everything of an invoice row but what is paid.\<close>

definition fixed_part :: "invoice_row \<Rightarrow> int \<times> int \<times> bool \<times> int option \<times> int" where
  "fixed_part i = (iv_ID i, iv_PersonID i, iv_Canceled i, iv_Cancels i, iv_Total i)"

definition same_rows :: "ledger \<Rightarrow> ledger \<Rightarrow> bool" where
  "same_rows L M \<longleftrightarrow> map fixed_part (lg_invoices M) = map fixed_part (lg_invoices L) \<and> lg_sources M = lg_sources L"

lemma same_rows_refl [simp]: "same_rows L L"
  by (simp add: same_rows_def)

lemma same_rows_trans: "same_rows L M \<Longrightarrow> same_rows M N \<Longrightarrow> same_rows L N"
  by (simp add: same_rows_def)

lemma same_rows_link: "same_rows L (link_payment iid pid c L)"
  by (simp add: same_rows_def link_payment_def fixed_part_def)

lemma quiet_same_rows: "quiet L M \<Longrightarrow> same_rows L M"
  by (simp add: quiet_def same_rows_def)

lemma issued_map: "(\<And>i. iv_ID (f i) = iv_ID i \<and> iv_Canceled (f i) = iv_Canceled i \<and> iv_Cancels (f i) = iv_Cancels i)
    \<Longrightarrow> issued (map f is) k = issued is k"
  by (simp add: issued_def)

lemma link_books:
  assumes "books_ok L" "row_due L iid d" "c \<le> d"
  shows "books_ok (link_payment iid pid c L)"
proof -
  let ?f = "\<lambda>i. if iv_ID i = iid then i\<lparr>iv_Paid := iv_Paid i + c\<rparr> else i"
  obtain i where i: "i \<in> set (lg_invoices L)" "iv_ID i = iid" "\<not> iv_Canceled i" "iv_Cancels i = None" "iv_Total i - iv_Paid i = d"
    using assms(2) by (auto simp: row_due_def)
  have only: "j = i" if "j \<in> set (lg_invoices L)" "iv_ID j = iid" for j
    using unique_invoice [OF assms(1) that(1) i(1)] that(2) i(2) by simp
  have rows: "lg_invoices (link_payment iid pid c L) = map ?f (lg_invoices L)"
    and links: "lg_invpays (link_payment iid pid c L) = lg_invpays L @ [\<lparr>ip_Invoice = iid, ip_Payment = pid, ip_Amount = c\<rparr>]"
    and sources: "lg_sources (link_payment iid pid c L) = lg_sources L"
    by (simp_all add: link_payment_def)
  have iss: "issued (map ?f is) k = issued is k" for "is" k by (rule issued_map) simp
  have ids: "map iv_ID (map ?f is) = map iv_ID is" for "is" by simp
  have "issued (lg_invoices L) iid" using i by (auto simp: issued_def)
  moreover have "iv_Paid (?f j) = linked (link_payment iid pid c L) (iv_ID (?f j))" if "j \<in> set (lg_invoices L)" for j
    using books_okD(3) [OF assms(1) that] by (auto simp: linked_link)
  moreover have "iv_Cancels (?f j) = None \<longrightarrow> iv_Paid (?f j) \<le> iv_Total (?f j)" if "j \<in> set (lg_invoices L)" for j
    using books_okD(4) [OF assms(1) that] only [OF that] i(5) assms(3) by auto
  ultimately have new: "issued (lg_invoices L) iid"
    "\<forall>j \<in> set (map ?f (lg_invoices L)). iv_Paid j = linked (link_payment iid pid c L) (iv_ID j)"
    "\<forall>j \<in> set (map ?f (lg_invoices L)). iv_Cancels j = None \<longrightarrow> iv_Paid j \<le> iv_Total j"
    unfolding set_map by blast+
  have links_ok: "\<forall>a \<in> set (lg_invpays L @ [\<lparr>ip_Invoice = iid, ip_Payment = pid, ip_Amount = c\<rparr>]).
      issued (lg_invoices L) (ip_Invoice a)"
    using books_okD(2) [OF assms(1)] new(1) by simp
  show ?thesis
    unfolding books_ok_def rows links sources iss ids
    using books_okD(1,5,6) [OF assms(1)] new(2,3) links_ok by blast
qed

lemma invoice_credit_books:
  assumes "invoice_credit i pids (euros due) applied env L = Inr (x, L')" "sound_ledger L" "books_ok L" "row_due L i due"
    "numeric_ok (pe_numeric env)" "\<bar>due\<bar> \<le> 10 ^ 11" "\<forall>p \<in> set (lg_payments L). pm_Amount p \<le> 10 ^ 11"
    "\<forall>pid \<in> set pids. \<forall>p \<in> set (lg_payments L). pm_ID p = pid \<longrightarrow> pm_Settles p = None"
  shows "books_ok L' \<and> same_rows L L' \<and> (\<forall>k d. k \<noteq> i \<longrightarrow> row_due L k d \<longrightarrow> row_due L' k d)"
  using assms
proof (induction pids arbitrary: due applied L)
  case (Cons pid pids)
  have settles: "\<forall>p \<in> set (lg_payments L). pm_ID p = pid \<longrightarrow> pm_Settles p = None" using Cons.prems(8) by simp
  from invoice_credit_step [OF Cons.prems(1,2,5,6,7) settles]
  consider "L' = L" | "invoice_credit i pids (euros due) applied env L = Inr (x, L')"
    | c ap where "0 < c" "c \<le> due" "payable L pid c"
      "invoice_credit i pids (euros (due - c)) ap env (link_payment i pid c L) = Inr (x, L')"
    by blast
  then show ?case
  proof cases
    case 3
    have "books_ok L' \<and> same_rows (link_payment i pid c L) L' \<and> (\<forall>k d. k \<noteq> i \<longrightarrow> row_due (link_payment i pid c L) k d \<longrightarrow> row_due L' k d)"
      using Cons.prems(5-8) 3(1,2)
      by (intro Cons.IH [OF 3(4)] sound_link [OF Cons.prems(2) 3(3,1)] link_books [OF Cons.prems(3,4) 3(2)]
          row_due_link(1) [OF Cons.prems(4)]) auto
    then show ?thesis using row_due_link(2) same_rows_trans [OF same_rows_link] by blast
  qed (use Cons in simp_all)
qed simp

lemma invoices_credit_books:
  assumes "invoices_credit env pids is n L = Inr (m, L')" "sound_ledger L" "autos_full L" "books_ok L"
    "\<forall>i \<in> set is. row_due L (iv_ID i) (iv_Total i - iv_Paid i)" "distinct (map iv_ID is)"
    "numeric_ok (pe_numeric env)" "\<forall>i \<in> set is. \<bar>iv_Total i - iv_Paid i\<bar> \<le> 10 ^ 11"
    "\<forall>p \<in> set (lg_payments L). pm_Amount p \<le> 10 ^ 11"
    "\<forall>pid \<in> set pids. \<forall>p \<in> set (lg_payments L). pm_ID p = pid \<longrightarrow> pm_Settles p = None"
  shows "books_ok L' \<and> same_rows L L'"
  using assms
proof (induction "is" arbitrary: n L)
  case (Cons i js)
  from Cons.prems(1) obtain a L1 n' where c: "invoice_credit (iv_ID i) pids (euros (iv_Total i - iv_Paid i)) 0 env L = Inr (a, L1)"
    and r: "invoices_credit env pids js n' L1 = Inr (m, L')" by (auto split: sum.splits)
  have k: "sound_ledger L1 \<and> autos_full L1 \<and> lg_payments L1 = lg_payments L"
    using Cons.prems(8,9,10) by (intro invoice_credit_keeps [OF c Cons.prems(2,3,7)]) auto
  have b: "books_ok L1 \<and> same_rows L L1 \<and> (\<forall>k d. k \<noteq> iv_ID i \<longrightarrow> row_due L k d \<longrightarrow> row_due L1 k d)"
    using Cons.prems(5,8,9,10) by (intro invoice_credit_books [OF c Cons.prems(2,4)] Cons.prems(7)) auto
  have "\<forall>j \<in> set js. row_due L1 (iv_ID j) (iv_Total j - iv_Paid j)"
    using b Cons.prems(5,6) by (auto simp: image_iff)
  then have "books_ok L' \<and> same_rows L1 L'" using Cons.IH [OF r] k b Cons.prems(6-10) by simp
  then show ?case using b same_rows_trans by blast
qed simp

lemma credit_source_rest:
  assumes "sound_ledger L" "lg_payments M = lg_payments L"
  shows "\<forall>pid \<in> set (creditPaymentIDsTx L person). \<forall>p \<in> set (lg_payments M). pm_ID p = pid \<longrightarrow> pm_Settles p = None"
proof (intro ballI impI)
  fix pid p assume h: "pid \<in> set (creditPaymentIDsTx L person)" "p \<in> set (lg_payments M)" "pm_ID p = pid"
  then obtain q where q: "q \<in> set (lg_payments L)" "pm_ID q = pid" "pm_Settles q = None"
    by (auto simp: creditPaymentIDsTx_def)
  have "p = q" using unique_payment [OF soundD(9) [OF assms(1)] _ q(1)] h assms(2) q(2) by simp
  then show "pm_Settles p = None" using q(3) by simp
qed

lemma apply_credit_books:
  assumes "sound_ledger L" "autos_full L" "books_ok L" "moderate env L" "apply_credit_tx env person L = Inr (res, L')"
  shows "books_ok L' \<and> same_rows L L'"
proof -
  from assms(5) obtain b n1 L1 m where c: "credit_loop env person (openOwedItemsFrom env L person) b 0 [] L = Inr (n1, L1)"
    and a: "applyInvoiceCreditTx env person (creditPaymentIDsTx L person) L1 = Inr (m, L')"
    by (auto simp: apply_credit_tx_def Let_def split: sum.splits)
  have num: "numeric_ok (pe_numeric env)" using assms(4) by (simp add: moderate_def)
  have s: "sound_ledger L1 \<and> autos_full L1 \<and> lg_payments L1 = lg_payments L \<and> lg_invoices L1 = lg_invoices L"
    using open_item_cents [OF assms(4)] by (intro credit_loop_keeps [OF c assms(1,2) num]) blast
  have q: "quiet L L1" using quiet.credit_loop_rel [OF c] by simp
  have b: "books_ok L1" using books_quiet [OF q] assms(3) by simp
  show ?thesis
  proof (cases "creditPaymentIDsTx L person = []")
    case True
    then show ?thesis using a b quiet_same_rows [OF q] by (simp add: applyInvoiceCreditTx_def)
  next
    case False
    then have i: "invoices_credit env (creditPaymentIDsTx L person) (open_invoices L1 person) 0 L1 = Inr (m, L')"
      using a by (simp add: applyInvoiceCreditTx_def)
    have "\<forall>i \<in> set (open_invoices L1 person). row_due L1 (iv_ID i) (iv_Total i - iv_Paid i)"
      by (auto simp: open_invoices_def row_due_def)
    moreover have "distinct (map iv_ID (open_invoices L1 person))"
      using books_okD(1) [OF b] by (simp add: open_invoices_def distinct_map inj_on_def)
    moreover have "\<forall>i \<in> set (open_invoices L1 person). \<bar>iv_Total i - iv_Paid i\<bar> \<le> 10 ^ 11"
      using s assms(4) by (auto simp: open_invoices_def moderate_def)
    ultimately have "books_ok L' \<and> same_rows L1 L'"
      using s assms(4) b num credit_source_rest [OF assms(1), of L1]
      by (intro invoices_credit_books [OF i]) (auto simp: moderate_def)
    then show ?thesis using quiet_same_rows [OF q] same_rows_trans by blast
  qed
qed

lemma delete_rows: "delete_payment_tx env pid L = Inr L' \<Longrightarrow> same_rows L L'"
proof -
  assume d: "delete_payment_tx env pid L = Inr L'"
  define ips where "ips = map (\<lambda>a. (ip_Invoice a, ip_Amount a)) (filter (\<lambda>a. ip_Payment a = pid) (lg_invpays L))"
  obtain refs ids where "L' = reopenPaymentBankTransactionsTx pid (reopenUncoveredVehiclesTx
      (businessDay (pe_now env)) ids (fold give_back ips (fold unstamp refs (release_payment pid L))))"
    using d by (auto simp: delete_payment_tx_def ips_def Let_def split: option.splits if_splits)
  moreover have "lg_invoices (fold unstamp refs (release_payment pid L)) = lg_invoices L"
    by (subst fold_frame) (simp_all add: unstamp_def set_charge_paid_def release_payment_def split: prod.splits)
  ultimately show ?thesis
    by (simp add: same_rows_def reopenPaymentBankTransactionsTx_def reopenUncoveredVehiclesTx_def give_back_rows
        release_payment_def fixed_part_def)
qed

lemma step_books:
  assumes "ledger_step L L'" "sound_ledger L" "autos_full L" "books_ok L"
  shows "books_ok L' \<and> same_rows L L'"
proof -
  have q: "quiet K M \<Longrightarrow> books_ok K \<Longrightarrow> books_ok M \<and> same_rows K M" for K M
    using books_quiet quiet_same_rows by blast
  show ?thesis
    using assms
  proof (induction rule: ledger_step.induct)
    case period
    then show ?case using q quiet.record_rel by blast
  next
    case vehicle_switch
    then show ?case using q quiet.vehicle_switch_rel by blast
  next
    case charge_switch
    then show ?case using q quiet.charge_switch_rel by blast
  next
    case record_payment
    then show ?case using q quiet.create_rel by blast
  next
    case reverse_payment
    then show ?case using delete_books delete_rows by blast
  next
    case draw_down
    then show ?case using apply_credit_books by blast
  qed (rule q, rule quiet.archive_rel, assumption)+
qed

end
