(* ===== verification/Invoice_Steps.thy ===== *)
theory Invoice_Steps
  imports Invoice_Books
begin

text \<open>
  The transactions on invoices: paying, issuing, cancelling. Each keeps the invariants of the
  ledger and of the books.
\<close>

subsection \<open>Paying invoices\<close>

lemma near_less:
  assumes "near n x c" "n \<le> 9990" "\<bar>d\<bar> \<le> 10 ^ 11"
  shows "x < euros d \<Longrightarrow> c \<le> d" "\<not> x < euros d \<Longrightarrow> d \<le> c"
proof -
  define a b e where "a = (of_int c / 100 :: rat)" and "b = (of_int d / 100 :: rat)" and "e = (of_int n / 4000000 :: rat)"
  have x: "\<bar>x - a\<bar> \<le> e" using nearD(1) [OF assms(1)] by (simp only: a_def e_def)
  have e: "e \<le> 1 / 400" using assms(2) by (simp add: e_def)
  have d: "\<bar>euros d - b\<bar> \<le> 1 / 4000000" using nearD(1) [OF near_euros [OF assms(3)]] by (simp add: b_def)
  have gap: "of_int i / 100 + 1 / 100 \<le> (of_int j / 100 :: rat)" if "i < j" for i j :: int
  proof -
    have "(of_int (i + 1) :: rat) \<le> of_int j" using that by (simp only: of_int_le_iff)
    then show ?thesis by simp
  qed
  show "x < euros d \<Longrightarrow> c \<le> d" using gap [of d c] x e d unfolding a_def b_def by linarith
  show "\<not> x < euros d \<Longrightarrow> d \<le> c" using gap [of c d] x e d unfolding a_def b_def by linarith
qed

lemma toCents_below:
  assumes "0 < x" "x < euros m" "\<bar>m\<bar> \<le> 10 ^ 11" shows "0 \<le> toCents x \<and> toCents x \<le> m"
proof -
  define M where "M = (of_int m :: rat)"
  have mb: "M \<le> 10 ^ 11" using assms(3) by (simp add: M_def)
  have e: "\<bar>euros m - M / 100\<bar> \<le> 1 / 4000000" using nearD(1) [OF near_euros [OF assms(3)]] by (simp add: M_def)
  have x: "0 < x * 100" "x * 100 \<le> M + 1 / 40000" using assms(1,2) e by linarith+
  then have "\<bar>x * 100\<bar> / 2 ^ 53 \<le> 1 / 40000" using mb by simp
  then have f: "\<bar>fl (x * 100) - x * 100\<bar> \<le> 1 / 40000" using fl_error [of "x * 100"] by linarith
  have g: "\<bar>of_int (toCents x) - fl (x * 100)\<bar> \<le> 1 / 2"
    using go_round_error [of "fl (x * 100)"] by (simp add: toCents_def f_mul_def)
  have "(of_int (toCents x) :: rat) < M + 1" "(-1 :: rat) < of_int (toCents x)" using f g x by linarith+
  then have "(of_int (toCents x) :: rat) < of_int (m + 1)" "(of_int (- 1) :: rat) < of_int (toCents x)"
    by (simp_all add: M_def)
  then show ?thesis by (simp only: of_int_less_iff) simp
qed

lemma round2_is_cents: "round2 x = euros (toCents x)"
  by (simp add: round2_def toCents_def euros_def)

lemma pay_on_invoice_cents:
  assumes "near n remaining R" "n \<le> 9990" "\<bar>iv_Total i\<bar> \<le> 10 ^ 11" "\<bar>iv_Paid i\<bar> \<le> 10 ^ 11" "\<bar>iv_Total i - iv_Paid i\<bar> \<le> 10 ^ 11"
    "\<forall>amt. explicit_amount req (iv_ID i) = Some amt \<longrightarrow> 0 < amt"
  shows "\<exists>c. pay_on_invoice req i remaining = euros c \<and> c \<le> iv_Total i - iv_Paid i \<and> c \<le> R \<and> \<bar>c\<bar> \<le> 10 ^ 11"
proof -
  define D where "D = iv_Total i - iv_Paid i"
  have "near (1 + 1 + 1) (f_sub (euros (iv_Total i)) (euros (iv_Paid i))) D"
    unfolding D_def using assms(3-5) by (intro near_sub near_euros) auto
  then have due: "round2 (f_sub (euros (iv_Total i)) (euros (iv_Paid i))) = euros D" by (rule near_round2)
  have d: "\<bar>D\<bar> \<le> 10 ^ 11" using assms(5) by (simp add: D_def)
  define m where "m = min D R"
  have m: "(if remaining < euros D then round2 remaining else euros D) = euros m"
    using near_less [OF assms(1,2) d] near_round2 [OF assms(1)] by (auto simp: m_def min_def)
  have mb: "\<bar>m\<bar> \<le> 10 ^ 11" using d nearD(4) [OF assms(1)] by (auto simp: m_def)
  have "\<exists>c. pay_on_invoice req i remaining = euros c \<and> c \<le> m \<and> \<bar>c\<bar> \<le> 10 ^ 11"
  proof (cases "explicit_amount req (iv_ID i)")
    case None
    then show ?thesis using mb unfolding pay_on_invoice_def Let_def due m by auto
  next
    case (Some amt)
    then have pos: "0 < amt" using assms(6) by simp
    show ?thesis
    proof (cases "amt < euros m")
      case True
      have "0 \<le> toCents amt \<and> toCents amt \<le> m" by (rule toCents_below [OF pos True mb])
      then show ?thesis
        using Some True mb unfolding pay_on_invoice_def Let_def due m
        by (intro exI [of _ "toCents amt"]) (auto simp: round2_is_cents)
    next
      case False
      then show ?thesis using Some mb unfolding pay_on_invoice_def Let_def due m by (intro exI [of _ m]) auto
    qed
  qed
  then show ?thesis by (auto simp: m_def D_def)
qed

lemma spent_link: "spent (link_payment iid pid c L) k = spent L k + (if k = pid then c else 0)"
  by (simp add: spent_def link_payment_def)

lemma payable_link: "payable L pid R \<Longrightarrow> payable (link_payment iid pid c L) pid (R - c)"
  by (auto simp: payable_def spent_link)

lemma pay_loop_keeps:
  assumes "pay_loop env req pid is remaining n L = Inr (rest, m, L')" "sound_ledger L" "autos_full L" "books_ok L"
    "numeric_ok (pe_numeric env)" "near k remaining R" "k + 2 * int (length is) \<le> 9900" "payable L pid R"
    "\<forall>i \<in> set is. row_due L (iv_ID i) (iv_Total i - iv_Paid i) \<and> \<bar>iv_Total i\<bar> \<le> 10 ^ 11 \<and> \<bar>iv_Paid i\<bar> \<le> 10 ^ 11
       \<and> \<bar>iv_Total i - iv_Paid i\<bar> \<le> 10 ^ 11" "distinct (map iv_ID is)" "0 \<le> R"
  shows "sound_ledger L' \<and> autos_full L' \<and> books_ok L' \<and> same_rows L L' \<and> lg_payments L' = lg_payments L
    \<and> (\<exists>R' k'. near k' rest R' \<and> k' \<le> k + 2 * int (length is) \<and> 0 \<le> R' \<and> R' \<le> R \<and> spent L' pid = spent L pid + (R - R'))"
  using assms
proof (induction "is" arbitrary: remaining n k R L)
  case Nil
  then show ?case by auto
next
  case (Cons i js)
  have k: "k \<le> 9990" "k + 2 + 2 * int (length js) \<le> 9900" using Cons.prems(7) by simp_all
  have stop: ?case if "L' = L" "rest = remaining" using Cons.prems(2-4,6,11) that k by (intro conjI exI [of _ R] exI [of _ k]) auto
  have skip: ?case if "pay_loop env req pid js remaining n L = Inr (rest, m, L')"
  proof -
    have "sound_ledger L' \<and> autos_full L' \<and> books_ok L' \<and> same_rows L L' \<and> lg_payments L' = lg_payments L
      \<and> (\<exists>R' k'. near k' rest R' \<and> k' \<le> k + 2 * int (length js) \<and> 0 \<le> R' \<and> R' \<le> R \<and> spent L' pid = spent L pid + (R - R'))"
      using Cons.prems(9,10) k by (intro Cons.IH [OF that Cons.prems(2-6)] Cons.prems(8,11)) auto
    then show ?thesis by fastforce
  qed
  have Rb: "\<bar>R\<bar> \<le> 10 ^ 11" by (rule nearD(4) [OF Cons.prems(6)])
  show ?case
  proof (cases "(L' = L \<and> rest = remaining) \<or> pay_loop env req pid js remaining n L = Inr (rest, m, L')")
    case True
    then show ?thesis using stop skip by blast
  next
    case False
    have "\<forall>amt. explicit_amount req (iv_ID i) = Some amt \<longrightarrow> 0 < amt"
    proof (cases "pi_Allocations req = []")
      case True
      then show ?thesis by (simp add: explicit_amount_def)
    next
      case nempty: False
      then show ?thesis using Cons.prems(1) False by (auto split: if_splits)
    qed
    then obtain c where c: "pay_on_invoice req i remaining = euros c" "c \<le> iv_Total i - iv_Paid i" "c \<le> R" "\<bar>c\<bar> \<le> 10 ^ 11"
      using pay_on_invoice_cents [OF Cons.prems(6) k(1), of i req] Cons.prems(9) by auto
    have big: "\<not> euros c < fl (5 / 1000)"
      using Cons.prems(1) c(1) False by (auto simp: Let_def split: if_splits)
    have c0: "0 < c"
    proof (rule ccontr)
      assume "\<not> 0 < c"
      then have "euros c \<le> 0" using euros_less_iff [of 0 c] c(4) by simp
      then show False using big half_cent(1) by simp
    qed
    have cb: "\<bar>c\<bar> \<le> 10 ^ 11" using c0 c(3) Rb by simp
    then have num: "pe_numeric env (euros c) = c" using Cons.prems(5) unfolding numeric_ok_def by blast
    have r: "pay_loop env req pid js (f_sub remaining (euros c)) (n + 1) (link_payment (iv_ID i) pid c L) = Inr (rest, m, L')"
      using Cons.prems(1) False c(1) big num c0 by (auto simp: Let_def split: if_splits)
    have nr: "near (k + 1 + 1) (f_sub remaining (euros c)) (R - c)"
      using Cons.prems(6) cb Rb c(3) c0 k by (intro near_sub near_euros) auto
    have pay: "payable L pid c" by (rule payable_le [OF Cons.prems(8) c(3)])
    have due: "row_due L (iv_ID i) (iv_Total i - iv_Paid i)" using Cons.prems(9) by simp
    let ?L = "link_payment (iv_ID i) pid c L"
    have "sound_ledger L' \<and> autos_full L' \<and> books_ok L' \<and> same_rows ?L L' \<and> lg_payments L' = lg_payments ?L
      \<and> (\<exists>R' k'. near k' rest R' \<and> k' \<le> k + 1 + 1 + 2 * int (length js) \<and> 0 \<le> R' \<and> R' \<le> R - c \<and> spent L' pid = spent ?L pid + (R - c - R'))"
    proof (rule Cons.IH [OF r sound_link [OF Cons.prems(2) pay c0] _ link_books [OF Cons.prems(4) due c(2)] Cons.prems(5) nr])
      show "\<forall>i \<in> set js. row_due ?L (iv_ID i) (iv_Total i - iv_Paid i) \<and> \<bar>iv_Total i\<bar> \<le> 10 ^ 11 \<and> \<bar>iv_Paid i\<bar> \<le> 10 ^ 11
        \<and> \<bar>iv_Total i - iv_Paid i\<bar> \<le> 10 ^ 11"
        using Cons.prems(9,10) row_due_link(2) by (auto simp: image_iff)
    qed (use Cons.prems(3,8,10) k c(3) payable_link in auto)
    then obtain R' k' where ih: "sound_ledger L'" "autos_full L'" "books_ok L'" "same_rows ?L L'" "lg_payments L' = lg_payments L"
      "near k' rest R'" "k' \<le> k + 2 + 2 * int (length js)" "0 \<le> R'" "R' \<le> R - c" "spent L' pid = spent L pid + (R - R')"
      by (auto simp: spent_link)
    moreover have "same_rows L L'" by (rule same_rows_trans [OF same_rows_link ih(4)])
    moreover have "near k' rest R' \<and> k' \<le> k + 2 * int (length (i # js)) \<and> 0 \<le> R' \<and> R' \<le> R \<and> spent L' pid = spent L pid + (R - R')"
      using ih(6-10) c0 by simp
    ultimately show ?thesis by blast
  qed
qed

end
