(* ===== verification/Invoice_Amounts.thy ===== *)
theory Invoice_Amounts
  imports Invoice_Steps
begin

text \<open>
  The amounts of an invoice: every line is a whole number of cents, the subtotal is their sum, the
  tax is the nearest cent to the rate, and the total is subtotal plus tax.
\<close>

subsection \<open>Lines\<close>

definition cents_of :: "invoice_line \<Rightarrow> int" where
  "cents_of it = toCents (oi_LineTotal it)"

definition whole_line :: "invoice_line \<Rightarrow> bool" where
  "whole_line it \<longleftrightarrow> (\<exists>x. oi_LineTotal it = round2 x) \<and> fl (5 / 1000) < oi_LineTotal it
     \<and> oi_Kind it \<in> {''vehicle'', ''charge'', ''agreement'', ''recurring''}
     \<and> (oi_Kind it = ''charge'' \<longrightarrow> oi_Period it = [])"

lemma period_line_whole:
  assumes "it \<in> set (periodOwedLines p now kind ref label locked paidFor)" "kind \<in> {''vehicle'', ''agreement'', ''recurring''}"
  shows "whole_line it" "lockKey (oi_Kind it) (oi_ID it) (oi_Period it) \<notin> set locked" "oi_Kind it = kind"
  using assms
  by (auto simp: periodOwedLines_def List.map_filter_def period_line_def Let_def whole_line_def split: if_splits)

lemma in_map_filter: "y \<in> set (List.map_filter f xs) \<longleftrightarrow> (\<exists>x \<in> set xs. f x = Some y)"
  by (induction xs) (auto simp: List.map_filter_def split: option.splits)

lemma bound_line_whole: "it \<in> set (bound_lines L person) \<Longrightarrow> whole_line it \<and> oi_Kind it = ''charge''"
proof -
  assume "it \<in> set (bound_lines L person)"
  then obtain c :: charge_entry where "(case ch_VehicleID c of None \<Rightarrow> None | Some vid \<Rightarrow>
      if ch_PersonID c \<noteq> person \<or> ch_Paid c \<or> claimed L ''charge'' (ch_ID c)
        \<or> line_total (ch_Amount c) (ch_Quantity c) \<le> fl (5 / 1000) then None
      else Some \<lparr>oi_Date = ch_ChargedOn c, oi_Kind = ''charge'', oi_ID = ch_ID c, oi_Period = [],
        oi_Label = vehLabel (person_vehicles L person) vid @ '': '' @ ch_Description c,
        oi_Quantity = (if ch_Quantity c \<le> 0 then 1 else ch_Quantity c), oi_UnitAmount = ch_Amount c,
        oi_LineTotal = line_total (ch_Amount c) (ch_Quantity c), il_End = None\<rparr>) = Some it"
    unfolding bound_lines_def in_map_filter by (elim bexE)
  then have "fl (5 / 1000) < oi_LineTotal it \<and> oi_LineTotal it = line_total (ch_Amount c) (ch_Quantity c)
      \<and> oi_Kind it = ''charge'' \<and> oi_Period it = []"
    by (simp split: option.split_asm if_split_asm) (auto simp: not_le)
  then show ?thesis by (auto simp: whole_line_def line_total_def)
qed

lemma lines_whole:
  assumes "it \<in> set (invoiceLinesFrom env L person)"
  shows "whole_line it" "lockKey (oi_Kind it) (oi_ID it) (oi_Period it) \<notin> set (lockedPositionsFrom L person)"
proof -
  let ?locked = "lockedPositionsFrom L person"
  from assms have nl: "\<not> (oi_Kind it = ''charge'' \<and> lockKey (oi_Kind it) (oi_ID it) [] \<in> set ?locked)"
    and d: "it \<in> set (map (\<lambda>it. with_end it None) (filter (\<lambda>it. oi_Kind it \<noteq> ''vehicle'') (openOwedItemsFrom env L person)))
      \<or> it \<in> set (bound_lines L person) \<or> it \<in> set (vehicle_lines env L person ?locked)
      \<or> it \<in> set (agreement_lines env L person ?locked) \<or> it \<in> set (recurring_lines env L person ?locked)"
    by (auto simp: invoiceLinesFrom_def Let_def)
  from d consider (charge) "whole_line it \<and> oi_Kind it = ''charge''" | (periodic) "\<exists>p kind ref label paidFor.
      it \<in> set (periodOwedLines p (pe_now env) kind ref label ?locked paidFor) \<and> kind \<in> {''vehicle'', ''agreement'', ''recurring''}"
  proof (elim disjE)
    assume "it \<in> set (map (\<lambda>it. with_end it None) (filter (\<lambda>it. oi_Kind it \<noteq> ''vehicle'') (openOwedItemsFrom env L person)))"
    then obtain o1 where o1: "o1 \<in> set (openOwedItemsFrom env L person)" "oi_Kind o1 \<noteq> ''vehicle''" "it = with_end o1 None"
      by auto
    have "o1 \<notin> set (vehicle_items env L person)" using o1(2) by (auto simp: vehicle_items_def Let_def)
    then have "o1 \<in> set (charge_items L person)" using o1(1) by (auto simp: openOwedItemsFrom_def Let_def)
    then show thesis
      using o1(3) by (intro charge) (auto simp: charge_items_def whole_line_def with_end_def line_total_def)
  next
    assume "it \<in> set (bound_lines L person)"
    then show thesis using bound_line_whole by (intro charge)
  next
    assume "it \<in> set (vehicle_lines env L person ?locked)"
    then show thesis by (intro periodic) (fastforce simp: vehicle_lines_def Let_def)
  next
    assume "it \<in> set (agreement_lines env L person ?locked)"
    then show thesis by (intro periodic) (fastforce simp: agreement_lines_def Let_def)
  next
    assume "it \<in> set (recurring_lines env L person ?locked)"
    then show thesis by (intro periodic) (fastforce simp: recurring_lines_def Let_def)
  qed
  then have "whole_line it \<and> lockKey (oi_Kind it) (oi_ID it) (oi_Period it) \<notin> set ?locked"
  proof cases
    case charge
    then show ?thesis using nl by (auto simp: whole_line_def)
  next
    case periodic
    then show ?thesis using period_line_whole by blast
  qed
  then show "whole_line it" "lockKey (oi_Kind it) (oi_ID it) (oi_Period it) \<notin> set ?locked" by blast+
qed

lemma euros_bounded:
  assumes "0 < euros c" "euros c \<le> 10 ^ 8" shows "0 < c \<and> c \<le> 2 * 10 ^ 10"
proof -
  define x y where "x = (of_int c :: rat)" and "y = fl x"
  have f: "\<bar>y - x\<bar> \<le> \<bar>x\<bar> / 2 ^ 53" unfolding y_def by (rule fl_error)
  have e: "\<bar>euros c - y / 100\<bar> \<le> \<bar>y / 100\<bar> / 2 ^ 53"
    using fl_error [of "y / 100"] by (simp add: euros_def f_div_def f_of_int_def x_def y_def)
  have sm: "\<bar>x\<bar> / 2 ^ 53 \<le> \<bar>x\<bar> / 10" "\<bar>y / 100\<bar> / 2 ^ 53 \<le> \<bar>y / 100\<bar> / 10" by (simp_all add: field_simps)
  have x0: "0 < x"
  proof (rule ccontr)
    assume "\<not> 0 < x"
    then have "y \<le> 0" using f sm by linarith
    then show False using e sm assms(1) by linarith
  qed
  then have "9 / 10 * x \<le> y" using f sm by linarith
  then have "81 / 100 * (x / 100) \<le> euros c" using e sm x0 by linarith
  then have "x \<le> 2 * 10 ^ 10" using assms(2) by simp
  then have "(of_int c :: rat) \<le> of_int (2 * 10 ^ 10)" "(of_int 0 :: rat) < of_int c" using x0 by (simp_all add: x_def)
  then show ?thesis by (simp only: of_int_le_iff of_int_less_iff)
qed

lemma whole_line_cents:
  assumes "whole_line it" "oi_LineTotal it \<le> 10 ^ 8"
  shows "oi_LineTotal it = euros (cents_of it)" "0 < cents_of it" "cents_of it \<le> 10 ^ 11"
proof -
  obtain c where c: "oi_LineTotal it = euros c" using assms(1) by (auto simp: whole_line_def round2_is_cents)
  have "0 < euros c" using assms(1) c half_cent(1) unfolding whole_line_def by linarith
  then have b: "0 < c \<and> c \<le> 2 * 10 ^ 10" using assms(2) c by (intro euros_bounded) simp_all
  then have "cents_of it = c" by (simp add: cents_of_def c toCents_euros)
  then show "oi_LineTotal it = euros (cents_of it)" "0 < cents_of it" "cents_of it \<le> 10 ^ 11" using b c by simp_all
qed

subsection \<open>Tax\<close>

lemma tax_rounds:
  assumes "0 \<le> S" "S \<le> 4 * 10 ^ 10" "0 \<le> R" "R \<le> 20"
  shows "\<bar>100 * toCents (f_div (f_mul (euros S) (of_int R)) 100) - S * R\<bar> \<le> 50"
proof -
  define a r u v w y T where "a = (of_int S / 100 :: rat)" and "r = (of_int R :: rat)" and "u = euros S"
    and "v = fl (u * r)" and "w = fl (v / 100)" and "y = fl (w * 100)" and "T = (of_int (go_round y) :: rat)"
  have r: "0 \<le> r" "r \<le> 20" using assms(3,4) by (simp_all add: r_def)
  have "(of_int S :: rat) \<le> of_int (4 * 10 ^ 10)" using assms(2) by (simp only: of_int_le_iff)
  then have a: "0 \<le> a" "a \<le> 400000000" using assms(1) by (simp_all add: a_def)
  have "\<bar>S\<bar> \<le> 10 ^ 11" using assms(1,2) by simp
  then have u: "\<bar>u - a\<bar> \<le> 1 / 4000000" using nearD(1) [OF near_euros] by (force simp: u_def a_def)
  have "\<bar>u * r - a * r\<bar> = \<bar>u - a\<bar> * r" using r(1) by (simp add: abs_mult left_diff_distrib [symmetric])
  also have "\<dots> \<le> 1 / 4000000 * 20" using u r by (intro mult_mono) auto
  finally have ur: "\<bar>u * r - a * r\<bar> \<le> 1 / 200000" by simp
  have ar: "0 \<le> a * r" "a * r \<le> 400000000 * 20" using a r mult_mono [OF a(2) r(2)] by simp_all
  have "\<bar>u * r\<bar> \<le> 8000000001" using ur ar by linarith
  then have "\<bar>u * r\<bar> / 2 ^ 53 \<le> 1 / 1000000" by simp
  then have v: "\<bar>v - a * r\<bar> \<le> 1 / 100000" using fl_error [of "u * r"] ur unfolding v_def by linarith
  have "\<bar>v / 100\<bar> \<le> 80000001" using v ar by linarith
  then have "\<bar>v / 100\<bar> / 2 ^ 53 \<le> 1 / 100000000" by simp
  then have w: "\<bar>w - a * r / 100\<bar> \<le> 2 / 10000000" using fl_error [of "v / 100"] v unfolding w_def by linarith
  have "\<bar>w * 100\<bar> \<le> 8000000001" using w ar by linarith
  then have "\<bar>w * 100\<bar> / 2 ^ 53 \<le> 1 / 1000000" by simp
  then have y: "\<bar>y - a * r\<bar> \<le> 3 / 100000" using fl_error [of "w * 100"] w unfolding y_def by linarith
  have "\<bar>T - y\<bar> \<le> 1 / 2" unfolding T_def by (rule go_round_error)
  then have "\<bar>100 * T - 100 * (a * r)\<bar> < 51" using y by linarith
  moreover have "100 * (a * r) = of_int (S * R)" by (simp add: a_def r_def)
  ultimately have "\<bar>100 * T - of_int (S * R)\<bar> < 51" by simp
  moreover have "100 * T - of_int (S * R) = of_int (100 * go_round y - S * R)" by (simp add: T_def)
  ultimately have "of_int \<bar>100 * go_round y - S * R\<bar> < (of_int 51 :: rat)" by (simp only: of_int_abs of_int_numeral)
  then have "\<bar>100 * go_round y - S * R\<bar> < 51" by (simp only: of_int_less_iff)
  moreover have "toCents (f_div (f_mul (euros S) (of_int R)) 100) = go_round y"
    by (simp add: toCents_def f_div_def f_mul_def y_def w_def v_def u_def r_def)
  ultimately show ?thesis by simp
qed

subsection \<open>An invoice\<close>

definition line_sum :: "invoice_line list \<Rightarrow> int" where
  "line_sum its = (\<Sum>it \<leftarrow> its. cents_of it)"

text \<open>Invoices of up to 4000 lines, of up to 100 million euros each and 400 million in all.\<close>

definition billable :: "pay_env \<Rightarrow> office \<Rightarrow> int \<Rightarrow> bool" where
  "billable env Off person \<longleftrightarrow>
     (let its = invoiceLinesFrom env (of_ledger Off) person in
       numeric_ok (pe_numeric env) \<and> length its \<le> 4000 \<and> (\<forall>it \<in> set its. oi_LineTotal it \<le> 10 ^ 8)
       \<and> line_sum its \<le> 4 * 10 ^ 10
       \<and> (bs_Kleinunternehmer (of_settings Off) \<or> austrianRates (bs_UStRate (of_settings Off))))"

lemma lines_sum:
  assumes "\<forall>it \<in> set its. whole_line it \<and> oi_LineTotal it \<le> 10 ^ 8" "length its \<le> 4000" "line_sum its \<le> 4 * 10 ^ 10"
  shows "round2 (f_sum 0 (map oi_LineTotal its)) = euros (line_sum its)" "0 \<le> line_sum its"
proof -
  have c: "oi_LineTotal it = euros (cents_of it) \<and> 0 < cents_of it" if "it \<in> set its" for it
    using whole_line_cents(1,2) [of it] assms(1) that by blast
  then have m: "map oi_LineTotal its = map euros (map cents_of its)" by simp
  have "(\<Sum>it \<leftarrow> its. \<bar>cents_of it\<bar>) = line_sum its"
    unfolding line_sum_def by (intro arg_cong [of _ _ sum_list] map_cong) (auto dest: c)
  then have "near (0 + 2 * int (length (map cents_of its))) (f_sum 0 (map euros (map cents_of its))) (0 + sum_list (map cents_of its))"
    using assms(2,3) by (intro near_f_sum near_0) (simp_all add: comp_def)
  from near_round2 [OF this] show "round2 (f_sum 0 (map oi_LineTotal its)) = euros (line_sum its)"
    by (simp add: m line_sum_def)
  show "0 \<le> line_sum its" unfolding line_sum_def by (intro sum_list_int_nonneg) (use c in force)
qed

lemma amounts_exact:
  assumes "invoice_amounts s its = (subtotal, rate, tax, amount)"
    "\<forall>it \<in> set its. whole_line it \<and> oi_LineTotal it \<le> 10 ^ 8" "length its \<le> 4000" "line_sum its \<le> 4 * 10 ^ 10"
    "bs_Kleinunternehmer s \<or> austrianRates (bs_UStRate s)"
  shows "\<exists>T R. rate = of_int R \<and> subtotal = euros (line_sum its) \<and> tax = euros T \<and> amount = euros (line_sum its + T)
    \<and> \<bar>100 * T - line_sum its * R\<bar> \<le> 50 \<and> 0 \<le> R \<and> R \<le> 20 \<and> 0 \<le> T \<and> T \<le> 10 ^ 10"
proof -
  note S = lines_sum [OF assms(2-4)]
  define R :: int where "R = (if bs_Kleinunternehmer s then 0 else if bs_UStRate s = 20 then 20 else if bs_UStRate s = 13 then 13 else 10)"
  have R: "(if bs_Kleinunternehmer s then 0 else bs_UStRate s) = of_int R" "0 \<le> R" "R \<le> 20"
    using assms(5) by (auto simp: R_def austrianRates_def)
  define T where "T = (if bs_Kleinunternehmer s then 0 else toCents (f_div (f_mul (euros (line_sum its)) (of_int R)) 100))"
  have t: "\<bar>100 * T - line_sum its * R\<bar> \<le> 50"
    using tax_rounds [OF S(2) assms(4) R(2,3)] by (auto simp: T_def R_def)
  have "0 \<le> line_sum its * R" "line_sum its * R \<le> 4 * 10 ^ 10 * 20"
    using S(2) assms(4) R(2,3) mult_mono [of "line_sum its" "4 * 10 ^ 10" R 20] by simp_all
  then have T: "0 \<le> T" "T \<le> 10 ^ 10" using t by linarith+
  have tax: "(if bs_Kleinunternehmer s then 0 else round2 (f_div (f_mul (euros (line_sum its)) (of_int R)) 100)) = euros T"
    by (simp add: T_def round2_is_cents)
  have "near (1 + 1 + 1) (f_add (euros (line_sum its)) (euros T)) (line_sum its + T)"
    using S(2) assms(4) T by (intro near_add near_euros) auto
  from near_round2 [OF this] have "amount = euros (line_sum its + T)" "subtotal = euros (line_sum its)" "tax = euros T" "rate = of_int R"
    using assms(1) R(1) tax by (auto simp: invoice_amounts_def Let_def S(1))
  then show ?thesis using t R T by blast
qed

lemma billable_lines:
  assumes "billable env Off person" "its = invoiceLinesFrom env (of_ledger Off) person"
  shows "\<forall>it \<in> set its. whole_line it \<and> oi_LineTotal it \<le> 10 ^ 8" "length its \<le> 4000" "line_sum its \<le> 4 * 10 ^ 10"
    "bs_Kleinunternehmer (of_settings Off) \<or> austrianRates (bs_UStRate (of_settings Off))" "numeric_ok (pe_numeric env)"
  using assms lines_whole(1) by (auto simp: billable_def Let_def)

text \<open>What the transaction of issuing does, step by step.\<close>

lemma create_invoice_parts:
  assumes "create_invoice_tx env person note Off = Inr (d, Off')"
  obtains first lst address Off1 L where "of_people Off person = Some (first, lst, address)"
    "d = new_invoice env person note (first, lst, address) (invoiceLinesFrom env (of_ledger Off) person) Off"
    "invoiceLinesFrom env (of_ledger Off) person \<noteq> []"
    "insert_doc d 0 Off = Inr Off1" "claim_sources (dc_ID d) (invoiceLinesFrom env (of_ledger Off) person) (of_ledger Off1) = Inr L"
    "Off' = Off1\<lparr>of_ledger := L\<rparr>"
  using assms
  by (auto simp: create_invoice_tx_def Let_def split: option.splits if_splits sum.splits prod.splits)

end
