(* ===== verification/Invoice_Office.thy ===== *)
theory Invoice_Office
  imports Invoice_Amounts
begin

text \<open>
  The whole office: settings, documents and ledger together. Issuing, cancelling, paying invoices,
  every transaction on payments and saving the settings keep one invariant, and no issued document
  ever changes.
\<close>

subsection \<open>Adding an invoice row\<close>

definition add_row :: "invoice_row \<Rightarrow> ledger \<Rightarrow> ledger" where
  "add_row i L = L\<lparr>lg_invoices := lg_invoices L @ [i]\<rparr>"

definition new_row :: "invoice_row \<Rightarrow> ledger \<Rightarrow> bool" where
  "new_row i L \<longleftrightarrow> iv_ID i \<notin> iv_ID ` set (lg_invoices L) \<and> iv_Paid i = 0 \<and> \<not> iv_Canceled i
     \<and> (iv_Cancels i = None \<longrightarrow> 0 \<le> iv_Total i)"

lemma issued_id: "issued is k \<Longrightarrow> k \<in> iv_ID ` set is"
  by (auto simp: issued_def)

lemma charge_invoiced_add:
  assumes "books_ok L" "new_row i L" shows "charge_invoiced (add_row i L) ref = charge_invoiced L ref"
proof -
  have ne: "so_Invoice s \<noteq> iv_ID i" if "s \<in> set (lg_sources L)" for s
    using issued_id [OF books_okD(6) [OF assms(1) that]] assms(2) by (auto simp: new_row_def)
  have "(\<exists>j \<in> set (lg_invoices L @ [i]). iv_ID j = so_Invoice s \<and> \<not> iv_Canceled j)
      = (\<exists>j \<in> set (lg_invoices L). iv_ID j = so_Invoice s \<and> \<not> iv_Canceled j)" if "s \<in> set (lg_sources L)" for s
    using ne [OF that] by auto
  then show ?thesis unfolding charge_invoiced_def active_source_def add_row_def by simp
qed

lemma add_row_keeps:
  assumes "sound_ledger L" "autos_full L" "books_ok L" "new_row i L"
  shows "sound_ledger (add_row i L) \<and> autos_full (add_row i L) \<and> books_ok (add_row i L)"
proof (intro conjI)
  note inv = charge_invoiced_add [OF assms(3,4)]
  have lv: "live (add_row i L) = live L" "spent (add_row i L) = spent L"
    by (simp_all add: add_row_def fun_eq_iff)
  show "sound_ledger (add_row i L)"
    using assms(1) unfolding sound_ledger_def inv lv by (simp add: add_row_def)
  show "autos_full (add_row i L)" using assms(2) by (simp add: add_row_def autos_full_def)
  have up: "issued (lg_invoices L @ [i]) k" if "issued (lg_invoices L) k" for k using that by (auto simp: issued_def)
  have ln: "linked (add_row i L) k = linked L k" for k by (simp add: linked_def add_row_def)
  have "linked L (iv_ID i) = 0"
  proof -
    have "filter (\<lambda>a. ip_Invoice a = iv_ID i) (lg_invpays L) = []"
      using books_okD(2) [OF assms(3)] issued_id assms(4) unfolding new_row_def filter_empty_conv by metis
    then show ?thesis by (simp add: linked_def)
  qed
  then show "books_ok (add_row i L)"
    using books_okD [OF assms(3)] assms(4) up unfolding books_ok_def ln
    by (auto simp: add_row_def new_row_def)
qed

subsection \<open>Claiming the positions of an invoice\<close>

definition source_row_of :: "int \<Rightarrow> invoice_line \<Rightarrow> source_row" where
  "source_row_of iid it = \<lparr>so_Invoice = iid, so_Kind = oi_Kind it, so_Ref = oi_ID it, so_Period = oi_Period it\<rparr>"

lemma claim_source_keeps:
  assumes "claim_source iid kind ref period L = Inr L'" "sound_ledger L" "autos_full L" "books_ok L"
    "issued (lg_invoices L) iid"
  shows "sound_ledger L' \<and> autos_full L' \<and> books_ok L' \<and> lg_invoices L' = lg_invoices L"
proof -
  let ?s = "\<lparr>so_Invoice = iid, so_Kind = kind, so_Ref = ref, so_Period = period\<rparr>"
  have L': "L' = L\<lparr>lg_sources := lg_sources L @ [?s]\<rparr>"
    and free: "\<not> (kind = ''charge'' \<and> period = [] \<and> claimed L ''charge'' ref)"
    and new: "source_of ?s \<notin> source_of ` set (lg_sources L)"
    using assms(1) by (auto simp: claim_source_def source_of_def split: if_splits)
  have lv: "live L' = live L" "spent L' = spent L" "alloc_sum L' = alloc_sum L" "linked L' = linked L"
    by (simp_all add: L' live_def spent_def alloc_sum_def linked_def fun_eq_iff)
  have "\<not> charge_invoiced L' (al_Ref a)" if "a \<in> set (lg_allocs L)" "al_Kind a = ''charge''" for a
  proof
    assume "charge_invoiced L' (al_Ref a)"
    then have "charge_invoiced L (al_Ref a) \<or> kind = ''charge'' \<and> ref = al_Ref a \<and> period = []"
      by (auto simp: charge_invoiced_def active_source_def L')
    then show False using soundD(4) [OF assms(2) that] that free by (auto simp: claimed_def)
  qed
  then have "sound_ledger L'" using soundD [OF assms(2)] unfolding sound_ledger_def lv by (simp add: L')
  moreover have "autos_full L'" using assms(3) unfolding autos_full_def lv by (simp add: L')
  moreover have "books_ok L'"
    using books_okD [OF assms(4)] new assms(5) unfolding books_ok_def lv by (auto simp: L')
  ultimately show ?thesis by (simp add: L')
qed

lemma claim_sources_keeps:
  assumes "claim_sources iid its L = Inr L'" "sound_ledger L" "autos_full L" "books_ok L" "issued (lg_invoices L) iid"
  shows "sound_ledger L' \<and> autos_full L' \<and> books_ok L' \<and> lg_invoices L' = lg_invoices L"
  using assms
proof (induction its arbitrary: L)
  case (Cons it its)
  show ?case
  proof (cases "oi_Kind it \<in> {''vehicle'', ''charge'', ''agreement'', ''recurring''}")
    case True
    then obtain M where m: "claim_source iid (oi_Kind it) (oi_ID it) (oi_Period it) L = Inr M" "claim_sources iid its M = Inr L'"
      using Cons.prems(1) by (auto split: sum.splits)
    have k: "sound_ledger M \<and> autos_full M \<and> books_ok M \<and> lg_invoices M = lg_invoices L"
      by (rule claim_source_keeps [OF m(1) Cons.prems(2-5)])
    have "sound_ledger L' \<and> autos_full L' \<and> books_ok L' \<and> lg_invoices L' = lg_invoices M"
      using k Cons.prems(5) by (intro Cons.IH [OF m(2)]) simp_all
    then show ?thesis using k by simp
  next
    case False
    then show ?thesis using Cons by simp
  qed
qed simp

lemma claim_sources_rows:
  assumes "claim_sources iid its L = Inr L'" "\<forall>it \<in> set its. whole_line it"
  shows "L' = L\<lparr>lg_sources := lg_sources L @ map (source_row_of iid) its\<rparr>"
  using assms
proof (induction its arbitrary: L)
  case (Cons it its)
  then obtain M where m: "claim_source iid (oi_Kind it) (oi_ID it) (oi_Period it) L = Inr M" "claim_sources iid its M = Inr L'"
    by (auto simp: whole_line_def split: sum.splits)
  have "M = L\<lparr>lg_sources := lg_sources L @ [source_row_of iid it]\<rparr>"
    using m(1) by (auto simp: claim_source_def source_row_of_def split: if_splits)
  then show ?case using Cons.IH [OF m(2)] Cons.prems(2) by simp
qed simp

subsection \<open>Releasing an invoice\<close>

lemma release_keeps:
  assumes "sound_ledger L" "autos_full L" "books_ok L"
  shows "sound_ledger (release_invoice iid L) \<and> autos_full (release_invoice iid L) \<and> books_ok (release_invoice iid L)"
proof (intro conjI)
  let ?L = "release_invoice iid L"
  have spent: "spent ?L k \<le> spent L k" for k
  proof -
    have "(\<Sum>a \<leftarrow> filter (\<lambda>a. ip_Payment a = k) (filter (\<lambda>a. ip_Invoice a \<noteq> iid) xs). ip_Amount a)
        \<le> (\<Sum>a \<leftarrow> filter (\<lambda>a. ip_Payment a = k) xs. ip_Amount a)" if "\<forall>a \<in> set xs. 0 < ip_Amount a" for xs
      using that by (induction xs) auto
    from this [of "lg_invpays L"] show ?thesis
      using soundD(6) [OF assms(1)] by (simp add: spent_def release_invoice_def)
  qed
  have inv: "charge_invoiced ?L ref \<Longrightarrow> charge_invoiced L ref" for ref
    unfolding charge_invoiced_def active_source_def release_invoice_def by (auto split: if_splits)
  have lv: "live ?L = live L" by (simp add: live_def release_invoice_def fun_eq_iff)
  have "\<forall>p \<in> set (lg_payments L). 0 < pm_Amount p \<and> spent ?L (pm_ID p) \<le> pm_Amount p"
    using soundD(7,8) [OF assms(1)] spent order_trans by blast
  moreover have "\<forall>a \<in> set (lg_allocs L). live L (al_Payment a) \<and> 0 < al_Amount a
      \<and> (al_Kind a = ''charge'' \<longrightarrow> \<not> charge_invoiced ?L (al_Ref a))"
    using soundD(2-4) [OF assms(1)] inv by blast
  moreover have frame: "lg_payments ?L = lg_payments L" "lg_allocs ?L = lg_allocs L" "lg_next ?L = lg_next L"
    "set (lg_invpays ?L) \<subseteq> set (lg_invpays L)"
    by (auto simp: release_invoice_def)
  ultimately show "sound_ledger ?L"
    using soundD(1,5,6,9-11) [OF assms(1)] unfolding sound_ledger_def lv frame by blast
  have "alloc_sum ?L = alloc_sum L" by (simp add: alloc_sum_def release_invoice_def fun_eq_iff)
  then show "autos_full ?L" using assms(2) by (simp add: autos_full_def release_invoice_def)
  let ?f = "\<lambda>i. if iv_ID i = iid \<and> \<not> iv_Canceled i then i\<lparr>iv_Canceled := True, iv_Paid := 0\<rparr> else i"
  have rows: "lg_invoices ?L = map ?f (lg_invoices L)" by (simp add: release_invoice_def)
  have iss: "issued (map ?f is) k = issued is k" if "k \<noteq> iid" for k "is"
    using that by (auto simp: issued_def)
  have ln: "linked ?L k = (if k = iid then 0 else linked L k)" for k
    by (auto simp: linked_def release_invoice_def filter_filter intro!: arg_cong [of _ _ "\<lambda>xs. sum_list (map ip_Amount xs)"] filter_cong)
  have zero: "linked L iid = 0" if "i \<in> set (lg_invoices L)" "iv_ID i = iid" "iv_Canceled i" for i
  proof -
    have "\<not> issued (lg_invoices L) iid"
      using unique_invoice [OF assms(3) that(1)] that by (fastforce simp: issued_def)
    then have "filter (\<lambda>a. ip_Invoice a = iid) (lg_invpays L) = []"
      using books_okD(2) [OF assms(3)] unfolding filter_empty_conv by blast
    then show ?thesis by (simp add: linked_def)
  qed
  have paid: "iv_Paid (?f i) = linked ?L (iv_ID (?f i))" if "i \<in> set (lg_invoices L)" for i
    using books_okD(3) [OF assms(3) that] zero [OF that] by (auto simp: ln)
  have nonneg: "0 \<le> linked L k" for k
    unfolding linked_def using soundD(6) [OF assms(1)] by (intro sum_list_int_nonneg) fastforce
  have le: "iv_Cancels (?f i) = None \<longrightarrow> iv_Paid (?f i) \<le> iv_Total (?f i)" if "i \<in> set (lg_invoices L)" for i
    using books_okD(3,4) [OF assms(3) that] nonneg [of "iv_ID i"] by auto
  have ids: "map iv_ID (map ?f (lg_invoices L)) = map iv_ID (lg_invoices L)" by simp
  have srcs: "lg_sources ?L = filter (\<lambda>s. so_Invoice s \<noteq> iid) (lg_sources L)"
    and pays: "lg_invpays ?L = filter (\<lambda>p. ip_Invoice p \<noteq> iid) (lg_invpays L)"
    by (simp_all add: release_invoice_def)
  have "\<forall>i \<in> set (map ?f (lg_invoices L)). iv_Paid i = linked ?L (iv_ID i)"
    "\<forall>i \<in> set (map ?f (lg_invoices L)). iv_Cancels i = None \<longrightarrow> iv_Paid i \<le> iv_Total i"
    using paid le unfolding set_map by blast+
  moreover have "distinct (map source_of (lg_sources ?L))"
    using books_okD(5) [OF assms(3)] unfolding srcs by (rule distinct_map_filter)
  moreover have "\<forall>s \<in> set (lg_sources ?L). issued (map ?f (lg_invoices L)) (so_Invoice s)"
    "\<forall>a \<in> set (lg_invpays ?L). issued (map ?f (lg_invoices L)) (ip_Invoice a)"
    using books_okD(2,6) [OF assms(3)] iss unfolding srcs pays by simp_all
  ultimately show "books_ok ?L"
    using books_okD(1) [OF assms(3)] unfolding books_ok_def rows ids by blast
qed

lemma reopen_keeps [simp]:
  "sound_ledger (reopenUncoveredVehiclesTx t vs L) = sound_ledger L"
  "autos_full (reopenUncoveredVehiclesTx t vs L) = autos_full L"
  "books_ok (reopenUncoveredVehiclesTx t vs L) = books_ok L"
  by (simp_all add: reopenUncoveredVehiclesTx_def autos_full_def books_ok_def linked_def)

end
