(* ===== verification/Invoice_Runs.thy ===== *)
theory Invoice_Runs
  imports Invoice_Office "HOL-Library.Multiset"
begin

text \<open>
  Runs of the office: every transaction keeps the invariant \<open>office_ok\<close>, issued documents never
  change, numbers are consecutive.
\<close>

subsection \<open>The invariant\<close>

definition doc_part :: "invoice_doc \<Rightarrow> int \<times> int \<times> int option \<times> int" where
  "doc_part d = (dc_ID d, dc_PersonID d, dc_CancelsID d, dc_Total d)"

definition row_part :: "invoice_row \<Rightarrow> int \<times> int \<times> int option \<times> int" where
  "row_part i = (iv_ID i, iv_PersonID i, iv_Cancels i, iv_Total i)"

text \<open>A counter document undoes a document of its own that is cancelled, with the amounts negated.\<close>

definition undoes :: "invoice_doc \<Rightarrow> invoice_doc \<Rightarrow> bool" where
  "undoes c d \<longleftrightarrow> dc_CancelsID c = Some (dc_ID d) \<and> dc_CancelsID d = None \<and> dc_PersonID c = dc_PersonID d
     \<and> dc_Subtotal c = - dc_Subtotal d \<and> dc_TaxAmount c = - dc_TaxAmount d \<and> dc_Total c = - dc_Total d"

definition office_ok :: "office \<Rightarrow> bool" where
  "office_ok Off \<longleftrightarrow>
     sound_ledger (of_ledger Off) \<and> autos_full (of_ledger Off) \<and> books_ok (of_ledger Off)
     \<and> map doc_part (of_docs Off) = map row_part (lg_invoices (of_ledger Off))
     \<and> (\<forall>d \<in> set (of_docs Off). dc_ID d < of_next Off)
     \<and> distinct (map dc_Number (of_docs Off))
     \<and> (\<forall>c \<in> set (of_docs Off). dc_CancelsID c \<noteq> None \<longrightarrow> (\<exists>d \<in> set (of_docs Off). undoes c d))
     \<and> mset (map iv_ID (filter iv_Canceled (lg_invoices (of_ledger Off)))) = mset (List.map_filter dc_CancelsID (of_docs Off))"

lemma office_okD:
  assumes "office_ok Off"
  shows "sound_ledger (of_ledger Off)" "autos_full (of_ledger Off)" "books_ok (of_ledger Off)"
    "map doc_part (of_docs Off) = map row_part (lg_invoices (of_ledger Off))"
    "\<And>d. d \<in> set (of_docs Off) \<Longrightarrow> dc_ID d < of_next Off"
    "distinct (map dc_Number (of_docs Off))"
    "\<And>c. c \<in> set (of_docs Off) \<Longrightarrow> dc_CancelsID c \<noteq> None \<Longrightarrow> \<exists>d \<in> set (of_docs Off). undoes c d"
    "mset (map iv_ID (filter iv_Canceled (lg_invoices (of_ledger Off)))) = mset (List.map_filter dc_CancelsID (of_docs Off))"
  using assms unfolding office_ok_def by blast+

lemma doc_of_row:
  assumes "office_ok Off" "i \<in> set (lg_invoices (of_ledger Off))"
  shows "\<exists>d \<in> set (of_docs Off). doc_part d = row_part i"
proof -
  have "row_part i \<in> set (map doc_part (of_docs Off))"
    unfolding office_okD(4) [OF assms(1)] using assms(2) by simp
  then show ?thesis by force
qed

lemma row_of_doc:
  assumes "office_ok Off" "d \<in> set (of_docs Off)"
  shows "\<exists>i \<in> set (lg_invoices (of_ledger Off)). row_part i = doc_part d"
proof -
  have "doc_part d \<in> set (map row_part (lg_invoices (of_ledger Off)))"
    unfolding office_okD(4) [OF assms(1), symmetric] using assms(2) by simp
  then show ?thesis by force
qed

lemma row_below:
  assumes "office_ok Off" "i \<in> set (lg_invoices (of_ledger Off))" shows "iv_ID i < of_next Off"
proof -
  obtain d where "d \<in> set (of_docs Off)" "dc_ID d = iv_ID i"
    using doc_of_row [OF assms] by (auto simp: doc_part_def row_part_def)
  then show ?thesis using office_okD(5) [OF assms(1)] by metis
qed

lemma distinct_docs: "office_ok Off \<Longrightarrow> distinct (map dc_ID (of_docs Off))"
proof -
  assume ok: "office_ok Off"
  have "map dc_ID (of_docs Off) = map fst (map doc_part (of_docs Off))" by (simp add: doc_part_def)
  also have "\<dots> = map iv_ID (lg_invoices (of_ledger Off))"
    unfolding office_okD(4) [OF ok] by (simp add: row_part_def)
  finally show ?thesis using books_okD(1) [OF office_okD(3) [OF ok]] by simp
qed

text \<open>A ledger in which at most what is paid on invoices and the claims have changed.\<close>

lemma same_rows_office:
  assumes "office_ok Off" "same_rows (of_ledger Off) L" "sound_ledger L" "autos_full L" "books_ok L"
  shows "office_ok (Off\<lparr>of_ledger := L\<rparr>)"
proof -
  have fx: "map fixed_part (lg_invoices L) = map fixed_part (lg_invoices (of_ledger Off))"
    using assms(2) by (simp add: same_rows_def)
  have r: "row_part i = (\<lambda>(a, b, c, d, e). (a, b, d, e)) (fixed_part i)" for i
    by (simp add: row_part_def fixed_part_def)
  have rows: "map row_part (lg_invoices L) = map row_part (lg_invoices (of_ledger Off))"
    using arg_cong [OF fx, of "map (\<lambda>(a, b, c, d, e). (a, b, d, e))"] unfolding map_map comp_def r .
  have c: "map iv_ID (filter iv_Canceled is)
      = map fst (filter (\<lambda>(a, b, c, d, e). c) (map fixed_part is))" for "is"
    by (induction "is") (simp_all add: fixed_part_def)
  show ?thesis
    using assms(1,3-5) rows c [of "lg_invoices L"] c [of "lg_invoices (of_ledger Off)"] fx
    by (simp add: office_ok_def)
qed

subsection \<open>Issuing\<close>

lemma insert_doc_Inr:
  assumes "insert_doc d paid Off = Inr Off'"
  shows "of_docs Off' = of_docs Off @ [d]" "of_next Off' = of_next Off + 1"
    "of_settings Off' = (of_settings Off)\<lparr>bs_NextInvoiceNo := bs_NextInvoiceNo (of_settings Off) + 1\<rparr>"
    "of_people Off' = of_people Off" "dc_Number d \<notin> dc_Number ` set (of_docs Off)"
    "of_ledger Off' = add_row \<lparr>iv_ID = dc_ID d, iv_PersonID = dc_PersonID d, iv_Canceled = False, iv_Cancels = dc_CancelsID d,
        iv_Total = dc_Total d, iv_Paid = paid\<rparr> (of_ledger Off)"
  using assms by (auto simp: insert_doc_def add_row_def split: if_splits)

lemma new_invoice_parts:
  "dc_ID (new_invoice env person note who its Off) = of_next Off"
  "dc_CancelsID (new_invoice env person note who its Off) = None"
  "dc_PersonID (new_invoice env person note who its Off) = person"
  "dc_Number (new_invoice env person note who its Off) = invoice_number (of_settings Off)"
  by (simp_all add: new_invoice_def Let_def split: prod.split)

lemma fresh_id: "office_ok Off \<Longrightarrow> of_next Off \<notin> iv_ID ` set (lg_invoices (of_ledger Off))"
  using row_below by fastforce

text \<open>The amounts of the new document.\<close>

lemma new_invoice_exact:
  assumes "billable env Off person" "its = invoiceLinesFrom env (of_ledger Off) person"
    "d = new_invoice env person note who its Off"
  shows "dc_Subtotal d = line_sum its" "dc_Total d = dc_Subtotal d + dc_TaxAmount d" "0 \<le> dc_TaxAmount d"
    "\<bar>of_int (100 * dc_TaxAmount d) - of_int (dc_Subtotal d) * dc_UStRate d\<bar> \<le> 50"
    "0 \<le> dc_Subtotal d"
    "map di_LineTotal (dc_Items d) = map cents_of its"
proof -
  note b = billable_lines [OF assms(1,2)]
  obtain subtotal rate tax amount where a: "invoice_amounts (of_settings Off) its = (subtotal, rate, tax, amount)"
    by (metis prod_cases4)
  obtain T R where t: "rate = of_int R" "subtotal = euros (line_sum its)" "tax = euros T" "amount = euros (line_sum its + T)"
    "\<bar>100 * T - line_sum its * R\<bar> \<le> 50" "0 \<le> R" "R \<le> 20" "0 \<le> T" "T \<le> 10 ^ 10"
    using amounts_exact [OF a b(1-4)] by blast
  have S: "0 \<le> line_sum its" "line_sum its \<le> 4 * 10 ^ 10" using lines_sum(2) [OF b(1-3)] b(3) by simp_all
  have n: "pe_numeric env (euros c) = c" if "0 \<le> c" "c \<le> 10 ^ 11" for c
    using b(5) that by (simp add: numeric_ok_def)
  have d: "dc_Subtotal d = line_sum its" "dc_TaxAmount d = T" "dc_Total d = line_sum its + T" "dc_UStRate d = of_int R"
    unfolding assms(3) new_invoice_def Let_def a using t S by (simp_all add: n)
  then show "dc_Subtotal d = line_sum its" "dc_Total d = dc_Subtotal d + dc_TaxAmount d" "0 \<le> dc_TaxAmount d" "0 \<le> dc_Subtotal d"
    using t S by simp_all
  have "(of_int \<bar>100 * T - line_sum its * R\<bar> :: rat) \<le> of_int 50" using t(5) by (simp only: of_int_le_iff)
  then show "\<bar>of_int (100 * dc_TaxAmount d) - of_int (dc_Subtotal d) * dc_UStRate d\<bar> \<le> 50"
    by (simp add: d of_int_abs)
  have "dc_Items d = doc_items env its" unfolding assms(3) new_invoice_def Let_def a by simp
  moreover have "pe_numeric env (oi_LineTotal it) = cents_of it" if "it \<in> set its" for it
    using b(1) that whole_line_cents [of it] n [of "cents_of it"] by auto
  ultimately show "map di_LineTotal (dc_Items d) = map cents_of its"
    by (auto simp: doc_items_def comp_def case_prod_beta map_eq_conv enumerate_eq_zip
        intro!: nth_equalityI)
qed

lemma map_filter_snoc: "List.map_filter f (xs @ [x]) = List.map_filter f xs @ (case f x of None \<Rightarrow> [] | Some y \<Rightarrow> [y])"
  by (simp add: List.map_filter_def split: option.split)

lemma issue_keeps:
  assumes "office_ok Off" "billable env Off person" "create_invoice_tx env person note Off = Inr (d, Off')"
  shows "office_ok Off'"
proof -
  let ?its = "invoiceLinesFrom env (of_ledger Off) person"
  obtain first lst address Off1 L where p: "d = new_invoice env person note (first, lst, address) ?its Off"
    "insert_doc d 0 Off = Inr Off1" "claim_sources (dc_ID d) ?its (of_ledger Off1) = Inr L"
    "Off' = Off1\<lparr>of_ledger := L\<rparr>"
    by (rule create_invoice_parts [OF assms(3)])
  note i = insert_doc_Inr [OF p(2)] and n = new_invoice_parts [of env person "note" "(first, lst, address)" ?its Off, folded p(1)]
  let ?row = "\<lparr>iv_ID = dc_ID d, iv_PersonID = dc_PersonID d, iv_Canceled = False, iv_Cancels = dc_CancelsID d,
    iv_Total = dc_Total d, iv_Paid = 0\<rparr>"
  note e = new_invoice_exact [OF assms(2) refl p(1)]
  have "new_row ?row (of_ledger Off)"
    using fresh_id [OF assms(1)] e(2,3,5) by (simp add: new_row_def n)
  note k = add_row_keeps [OF office_okD(1-3) [OF assms(1)] this, folded i(6)]
  have iss: "issued (lg_invoices (of_ledger Off1)) (dc_ID d)"
    by (simp add: i(6) add_row_def issued_def n)
  have L: "sound_ledger L \<and> autos_full L \<and> books_ok L \<and> lg_invoices L = lg_invoices (of_ledger Off1)"
    using k by (intro claim_sources_keeps [OF p(3) _ _ _ iss]) simp_all
  have docs: "of_docs Off' = of_docs Off @ [d]" "of_next Off' = of_next Off + 1" "of_ledger Off' = L"
    by (simp_all add: p(4) i)
  have rows: "lg_invoices L = lg_invoices (of_ledger Off) @ [?row]" using L by (simp add: i(6) add_row_def)
  show ?thesis
    unfolding office_ok_def docs rows
  proof (intro conjI)
    show "map doc_part (of_docs Off @ [d]) = map row_part (lg_invoices (of_ledger Off) @ [?row])"
      by (simp add: office_okD(4) [OF assms(1)] doc_part_def row_part_def)
    show "\<forall>e \<in> set (of_docs Off @ [d]). dc_ID e < of_next Off + 1"
      using office_okD(5) [OF assms(1)] n(1) by force
    show "distinct (map dc_Number (of_docs Off @ [d]))" using office_okD(6) [OF assms(1)] i(5) by simp
    show "\<forall>c \<in> set (of_docs Off @ [d]). dc_CancelsID c \<noteq> None \<longrightarrow> (\<exists>e \<in> set (of_docs Off @ [d]). undoes c e)"
      using office_okD(7) [OF assms(1)] n(2) by auto
    show "mset (map iv_ID (filter iv_Canceled (lg_invoices (of_ledger Off) @ [?row]))) = mset (List.map_filter dc_CancelsID (of_docs Off @ [d]))"
      using office_okD(8) [OF assms(1)] n(2) by (simp add: map_filter_snoc)
  qed (use L in simp_all)
qed

subsection \<open>Cancelling\<close>

definition cancel_row :: "int \<Rightarrow> invoice_row \<Rightarrow> invoice_row" where
  "cancel_row iid i = (if iv_ID i = iid \<and> \<not> iv_Canceled i then i\<lparr>iv_Canceled := True, iv_Paid := 0\<rparr> else i)"

lemma cancel_row_frame [simp]: "iv_ID (cancel_row iid i) = iv_ID i" "row_part (cancel_row iid i) = row_part i"
  by (simp_all add: cancel_row_def row_part_def)

lemma canceled_once:
  assumes "distinct (map iv_ID is)" "\<exists>i \<in> set is. iv_ID i = iid \<and> \<not> iv_Canceled i"
  shows "mset (map iv_ID (filter iv_Canceled (map (cancel_row iid) is))) = add_mset iid (mset (map iv_ID (filter iv_Canceled is)))"
  using assms
proof (induction "is")
  case (Cons i js)
  show ?case
  proof (cases "iv_ID i = iid")
    case True
    then have "cancel_row iid j = j" if "j \<in> set js" for j
      using Cons.prems(1) that by (auto simp: cancel_row_def rev_image_eqI)
    then have "map (cancel_row iid) js = js" by (simp add: map_idI)
    moreover have "\<not> iv_Canceled i" using Cons.prems True by (auto simp: rev_image_eqI)
    ultimately show ?thesis using True by (simp add: cancel_row_def [of iid i])
  next
    case False
    then have "cancel_row iid i = i" by (simp add: cancel_row_def)
    then show ?thesis using Cons False by auto
  qed
qed simp

lemma cancel_parts:
  assumes "cancel_invoice_tx env d Off = Inr (c, Off')"
  obtains Off1 where "c = counter_doc env d Off" "insert_doc c 0 Off = Inr Off1"
    "\<exists>i \<in> set (lg_invoices (of_ledger Off1)). iv_ID i = dc_ID d \<and> \<not> iv_Canceled i"
    "Off' = Off1\<lparr>of_ledger := reopenUncoveredVehiclesTx (businessDay (pe_now env)) (invoiceVehicleIDsTx (of_ledger Off) [dc_ID d])
       (release_invoice (dc_ID d) (of_ledger Off1))\<rparr>"
  using assms by (auto simp: cancel_invoice_tx_def Let_def split: option.splits sum.splits if_split_asm)

lemma counter_parts:
  "dc_ID (counter_doc env d Off) = of_next Off" "dc_CancelsID (counter_doc env d Off) = Some (dc_ID d)"
  "dc_PersonID (counter_doc env d Off) = dc_PersonID d" "dc_Total (counter_doc env d Off) = - dc_Total d"
  "dc_Subtotal (counter_doc env d Off) = - dc_Subtotal d" "dc_TaxAmount (counter_doc env d Off) = - dc_TaxAmount d"
  "dc_Number (counter_doc env d Off) = invoice_number (of_settings Off)"
  by (simp_all add: counter_doc_def)

lemma storno_keeps:
  assumes "office_ok Off" "d \<in> set (of_docs Off)" "dc_CancelsID d = None" "cancel_invoice_tx env d Off = Inr (c, Off')"
  shows "office_ok Off'"
proof -
  obtain Off1 where p: "c = counter_doc env d Off" "insert_doc c 0 Off = Inr Off1"
    "\<exists>i \<in> set (lg_invoices (of_ledger Off1)). iv_ID i = dc_ID d \<and> \<not> iv_Canceled i"
    "Off' = Off1\<lparr>of_ledger := reopenUncoveredVehiclesTx (businessDay (pe_now env)) (invoiceVehicleIDsTx (of_ledger Off) [dc_ID d])
       (release_invoice (dc_ID d) (of_ledger Off1))\<rparr>"
    by (rule cancel_parts [OF assms(4)])
  note i = insert_doc_Inr [OF p(2)] and n = counter_parts [of env d Off, folded p(1)]
  let ?row = "\<lparr>iv_ID = dc_ID c, iv_PersonID = dc_PersonID c, iv_Canceled = False, iv_Cancels = dc_CancelsID c,
    iv_Total = dc_Total c, iv_Paid = 0\<rparr>"
  have "new_row ?row (of_ledger Off)" using fresh_id [OF assms(1)] by (simp add: new_row_def n)
  note k = add_row_keeps [OF office_okD(1-3) [OF assms(1)] this, folded i(6)]
  then have L: "sound_ledger (of_ledger Off') \<and> autos_full (of_ledger Off') \<and> books_ok (of_ledger Off')"
    using release_keeps by (simp add: p(4))
  let ?rows = "lg_invoices (of_ledger Off) @ [?row]"
  have r1: "lg_invoices (of_ledger Off1) = ?rows" by (simp add: i(6) add_row_def)
  have rows: "lg_invoices (of_ledger Off') = map (cancel_row (dc_ID d)) ?rows"
    unfolding p(4) by (simp add: reopenUncoveredVehiclesTx_def release_invoice_def r1 cancel_row_def [abs_def])
  have docs: "of_docs Off' = of_docs Off @ [c]" "of_next Off' = of_next Off + 1" by (simp_all add: p(4) i)
  have d: "dc_ID d < of_next Off" using office_okD(5) [OF assms(1,2)] .
  have "undoes c d" using assms(3) by (simp add: undoes_def n)
  then show ?thesis
    unfolding office_ok_def docs rows
  proof (intro conjI)
    show "map doc_part (of_docs Off @ [c]) = map row_part (map (cancel_row (dc_ID d)) ?rows)"
      by (simp add: office_okD(4) [OF assms(1)] comp_def) (simp add: doc_part_def row_part_def)
    show "\<forall>e \<in> set (of_docs Off @ [c]). dc_ID e < of_next Off + 1"
      using office_okD(5) [OF assms(1)] n(1) by force
    show "distinct (map dc_Number (of_docs Off @ [c]))" using office_okD(6) [OF assms(1)] i(5) by simp
    show "\<forall>e \<in> set (of_docs Off @ [c]). dc_CancelsID e \<noteq> None \<longrightarrow> (\<exists>f \<in> set (of_docs Off @ [c]). undoes e f)"
      if "undoes c d" using office_okD(7) [OF assms(1)] assms(2) that by auto
    have "distinct (map iv_ID ?rows)" using books_okD(1) [of "of_ledger Off1"] k r1 by simp
    from canceled_once [OF this] p(3)
    have "mset (map iv_ID (filter iv_Canceled (map (cancel_row (dc_ID d)) ?rows)))
        = add_mset (dc_ID d) (mset (map iv_ID (filter iv_Canceled ?rows)))" unfolding r1 by blast
    then show "mset (map iv_ID (filter iv_Canceled (map (cancel_row (dc_ID d)) ?rows))) = mset (List.map_filter dc_CancelsID (of_docs Off @ [c]))"
      using office_okD(8) [OF assms(1)] by (simp add: map_filter_snoc n)
  qed (use L in simp_all)
qed

subsection \<open>Paying\<close>

definition payable_books :: "pay_env \<Rightarrow> office \<Rightarrow> bool" where
  "payable_books env Off \<longleftrightarrow> numeric_ok (pe_numeric env) \<and> length (lg_invoices (of_ledger Off)) \<le> 4900
     \<and> (\<forall>i \<in> set (lg_invoices (of_ledger Off)). \<bar>iv_Total i\<bar> \<le> 10 ^ 11 \<and> \<bar>iv_Paid i\<bar> \<le> 10 ^ 11 \<and> \<bar>iv_Total i - iv_Paid i\<bar> \<le> 10 ^ 11)"

lemma pay_parts:
  assumes "recordInvoicePaymentTx env person req pr paidOn k Off = Inr ((pid, a, u, n, replayed), Off')"
  shows "Off' = Off \<or> (\<exists>L rest L'. insert_payment (new_payment env person pr paidOn k) (of_ledger Off) = Inr L
     \<and> pay_loop env req (lg_next (of_ledger Off)) (payable_invoices Off person) (pq_Amount pr) 0 L = Inr (rest, nat n, L')
     \<and> Off' = Off\<lparr>of_ledger := L'\<rparr> \<and> pid = lg_next (of_ledger Off)
     \<and> a = toCents (round2 (f_sub (pq_Amount pr) rest)) \<and> u = toCents (round2 rest))"
  using assms
  by (auto simp: recordInvoicePaymentTx_def Let_def split: option.splits if_split_asm sum.splits)

lemma insert_payment_rows: "insert_payment p L = Inr L' \<Longrightarrow> same_rows L L' \<and> lg_invoices L' = lg_invoices L \<and> quiet L L'"
  by (auto simp: insert_payment_def same_rows_def quiet_def split: if_splits)

lemma pay_ledger:
  assumes "office_ok Off" "payable_books env Off" "pq_Amount pr = euros A" "0 < A" "A \<le> 10 ^ 11"
    "recordInvoicePaymentTx env person req pr paidOn k Off = Inr ((pid, a, u, n, replayed), Off')"
  shows "\<exists>L. Off' = Off\<lparr>of_ledger := L\<rparr> \<and> sound_ledger L \<and> autos_full L \<and> books_ok L \<and> same_rows (of_ledger Off) L"
proof (cases "Off' = Off")
  case False
  let ?is = "payable_invoices Off person" and ?pid = "lg_next (of_ledger Off)"
  obtain L rest L' where p: "insert_payment (new_payment env person pr paidOn k) (of_ledger Off) = Inr L"
    "pay_loop env req ?pid ?is (pq_Amount pr) 0 L = Inr (rest, nat n, L')" "Off' = Off\<lparr>of_ledger := L'\<rparr>"
    using pay_parts [OF assms(6)] False by blast
  have num: "numeric_ok (pe_numeric env)" using assms(2) by (simp add: payable_books_def)
  have amt: "pm_Amount (new_payment env person pr paidOn k) = A"
    using num assms(3-5) by (simp add: new_payment_def numeric_ok_def)
  have s: "sound_ledger L" by (rule sound_insert(1) [OF office_okD(1) [OF assms(1)] p(1)]) (simp add: new_payment_def)
  have pb: "payable L ?pid A"
    by (rule sound_insert(2) [OF office_okD(1) [OF assms(1)] p(1)]) (simp_all add: amt, simp_all add: new_payment_def)
  have af: "autos_full L" using insert_full [OF p(1) office_okD(2) [OF assms(1)]] by (simp add: new_payment_def)
  note r = insert_payment_rows [OF p(1)]
  have b: "books_ok L" using r books_quiet office_okD(3) [OF assms(1)] by blast
  have len: "length ?is \<le> 4900"
    using assms(2) unfolding payable_books_def payable_invoices_def
    by (auto intro: order_trans [OF length_filter_le])
  have d: "distinct (map iv_ID ?is)"
    unfolding payable_invoices_def
    using distinct_map_filter [OF books_okD(1) [OF office_okD(3) [OF assms(1)]]] by (simp add: distinct_map)
  have due: "\<forall>i \<in> set ?is. row_due L (iv_ID i) (iv_Total i - iv_Paid i) \<and> \<bar>iv_Total i\<bar> \<le> 10 ^ 11 \<and> \<bar>iv_Paid i\<bar> \<le> 10 ^ 11
       \<and> \<bar>iv_Total i - iv_Paid i\<bar> \<le> 10 ^ 11"
    using assms(2) r unfolding payable_books_def payable_invoices_def row_due_def by auto
  have "near 1 (pq_Amount pr) A" using assms(3-5) near_euros by simp
  from pay_loop_keeps [OF p(2) s af b num this _ pb due d] len assms(4)
  have "sound_ledger L' \<and> autos_full L' \<and> books_ok L' \<and> same_rows L L'" by simp
  then show ?thesis using same_rows_trans r p(3) by blast
qed (intro exI [of _ "of_ledger Off"], use office_okD(1-3) [OF assms(1)] in simp)

lemma pay_keeps:
  assumes "office_ok Off" "payable_books env Off" "pq_Amount pr = euros A" "0 < A" "A \<le> 10 ^ 11"
    "recordInvoicePaymentTx env person req pr paidOn k Off = Inr ((pid, a, u, n, replayed), Off')"
  shows "office_ok Off'"
  using pay_ledger [OF assms] same_rows_office [OF assms(1)] by blast

subsection \<open>Runs\<close>

inductive office_step :: "office \<Rightarrow> office \<Rightarrow> bool" where
  issue: "billable env Off person \<Longrightarrow> create_invoice_tx env person remark Off = Inr (d, Off') \<Longrightarrow> office_step Off Off'"
| storno: "d \<in> set (of_docs Off) \<Longrightarrow> dc_CancelsID d = None \<Longrightarrow> cancel_invoice_tx env d Off = Inr (c, Off')
    \<Longrightarrow> office_step Off Off'"
| pay: "payable_books env Off \<Longrightarrow> pq_Amount pr = euros A \<Longrightarrow> 0 < A \<Longrightarrow> A \<le> 10 ^ 11 \<Longrightarrow>
    recordInvoicePaymentTx env person req pr paidOn k Off = Inr ((pid, a, u, n, replayed), Off') \<Longrightarrow> office_step Off Off'"
| book: "ledger_step (of_ledger Off) L \<Longrightarrow> office_step Off (Off\<lparr>of_ledger := L\<rparr>)"
| save: "SaveBillingSettings req (of_settings Off) = (None, s) \<Longrightarrow> office_step Off (Off\<lparr>of_settings := s\<rparr>)"

lemma office_step_keeps: "office_step Off Off' \<Longrightarrow> office_ok Off \<Longrightarrow> office_ok Off'"
proof (induction rule: office_step.induct)
  case issue
  then show ?case using issue_keeps by blast
next
  case storno
  then show ?case using storno_keeps by blast
next
  case pay
  then show ?case using pay_keeps by blast
next
  case (book Off L)
  note o = office_okD [OF book(2)]
  show ?case
    using step_books [OF book(1) o(1-3)] step_keeps [OF book(1)] o(1,2) by (intro same_rows_office [OF book(2)]) blast+
next
  case save
  then show ?case by (simp add: office_ok_def)
qed

interpretation office: kept office_step office_ok
  by unfold_locales (rule office_step_keeps)

text \<open>What a step does to documents, numbers and claims.\<close>

definition advances :: "office \<Rightarrow> office \<Rightarrow> bool" where
  "advances Off Off' \<longleftrightarrow>
     (\<exists>ds. of_docs Off' = of_docs Off @ ds)
     \<and> bs_NextInvoiceNo (of_settings Off) + int (length (of_docs Off'))
         \<le> bs_NextInvoiceNo (of_settings Off') + int (length (of_docs Off))
     \<and> (\<forall>i \<in> set (lg_invoices (of_ledger Off)). \<exists>j \<in> set (lg_invoices (of_ledger Off')).
           row_part j = row_part i \<and> (iv_Canceled i \<longrightarrow> iv_Canceled j)
           \<and> (\<not> iv_Canceled j \<longrightarrow> (\<forall>s \<in> set (lg_sources (of_ledger Off)). so_Invoice s = iv_ID i
                \<longrightarrow> s \<in> set (lg_sources (of_ledger Off')))))"

lemma advances_refl: "advances Off Off"
  by (auto simp: advances_def)

lemma advances_trans:
  assumes "advances A B" "advances B C" shows "advances A C"
proof -
  have "\<exists>k \<in> set (lg_invoices (of_ledger C)). row_part k = row_part i \<and> (iv_Canceled i \<longrightarrow> iv_Canceled k)
      \<and> (\<not> iv_Canceled k \<longrightarrow> (\<forall>s \<in> set (lg_sources (of_ledger A)). so_Invoice s = iv_ID i \<longrightarrow> s \<in> set (lg_sources (of_ledger C))))"
    if i: "i \<in> set (lg_invoices (of_ledger A))" for i
  proof -
    obtain j where j: "j \<in> set (lg_invoices (of_ledger B))" "row_part j = row_part i" "iv_Canceled i \<longrightarrow> iv_Canceled j"
      "\<not> iv_Canceled j \<longrightarrow> (\<forall>s \<in> set (lg_sources (of_ledger A)). so_Invoice s = iv_ID i \<longrightarrow> s \<in> set (lg_sources (of_ledger B)))"
      using assms(1) i unfolding advances_def by blast
    obtain k where k: "k \<in> set (lg_invoices (of_ledger C))" "row_part k = row_part j" "iv_Canceled j \<longrightarrow> iv_Canceled k"
      "\<not> iv_Canceled k \<longrightarrow> (\<forall>s \<in> set (lg_sources (of_ledger B)). so_Invoice s = iv_ID j \<longrightarrow> s \<in> set (lg_sources (of_ledger C)))"
      using assms(2) j(1) unfolding advances_def by blast
    have "iv_ID j = iv_ID i" using j(2) by (simp add: row_part_def)
    then show ?thesis using j k by (intro bexI [OF _ k(1)]) auto
  qed
  then show ?thesis using assms by (auto simp: advances_def)
qed

lemma same_rows_row:
  assumes "same_rows L M" "i \<in> set (lg_invoices L)"
  shows "\<exists>j \<in> set (lg_invoices M). row_part j = row_part i \<and> iv_Canceled j = iv_Canceled i"
proof -
  have "fixed_part i \<in> fixed_part ` set (lg_invoices M)"
    using assms unfolding same_rows_def by (metis image_eqI list.set_map)
  then show ?thesis by (force simp: fixed_part_def row_part_def)
qed

lemma advances_books: "same_rows (of_ledger Off) L \<Longrightarrow> advances Off (Off\<lparr>of_ledger := L\<rparr>)"
  using same_rows_row by (fastforce simp: advances_def same_rows_def)

lemma lines_whole_all: "\<forall>it \<in> set (invoiceLinesFrom env L person). whole_line it"
  using lines_whole(1) by blast

lemma issue_parts:
  assumes "create_invoice_tx env person remark Off = Inr (d, Off')"
  shows "of_docs Off' = of_docs Off @ [d]" "of_next Off' = of_next Off + 1" "dc_ID d = of_next Off" "dc_PersonID d = person"
    "dc_Number d = invoice_number (of_settings Off)" "dc_CancelsID d = None" "dc_Number d \<notin> dc_Number ` set (of_docs Off)"
    "of_settings Off' = (of_settings Off)\<lparr>bs_NextInvoiceNo := bs_NextInvoiceNo (of_settings Off) + 1\<rparr>"
    "of_ledger Off' = (of_ledger Off)\<lparr>lg_invoices := lg_invoices (of_ledger Off) @ [\<lparr>iv_ID = dc_ID d, iv_PersonID = dc_PersonID d,
        iv_Canceled = False, iv_Cancels = None, iv_Total = dc_Total d, iv_Paid = 0\<rparr>],
      lg_sources := lg_sources (of_ledger Off) @ map (source_row_of (dc_ID d)) (invoiceLinesFrom env (of_ledger Off) person)\<rparr>"
proof -
  let ?its = "invoiceLinesFrom env (of_ledger Off) person"
  obtain first lst address Off1 L where p: "d = new_invoice env person remark (first, lst, address) ?its Off"
    "insert_doc d 0 Off = Inr Off1" "claim_sources (dc_ID d) ?its (of_ledger Off1) = Inr L"
    "Off' = Off1\<lparr>of_ledger := L\<rparr>"
    by (rule create_invoice_parts [OF assms])
  note i = insert_doc_Inr [OF p(2)] and n = new_invoice_parts [of env person remark "(first, lst, address)" ?its Off, folded p(1)]
  show "of_docs Off' = of_docs Off @ [d]" "of_next Off' = of_next Off + 1" "dc_ID d = of_next Off" "dc_PersonID d = person"
    "dc_Number d = invoice_number (of_settings Off)" "dc_CancelsID d = None" "dc_Number d \<notin> dc_Number ` set (of_docs Off)"
    "of_settings Off' = (of_settings Off)\<lparr>bs_NextInvoiceNo := bs_NextInvoiceNo (of_settings Off) + 1\<rparr>"
    using i n by (simp_all add: p(4))
  show "of_ledger Off' = (of_ledger Off)\<lparr>lg_invoices := lg_invoices (of_ledger Off) @ [\<lparr>iv_ID = dc_ID d, iv_PersonID = dc_PersonID d,
        iv_Canceled = False, iv_Cancels = None, iv_Total = dc_Total d, iv_Paid = 0\<rparr>],
      lg_sources := lg_sources (of_ledger Off) @ map (source_row_of (dc_ID d)) ?its\<rparr>"
    using claim_sources_rows [OF p(3) lines_whole_all] i(6) n(2) by (simp add: p(4) add_row_def)
qed

lemma storno_parts:
  assumes "cancel_invoice_tx env d Off = Inr (c, Off')"
  shows "of_docs Off' = of_docs Off @ [c]" "c = counter_doc env d Off" "dc_Number c \<notin> dc_Number ` set (of_docs Off)"
    "of_settings Off' = (of_settings Off)\<lparr>bs_NextInvoiceNo := bs_NextInvoiceNo (of_settings Off) + 1\<rparr>"
    "lg_invoices (of_ledger Off') = map (cancel_row (dc_ID d)) (lg_invoices (of_ledger Off) @ [\<lparr>iv_ID = of_next Off,
        iv_PersonID = dc_PersonID d, iv_Canceled = False, iv_Cancels = Some (dc_ID d), iv_Total = - dc_Total d, iv_Paid = 0\<rparr>])"
    "lg_sources (of_ledger Off') = filter (\<lambda>s. so_Invoice s \<noteq> dc_ID d) (lg_sources (of_ledger Off))"
proof -
  obtain Off1 where p: "c = counter_doc env d Off" "insert_doc c 0 Off = Inr Off1"
    "Off' = Off1\<lparr>of_ledger := reopenUncoveredVehiclesTx (businessDay (pe_now env)) (invoiceVehicleIDsTx (of_ledger Off) [dc_ID d])
       (release_invoice (dc_ID d) (of_ledger Off1))\<rparr>"
    by (rule cancel_parts [OF assms])
  note i = insert_doc_Inr [OF p(2)] and n = counter_parts [of env d Off, folded p(1)]
  show "of_docs Off' = of_docs Off @ [c]" "c = counter_doc env d Off" "dc_Number c \<notin> dc_Number ` set (of_docs Off)"
    "of_settings Off' = (of_settings Off)\<lparr>bs_NextInvoiceNo := bs_NextInvoiceNo (of_settings Off) + 1\<rparr>"
    using i p(1) by (simp_all add: p(3))
  show "lg_invoices (of_ledger Off') = map (cancel_row (dc_ID d)) (lg_invoices (of_ledger Off) @ [\<lparr>iv_ID = of_next Off,
        iv_PersonID = dc_PersonID d, iv_Canceled = False, iv_Cancels = Some (dc_ID d), iv_Total = - dc_Total d, iv_Paid = 0\<rparr>])"
    "lg_sources (of_ledger Off') = filter (\<lambda>s. so_Invoice s \<noteq> dc_ID d) (lg_sources (of_ledger Off))"
    by (simp_all add: p(3) reopenUncoveredVehiclesTx_def release_invoice_def i(6) add_row_def n cancel_row_def [abs_def])
qed

lemma step_advances: "office_step Off Off' \<Longrightarrow> office_ok Off \<Longrightarrow> advances Off Off'"
proof (induction rule: office_step.induct)
  case (issue env Off person remark d Off')
  note p = issue_parts [OF issue(2)]
  show ?case by (auto simp: advances_def p)
next
  case (storno d Off env c Off')
  note p = storno_parts [OF storno(3)]
  have "\<exists>j \<in> set (lg_invoices (of_ledger Off')). row_part j = row_part i \<and> (iv_Canceled i \<longrightarrow> iv_Canceled j)
      \<and> (\<not> iv_Canceled j \<longrightarrow> (\<forall>s \<in> set (lg_sources (of_ledger Off)). so_Invoice s = iv_ID i \<longrightarrow> s \<in> set (lg_sources (of_ledger Off'))))"
    if i: "i \<in> set (lg_invoices (of_ledger Off))" for i
    using i by (intro bexI [of _ "cancel_row (dc_ID d) i"]) (auto simp: p(5,6) cancel_row_def row_part_def)
  then show ?case by (auto simp: advances_def p(1,4))
next
  case pay
  then show ?case using pay_ledger advances_books by metis
next
  case (book Off L)
  show ?case using step_books [OF book(1) office_okD(1-3) [OF book(2)]] advances_books by blast
next
  case (save req Off s)
  have "bs_NextInvoiceNo (of_settings Off) \<le> bs_NextInvoiceNo s"
    using save(1) by (auto simp: SaveBillingSettings_def Let_def split: option.splits)
  then show ?case by (auto simp: advances_def)
qed

lemma run_advances: "office_step\<^sup>*\<^sup>* Off Off' \<Longrightarrow> office_ok Off \<Longrightarrow> advances Off Off' \<and> office_ok Off'"
proof (induction rule: rtranclp_induct)
  case (step A B)
  then show ?case using step_advances advances_trans office_step_keeps by blast
qed (simp add: advances_refl)

end
