(* ===== verification/Invoice_Examples.thy ===== *)
theory Invoice_Examples
  imports Invoice_Runs
begin

text \<open>
  A small office: one charge settled by a payment, one that is open. The properties of the invoices
  are applied to it.
\<close>

definition example_settings :: billing_settings where
  "example_settings = \<lparr>bs_SellerName = ''Halle'', bs_SellerAddress = ''Linz'', bs_SellerUID = ''ATU1'', bs_Kleinunternehmer = False,
     bs_UStRate = 20, bs_InvoicePrefix = ''R'', bs_NextInvoiceNo = 1, bs_NumberPad = 4, bs_IBAN = [], bs_BIC = [],
     bs_PaymentTermsDays = 14, bs_FooterNote = []\<rparr>"

definition example_books :: ledger where
  "example_books = example_ledger\<lparr>lg_charges := [example_charge, example_charge\<lparr>ch_ID := 8, ch_Paid := False\<rparr>]\<rparr>"

definition example_office :: office where
  "example_office = \<lparr>of_settings = example_settings, of_docs = [],
     of_people = (\<lambda>k. if k = 3 then Some (''Ada'', ''L'', ''Wien'') else None), of_ledger = example_books, of_next = 1\<rparr>"

lemma example_trims: "trim_space ''Halle'' \<noteq> []" "trim_space ''Linz'' \<noteq> []" "trim_space ''ATU1'' \<noteq> []" "trim_space ''Ada L'' = ''Ada L''"
proof -
  have plain: "list_all (\<lambda>w. w \<noteq> [] \<longrightarrow> \<not> starts_with s w) white_space"
    "list_all (\<lambda>w. w \<noteq> [] \<longrightarrow> \<not> starts_with (rev s) w) (map rev white_space)"
    if "s \<in> {''Halle'', ''Linz'', ''ATU1'', ''Ada L''}" for s
    using that by (auto simp: white_space_def starts_with_def utf8_text_def char_of_def upt_rec)
  then have "trim_space s = s" if "s \<in> {''Halle'', ''Linz'', ''ATU1'', ''Ada L''}" for s
    using that by (simp add: trim_space_def trim_plain)
  from this [of "''Halle''"] this [of "''Linz''"] this [of "''ATU1''"] this [of "''Ada L''"]
  show "trim_space ''Halle'' \<noteq> []" "trim_space ''Linz'' \<noteq> []" "trim_space ''ATU1'' \<noteq> []" "trim_space ''Ada L'' = ''Ada L''"
    by simp_all
qed

lemma example_ok: "office_ok example_office"
proof -
  have "sound_ledger example_books" using example_sound(1) by (simp add: example_books_def)
  moreover have "autos_full example_books" using example_sound(2) by (simp add: example_books_def autos_full_def)
  moreover have "books_ok example_books" by (simp add: books_ok_def linked_def example_books_def example_defs)
  moreover have "lg_invoices example_books = []" by (simp add: example_books_def example_defs)
  ultimately show ?thesis by (simp add: office_ok_def example_office_def List.map_filter_def)
qed

definition example_line :: invoice_line where
  "example_line = \<lparr>oi_Date = utc_midnight 19400, oi_Kind = ''charge'', oi_ID = 8, oi_Period = [], oi_Label = ''Reinigung'',
     oi_Quantity = 2, oi_UnitAmount = 25, oi_LineTotal = 50, il_End = None\<rparr>"

lemma example_lines: "invoiceLinesFrom env (of_ledger example_office) 3 = [example_line]"
proof -
  have "line_total 25 2 = 50" by (rule deposit_cents)
  moreover have "fl (5 / 1000) < 50" using half_cent(2) by linarith
  ultimately show ?thesis
    by (simp add: invoiceLinesFrom_def openOwedItemsFrom_def vehicle_items_def charge_items_def vehicle_lines_def bound_lines_def
        agreement_lines_def recurring_lines_def lockedPositionsFrom_def person_vehicles_def person_agreements_def
        person_recurring_def claimed_def with_end_def List.map_filter_def example_line_def example_office_def example_books_def example_defs)
qed

text \<open>The open charge of 50 euros is invoiced with 10 euros of tax.\<close>

lemma example_whole: "oi_LineTotal example_line = euros 5000" "cents_of example_line = 5000"
proof -
  have e: "euros 5000 = 50"
    using fl_of_int [of 50] fl_of_int [of 5000] by (simp add: euros_def f_div_def f_of_int_def)
  then show "oi_LineTotal example_line = euros 5000" by (simp add: example_line_def)
  then show "cents_of example_line = 5000" using toCents_euros [of 5000] by (simp add: cents_of_def)
qed

lemma example_billable: "billable example_env example_office 3"
proof -
  have "line_sum [example_line] = 5000" by (simp add: line_sum_def example_whole(2))
  moreover have "oi_LineTotal example_line \<le> 10 ^ 8" by (simp add: example_line_def)
  ultimately show ?thesis
    unfolding billable_def example_lines Let_def using example_numeric
    by (simp add: example_office_def example_settings_def austrianRates_def)
qed

lemma example_gross: "\<exists>T. invoice_amounts example_settings [example_line] = (euros 5000, 20, euros T, euros (5000 + T)) \<and> \<bar>100 * T - 100000\<bar> \<le> 50"
proof -
  obtain subtotal rate tax amount where a: "invoice_amounts example_settings [example_line] = (subtotal, rate, tax, amount)"
    by (metis prod_cases4)
  have r: "rate = 20" using a by (auto simp: invoice_amounts_def example_settings_def Let_def)
  note b = billable_lines [OF example_billable example_lines [symmetric]]
  obtain T R where t: "rate = of_int R" "subtotal = euros (line_sum [example_line])" "tax = euros T" "amount = euros (line_sum [example_line] + T)"
    "\<bar>100 * T - line_sum [example_line] * R\<bar> \<le> 50"
    using amounts_exact [OF a b(1-3)] b(4) by (auto simp: example_office_def)
  have "R = 20" using r t(1) by simp
  then show ?thesis using t a r by (auto simp: line_sum_def example_whole(2))
qed

lemma example_issue: "\<exists>d Off. create_invoice_tx example_env 3 [] example_office = Inr (d, Off)"
proof -
  obtain T where a: "invoice_amounts example_settings [example_line] = (euros 5000, 20, euros T, euros (5000 + T))" "\<bar>100 * T - 100000\<bar> \<le> 50"
    using example_gross by blast
  have "euros (5000 + T) \<le> euros 40000" using a(2) by (simp add: euros_le_iff)
  also have "euros 40000 = 400"
    using fl_of_int [of 400] fl_of_int [of 40000] by (simp add: euros_def f_div_def f_of_int_def)
  finally have ok: "invoiceComplianceDetail example_settings (trim_space ''Ada L'') ''Wien'' (euros (5000 + T)) = None"
    by (simp add: invoiceComplianceDetail_def compliance_missing_def example_settings_def example_trims example_trims(4) austrianRates_def)
  define d where "d = new_invoice example_env 3 [] (''Ada'', ''L'', ''Wien'') [example_line] example_office"
  obtain Off1 where i: "insert_doc d 0 example_office = Inr Off1" by (simp add: insert_doc_def example_office_def)
  have "lg_sources (of_ledger Off1) = []" "claimed (of_ledger Off1) ''charge'' 8 = False"
    by (simp_all add: insert_doc_Inr(6) [OF i] add_row_def claimed_def example_office_def example_books_def example_defs)
  then have "\<exists>L. claim_sources (dc_ID d) [example_line] (of_ledger Off1) = Inr L" by (simp add: example_line_def claim_source_def)
  then obtain L where "claim_sources (dc_ID d) [example_line] (of_ledger Off1) = Inr L" by blast
  moreover have "of_people example_office 3 = Some (''Ada'', ''L'', ''Wien'')" "of_settings example_office = example_settings"
    by (simp_all add: example_office_def)
  ultimately show ?thesis
    using ok unfolding create_invoice_tx_def example_lines Let_def by (simp add: a(1) i d_def [symmetric])
qed

end
