(* ===== verification/Invoice_Properties.thy ===== *)
theory Invoice_Properties
  imports Invoice_Examples
begin

text \<open>
  What the invoices promise: the books agree with the payments, a document is a sum of cents with
  the tax of its rate, a position is billed once, a cancelled document is balanced and gives its
  positions back, and numbers are consecutive.
\<close>

text \<open>C30: in every run of the office, from a consistent state, the books stay consistent: what an
invoice shows as paid is exactly the sum of the payments linked to it and never more than its
total, payments are linked to invoices that stand only, every invoice row has its document, and an
invoice is cancelled exactly when one counter document with its negated amounts exists.\<close>

theorem office_books_agree:
  assumes "office_step\<^sup>*\<^sup>* Off Off'" "office_ok Off"
  shows "\<forall>i \<in> set (lg_invoices (of_ledger Off')).
      iv_Paid i = (\<Sum>a \<leftarrow> filter (\<lambda>a. ip_Invoice a = iv_ID i) (lg_invpays (of_ledger Off')). ip_Amount a)
      \<and> (iv_Cancels i = None \<longrightarrow> 0 \<le> iv_Paid i \<and> iv_Paid i \<le> iv_Total i)
      \<and> (\<exists>d \<in> set (of_docs Off'). doc_part d = row_part i)
      \<and> (iv_Canceled i \<longleftrightarrow> (\<exists>c \<in> set (of_docs Off'). dc_CancelsID c = Some (iv_ID i) \<and> dc_Total c = - iv_Total i))"
proof -
  have ok: "office_ok Off'" using office.run_keeps [OF assms] .
  note o = office_okD [OF ok] and b = books_okD [OF office_okD(3) [OF ok]]
  have one: "i = j" if "i \<in> set (lg_invoices (of_ledger Off'))" "j \<in> set (lg_invoices (of_ledger Off'))" "iv_ID i = iv_ID j" for i j
    using unique_invoice [OF o(3) that] .
  have "iv_Canceled i \<longleftrightarrow> (\<exists>c \<in> set (of_docs Off'). dc_CancelsID c = Some (iv_ID i) \<and> dc_Total c = - iv_Total i)"
    if i: "i \<in> set (lg_invoices (of_ledger Off'))" for i
  proof -
    have "set (map iv_ID (filter iv_Canceled (lg_invoices (of_ledger Off')))) = set (List.map_filter dc_CancelsID (of_docs Off'))"
      using mset_eq_setD [OF o(8)] .
    then have m: "iv_Canceled i \<longleftrightarrow> (\<exists>c \<in> set (of_docs Off'). dc_CancelsID c = Some (iv_ID i))"
      using i one in_map_filter [of "iv_ID i" dc_CancelsID] by fastforce
    have "dc_Total c = - iv_Total i" if c: "c \<in> set (of_docs Off')" "dc_CancelsID c = Some (iv_ID i)" for c
    proof -
      obtain d where d: "d \<in> set (of_docs Off')" "undoes c d" using o(7) [OF c(1)] c(2) by blast
      then obtain j where "j \<in> set (lg_invoices (of_ledger Off'))" "row_part j = doc_part d"
        using row_of_doc [OF ok] by blast
      then show ?thesis using one [OF i, of j] d(2) c(2) by (auto simp: undoes_def row_part_def doc_part_def)
    qed
    then show ?thesis using m by blast
  qed
  moreover have "0 \<le> linked (of_ledger Off') k" for k
    unfolding linked_def using soundD(6) [OF o(1)] by (intro sum_list_int_nonneg) fastforce
  ultimately show ?thesis using b(3,4) doc_of_row [OF ok] by (simp add: linked_def)
qed

theorem office_books_agree_witness:
  "\<exists>d Off. create_invoice_tx example_env 3 [] example_office = Inr (d, Off) \<and> of_docs Off = [d]
    \<and> map iv_Paid (lg_invoices (of_ledger Off)) = [0] \<and> map iv_Canceled (lg_invoices (of_ledger Off)) = [False]
    \<and> linked (of_ledger Off) (dc_ID d) = 0"
proof -
  obtain d Off where c: "create_invoice_tx example_env 3 [] example_office = Inr (d, Off)" using example_issue by blast
  note p = issue_parts [OF c]
  have "office_step\<^sup>*\<^sup>* example_office Off" by (intro r_into_rtranclp issue [OF example_billable c])
  from office_books_agree [OF this example_ok] p(9) have "linked (of_ledger Off) (dc_ID d) = 0" by (simp add: linked_def)
  then show ?thesis using c p by (simp add: example_office_def example_books_def example_defs)
qed

text \<open>C31: the subtotal of an issued invoice is the sum of its lines in cents, the tax is the
subtotal times the rate to the nearest cent, never off by more than half a cent, the total is their
sum, and the document bears the next number of the settings.\<close>

theorem issued_amounts_are_exact:
  assumes "billable env Off person" "create_invoice_tx env person remark Off = Inr (d, Off')"
  shows "dc_Subtotal d = (\<Sum>it \<leftarrow> dc_Items d. di_LineTotal it)
    \<and> \<bar>of_int (100 * dc_TaxAmount d) - of_int (dc_Subtotal d) * dc_UStRate d\<bar> \<le> 50
    \<and> dc_Total d = dc_Subtotal d + dc_TaxAmount d \<and> dc_Number d = invoice_number (of_settings Off)"
proof -
  let ?its = "invoiceLinesFrom env (of_ledger Off) person"
  obtain first lst address where d: "d = new_invoice env person remark (first, lst, address) ?its Off"
    by (rule create_invoice_parts [OF assms(2)])
  note e = new_invoice_exact [OF assms(1) refl d]
  show ?thesis using e issue_parts(5) [OF assms(2)] by (simp add: line_sum_def)
qed

theorem issued_amounts_are_exact_witness:
  "\<exists>d Off. create_invoice_tx example_env 3 [] example_office = Inr (d, Off)
    \<and> dc_Subtotal d = (\<Sum>it \<leftarrow> dc_Items d. di_LineTotal it) \<and> dc_Total d = dc_Subtotal d + dc_TaxAmount d
    \<and> dc_Number d = invoice_number example_settings"
proof -
  obtain d Off where c: "create_invoice_tx example_env 3 [] example_office = Inr (d, Off)" using example_issue by blast
  from issued_amounts_are_exact [OF example_billable c] c show ?thesis by (auto simp: example_office_def)
qed

definition line_key :: "invoice_line \<Rightarrow> string \<times> int \<times> string" where
  "line_key it = (oi_Kind it, oi_ID it, oi_Period it)"

text \<open>C32: once a position is billed it is not offered again while its invoice stands, whatever
happens in between: no later invoice of the person has a line for it.\<close>

theorem billed_positions_are_not_offered:
  assumes "office_ok Off" "create_invoice_tx env person remark Off = Inr (d, Off1)" "office_ok Off1" "office_step\<^sup>*\<^sup>* Off1 Off2"
    "\<not> (\<exists>i \<in> set (lg_invoices (of_ledger Off2)). iv_ID i = dc_ID d \<and> iv_Canceled i)"
  shows "line_key ` set (invoiceLinesFrom env' (of_ledger Off2) person) \<inter> line_key ` set (invoiceLinesFrom env (of_ledger Off) person) = {}"
proof (rule ccontr)
  assume "\<not> ?thesis"
  then obtain it it' where it: "it \<in> set (invoiceLinesFrom env (of_ledger Off) person)"
    "it' \<in> set (invoiceLinesFrom env' (of_ledger Off2) person)" and same: "line_key it' = line_key it" by fastforce
  note p = issue_parts [OF assms(2)]
  let ?i = "\<lparr>iv_ID = dc_ID d, iv_PersonID = dc_PersonID d, iv_Canceled = False, iv_Cancels = None, iv_Total = dc_Total d, iv_Paid = 0\<rparr>"
    and ?s = "source_row_of (dc_ID d) it"
  have "?i \<in> set (lg_invoices (of_ledger Off1))" "?s \<in> set (lg_sources (of_ledger Off1))" using it(1) by (simp_all add: p(9))
  moreover have "so_Invoice ?s = iv_ID ?i" by (simp add: source_row_of_def)
  moreover have "advances Off1 Off2" using run_advances [OF assms(4,3)] by blast
  ultimately obtain j where j: "j \<in> set (lg_invoices (of_ledger Off2))" "row_part j = row_part ?i"
    "\<not> iv_Canceled j \<longrightarrow> ?s \<in> set (lg_sources (of_ledger Off2))"
    unfolding advances_def by blast
  have ids: "iv_ID j = dc_ID d" "iv_PersonID j = person" using j(2) p(4) by (simp_all add: row_part_def)
  then have s: "?s \<in> set (lg_sources (of_ledger Off2))" "\<not> iv_Canceled j" using j assms(5) by blast+
  have "\<exists>i \<in> set (lg_invoices (of_ledger Off2)). iv_ID i = so_Invoice ?s \<and> iv_PersonID i = person \<and> \<not> iv_Canceled i"
    using j(1) ids s(2) by (intro bexI [of _ j]) (simp_all add: source_row_of_def)
  then have "lockKey (so_Kind ?s) (so_Ref ?s) (so_Period ?s) \<in> set (lockedPositionsFrom (of_ledger Off2) person)"
    using s(1) by (auto simp: lockedPositionsFrom_def intro!: image_eqI [of _ _ ?s])
  then show False using lines_whole(2) [OF it(2)] same by (simp add: source_row_of_def line_key_def)
qed

text \<open>In the example, reversing the payment of the other charge offers that one, and only that one.\<close>

lemma example_reopened:
  assumes "create_invoice_tx example_env 3 [] example_office = Inr (d, Off)"
  shows "\<exists>L. delete_payment_tx example_env 1 (of_ledger Off) = Inr L \<and> lg_invoices L = lg_invoices (of_ledger Off)
    \<and> map line_key (invoiceLinesFrom env L 3) = [(''charge'', 7, [])]"
proof -
  let ?L = "of_ledger Off"
  note p = issue_parts [OF assms]
  have L: "?L = example_books\<lparr>lg_invoices := [\<lparr>iv_ID = 1, iv_PersonID = 3, iv_Canceled = False, iv_Cancels = None, iv_Total = dc_Total d, iv_Paid = 0\<rparr>],
      lg_sources := [\<lparr>so_Invoice = 1, so_Kind = ''charge'', so_Ref = 8, so_Period = []\<rparr>]\<rparr>"
    unfolding p(9) p(3,4) example_lines by (simp add: example_office_def example_books_def example_defs source_row_of_def example_line_def)
  let ?M = "?L\<lparr>lg_payments := [example_payment\<lparr>pm_Reversed := True\<rparr>], lg_allocs := [],
      lg_charges := [example_charge\<lparr>ch_Paid := False\<rparr>, example_charge\<lparr>ch_ID := 8, ch_Paid := False\<rparr>]\<rparr>"
  have "protectPaymentChangesTx ?L [1] [] = None"
    by (simp add: L protectPaymentChangesTx_def guarded_years_def taxRuleYear_def periodicKinds_def example_books_def example_defs example_years)
  then have "delete_payment_tx example_env 1 ?L = Inr ?M"
    unfolding delete_payment_tx_def
    by (simp add: L example_books_def example_defs release_payment_def unstamp_def claimed_def set_charge_paid_def
        reopenPaymentBankTransactionsTx_def reopenUncoveredVehiclesTx_def)
  moreover have "map line_key (invoiceLinesFrom env ?M 3) = [(''charge'', 7, [])]"
  proof -
    have "line_total 25 2 = 50" by (rule deposit_cents)
    moreover have "fl (5 / 1000) < 50" using half_cent(2) by linarith
    moreover have "fmt_int 7 = ''7''" "fmt_int 8 = ''8''" by (simp_all add: fmt_int_def digits.simps)
    ultimately show ?thesis
      by (simp add: Let_def invoiceLinesFrom_def openOwedItemsFrom_def vehicle_items_def charge_items_def vehicle_lines_def bound_lines_def
          agreement_lines_def recurring_lines_def lockedPositionsFrom_def person_vehicles_def person_agreements_def
          person_recurring_def claimed_def with_end_def List.map_filter_def line_key_def L example_books_def example_defs
          lockKey_def before_last_colon_def)
  qed
  ultimately show ?thesis by (intro exI [of _ ?M]) simp
qed

theorem billed_positions_are_not_offered_witness:
  "\<exists>d Off L. create_invoice_tx example_env 3 [] example_office = Inr (d, Off) \<and> delete_payment_tx example_env 1 (of_ledger Off) = Inr L
    \<and> line_key ` set (invoiceLinesFrom example_env L 3) = {(''charge'', 7, [])}
    \<and> line_key ` set (invoiceLinesFrom example_env L 3) \<inter> line_key ` set (invoiceLinesFrom example_env (of_ledger example_office) 3) = {}"
proof -
  obtain d Off where c: "create_invoice_tx example_env 3 [] example_office = Inr (d, Off)" using example_issue by blast
  obtain L where L: "delete_payment_tx example_env 1 (of_ledger Off) = Inr L" "lg_invoices L = lg_invoices (of_ledger Off)"
    "map line_key (invoiceLinesFrom example_env L 3) = [(''charge'', 7, [])]"
    using example_reopened [OF c, of example_env] by (elim exE conjE)
  have run: "office_step\<^sup>*\<^sup>* Off (Off\<lparr>of_ledger := L\<rparr>)" by (intro r_into_rtranclp book reverse_payment [OF L(1)])
  have stands: "\<not> (\<exists>i \<in> set (lg_invoices (of_ledger (Off\<lparr>of_ledger := L\<rparr>))). iv_ID i = dc_ID d \<and> iv_Canceled i)"
    using L(2) issue_parts(9) [OF c] by (simp add: example_office_def example_books_def example_defs)
  from billed_positions_are_not_offered [OF example_ok c issue_keeps [OF example_ok example_billable c] run stands, where env' = example_env]
  have "line_key ` set (invoiceLinesFrom example_env L 3) \<inter> line_key ` set (invoiceLinesFrom example_env (of_ledger example_office) 3) = {}"
    by simp
  moreover have "line_key ` set (invoiceLinesFrom example_env L 3) = {(''charge'', 7, [])}"
    using arg_cong [OF L(3), of set] by simp
  ultimately show ?thesis using c L(1) by blast
qed

text \<open>Of the invoices, the lines only see which positions are locked.\<close>

lemma invoices_frame:
  "person_vehicles (L\<lparr>lg_invoices := is\<rparr>) = person_vehicles L"
  "person_agreements (L\<lparr>lg_invoices := is\<rparr>) = person_agreements L"
  "person_recurring (L\<lparr>lg_invoices := is\<rparr>) = person_recurring L"
  "vehicle_items env (L\<lparr>lg_invoices := is\<rparr>) = vehicle_items env L"
  "charge_items (L\<lparr>lg_invoices := is\<rparr>) = charge_items L"
  "vehicle_lines env (L\<lparr>lg_invoices := is\<rparr>) = vehicle_lines env L"
  "claimed (L\<lparr>lg_invoices := is\<rparr>) = claimed L"
  "lg_charges (L\<lparr>lg_invoices := is\<rparr>) = lg_charges L"
  by (simp_all add: person_vehicles_def person_agreements_def person_recurring_def vehicle_items_def vehicle_accrued_def
      charge_items_def claimed_def vehicle_lines_def fun_eq_iff)

lemma lines_frame:
  assumes "lockedPositionsFrom (L\<lparr>lg_invoices := is\<rparr>) person = lockedPositionsFrom L person"
  shows "invoiceLinesFrom env (L\<lparr>lg_invoices := is\<rparr>) person = invoiceLinesFrom env L person"
proof -
  have "bound_lines (L\<lparr>lg_invoices := is\<rparr>) person = bound_lines L person"
    unfolding bound_lines_def invoices_frame ..
  then show ?thesis
    using assms unfolding invoiceLinesFrom_def Let_def openOwedItemsFrom_def agreement_lines_def recurring_lines_def invoices_frame
    by simp
qed

text \<open>A line for the rent of a vehicle is one of a vehicle that is not archived.\<close>

lemma concat_lines:
  assumes "it \<in> set (concat (map (\<lambda>v. periodOwedLines (P v) t kind (ref v) (base v) locked (paid v)) vs))"
  shows "oi_Kind it = kind \<and> (\<exists>v \<in> set vs. oi_ID it = ref v)"
  using assms by (auto simp: periodOwedLines_def in_map_filter period_line_def Let_def split: if_splits)

lemma rent_line_open:
  assumes "it \<in> set (invoiceLinesFrom env L person)" "oi_Kind it = ''vehicle''"
  shows "\<exists>v \<in> set (lg_vehicles L). vh_ID v = oi_ID it \<and> \<not> vh_Archived v"
proof -
  have "oi_Kind it \<noteq> ''vehicle''" if "it \<in> set (bound_lines L person)"
    using that by (auto simp: bound_lines_def in_map_filter split: option.splits if_splits)
  moreover have "oi_Kind it \<noteq> ''vehicle''" if "it \<in> set (agreement_lines env L person (lockedPositionsFrom L person))"
    using concat_lines [OF that [unfolded agreement_lines_def]] by simp
  moreover have "oi_Kind it \<noteq> ''vehicle''" if "it \<in> set (recurring_lines env L person (lockedPositionsFrom L person))"
    using concat_lines [OF that [unfolded recurring_lines_def Let_def]] by simp
  ultimately have "it \<in> set (vehicle_lines env L person (lockedPositionsFrom L person))"
    using assms by (auto simp: invoiceLinesFrom_def Let_def with_end_def)
  from concat_lines [OF this [unfolded vehicle_lines_def Let_def]] show ?thesis
    by (auto simp: person_vehicles_def)
qed

text \<open>The ledger after issuing an invoice and cancelling it: the vehicles of its rent lines were open
  before, so none has to be opened again.\<close>

lemma round_trip_ledger:
  assumes "office_ok Off" "distinct (map vh_ID (lg_vehicles (of_ledger Off)))"
    and "create_invoice_tx env person remark Off = Inr (d, Off1)" "cancel_invoice_tx env' d Off1 = Inr (c, Off2)"
  shows "of_ledger Off2 = (of_ledger Off)\<lparr>lg_invoices := lg_invoices (of_ledger Off) @
     [\<lparr>iv_ID = dc_ID d, iv_PersonID = person, iv_Canceled = True, iv_Cancels = None, iv_Total = dc_Total d, iv_Paid = 0\<rparr>,
      \<lparr>iv_ID = dc_ID d + 1, iv_PersonID = person, iv_Canceled = False, iv_Cancels = Some (dc_ID d), iv_Total = - dc_Total d, iv_Paid = 0\<rparr>]\<rparr>"
proof -
  note p = issue_parts [OF assms(3)]
  let ?L = "of_ledger Off" and ?its = "invoiceLinesFrom env (of_ledger Off) person"
  obtain Off3 where q: "c = counter_doc env' d Off1" "insert_doc c 0 Off1 = Inr Off3"
    "Off2 = Off3\<lparr>of_ledger := reopenUncoveredVehiclesTx (businessDay (pe_now env')) (invoiceVehicleIDsTx (of_ledger Off1) [dc_ID d])
       (release_invoice (dc_ID d) (of_ledger Off3))\<rparr>"
    by (rule cancel_parts [OF assms(4)])
  note i = insert_doc_Inr [OF q(2)] and n = counter_parts [of env' d Off1, folded q(1)]
  have fresh: "iv_ID i \<noteq> dc_ID d" if "i \<in> set (lg_invoices ?L)" for i
    using row_below [OF assms(1) that] p(3) by simp
  then have rows: "map (cancel_row (dc_ID d)) (lg_invoices ?L) = lg_invoices ?L"
    by (intro map_idI) (simp add: cancel_row_def)
  have old: "so_Invoice s \<noteq> dc_ID d" if "s \<in> set (lg_sources ?L)" for s
    using issued_id [OF books_okD(6) [OF office_okD(3) [OF assms(1)] that]] fresh by fastforce
  then have sources: "filter (\<lambda>s. so_Invoice s \<noteq> dc_ID d) (lg_sources ?L @ map (source_row_of (dc_ID d)) its) = lg_sources ?L" for its
    by (simp add: source_row_of_def)
  have "ip_Invoice a \<noteq> dc_ID d" if "a \<in> set (lg_invpays ?L)" for a
    using issued_id [OF books_okD(2) [OF office_okD(3) [OF assms(1)] that]] fresh by fastforce
  then have links: "filter (\<lambda>a. ip_Invoice a \<noteq> dc_ID d) (lg_invpays ?L) = lg_invpays ?L" by simp
  have "\<not> vh_Archived v" if v: "v \<in> set (lg_vehicles ?L)" "vh_ID v \<in> set (invoiceVehicleIDsTx (of_ledger Off1) [dc_ID d])" for v
  proof -
    obtain it where "it \<in> set ?its" "oi_Kind it = ''vehicle''" "oi_ID it = vh_ID v"
      using v(2) old by (auto simp: invoiceVehicleIDsTx_def p(9) source_row_of_def)
    from rent_line_open [OF this(1,2)] this(3) v(1) assms(2) show ?thesis by (auto dest: map_inj_on simp: distinct_map inj_on_def)
  qed
  then have reopen: "reopenUncoveredVehiclesTx t (invoiceVehicleIDsTx (of_ledger Off1) [dc_ID d]) M = M"
    if "lg_vehicles M = lg_vehicles ?L" for t M
    unfolding reopenUncoveredVehiclesTx_def using that by (subst map_idI) auto
  have "lg_vehicles (release_invoice (dc_ID d) (of_ledger Off3)) = lg_vehicles ?L"
    by (simp add: release_invoice_def i(6) add_row_def p(9))
  from reopen [OF this] show ?thesis
    using rows sources links
    by (simp only: q(3)) (simp add: release_invoice_def i(6) add_row_def n p(2,3,4,9) cancel_row_def [symmetric], simp add: cancel_row_def)
qed

lemma fresh_cancel:
  assumes "office_ok Off" "create_invoice_tx env person remark Off = Inr (d, Off1)"
    "invoice_number (of_settings Off1) \<notin> dc_Number ` set (of_docs Off1)"
  shows "\<exists>c Off2. cancel_invoice_tx env' d Off1 = Inr (c, Off2)"
proof -
  note p = issue_parts [OF assms(2)]
  let ?L = "of_ledger Off"
  have fresh: "k \<noteq> dc_ID d" if "issued (lg_invoices ?L) k" for k
    using issued_id [OF that] fresh_id [OF assms(1)] p(3) by metis
  have "filter (\<lambda>a. ip_Invoice a = dc_ID d) (lg_invpays ?L) = []"
    using books_okD(2) [OF office_okD(3) [OF assms(1)]] fresh unfolding filter_empty_conv by blast
  then have free: "protectPaymentChangesTx (of_ledger Off1) (sort (map ip_Payment (filter (\<lambda>a. ip_Invoice a = dc_ID d) (lg_invpays (of_ledger Off1))))) [] = None"
    by (simp add: p(9) protectPaymentChangesTx_def guarded_years_def)
  obtain Off3 where o3: "insert_doc (counter_doc env' d Off1) 0 Off1 = Inr Off3"
  proof -
    have "\<not> (\<exists>e \<in> set (of_docs Off1). dc_Number e = dc_Number (counter_doc env' d Off1))"
      using assms(3) by (force simp: counter_parts)
    then show thesis using that unfolding insert_doc_def by (simp only: if_False)
  qed
  have "\<exists>i \<in> set (lg_invoices (of_ledger Off3)). iv_ID i = dc_ID d \<and> \<not> iv_Canceled i"
    by (simp add: insert_doc_Inr(6) [OF o3] add_row_def p(9))
  then show ?thesis
    unfolding cancel_invoice_tx_def Let_def free by (simp add: o3)
qed

lemma example_free:
  assumes "create_invoice_tx example_env 3 [] example_office = Inr (d, Off)"
  shows "invoice_number (of_settings Off) \<notin> dc_Number ` set (of_docs Off)"
proof -
  note p = issue_parts [OF assms]
  have "invoice_number (example_settings\<lparr>bs_NextInvoiceNo := 2\<rparr>) \<noteq> invoice_number example_settings"
    by (simp add: invoice_number_def example_settings_def fmt_0d_def zero_pad_def digits.simps)
  then show ?thesis using p(1,5,8) by (simp add: example_office_def example_settings_def)
qed

text \<open>C33: an invoice that is cancelled again leaves no trace but its two documents: the counter
document negates it, the tables are as they were except for the two new rows of the invoices, which
owe nothing together, and everybody is offered exactly the same lines again. Cancelling never fails
when the next number is free.\<close>

theorem storno_gives_back:
  assumes "office_ok Off" "distinct (map vh_ID (lg_vehicles (of_ledger Off)))" "create_invoice_tx env person remark Off = Inr (d, Off1)"
    "invoice_number (of_settings Off1) \<notin> dc_Number ` set (of_docs Off1)"
  shows "\<exists>c Off2. cancel_invoice_tx env' d Off1 = Inr (c, Off2) \<and> undoes c d \<and> of_docs Off2 = of_docs Off @ [d, c]
    \<and> of_ledger Off2 = (of_ledger Off)\<lparr>lg_invoices := lg_invoices (of_ledger Off) @
       [\<lparr>iv_ID = dc_ID d, iv_PersonID = person, iv_Canceled = True, iv_Cancels = None, iv_Total = dc_Total d, iv_Paid = 0\<rparr>,
        \<lparr>iv_ID = dc_ID c, iv_PersonID = person, iv_Canceled = False, iv_Cancels = Some (dc_ID d), iv_Total = - dc_Total d, iv_Paid = 0\<rparr>]\<rparr>
    \<and> (\<forall>env q. invoiceLinesFrom env (of_ledger Off2) q = invoiceLinesFrom env (of_ledger Off) q)"
proof -
  note p = issue_parts [OF assms(3)]
  let ?L = "of_ledger Off"
  obtain c Off2 where c: "cancel_invoice_tx env' d Off1 = Inr (c, Off2)" using fresh_cancel [OF assms(1,3,4)] by blast
  have id: "dc_ID c = dc_ID d + 1" unfolding storno_parts(2) [OF c] by (simp add: counter_parts p(2,3))
  note L = round_trip_ledger [OF assms(1-3) c, folded id]
  have below: "so_Invoice s < dc_ID d" if "s \<in> set (lg_sources ?L)" for s
    using issued_id [OF books_okD(6) [OF office_okD(3) [OF assms(1)] that]] row_below [OF assms(1)] p(3) by fastforce
  let ?rows = "lg_invoices ?L @
       [\<lparr>iv_ID = dc_ID d, iv_PersonID = person, iv_Canceled = True, iv_Cancels = None, iv_Total = dc_Total d, iv_Paid = 0\<rparr>,
        \<lparr>iv_ID = dc_ID c, iv_PersonID = person, iv_Canceled = False, iv_Cancels = Some (dc_ID d), iv_Total = - dc_Total d, iv_Paid = 0\<rparr>]"
  have "lockedPositionsFrom (?L\<lparr>lg_invoices := ?rows\<rparr>) q = lockedPositionsFrom ?L q" for q
    unfolding lockedPositionsFrom_def using below id by (fastforce intro!: arg_cong [of _ _ "map _"] filter_cong)
  then have lines: "invoiceLinesFrom env (of_ledger Off2) q = invoiceLinesFrom env ?L q" for env q
    unfolding L by (rule lines_frame)
  have "undoes c d" unfolding storno_parts(2) [OF c] undoes_def using p(6) by (simp add: counter_parts)
  moreover have "of_docs Off2 = of_docs Off @ [d, c]" using storno_parts(1) [OF c] p(1) by simp
  ultimately show ?thesis using c L lines by blast
qed

theorem storno_gives_back_witness:
  "\<exists>d Off c Off2. create_invoice_tx example_env 3 [] example_office = Inr (d, Off)
    \<and> cancel_invoice_tx example_env d Off = Inr (c, Off2) \<and> undoes c d \<and> of_docs Off2 = [d, c]
    \<and> invoiceLinesFrom example_env (of_ledger Off2) 3 = [example_line]"
proof -
  obtain d Off where c: "create_invoice_tx example_env 3 [] example_office = Inr (d, Off)" using example_issue by blast
  have "distinct (map vh_ID (lg_vehicles (of_ledger example_office)))" "of_docs example_office = []"
    by (simp_all add: example_office_def example_books_def example_defs)
  with storno_gives_back [OF example_ok _ c example_free [OF c], of example_env] c example_lines show ?thesis by auto
qed

subsection \<open>Numbers\<close>

definition next_no :: "office \<Rightarrow> int" where
  "next_no Off = bs_NextInvoiceNo (of_settings Off)"

text \<open>A run of the office with what each step did: issued a document (an invoice or a counter
  document), booked money, or saved the requested settings.\<close>

datatype desk_event = Issued | Booked | Saved billing_settings

inductive desk_run :: "desk_event list \<Rightarrow> office \<Rightarrow> office \<Rightarrow> bool" where
  run_start: "desk_run [] Off Off"
| run_issue: "desk_run es Off A \<Longrightarrow> billable env A person \<Longrightarrow> create_invoice_tx env person remark A = Inr (d, B)
    \<Longrightarrow> desk_run (es @ [Issued]) Off B"
| run_storno: "desk_run es Off A \<Longrightarrow> d \<in> set (of_docs A) \<Longrightarrow> dc_CancelsID d = None \<Longrightarrow> cancel_invoice_tx env d A = Inr (c, B)
    \<Longrightarrow> desk_run (es @ [Issued]) Off B"
| run_pay: "desk_run es Off A \<Longrightarrow> payable_books env A \<Longrightarrow> pq_Amount pr = euros x \<Longrightarrow> 0 < x \<Longrightarrow> x \<le> 10 ^ 11
    \<Longrightarrow> recordInvoicePaymentTx env person req pr paidOn k A = Inr ((pid, a, u, n, replayed), B) \<Longrightarrow> desk_run (es @ [Booked]) Off B"
| run_book: "desk_run es Off A \<Longrightarrow> ledger_step (of_ledger A) L \<Longrightarrow> desk_run (es @ [Booked]) Off (A\<lparr>of_ledger := L\<rparr>)"
| run_save: "desk_run es Off A \<Longrightarrow> SaveBillingSettings req (of_settings A) = (None, s)
    \<Longrightarrow> desk_run (es @ [Saved req]) Off (A\<lparr>of_settings := s\<rparr>)"

text \<open>The settings in force when each document is issued, and those at the end.\<close>

fun settings_due :: "billing_settings \<Rightarrow> desk_event list \<Rightarrow> billing_settings list \<times> billing_settings" where
  "settings_due s [] = ([], s)"
| "settings_due s (Issued # es) = map_prod (Cons s) id (settings_due (s\<lparr>bs_NextInvoiceNo := bs_NextInvoiceNo s + 1\<rparr>) es)"
| "settings_due s (Booked # es) = settings_due s es"
| "settings_due s (Saved req # es) = settings_due (snd (SaveBillingSettings req s)) es"

lemma settings_due_snoc:
  "settings_due s (es @ [e]) = (let (ss, t) = settings_due s es in
     case e of Issued \<Rightarrow> (ss @ [t], t\<lparr>bs_NextInvoiceNo := bs_NextInvoiceNo t + 1\<rparr>) | Booked \<Rightarrow> (ss, t)
     | Saved req \<Rightarrow> (ss, snd (SaveBillingSettings req t)))"
  by (induction s es rule: settings_due.induct) (auto split: desk_event.split prod.split)

lemma settings_due_no_save:
  "(\<And>req. Saved req \<notin> set es) \<Longrightarrow> settings_due s es
    = (map (\<lambda>k. s\<lparr>bs_NextInvoiceNo := bs_NextInvoiceNo s + int k\<rparr>) [0..<count_list es Issued],
       s\<lparr>bs_NextInvoiceNo := bs_NextInvoiceNo s + int (count_list es Issued)\<rparr>)"
proof (induction es rule: rev_induct)
  case (snoc e es)
  then have "\<And>req. Saved req \<notin> set es" "e = Issued \<or> e = Booked" by (auto intro: desk_event.exhaust [of e])
  with snoc.IH show ?case by (auto simp: settings_due_snoc)
qed simp

lemma save_counter: "bs_NextInvoiceNo s \<le> bs_NextInvoiceNo (snd (SaveBillingSettings req s))"
  by (simp add: SaveBillingSettings_def Let_def split: option.split)

lemma settings_due_rise:
  "settings_due s es = (ss, t) \<Longrightarrow> sorted_wrt (<) (map bs_NextInvoiceNo ss)
    \<and> (\<forall>x \<in> set ss. bs_NextInvoiceNo s \<le> bs_NextInvoiceNo x \<and> bs_NextInvoiceNo x < bs_NextInvoiceNo t)
    \<and> bs_NextInvoiceNo s \<le> bs_NextInvoiceNo t"
proof (induction es arbitrary: ss t rule: rev_induct)
  case (snoc e es)
  obtain ss' t' where r: "settings_due s es = (ss', t')" by (metis prod.exhaust)
  show ?case
    using snoc.prems snoc.IH [OF r] order.trans [OF _ save_counter [of t']] less_le_trans [OF _ save_counter [of t']]
    by (cases e) (force simp: settings_due_snoc r sorted_wrt_append)+
qed simp

lemma run_numbers:
  assumes "desk_run es Off Off'" "office_ok Off"
  shows "office_ok Off' \<and> of_settings Off' = snd (settings_due (of_settings Off) es)
    \<and> (\<exists>ds. of_docs Off' = of_docs Off @ ds \<and> map dc_Number ds = map invoice_number (fst (settings_due (of_settings Off) es)))"
  using assms
proof (induction rule: desk_run.induct)
  case (run_start Off)
  then show ?case by simp
next
  case (run_issue es Off A env person remark d B)
  have "office_ok B" by (rule office_step_keeps [OF office_step.issue [OF run_issue(2,3)]]) (use run_issue in simp)
  with run_issue issue_parts [OF run_issue(3)] show ?case by (force simp: settings_due_snoc split: prod.splits)
next
  case (run_storno es Off A d env c B)
  have "office_ok B" by (rule office_step_keeps [OF office_step.storno [OF run_storno(2-4)]]) (use run_storno in simp)
  with run_storno storno_parts [OF run_storno(4)] show ?case by (force simp: settings_due_snoc counter_parts split: prod.splits)
next
  case (run_pay es Off A env pr x person req paidOn k pid a u n replayed B)
  have "office_ok B" by (rule office_step_keeps [OF office_step.pay [OF run_pay(2-6)]]) (use run_pay in simp)
  moreover have "of_docs B = of_docs A \<and> of_settings B = of_settings A" using pay_ledger [OF _ run_pay(2-6)] run_pay by auto
  ultimately show ?case using run_pay by (force simp: settings_due_snoc split: prod.splits)
next
  case (run_book es Off A L)
  have "office_ok (A\<lparr>of_ledger := L\<rparr>)" by (rule office_step_keeps [OF office_step.book [OF run_book(2)]]) (use run_book in simp)
  with run_book show ?case by (force simp: settings_due_snoc split: prod.splits)
next
  case (run_save es Off A req s)
  have "office_ok (A\<lparr>of_settings := s\<rparr>)" by (rule office_step_keeps [OF office_step.save [OF run_save(2)]]) (use run_save in simp)
  with run_save show ?case by (force simp: settings_due_snoc split: prod.splits)
qed

lemma office_run_recorded: "office_step\<^sup>*\<^sup>* Off Off' \<Longrightarrow> \<exists>es. desk_run es Off Off'"
proof (induction rule: rtranclp_induct)
  case base
  show ?case using run_start by blast
next
  case (step A B)
  then obtain es where "desk_run es Off A" by blast
  with step(2) show ?case by (cases rule: office_step.cases) (blast intro: desk_run.intros)+
qed

text \<open>C34: issued documents never change, and the documents of a run, invoices and counter documents,
bear the numbers the settings show when they are issued: running numbers that only rise, that skip
nothing unless a saved setting raises the counter, and that are consecutive from the counter on when
no setting is saved.\<close>

theorem numbers_are_consecutive:
  assumes "desk_run es Off Off'" "office_ok Off"
  shows "\<exists>ds ss. settings_due (of_settings Off) es = (ss, of_settings Off')
    \<and> of_docs Off' = of_docs Off @ ds
    \<and> map dc_Number ds = map (\<lambda>s. bs_InvoicePrefix s @ fmt_0d (nat (bs_NumberPad s)) (bs_NextInvoiceNo s)) ss
    \<and> sorted_wrt (<) (map bs_NextInvoiceNo ss)
    \<and> ((\<forall>req. Saved req \<notin> set es) \<longrightarrow> map bs_NextInvoiceNo ss = map (\<lambda>k. next_no Off + int k) [0..<count_list es Issued]
         \<and> next_no Off' = next_no Off + int (count_list es Issued))"
proof -
  let ?ss = "fst (settings_due (of_settings Off) es)"
  have r: "settings_due (of_settings Off) es = (?ss, of_settings Off')" using run_numbers [OF assms] by simp
  obtain ds where ds: "of_docs Off' = of_docs Off @ ds" "map dc_Number ds = map invoice_number ?ss"
    using run_numbers [OF assms] by blast
  have "map bs_NextInvoiceNo ?ss = map (\<lambda>k. next_no Off + int k) [0..<count_list es Issued]
      \<and> next_no Off' = next_no Off + int (count_list es Issued)" if "\<forall>req. Saved req \<notin> set es"
    using settings_due_no_save [of es "of_settings Off"] that r by (auto simp: next_no_def dest!: sym [of _ "of_settings Off'"])
  then show ?thesis
    using r ds settings_due_rise [OF r] by (intro exI [of _ ds] exI [of _ ?ss]) (auto simp: invoice_number_def [abs_def])
qed

theorem numbers_are_consecutive_witness:
  "\<exists>d c Off Off2. create_invoice_tx example_env 3 [] example_office = Inr (d, Off)
    \<and> cancel_invoice_tx example_env d Off = Inr (c, Off2) \<and> next_no Off2 = 3
    \<and> map dc_Number [d, c] = map (\<lambda>n. bs_InvoicePrefix example_settings @ fmt_0d (nat (bs_NumberPad example_settings)) n) [1, 2]"
proof -
  obtain d Off where c: "create_invoice_tx example_env 3 [] example_office = Inr (d, Off)" using example_issue by blast
  obtain b Off2 where b: "cancel_invoice_tx example_env d Off = Inr (b, Off2)"
    using fresh_cancel [OF example_ok c example_free [OF c]] by blast
  have D: "of_docs Off2 = [d, b]" "dc_CancelsID d = None"
    using storno_parts(1) [OF b] issue_parts [OF c] by (simp_all add: example_office_def)
  have "desk_run ([] @ [Issued]) example_office Off" by (rule run_issue [OF run_start example_billable c])
  from run_storno [OF this _ D(2) b] have run: "desk_run [Issued, Issued] example_office Off2"
    using issue_parts(1) [OF c] by simp
  have e: "of_settings example_office = example_settings" "of_docs example_office = []" "bs_NextInvoiceNo example_settings = 1"
    by (simp_all add: example_office_def example_settings_def)
  from numbers_are_consecutive [OF run example_ok] D(1) have
    "map dc_Number [d, b] = map (\<lambda>n. bs_InvoicePrefix example_settings @ fmt_0d (nat (bs_NumberPad example_settings)) n) [1, 2]"
    "next_no Off2 = 3"
    by (auto simp: e next_no_def)
  then show ?thesis using c b by blast
qed

end
