(* ===== verification/Yard_Model.thy ===== *)
theory Yard_Model
  imports Invoice_Model
begin

text \<open>
  The vehicles in the hall (\<^verbatim>\<open>internal/handlers/vehicles.go\<close>, \<^verbatim>\<open>vehicle_closure.go\<close>, the places of
  \<^verbatim>\<open>stellplatz.go\<close>): creating, editing, deleting, copying and closing a vehicle, with the guards
  that keep what an invoice has billed. The record \<open>yard\<close> adds to the books what these handlers
  keep beside them; the columns of a vehicle that billing does not read are a \<open>vehicle_card\<close>.
\<close>

subsection \<open>State\<close>

record vehicle_card =
  vc_Notes :: string
  vc_ReservedFrom :: "time option"
  vc_ReservedUntil :: "time option"
  vc_NeedsPower :: bool
  vc_Symbol :: "string option"
  vc_Spot :: "int option"
  vc_CopiedFrom :: "int option"

record pause_row =
  pa_ID :: int
  pa_Vehicle :: int
  pa_From :: time
  pa_Until :: "time option"
  pa_Ended :: bool
  pa_HoldSpot :: bool
  pa_PrevSpot :: "int option"
  pa_Note :: string
  pa_Source :: string
  pa_PaidBefore :: "time option"

record status_entry =
  se_Vehicle :: int
  se_Old :: string
  se_New :: string
  se_Note :: string

record yard =
  yd_office :: office
  yd_cats :: "int list"
  yd_cards :: "int \<Rightarrow> vehicle_card"
  yd_spots :: "int list"
  yd_icons :: "int list"
  yd_handovers :: "int list"
  yd_attachments :: "int list"
  yd_pauses :: "pause_row list"
  yd_history :: "status_entry list"
  yd_frozen :: "int list"
  yd_next_vehicle :: int
  yd_next_pause :: int
  yd_next_agreement :: int

abbreviation yd_ledger :: "yard \<Rightarrow> ledger" where
  "yd_ledger Y \<equiv> of_ledger (yd_office Y)"

definition with_ledger :: "ledger \<Rightarrow> yard \<Rightarrow> yard" where
  "with_ledger L Y = Y\<lparr>yd_office := (yd_office Y)\<lparr>of_ledger := L\<rparr>\<rparr>"

definition with_vehicles :: "vehicle list \<Rightarrow> yard \<Rightarrow> yard" where
  "with_vehicles vs Y = with_ledger ((yd_ledger Y)\<lparr>lg_vehicles := vs\<rparr>) Y"

definition change_vehicle :: "int \<Rightarrow> (vehicle \<Rightarrow> vehicle) \<Rightarrow> yard \<Rightarrow> yard" where
  "change_vehicle vid f Y = with_vehicles (map (\<lambda>v. if vh_ID v = vid then f v else v) (lg_vehicles (yd_ledger Y))) Y"

definition change_card :: "int \<Rightarrow> (vehicle_card \<Rightarrow> vehicle_card) \<Rightarrow> yard \<Rightarrow> yard" where
  "change_card vid f Y = Y\<lparr>yd_cards := (yd_cards Y)(vid := f (yd_cards Y vid))\<rparr>"

definition free_spot :: "int \<Rightarrow> yard \<Rightarrow> yard" where
  "free_spot vid Y = change_card vid (\<lambda>c. c\<lparr>vc_Spot := None\<rparr>) Y"

definition find_vehicle :: "yard \<Rightarrow> int \<Rightarrow> vehicle option" where
  "find_vehicle Y vid = find (\<lambda>v. vh_ID v = vid) (lg_vehicles (yd_ledger Y))"

definition recordStatusTx :: "int \<Rightarrow> string \<Rightarrow> string \<Rightarrow> string \<Rightarrow> yard \<Rightarrow> yard" where
  "recordStatusTx vid oldStatus newStatus remark Y =
     Y\<lparr>yd_history := yd_history Y @ [\<lparr>se_Vehicle = vid, se_Old = oldStatus, se_New = newStatus, se_Note = remark\<rparr>]\<rparr>"

text \<open>What a handler answers when it does not do what it was asked: a rejected field, a missing row,
  or a rule that stands against it.\<close>

datatype yard_rule =
    Archived
  | Final_Period_Invoiced
  | Below_Invoiced
  | Financially_Locked
  | Owner_Referenced
  | Documents_Protected
  | Spot_Occupied
  | Not_Stored
  | Billed_Through time
  | Pause_Overlap
  | Pause_Ended
  | Paid_Through_Changed
  | Agreement_Overlap
  | Agreement_Invoiced
  | Agreement_Settled
  | Period_Invoiced
  | No_Complete_Period
  | Running_Period
  | Books conflict

datatype yard_error =
    Yard_Invalid string
  | Yard_Forbidden string
  | Yard_Missing
  | Yard_Conflict yard_rule
  | Yard_Failed

subsection \<open>Guards of billed positions\<close>

definition refInvoiced :: "ledger \<Rightarrow> string \<Rightarrow> int \<Rightarrow> bool" where
  "refInvoiced L kind ref = active_source L (\<lambda>s. so_Kind s = kind \<and> so_Ref s = ref)"

definition refFinanciallyLocked :: "ledger \<Rightarrow> string \<Rightarrow> int \<Rightarrow> bool" where
  "refFinanciallyLocked L kind ref \<longleftrightarrow>
     refInvoiced L kind ref
     \<or> (\<exists>a \<in> set (lg_allocs L). al_Kind a = kind \<and> al_Ref a = ref
          \<and> (\<exists>p \<in> set (lg_payments L). pm_ID p = al_Payment a \<and> \<not> pm_Reversed p))
     \<or> (\<exists>p \<in> set (lg_payments L). settles_one kind ref None p \<and> \<not> pm_Reversed p)"

definition invoiced_keys :: "ledger \<Rightarrow> string \<Rightarrow> int \<Rightarrow> string list" where
  "invoiced_keys L kind ref =
     map so_Period (filter (\<lambda>s. so_Kind s = kind \<and> so_Ref s = ref \<and> so_Period s \<noteq> []
       \<and> (\<exists>i \<in> set (lg_invoices L). iv_ID i = so_Invoice s \<and> \<not> iv_Canceled i)) (lg_sources L))"

definition endDateRetractsBelowInvoiced :: "ledger \<Rightarrow> string \<Rightarrow> int \<Rightarrow> time option \<Rightarrow> bool" where
  "endDateRetractsBelowInvoiced L kind ref newEnd =
     (case newEnd of
        None \<Rightarrow> False
      | Some e \<Rightarrow>
          (case invoiced_keys L kind ref of
             [] \<Rightarrow> False
           | k # ks \<Rightarrow> before (add_date e 0 0 1) (periodKeyEnd (foldl max k ks))))"

definition sameTaxDay :: "time \<Rightarrow> time \<Rightarrow> bool" where
  "sameTaxDay a b \<longleftrightarrow> time_date a = time_date b"

definition last_day_of_period :: "string \<Rightarrow> time \<Rightarrow> time" where
  "last_day_of_period period e =
     (if period = BillingYearly then date_utc (time_year e) 12 31
      else date_utc (time_year e) (time_month e + 1) 0)"

definition guardInvoicedPartialExtension ::
  "ledger \<Rightarrow> string \<Rightarrow> int \<Rightarrow> time option \<Rightarrow> time option \<Rightarrow> string \<Rightarrow> bool" where
  "guardInvoicedPartialExtension L kind ref oldEnd newEnd period =
     (case oldEnd of
        None \<Rightarrow> True
      | Some oe \<Rightarrow>
          if (case newEnd of None \<Rightarrow> False | Some ne \<Rightarrow> \<not> after ne oe) then True
          else if sameTaxDay oe (last_day_of_period period oe) then True
          else \<not> periodInvoicedTx L kind ref (if period = BillingYearly then format_year oe else format_month oe))"

definition sameOptionalDate :: "time option \<Rightarrow> time option \<Rightarrow> bool" where
  "sameOptionalDate a b =
     (case (a, b) of (Some x, Some y) \<Rightarrow> same_instant x y | (None, None) \<Rightarrow> True | _ \<Rightarrow> False)"

subsection \<open>Checking a request\<close>

record vehicleRequest =
  vq_PersonID :: int
  vq_CategoryID :: int
  vq_Label :: string
  vq_LicensePlate :: string
  vq_Notes :: string
  vq_BillingPeriod :: string
  vq_Rate :: "float64 option"
  vq_CostOverride :: "float64 option"
  vq_StartDate :: string
  vq_EndDate :: "string option"
  vq_Status :: string
  vq_ReservedFrom :: "string option"
  vq_ReservedUntil :: "string option"
  vq_NeedsPower :: bool
  vq_PlannerSymbol :: "string option"

definition plannerSymbols :: "string list" where
  "plannerSymbols =
     [''PKW'', ''Motorrad'', ''Transporter'', ''Wohnmobil'', ''Wohnwagen'', ''Anh'' @ utf8_text [195, 164] @ ''nger'',
      ''Boot / Trailer'', ''Traktor'', ''Ladewagen'', ''R'' @ utf8_text [195, 188] @ ''ckewagen'', ''Kipper'']"

definition parse_int64 :: "string \<Rightarrow> int option" where
  "parse_int64 s = (case atoi s of None \<Rightarrow> None | Some n \<Rightarrow> if - (2 ^ 63) \<le> n \<and> n < 2 ^ 63 then Some n else None)"

definition normPlannerSymbol :: "int list \<Rightarrow> string option \<Rightarrow> string + string option" where
  "normPlannerSymbol icons chosen =
     (case chosen of
        None \<Rightarrow> Inr None
      | Some s0 \<Rightarrow>
          (let s = trim_space s0
           in if s = [] then Inr None
              else if s \<in> set plannerSymbols then Inr (Some s)
              else if 7 < length s \<and> take 7 s = ''custom:''
              then (case parse_int64 (drop 7 s) of
                      None \<Rightarrow> Inl ''invalid planner_symbol''
                    | Some n \<Rightarrow> if n \<le> 0 \<or> n \<notin> set icons then Inl ''invalid planner_symbol'' else Inr (Some s))
              else Inl ''invalid planner_symbol''))"

definition parseOptDate :: "string \<Rightarrow> string option \<Rightarrow> string + time option" where
  "parseOptDate field s =
     (case s of
        None \<Rightarrow> Inr None
      | Some d \<Rightarrow>
          if trim_space d = [] then Inr None
          else if \<not> validDateLength (trim_space d) then Inl (field @ '' is too long'')
          else (case parse_date (trim_space d) of
                  None \<Rightarrow> Inl (field @ '' must be YYYY-MM-DD'')
                | Some t \<Rightarrow> Inr (Some t)))"

record parsedVehicle =
  pv_req :: vehicleRequest
  pv_startDate :: time
  pv_endDate :: "time option"
  pv_reservedFrom :: "time option"
  pv_reservedUntil :: "time option"

definition normal_request :: "vehicleRequest \<Rightarrow> vehicleRequest" where
  "normal_request q =
     q\<lparr>vq_Label := trim_space (vq_Label q), vq_LicensePlate := trim_space (vq_LicensePlate q),
       vq_Notes := trim_space (vq_Notes q),
       vq_BillingPeriod := (if vq_BillingPeriod q = [] then BillingMonthly else vq_BillingPeriod q),
       vq_Status := (if vq_Status q = [] then StatusStored else vq_Status q)\<rparr>"

definition money_in_range :: "float64 option \<Rightarrow> bool" where
  "money_in_range x = (case x of None \<Rightarrow> True | Some a \<Rightarrow> 0 \<le> a \<and> a \<le> maxMoneyAmount)"

definition quoted :: "string \<Rightarrow> string" where
  "quoted s = CHR 0x27 # s @ [CHR 0x27]"

definition check_request :: "vehicleRequest \<Rightarrow> string option" where
  "check_request q =
     (if vq_BillingPeriod q \<noteq> BillingMonthly \<and> vq_BillingPeriod q \<noteq> BillingYearly
      then Some (''billing_period must be '' @ quoted BillingMonthly @ '' or '' @ quoted BillingYearly)
      else if \<not> ValidStatuses (vq_Status q) then Some ''invalid status''
      else if vq_PersonID q \<le> 0 \<or> vq_CategoryID q \<le> 0 then Some ''person_id and category_id are required''
      else if \<not> money_in_range (vq_CostOverride q) then Some ''cost_override is out of range''
      else if \<not> money_in_range (vq_Rate q) then Some ''rate is out of range''
      else if \<not> validNameLength (vq_Label q) then Some ''label is too long''
      else if \<not> validNameLength (vq_LicensePlate q) then Some ''license_plate is too long''
      else if \<not> validNoteLength (vq_Notes q) then Some ''notes is too long''
      else if \<not> validDateLength (trim_space (vq_StartDate q)) then Some ''start_date is too long''
      else None)"

definition validateVehicleRequest :: "int list \<Rightarrow> vehicleRequest \<Rightarrow> string + parsedVehicle" where
  "validateVehicleRequest icons q0 =
     (let q = normal_request q0
      in case check_request q of
           Some msg \<Rightarrow> Inl msg
         | None \<Rightarrow>
             (case parse_date (trim_space (vq_StartDate q)) of
                None \<Rightarrow> Inl ''start_date must be YYYY-MM-DD''
              | Some start \<Rightarrow>
                  (case parseOptDate ''end_date'' (vq_EndDate q) of
                     Inl msg \<Rightarrow> Inl msg
                   | Inr e \<Rightarrow>
                       if (case e of None \<Rightarrow> False | Some d \<Rightarrow> before d start)
                       then Inl ''end_date must not be before start_date''
                       else (case parseOptDate ''reserved_from'' (vq_ReservedFrom q) of
                           Inl msg \<Rightarrow> Inl msg
                         | Inr rf \<Rightarrow>
                             (case parseOptDate ''reserved_until'' (vq_ReservedUntil q) of
                                Inl msg \<Rightarrow> Inl msg
                              | Inr ru \<Rightarrow>
                                  (case normPlannerSymbol icons (vq_PlannerSymbol q) of
                                     Inl msg \<Rightarrow> Inl msg
                                   | Inr symbol \<Rightarrow>
                                       Inr \<lparr>pv_req = q\<lparr>vq_PlannerSymbol := symbol\<rparr>, pv_startDate = start,
                                         pv_endDate = e, pv_reservedFrom = rf, pv_reservedUntil = ru\<rparr>))))))"

subsection \<open>The agreed price\<close>

definition effectiveRate :: "vehicleRequest \<Rightarrow> float64 \<Rightarrow> float64" where
  "effectiveRate q fallback =
     (case vq_Rate q of
        Some r \<Rightarrow> r
      | None \<Rightarrow> (case vq_CostOverride q of Some c \<Rightarrow> c | None \<Rightarrow> fallback))"

definition persistedCostOverride :: "vehicleRequest \<Rightarrow> float64 option \<Rightarrow> float64 option" where
  "persistedCostOverride q existing =
     (if vq_Rate q = Some 0 then Some 0
      else if vq_CostOverride q \<noteq> None then vq_CostOverride q
      else if vq_Rate q \<noteq> None then None
      else existing)"

definition markZeroRate :: "float64 \<Rightarrow> float64 option \<Rightarrow> float64 option" where
  "markZeroRate rate override = (if rate = 0 \<and> override = None then Some 0 else override)"

definition categoryDefaultRate :: "yard \<Rightarrow> int \<Rightarrow> string \<Rightarrow> float64 option" where
  "categoryDefaultRate Y cat period =
     (if cat \<notin> set (yd_cats Y) then None
      else Some (if period = BillingYearly then cat_DefaultYearlyCost (lg_cats (yd_ledger Y) cat)
                 else cat_DefaultMonthlyCost (lg_cats (yd_ledger Y) cat)))"

definition storedEffectiveRate :: "yard \<Rightarrow> int \<Rightarrow> string \<Rightarrow> float64 \<Rightarrow> float64 option \<Rightarrow> float64 option" where
  "storedEffectiveRate Y cat period rate override =
     (if rate \<noteq> 0 then Some rate
      else case override of Some c \<Rightarrow> Some c | None \<Rightarrow> categoryDefaultRate Y cat period)"

text \<open>A NUMERIC column reads back as the double nearest to its cents.\<close>

definition stored_money :: "pay_env \<Rightarrow> float64 \<Rightarrow> float64" where
  "stored_money env x = euros (pe_numeric env x)"

subsection \<open>Rows\<close>

text \<open>Pauses and rate changes are loaded with a vehicle; \<open>refresh_pauses\<close> keeps what the queries of
  vehicles and of recurring costs bound to them would load.\<close>

definition openUntil :: time where "openUntil = date_utc 9999 12 31"

definition billingEnd :: "pause_row \<Rightarrow> time" where
  "billingEnd p = (case pa_Until p of Some u \<Rightarrow> if pa_Ended p then u else openUntil | None \<Rightarrow> openUntil)"

definition listPauses :: "yard \<Rightarrow> int \<Rightarrow> pause_row list" where
  "listPauses Y vid = sort_key (\<lambda>p. t_inst (pa_From p)) (filter (\<lambda>p. pa_Vehicle p = vid) (yd_pauses Y))"

definition billed_pauses :: "yard \<Rightarrow> int \<Rightarrow> pause list" where
  "billed_pauses Y vid = map (\<lambda>p. \<lparr>ps_From = pa_From p, ps_Until = billingEnd p\<rparr>) (listPauses Y vid)"

definition refresh_pauses :: "int \<Rightarrow> yard \<Rightarrow> yard" where
  "refresh_pauses vid Y =
     (let L = yd_ledger Y; ps = billed_pauses Y vid
      in with_ledger (L\<lparr>lg_vehicles := map (\<lambda>v. if vh_ID v = vid then v\<lparr>vh_Pauses := ps\<rparr> else v) (lg_vehicles L),
        lg_recurring := map (\<lambda>r. if rg_VehicleID r = Some vid then r\<lparr>rg_Pauses := ps\<rparr> else r) (lg_recurring L)\<rparr>) Y)"

definition insert_vehicle :: "vehicle \<Rightarrow> vehicle_card \<Rightarrow> yard \<Rightarrow> yard_error + int \<times> yard" where
  "insert_vehicle v c Y =
     (if vh_PersonID v \<notin> set (lg_persons (yd_ledger Y)) \<or> vh_CategoryID v \<notin> set (yd_cats Y)
      then Inl (Yard_Invalid ''person or category does not exist'')
      else let vid = yd_next_vehicle Y
           in Inr (vid, (with_vehicles (lg_vehicles (yd_ledger Y) @ [v\<lparr>vh_ID := vid\<rparr>]) Y)
                \<lparr>yd_next_vehicle := vid + 1, yd_cards := (yd_cards Y)(vid := c)\<rparr>))"

definition new_vehicle ::
  "pay_env \<Rightarrow> yard \<Rightarrow> int \<Rightarrow> int \<Rightarrow> string \<Rightarrow> string \<Rightarrow> string \<Rightarrow> float64 \<Rightarrow> float64 option \<Rightarrow> time \<Rightarrow> time option
     \<Rightarrow> string \<Rightarrow> vehicle" where
  "new_vehicle env Y person cat label plate period rate override start e status =
     \<lparr>vh_ID = 0, vh_PersonID = person, vh_CategoryID = cat, vh_Label = label, vh_LicensePlate = plate,
      vh_BillingPeriod = period, vh_Rate = stored_money env rate, vh_CostOverride = map_option (stored_money env) override,
      vh_StartDate = start, vh_EndDate = e, vh_Status = status, vh_Paid = False, vh_PaidThrough = None,
      vh_Archived = False, vh_CategoryName = cat_Name (lg_cats (yd_ledger Y) cat), vh_AccruedCost = 0,
      vh_EffectiveRate = 0, vh_IsActive = False, vh_RateChanges = [], vh_Pauses = []\<rparr>"

definition request_card :: "parsedVehicle \<Rightarrow> vehicle_card" where
  "request_card pv =
     \<lparr>vc_Notes = vq_Notes (pv_req pv), vc_ReservedFrom = pv_reservedFrom pv, vc_ReservedUntil = pv_reservedUntil pv,
      vc_NeedsPower = vq_NeedsPower (pv_req pv), vc_Symbol = vq_PlannerSymbol (pv_req pv), vc_Spot = None, vc_CopiedFrom = None\<rparr>"

subsection \<open>Creating and editing\<close>

definition insertVehicleTx :: "pay_env \<Rightarrow> parsedVehicle \<Rightarrow> yard \<Rightarrow> yard_error + int \<times> yard" where
  "insertVehicleTx env pv Y =
     (let q = pv_req pv;
          fallback = (if vq_Rate q = None \<and> vq_CostOverride q = None
            then categoryDefaultRate Y (vq_CategoryID q) (vq_BillingPeriod q) else Some 0)
      in case fallback of
           None \<Rightarrow> Inl (Yard_Invalid ''category does not exist'')
         | Some fb \<Rightarrow>
             (let rate = effectiveRate q fb; override = markZeroRate rate (persistedCostOverride q None)
              in case insert_vehicle (new_vehicle env Y (vq_PersonID q) (vq_CategoryID q) (vq_Label q) (vq_LicensePlate q)
                    (vq_BillingPeriod q) rate override (pv_startDate pv) (pv_endDate pv) (vq_Status q)) (request_card pv) Y of
                   Inl e \<Rightarrow> Inl e
                 | Inr (vid, Y) \<Rightarrow> Inr (vid, recordStatusTx vid [] (vq_Status q) ''angelegt'' Y)))"

definition CreateVehicle :: "pay_env \<Rightarrow> vehicleRequest \<Rightarrow> yard \<Rightarrow> yard_error + int \<times> yard" where
  "CreateVehicle env q Y =
     (case validateVehicleRequest (yd_icons Y) q of
        Inl msg \<Rightarrow> Inl (Yard_Invalid msg)
      | Inr pv \<Rightarrow> insertVehicleTx env pv Y)"

definition vehicleOwnerReferenced :: "yard \<Rightarrow> int \<Rightarrow> bool" where
  "vehicleOwnerReferenced Y vid \<longleftrightarrow>
     (let L = yd_ledger Y
      in (\<exists>c \<in> set (lg_charges L). ch_VehicleID c = Some vid)
       \<or> (\<exists>r \<in> set (lg_recurring L). rg_VehicleID r = Some vid)
       \<or> (\<exists>a \<in> set (lg_agreements L). vid \<in> set (fp_VehicleIDs a))
       \<or> (\<exists>s \<in> set (lg_sources L). so_Kind s = ''vehicle'' \<and> so_Ref s = vid)
       \<or> claimed L ''vehicle'' vid \<or> vid \<in> set (yd_handovers Y) \<or> vid \<in> set (yd_attachments Y))"

definition closing :: "string \<Rightarrow> bool" where
  "closing status \<longleftrightarrow> status = StatusCollected \<or> status = StatusCancelled"

definition edited_vehicle :: "pay_env \<Rightarrow> yard \<Rightarrow> parsedVehicle \<Rightarrow> float64 \<Rightarrow> float64 option \<Rightarrow> vehicle \<Rightarrow> vehicle" where
  "edited_vehicle env Y pv rate override v =
     (let q = pv_req pv
      in v\<lparr>vh_PersonID := vq_PersonID q, vh_CategoryID := vq_CategoryID q, vh_Label := vq_Label q,
        vh_LicensePlate := vq_LicensePlate q, vh_BillingPeriod := vq_BillingPeriod q, vh_Rate := stored_money env rate,
        vh_CostOverride := map_option (stored_money env) override, vh_StartDate := pv_startDate pv,
        vh_EndDate := pv_endDate pv, vh_Status := vq_Status q,
        vh_CategoryName := cat_Name (lg_cats (yd_ledger Y) (vq_CategoryID q))\<rparr>)"

definition edited_card :: "parsedVehicle \<Rightarrow> vehicle_card \<Rightarrow> vehicle_card" where
  "edited_card pv c =
     c\<lparr>vc_Notes := vq_Notes (pv_req pv), vc_ReservedFrom := pv_reservedFrom pv, vc_ReservedUntil := pv_reservedUntil pv,
       vc_NeedsPower := vq_NeedsPower (pv_req pv), vc_Symbol := vq_PlannerSymbol (pv_req pv),
       vc_Spot := (if closing (vq_Status (pv_req pv)) then None else vc_Spot c)\<rparr>"

definition update_vehicle_tx :: "pay_env \<Rightarrow> int \<Rightarrow> parsedVehicle \<Rightarrow> yard \<Rightarrow> yard_error + yard" where
  "update_vehicle_tx env vid pv Y =
     (let L = yd_ledger Y; q = pv_req pv
      in case find_vehicle Y vid of
           None \<Rightarrow> Inl Yard_Missing
         | Some v \<Rightarrow>
             if vh_Archived v then Inl (Yard_Conflict Archived)
             else if \<not> guardInvoicedPartialExtension L ''vehicle'' vid (vh_EndDate v) (pv_endDate pv) (vh_BillingPeriod v)
             then Inl (Yard_Conflict Final_Period_Invoiced)
             else (case storedEffectiveRate Y (vh_CategoryID v) (vh_BillingPeriod v) (vh_Rate v) (vh_CostOverride v) of
                 None \<Rightarrow> Inl Yard_Failed
               | Some oldRate \<Rightarrow>
                   (let rate = effectiveRate q oldRate;
                        override = markZeroRate rate (persistedCostOverride q (vh_CostOverride v))
                    in case storedEffectiveRate Y (vq_CategoryID q) (vq_BillingPeriod q) rate override of
                         None \<Rightarrow> Inl (Yard_Invalid ''category does not exist'')
                       | Some newRate \<Rightarrow>
                           if (newRate \<noteq> oldRate \<or> vq_BillingPeriod q \<noteq> vh_BillingPeriod v
                                \<or> \<not> same_instant (pv_startDate pv) (vh_StartDate v) \<or> vq_PersonID q \<noteq> vh_PersonID v)
                              \<and> refFinanciallyLocked L ''vehicle'' vid
                           then Inl (Yard_Conflict Financially_Locked)
                           else if vq_PersonID q \<noteq> vh_PersonID v \<and> vehicleOwnerReferenced Y vid
                           then Inl (Yard_Conflict Owner_Referenced)
                           else if endDateRetractsBelowInvoiced L ''vehicle'' vid (pv_endDate pv)
                           then Inl (Yard_Conflict Below_Invoiced)
                           else if vq_PersonID q \<notin> set (lg_persons L) \<or> vq_CategoryID q \<notin> set (yd_cats Y)
                           then Inl (Yard_Invalid ''person or category does not exist'')
                           else (let Y = change_card vid (edited_card pv)
                                       (change_vehicle vid (edited_vehicle env Y pv rate override) Y)
                                 in Inr (if vh_Status v \<noteq> vq_Status q
                                      then recordStatusTx vid (vh_Status v) (vq_Status q)
                                        (utf8_text [195, 188] @ ''ber Bearbeitung ge'' @ utf8_text [195, 164] @ ''ndert'') Y
                                      else Y)))))"

definition auto_archive :: "pay_env \<Rightarrow> int \<Rightarrow> yard \<Rightarrow> yard" where
  "auto_archive env vid Y = with_ledger (autoArchiveIfClosed env vid (yd_ledger Y)) Y"

definition UpdateVehicle :: "pay_env \<Rightarrow> int \<Rightarrow> vehicleRequest \<Rightarrow> yard \<Rightarrow> yard_error + yard" where
  "UpdateVehicle env vid q Y =
     (case validateVehicleRequest (yd_icons Y) q of
        Inl msg \<Rightarrow> Inl (Yard_Invalid msg)
      | Inr pv \<Rightarrow> map_sum id (auto_archive env vid) (update_vehicle_tx env vid pv Y))"

definition UpdateVehiclePlanner :: "int \<Rightarrow> bool \<Rightarrow> string option \<Rightarrow> yard \<Rightarrow> yard_error + yard" where
  "UpdateVehiclePlanner vid charging symbol Y =
     (case normPlannerSymbol (yd_icons Y) symbol of
        Inl msg \<Rightarrow> Inl (Yard_Invalid msg)
      | Inr s \<Rightarrow>
          (case find_vehicle Y vid of
             None \<Rightarrow> Inl Yard_Missing
           | Some v \<Rightarrow>
               if vh_Archived v then Inl (Yard_Conflict Archived)
               else Inr (change_card vid (\<lambda>c. c\<lparr>vc_NeedsPower := charging, vc_Symbol := s\<rparr>) Y)))"

subsection \<open>Deleting\<close>

text \<open>The row of a vehicle goes, and with it what hangs on it: memberships in agreements, pauses and
  the status history; charges and recurring costs stay without a vehicle.\<close>

definition drop_vehicles :: "(int \<Rightarrow> bool) \<Rightarrow> yard \<Rightarrow> yard" where
  "drop_vehicles P Y =
     (let L = yd_ledger Y
      in (with_ledger (L\<lparr>lg_vehicles := filter (\<lambda>v. \<not> P (vh_ID v)) (lg_vehicles L),
            lg_agreements := map (\<lambda>a. a\<lparr>fp_VehicleIDs := filter (\<lambda>w. \<not> P w) (fp_VehicleIDs a)\<rparr>) (lg_agreements L),
            lg_charges := map (\<lambda>c. case ch_VehicleID c of None \<Rightarrow> c | Some w \<Rightarrow> if P w then c\<lparr>ch_VehicleID := None\<rparr> else c)
              (lg_charges L),
            lg_recurring := map (\<lambda>r. case rg_VehicleID r of None \<Rightarrow> r
              | Some w \<Rightarrow> if P w then r\<lparr>rg_VehicleID := None, rg_Pauses := []\<rparr> else r) (lg_recurring L)\<rparr>) Y)
         \<lparr>yd_pauses := filter (\<lambda>p. \<not> P (pa_Vehicle p)) (yd_pauses Y),
          yd_history := filter (\<lambda>h. \<not> P (se_Vehicle h)) (yd_history Y),
          yd_attachments := filter (\<lambda>w. \<not> P w) (yd_attachments Y)\<rparr>)"

definition DeleteVehicle :: "int \<Rightarrow> yard \<Rightarrow> yard_error + yard" where
  "DeleteVehicle vid Y =
     (case find_vehicle Y vid of
        None \<Rightarrow> Inl Yard_Missing
      | Some v \<Rightarrow>
          if refFinanciallyLocked (yd_ledger Y) ''vehicle'' vid then Inl (Yard_Conflict Financially_Locked)
          else if vid \<in> set (yd_handovers Y) then Inl (Yard_Conflict Documents_Protected)
          else Inr (drop_vehicles (\<lambda>w. w = vid) Y))"

subsection \<open>The status of a vehicle\<close>

record statusRequest =
  sr_Status :: string
  sr_Note :: string
  sr_Date :: string

text \<open>The end a closing status asks for: the given date, else the end it has, else today.\<close>

definition proposed_end :: "pay_env \<Rightarrow> vehicle \<Rightarrow> statusRequest \<Rightarrow> string + time option" where
  "proposed_end env v q =
     (let date = trim_space (sr_Date q); kept = (case vh_EndDate v of Some e \<Rightarrow> e | None \<Rightarrow> businessDay (pe_now env))
      in if \<not> closing (sr_Status q) then Inr None
         else if date = [] then Inr (Some kept)
         else if \<not> validDateLength date then Inl ''date is too long''
         else (case parse_date date of
                 None \<Rightarrow> Inl ''date must be YYYY-MM-DD''
               | Some t \<Rightarrow> Inr (Some t)))"

definition closed_at :: "string \<Rightarrow> time \<Rightarrow> vehicle \<Rightarrow> vehicle" where
  "closed_at status e v = v\<lparr>vh_Status := status, vh_EndDate := Some e\<rparr>"

definition close_vehicle_tx :: "int \<Rightarrow> string \<Rightarrow> time \<Rightarrow> time \<Rightarrow> yard \<Rightarrow> yard_error + yard" where
  "close_vehicle_tx vid status start e Y =
     (if before e start then Inl (Yard_Invalid ''Enddatum darf nicht vor Mietbeginn liegen'')
      else if endDateRetractsBelowInvoiced (yd_ledger Y) ''vehicle'' vid (Some e) then Inl (Yard_Conflict Below_Invoiced)
      else Inr (free_spot vid (change_vehicle vid (closed_at status e) Y)))"

definition changeVehicleStatusTx :: "pay_env \<Rightarrow> int \<Rightarrow> statusRequest \<Rightarrow> yard \<Rightarrow> yard_error + yard" where
  "changeVehicleStatusTx env vid q Y =
     (case find_vehicle Y vid of
        None \<Rightarrow> Inl Yard_Missing
      | Some v \<Rightarrow>
          if vh_Archived v then Inl (Yard_Conflict Archived)
          else (case proposed_end env v q of
              Inl msg \<Rightarrow> Inl (Yard_Invalid msg)
            | Inr proposed \<Rightarrow>
                if \<not> guardInvoicedPartialExtension (yd_ledger Y) ''vehicle'' vid (vh_EndDate v) proposed (vh_BillingPeriod v)
                then Inl (Yard_Conflict Final_Period_Invoiced)
                else map_sum id (recordStatusTx vid (vh_Status v) (sr_Status q) (trim_space (sr_Note q)))
                  (case proposed of
                     Some e \<Rightarrow>
                       close_vehicle_tx vid (sr_Status q) (vh_StartDate v)
                         (if trim_space (sr_Date q) = [] \<and> before e (vh_StartDate v) \<and> sr_Status q = StatusCancelled
                          then vh_StartDate v else e) Y
                   | None \<Rightarrow> Inr (change_vehicle vid (\<lambda>v. v\<lparr>vh_Status := sr_Status q, vh_EndDate := None\<rparr>) Y))))"

definition ChangeVehicleStatus :: "pay_env \<Rightarrow> int \<Rightarrow> statusRequest \<Rightarrow> yard \<Rightarrow> yard_error + yard" where
  "ChangeVehicleStatus env vid q Y =
     (if \<not> ValidStatuses (sr_Status q) then Inl (Yard_Invalid ''invalid status'')
      else if \<not> validNoteLength (sr_Note q) then Inl (Yard_Invalid ''notes is too long'')
      else map_sum id (auto_archive env vid) (changeVehicleStatusTx env vid q Y))"

definition ReactivateVehicle :: "int \<Rightarrow> yard \<Rightarrow> yard_error + yard" where
  "ReactivateVehicle vid Y =
     (case find_vehicle Y vid of
        None \<Rightarrow> Inl Yard_Missing
      | Some v \<Rightarrow> Inr (change_vehicle vid (\<lambda>v. v\<lparr>vh_Archived := False\<rparr>) Y))"

subsection \<open>Storing a vehicle again\<close>

text \<open>The price agreed for the day the copy starts: the last rate change not after it.\<close>

definition applicable_rate :: "vehicle \<Rightarrow> time \<Rightarrow> float64 option" where
  "applicable_rate v start =
     (case sort_key (\<lambda>rc. - t_inst (rc_From rc)) (filter (\<lambda>rc. \<not> after (rc_From rc) start) (vh_RateChanges v)) of
        [] \<Rightarrow> None
      | rc # _ \<Rightarrow> Some (rc_Amount rc))"

definition duplicate_price :: "yard \<Rightarrow> vehicle \<Rightarrow> time \<Rightarrow> bool \<Rightarrow> (float64 \<times> float64 option) option" where
  "duplicate_price Y v start currentTariff =
     (case storedEffectiveRate Y (vh_CategoryID v) (vh_BillingPeriod v) (vh_Rate v) (vh_CostOverride v) of
        None \<Rightarrow> None
      | Some stored \<Rightarrow>
          (let (rate, override) = (case applicable_rate v start of
                 Some r \<Rightarrow> (r, None) | None \<Rightarrow> (stored, vh_CostOverride v))
           in if currentTariff
              then map_option (\<lambda>d. (d, markZeroRate d None)) (categoryDefaultRate Y (vh_CategoryID v) (vh_BillingPeriod v))
              else Some (rate, markZeroRate rate override)))"

definition DuplicateVehicle ::
  "pay_env \<Rightarrow> int \<Rightarrow> string \<Rightarrow> bool \<Rightarrow> bool \<Rightarrow> yard \<Rightarrow> yard_error + int \<times> yard" where
  "DuplicateVehicle env vid startDate currentTariff reserve Y =
     (let given = trim_space startDate;
          start = (if given = [] then Inr (businessDay (pe_now env))
            else if \<not> validDateLength given then Inl ''start_date is too long''
            else case parse_date given of None \<Rightarrow> Inl ''start_date must be YYYY-MM-DD'' | Some t \<Rightarrow> Inr t)
      in case start of
           Inl msg \<Rightarrow> Inl (Yard_Invalid msg)
         | Inr start \<Rightarrow>
             (case find_vehicle Y vid of
                None \<Rightarrow> Inl Yard_Missing
              | Some v \<Rightarrow>
                  (case duplicate_price Y v start currentTariff of
                     None \<Rightarrow> Inl Yard_Failed
                   | Some (rate, override) \<Rightarrow>
                       (let status = (if reserve then StatusReserved else StatusStored);
                            copy = (new_vehicle env Y (vh_PersonID v) (vh_CategoryID v) (vh_Label v) (vh_LicensePlate v)
                              (vh_BillingPeriod v) rate override start None status)
                              \<lparr>vh_RateChanges := (if currentTariff then []
                                else filter (\<lambda>rc. after (rc_From rc) start) (vh_RateChanges v))\<rparr>;
                            card = (yd_cards Y vid)\<lparr>vc_ReservedFrom := (if reserve then Some start else None),
                              vc_ReservedUntil := None, vc_Spot := None, vc_CopiedFrom := Some vid\<rparr>
                        in case insert_vehicle copy card Y of
                             Inl e \<Rightarrow> Inl e
                           | Inr (new, Y) \<Rightarrow> Inr (new, recordStatusTx new [] status ''erneut eingestellt'' Y)))))"

subsection \<open>Places\<close>

definition occupants :: "yard \<Rightarrow> int \<Rightarrow> int list" where
  "occupants Y spot = filter (\<lambda>vid. vc_Spot (yd_cards Y vid) = Some spot) (map vh_ID (lg_vehicles (yd_ledger Y)))"

definition AssignSpotVehicle :: "int \<Rightarrow> int \<Rightarrow> yard \<Rightarrow> yard_error + yard" where
  "AssignSpotVehicle spot vid Y =
     (if vid \<le> 0 then Inl (Yard_Invalid ''vehicle_id is required'')
      else if spot \<notin> set (yd_spots Y) then Inl Yard_Missing
      else if find_vehicle Y vid = None then Inl Yard_Missing
      else if \<exists>w \<in> set (occupants Y spot). w \<noteq> vid then Inl (Yard_Conflict Spot_Occupied)
      else Inr (change_card vid (\<lambda>c. c\<lparr>vc_Spot := Some spot\<rparr>) Y))"

definition UnassignSpotVehicle :: "int \<Rightarrow> yard \<Rightarrow> yard" where
  "UnassignSpotVehicle spot Y = fold free_spot (occupants Y spot) Y"

text \<open>A place a pause released is taken back when neither it nor the vehicle is placed otherwise.\<close>

definition relink_spot :: "int \<Rightarrow> int option \<Rightarrow> yard \<Rightarrow> yard" where
  "relink_spot vid prev Y =
     (case prev of
        None \<Rightarrow> Y
      | Some spot \<Rightarrow>
          if find_vehicle Y vid \<noteq> None \<and> vc_Spot (yd_cards Y vid) = None \<and> occupants Y spot = []
          then change_card vid (\<lambda>c. c\<lparr>vc_Spot := Some spot\<rparr>) Y else Y)"

end
