(* ===== verification/Yard_Pauses.thy ===== *)
theory Yard_Pauses
  imports Yard_Model
begin

text \<open>
  Pauses of a stored vehicle (\<^verbatim>\<open>internal/handlers/pause.go\<close>): the vehicle is away for a while and
  comes back, and rests in the billing meanwhile. Creating, extending, ending and removing a pause,
  and the shift of the day a vehicle is paid through.
\<close>

subsection \<open>What is billed already\<close>

definition startOfDayUTC :: "time \<Rightarrow> time" where
  "startOfDayUTC now = date_utc (time_year now) (time_month now) (time_day now)"

definition bound_recurring :: "ledger \<Rightarrow> int \<Rightarrow> int list" where
  "bound_recurring L vid = map rg_ID (filter (\<lambda>r. rg_VehicleID r = Some vid) (lg_recurring L))"

definition pause_keys :: "ledger \<Rightarrow> int \<Rightarrow> string list" where
  "pause_keys L vid =
     invoiced_keys L ''vehicle'' vid @ concat (map (invoiced_keys L ''recurring'') (bound_recurring L vid))"

definition key_last_day :: "string \<Rightarrow> time option" where
  "key_last_day key = (if is_zero_time (periodKeyEnd key) then None else Some (add_date (periodKeyEnd key) 0 0 (- 1)))"

definition pauseLockedThrough :: "ledger \<Rightarrow> int \<Rightarrow> time" where
  "pauseLockedThrough L vid =
     foldl (\<lambda>lst key. case key_last_day key of None \<Rightarrow> lst | Some d \<Rightarrow> if after d lst then d else lst)
       zero_time (pause_keys L vid)"

subsection \<open>The day a vehicle is paid through\<close>

text \<open>The loop of \<^verbatim>\<open>shiftPaidThrough\<close>: day after day, paused days do not count. It ends when every day
  from \<open>horizon\<close> on is free, which the pauses of the tables guarantee.\<close>

definition next_day :: "time \<Rightarrow> time" where
  "next_day d = add_date d 0 0 1"

partial_function (option) shift_loop ::
  "time option \<Rightarrow> (time \<Rightarrow> bool) \<Rightarrow> int \<Rightarrow> time \<Rightarrow> time option" where
  [code]: "shift_loop e paused n d =
     (if n \<le> 0 then Some d
      else let d' = next_day d
      in if (case e of None \<Rightarrow> False | Some x \<Rightarrow> after d' x) then e
         else shift_loop e paused (if paused d' then n else n - 1) d')"

definition overlap_days :: "time \<Rightarrow> time \<Rightarrow> int" where
  "overlap_days frm to = \<lfloor>f_div (duration_hours (time_sub to frm)) 24\<rfloor> + 1"

definition shiftPaidThrough ::
  "time \<Rightarrow> time \<Rightarrow> time \<Rightarrow> time option \<Rightarrow> (time \<Rightarrow> bool) \<Rightarrow> time option" where
  "shiftPaidThrough paidThrough frm until e paused =
     (let overlapEnd = (if before until paidThrough then until else paidThrough)
      in if before overlapEnd frm then Some paidThrough
         else shift_loop e paused (overlap_days frm overlapEnd) paidThrough)"

definition paused_on :: "pause_row list \<Rightarrow> time \<Rightarrow> bool" where
  "paused_on ps d \<longleftrightarrow> (\<exists>p \<in> set ps. \<not> before d (pa_From p) \<and> \<not> after d (billingEnd p))"

subsection \<open>Starting a pause\<close>

record pauseIn =
  pi_From :: "string option"
  pi_Until :: "string option"
  pi_HoldSpot :: "bool option"
  pi_Remark :: string

text \<open>A date field that is missing or blank is not given.\<close>

definition given_date :: "string \<Rightarrow> string option \<Rightarrow> yard_error + time option" where
  "given_date msg s =
     (case s of
        None \<Rightarrow> Inr None
      | Some t \<Rightarrow>
          if trim_space t = [] then Inr None
          else (case parseOptDate [] s of Inr (Some d) \<Rightarrow> Inr (Some d) | _ \<Rightarrow> Inl (Yard_Invalid msg)))"

definition pauses_overlap :: "yard \<Rightarrow> int \<Rightarrow> time \<Rightarrow> time option \<Rightarrow> bool" where
  "pauses_overlap Y vid frm until \<longleftrightarrow>
     (\<exists>p \<in> set (yd_pauses Y). pa_Vehicle p = vid
        \<and> (case until of None \<Rightarrow> True | Some u \<Rightarrow> \<not> after (pa_From p) u)
        \<and> (if pa_Ended p then (case pa_Until p of None \<Rightarrow> False | Some u \<Rightarrow> \<not> before u frm) else True))"

definition add_pause :: "pause_row \<Rightarrow> yard \<Rightarrow> yard" where
  "add_pause p Y = refresh_pauses (pa_Vehicle p)
     (Y\<lparr>yd_pauses := yd_pauses Y @ [p\<lparr>pa_ID := yd_next_pause Y\<rparr>], yd_next_pause := yd_next_pause Y + 1\<rparr>)"

definition pause_interval :: "time \<Rightarrow> pauseIn \<Rightarrow> yard_error + time \<times> time option" where
  "pause_interval today i =
     (case given_date ''Beginn als JJJJ-MM-TT'' (pi_From i) of
        Inl e \<Rightarrow> Inl e
      | Inr gf \<Rightarrow>
          (let frm = (case gf of None \<Rightarrow> today | Some d \<Rightarrow> d)
           in case given_date (''R'' @ utf8_text [195, 188] @ ''ckkehr als JJJJ-MM-TT'') (pi_Until i) of
                Inl e \<Rightarrow> Inl e
              | Inr until \<Rightarrow>
                  if (case until of None \<Rightarrow> False | Some d \<Rightarrow> before d frm)
                  then Inl (Yard_Invalid (''Die R'' @ utf8_text [195, 188] @ ''ckkehr liegt vor dem Beginn''))
                  else Inr (frm, until)))"

definition pause_refused ::
  "time \<Rightarrow> int \<Rightarrow> bool \<Rightarrow> string \<Rightarrow> time \<Rightarrow> time option \<Rightarrow> yard \<Rightarrow> yard_error option" where
  "pause_refused today vid hold remark frm until Y =
     (if \<not> validNoteLength remark then Some (Yard_Invalid ''Notiz zu lang'')
      else case find_vehicle Y vid of
          None \<Rightarrow> Some Yard_Missing
        | Some v \<Rightarrow>
            (let locked = pauseLockedThrough (yd_ledger Y) vid
             in if vh_Archived v \<or> vh_Status v \<noteq> StatusStored then Some (Yard_Conflict Not_Stored)
                else if before frm (vh_StartDate v) \<or> (case vh_EndDate v of None \<Rightarrow> False | Some e \<Rightarrow> after frm e)
                then Some (Yard_Invalid ''Die Ruhezeit muss in der Einlagerung liegen'')
                else if \<not> hold \<and> after frm today
                then Some (Yard_Invalid ''Den Platz freigeben geht erst am Abfahrtstag'')
                else if \<not> after frm locked \<and> \<not> is_zero_time locked then Some (Yard_Conflict (Billed_Through locked))
                else if pauses_overlap Y vid frm until then Some (Yard_Conflict Pause_Overlap)
                else None))"

definition createPauseTx :: "pay_env \<Rightarrow> int \<Rightarrow> pauseIn \<Rightarrow> string \<Rightarrow> yard \<Rightarrow> yard_error + yard" where
  "createPauseTx env vid i src Y =
     (let today = startOfDayUTC (pe_now env);
          hold = (case pi_HoldSpot i of None \<Rightarrow> True | Some b \<Rightarrow> b);
          remark = trim_space (pi_Remark i)
      in case pause_interval today i of
           Inl e \<Rightarrow> Inl e
         | Inr (frm, until) \<Rightarrow>
             (case pause_refused today vid hold remark frm until Y of
                Some e \<Rightarrow> Inl e
              | None \<Rightarrow>
                  (let prev = (if hold then None else vc_Spot (yd_cards Y vid));
                       Y' = (if prev \<noteq> None then free_spot vid Y else Y)
                   in Inr (add_pause \<lparr>pa_ID = 0, pa_Vehicle = vid, pa_From = frm, pa_Until = until, pa_Ended = False,
                        pa_HoldSpot = hold, pa_PrevSpot = prev, pa_Note = remark, pa_Source = src, pa_PaidBefore = None\<rparr> Y'))))"

subsection \<open>Changing and ending a pause\<close>

definition find_pause :: "yard \<Rightarrow> int \<Rightarrow> pause_row option" where
  "find_pause Y pid = find (\<lambda>p. pa_ID p = pid) (yd_pauses Y)"

definition change_pause :: "int \<Rightarrow> int \<Rightarrow> (pause_row \<Rightarrow> pause_row) \<Rightarrow> yard \<Rightarrow> yard" where
  "change_pause vid pid f Y =
     refresh_pauses vid (Y\<lparr>yd_pauses := map (\<lambda>p. if pa_ID p = pid then f p else p) (yd_pauses Y)\<rparr>)"

definition remove_pause :: "int \<Rightarrow> int \<Rightarrow> yard \<Rightarrow> yard" where
  "remove_pause vid pid Y = refresh_pauses vid (Y\<lparr>yd_pauses := filter (\<lambda>p. pa_ID p \<noteq> pid) (yd_pauses Y)\<rparr>)"

definition set_paid_through :: "int \<Rightarrow> time \<Rightarrow> yard \<Rightarrow> yard" where
  "set_paid_through vid t Y = change_vehicle vid (\<lambda>v. v\<lparr>vh_PaidThrough := Some t\<rparr>) Y"

definition ExtendPause :: "int \<Rightarrow> string option \<Rightarrow> yard \<Rightarrow> yard_error + yard" where
  "ExtendPause pid given Y =
     (case given_date (''R'' @ utf8_text [195, 188] @ ''ckkehr als JJJJ-MM-TT'') given of
        Inl e \<Rightarrow> Inl e
      | Inr until \<Rightarrow>
          (case find_pause Y pid of
             None \<Rightarrow> Inl Yard_Missing
           | Some p \<Rightarrow>
               if pa_Ended p then Inl (Yard_Conflict Pause_Ended)
               else if (case until of None \<Rightarrow> False | Some u \<Rightarrow> before u (pa_From p))
               then Inl (Yard_Invalid (''Die R'' @ utf8_text [195, 188] @ ''ckkehr liegt vor dem Beginn''))
               else Inr (change_pause (pa_Vehicle p) pid (\<lambda>q. q\<lparr>pa_Until := until\<rparr>) Y)))"

text \<open>A locked day forbids what would change days up to it; no invoice locks nothing.\<close>

definition locks :: "time \<Rightarrow> time \<Rightarrow> bool" where
  "locks locked d \<longleftrightarrow> \<not> is_zero_time locked \<and> before d locked"

definition return_shift :: "yard \<Rightarrow> pause_row \<Rightarrow> time \<Rightarrow> vehicle \<Rightarrow> time \<Rightarrow> time option" where
  "return_shift Y p lst v paidThrough =
     shiftPaidThrough paidThrough (pa_From p) lst (vh_EndDate v)
       (paused_on (map (\<lambda>q. if pa_ID q = pa_ID p then q\<lparr>pa_Until := Some lst, pa_Ended := True\<rparr> else q)
         (listPauses Y (pa_Vehicle p))))"

definition end_pause :: "pause_row \<Rightarrow> time \<Rightarrow> vehicle \<Rightarrow> yard \<Rightarrow> yard option" where
  "end_pause p lst v Y =
     (let Y' = change_pause (pa_Vehicle p) (pa_ID p)
            (\<lambda>q. q\<lparr>pa_Until := Some lst, pa_Ended := True, pa_PaidBefore := vh_PaidThrough v\<rparr>) Y
      in case vh_PaidThrough v of
           None \<Rightarrow> Some Y'
         | Some pt \<Rightarrow>
             (case return_shift Y p lst v pt of
                None \<Rightarrow> None
              | Some np \<Rightarrow> Some (if same_instant np pt then Y' else set_paid_through (pa_Vehicle p) np Y')))"

definition ReturnFromPause :: "pay_env \<Rightarrow> bool \<Rightarrow> int \<Rightarrow> string option \<Rightarrow> yard \<Rightarrow> (yard_error + yard) option" where
  "ReturnFromPause env hall pid given Y =
     (let today = startOfDayUTC (pe_now env)
      in case given_date (''R'' @ utf8_text [195, 188] @ ''ckkehrtag als JJJJ-MM-TT'') given of
           Inl e \<Rightarrow> Some (Inl e)
         | Inr g \<Rightarrow>
             (let day = (case g of None \<Rightarrow> today | Some d \<Rightarrow> d)
              in if hall \<and> after day today
                 then Some (Inl (Yard_Forbidden (''Der Hallendienst tr'' @ utf8_text [195, 164] @ ''gt eine R''
                   @ utf8_text [195, 188] @ ''ckkehr bis heute ein'')))
                 else (case find_pause Y pid of
                     None \<Rightarrow> Some (Inl Yard_Missing)
                   | Some p \<Rightarrow>
                       if pa_Ended p then Some (Inl (Yard_Conflict Pause_Ended))
                       else if before day (pa_From p)
                       then Some (Inl (Yard_Invalid (''Der R'' @ utf8_text [195, 188] @ ''ckkehrtag liegt vor dem Beginn'')))
                       else (case find_vehicle Y (pa_Vehicle p) of
                           None \<Rightarrow> Some (Inl Yard_Failed)
                         | Some v \<Rightarrow>
                             (let locked = pauseLockedThrough (yd_ledger Y) (pa_Vehicle p); lst = add_date day 0 0 (- 1)
                              in if locks locked lst then Some (Inl (Yard_Conflict (Billed_Through locked)))
                                 else map_option (\<lambda>Y. Inr (relink_spot (pa_Vehicle p) (pa_PrevSpot p) Y))
                                   (if same_instant day (pa_From p) then Some (remove_pause (pa_Vehicle p) pid Y)
                                    else end_pause p lst v Y))))))"

definition collect_request :: "pause_row \<Rightarrow> statusRequest" where
  "collect_request p =
     \<lparr>sr_Status = StatusCollected, sr_Note = ''Doch abgeholt (Ruhezeit entf'' @ utf8_text [195, 164] @ ''llt)'',
      sr_Date = format_date (pa_From p)\<rparr>"

definition CollectFromPause :: "pay_env \<Rightarrow> int \<Rightarrow> yard \<Rightarrow> yard_error + yard" where
  "CollectFromPause env pid Y =
     (case find_pause Y pid of
        None \<Rightarrow> Inl Yard_Missing
      | Some p \<Rightarrow>
          if pa_Ended p then Inl (Yard_Conflict Pause_Ended)
          else let locked = pauseLockedThrough (yd_ledger Y) (pa_Vehicle p)
          in if \<not> is_zero_time locked \<and> \<not> after (pa_From p) locked then Inl (Yard_Conflict (Billed_Through locked))
             else map_sum id (auto_archive env (pa_Vehicle p))
               (changeVehicleStatusTx env (pa_Vehicle p) (collect_request p) (remove_pause (pa_Vehicle p) pid Y)))"

definition undo_shift :: "pause_row \<Rightarrow> vehicle \<Rightarrow> yard \<Rightarrow> (yard_error + yard) option" where
  "undo_shift p v Y =
     (case (pa_Ended p, pa_PaidBefore p, pa_Until p) of
        (True, Some pb, Some until) \<Rightarrow>
          (case shiftPaidThrough pb (pa_From p) until (vh_EndDate v) (paused_on (listPauses Y (pa_Vehicle p))) of
             None \<Rightarrow> None
           | Some shifted \<Rightarrow>
               Some (if same_instant shifted pb then Inr Y
                 else if (case vh_PaidThrough v of None \<Rightarrow> True | Some t \<Rightarrow> \<not> same_instant t shifted)
                 then Inl (Yard_Conflict Paid_Through_Changed)
                 else Inr (set_paid_through (pa_Vehicle p) pb Y)))
      | _ \<Rightarrow> Some (Inr Y))"

definition DeletePause :: "int \<Rightarrow> yard \<Rightarrow> (yard_error + yard) option" where
  "DeletePause pid Y =
     (case find_pause Y pid of
        None \<Rightarrow> Some (Inl Yard_Missing)
      | Some p \<Rightarrow>
          (let locked = pauseLockedThrough (yd_ledger Y) (pa_Vehicle p)
           in if \<not> is_zero_time locked \<and> \<not> after (pa_From p) locked then Some (Inl (Yard_Conflict (Billed_Through locked)))
              else (case find_vehicle Y (pa_Vehicle p) of
                  None \<Rightarrow> Some (Inl Yard_Failed)
                | Some v \<Rightarrow>
                    map_option (map_sum id (\<lambda>Y. relink_spot (pa_Vehicle p) (pa_PrevSpot p) (remove_pause (pa_Vehicle p) pid Y)))
                      (undo_shift p v Y))))"

end
