(* ===== verification/Yard_Shift.thy ===== *)
theory Yard_Shift
  imports Yard_Pauses
begin

text \<open>
  The shift of the paid day: with the pauses of the tables the loop always ends, and the day it
  returns has exactly the rested days of rent before it, unless the rental ends first.
\<close>

subsection \<open>The loop counts free days\<close>

definition free_days :: "(int \<Rightarrow> bool) \<Rightarrow> int \<Rightarrow> int \<Rightarrow> int" where
  "free_days P a b = int (card {j. a < j \<and> j \<le> b \<and> \<not> P j})"

lemma free_days_none: "b \<le> a \<Longrightarrow> free_days P a b = 0"
proof -
  assume "b \<le> a"
  then have "{j. a < j \<and> j \<le> b \<and> \<not> P j} = {}" by auto
  then show ?thesis by (simp only: free_days_def card.empty of_nat_0)
qed

lemma free_days_step: "a < b \<Longrightarrow> free_days P a b = free_days P (a + 1) b + (if P (a + 1) then 0 else 1)"
proof -
  assume "a < b"
  have f: "finite {j. a + 1 < j \<and> j \<le> b \<and> \<not> P j}"
    by (rule finite_subset [of _ "{a..b}"]) auto
  show ?thesis
  proof (cases "P (a + 1)")
    case True
    then have "a < j \<and> j \<le> b \<and> \<not> P j \<longleftrightarrow> a + 1 < j \<and> j \<le> b \<and> \<not> P j" for j
      by (cases "j = a + 1") auto
    with True show ?thesis by (simp add: free_days_def)
  next
    case False
    then have "{j. a < j \<and> j \<le> b \<and> \<not> P j} = insert (a + 1) {j. a + 1 < j \<and> j \<le> b \<and> \<not> P j}"
      using \<open>a < b\<close> by auto
    with False f show ?thesis by (simp add: free_days_def)
  qed
qed

definition shifted :: "int option \<Rightarrow> (int \<Rightarrow> bool) \<Rightarrow> int \<Rightarrow> int \<Rightarrow> int \<Rightarrow> bool" where
  "shifted e P n d r \<longleftrightarrow>
     (if n \<le> 0 then r = d
      else e = Some r \<and> free_days P d r < n
        \<or> d < r \<and> \<not> P r \<and> free_days P d r = n \<and> (\<forall>x. e = Some x \<longrightarrow> r \<le> x))"

lemma shift_loop_stop [simp]: "n \<le> 0 \<Longrightarrow> shift_loop e paused n d = Some d"
  by (subst shift_loop.simps) simp

lemma shift_loop_step:
  "0 < n \<Longrightarrow> shift_loop (map_option utc_midnight e) paused n (utc_midnight d) =
     (if \<exists>x. e = Some x \<and> x < d + 1 then map_option utc_midnight e
      else shift_loop (map_option utc_midnight e) paused (if paused (utc_midnight (d + 1)) then n else n - 1)
        (utc_midnight (d + 1)))"
  by (subst shift_loop.simps) (simp add: next_day_def Let_def split: option.split)

lemma shift_loop_returns:
  assumes "\<And>k. H < k \<Longrightarrow> \<not> paused (utc_midnight k)"
  shows "\<exists>r. shift_loop (map_option utc_midnight e) paused n (utc_midnight d) = Some (utc_midnight r)
    \<and> shifted e (\<lambda>k. paused (utc_midnight k)) n d r"
proof (induction "nat (H - d) + nat n" arbitrary: n d rule: less_induct)
  case less
  let ?P = "\<lambda>k. paused (utc_midnight k)"
  show ?case
  proof (cases "n \<le> 0")
    case True
    then show ?thesis by (intro exI [of _ d]) (simp add: shifted_def)
  next
    case False
    then have n: "0 < n" by simp
    show ?thesis
    proof (cases "\<exists>x. e = Some x \<and> x < d + 1")
      case True
      then obtain x where x: "e = Some x" "x < d + 1" by blast
      then have "shift_loop (map_option utc_midnight e) paused n (utc_midnight d) = Some (utc_midnight x)"
        unfolding shift_loop_step [OF n] by simp
      moreover have "shifted e ?P n d x" using x n by (simp add: shifted_def free_days_none)
      ultimately show ?thesis by blast
    next
      case le: False
      let ?n = "if ?P (d + 1) then n else n - 1"
      have "nat (H - (d + 1)) + nat ?n < nat (H - d) + nat n"
        using n assms [of "d + 1"] by (cases "d < H") auto
      from less [OF this] obtain r where r:
        "shift_loop (map_option utc_midnight e) paused ?n (utc_midnight (d + 1)) = Some (utc_midnight r)"
        "shifted e ?P ?n (d + 1) r" by blast
      have "shifted e ?P n d r"
      proof (cases "?n \<le> 0")
        case True
        then have "n = 1" "\<not> ?P (d + 1)" using n by (auto split: if_splits)
        with r(2) n le show ?thesis
          by (auto simp: shifted_def free_days_step free_days_none)
      next
        case False
        then have "e = Some r \<and> free_days ?P (d + 1) r < ?n
            \<or> d + 1 < r \<and> \<not> ?P r \<and> free_days ?P (d + 1) r = ?n \<and> (\<forall>x. e = Some x \<longrightarrow> r \<le> x)"
          using r(2) by (simp only: shifted_def if_False)
        then show ?thesis
        proof
          assume c: "e = Some r \<and> free_days ?P (d + 1) r < ?n"
          then have "d < r" using le by auto
          with c n show ?thesis
            by (auto simp: shifted_def free_days_step [of d r] split: if_splits)
        next
          assume c: "d + 1 < r \<and> \<not> ?P r \<and> free_days ?P (d + 1) r = ?n \<and> (\<forall>x. e = Some x \<longrightarrow> r \<le> x)"
          then have "free_days ?P d r = n" by (simp add: free_days_step [of d r])
          with c n show ?thesis by (auto simp: shifted_def)
        qed
      qed
      moreover have "shift_loop (map_option utc_midnight e) paused n (utc_midnight d) = Some (utc_midnight r)"
        unfolding shift_loop_step [OF n] using le r(1) by (simp only: if_False)
      ultimately show ?thesis by blast
    qed
  qed
qed

subsection \<open>Days between dates\<close>

lemma overlap_days_midnight:
  assumes "f \<le> t" "t - f \<le> 100000"
  shows "overlap_days (utc_midnight f) (utc_midnight t) = t - f + 1"
proof -
  have "overlap_days (utc_midnight f) (utc_midnight t) = \<lfloor>days (utc_midnight f) (utc_midnight t)\<rfloor> + 1"
    by (simp only: overlap_days_def days_def)
  then show ?thesis using assms days_midnight [of t f] by simp
qed

subsection \<open>Dated pauses\<close>

definition horizon :: int where "horizon = local_day openUntil"

lemma openUntil_eq: "openUntil = utc_midnight horizon"
  by (simp add: horizon_def openUntil_def date_utc_def)

text \<open>What the columns and checks of the table give: dates, the return not before the departure, and an
  ended pause has a return.\<close>

definition pause_dated :: "pause_row \<Rightarrow> bool" where
  "pause_dated p \<longleftrightarrow> is_date (pa_From p) \<and> local_day (pa_From p) \<le> horizon
     \<and> (case pa_Until p of None \<Rightarrow> \<not> pa_Ended p
        | Some u \<Rightarrow> is_date u \<and> local_day (pa_From p) \<le> local_day u \<and> local_day u \<le> horizon)"

definition end_day :: "pause_row \<Rightarrow> int" where
  "end_day p = local_day (billingEnd p)"

lemma billingEnd_day: "pause_dated p \<Longrightarrow> billingEnd p = utc_midnight (end_day p) \<and> end_day p \<le> horizon"
  by (auto simp: billingEnd_def end_day_def pause_dated_def is_date_def openUntil_eq split: option.splits)

lemma paused_on_midnight:
  assumes "\<forall>p \<in> set ps. pause_dated p"
  shows "paused_on ps (utc_midnight k) \<longleftrightarrow> (\<exists>p \<in> set ps. local_day (pa_From p) \<le> k \<and> k \<le> end_day p)"
proof -
  have "\<not> before (utc_midnight k) (pa_From p) \<and> \<not> after (utc_midnight k) (billingEnd p)
      \<longleftrightarrow> local_day (pa_From p) \<le> k \<and> k \<le> end_day p" if "p \<in> set ps" for p
  proof -
    have d: "pause_dated p" using assms that by blast
    then obtain f where f: "pa_From p = utc_midnight f" by (auto simp: pause_dated_def is_date_def)
    show ?thesis using billingEnd_day [OF d] by (auto simp: f not_less)
  qed
  then show ?thesis by (simp add: paused_on_def)
qed

lemma not_paused_after: "\<forall>p \<in> set ps. pause_dated p \<Longrightarrow> horizon < k \<Longrightarrow> \<not> paused_on ps (utc_midnight k)"
  using billingEnd_day by (fastforce simp: paused_on_midnight)

lemma shiftPaidThrough_returns:
  assumes "\<forall>p \<in> set ps. pause_dated p" "min pt u - f \<le> 100000"
  shows "\<exists>r. shiftPaidThrough (utc_midnight pt) (utc_midnight f) (utc_midnight u) (map_option utc_midnight e) (paused_on ps)
      = Some (utc_midnight r)
    \<and> (if min pt u < f then r = pt else shifted e (\<lambda>k. paused_on ps (utc_midnight k)) (min pt u - f + 1) pt r)"
proof -
  have m: "(if before (utc_midnight u) (utc_midnight pt) then utc_midnight u else utc_midnight pt) = utc_midnight (min pt u)"
    by simp
  show ?thesis
  proof (cases "min pt u < f")
    case True
    then show ?thesis unfolding shiftPaidThrough_def Let_def m by (intro exI [of _ pt]) simp
  next
    case False
    then have n: "overlap_days (utc_midnight f) (utc_midnight (min pt u)) = min pt u - f + 1"
      using assms(2) by (intro overlap_days_midnight) (simp_all only: not_less)
    have "\<not> before (utc_midnight (min pt u)) (utc_midnight f)" using False by (simp only: before_midnight simp_thms)
    with False shift_loop_returns [where paused = "paused_on ps" and e = e and n = "min pt u - f + 1" and d = pt,
        OF not_paused_after [OF assms(1)]]
    show ?thesis unfolding shiftPaidThrough_def Let_def m n by (simp only: if_False)
  qed
qed

text \<open>When every day after the paid day is paused up to the horizon, the shift leaves the calendar.\<close>

lemma free_days_all: "(\<And>j. a < j \<Longrightarrow> j \<le> b \<Longrightarrow> P j) \<Longrightarrow> free_days P a b = 0"
proof -
  assume "\<And>j. a < j \<Longrightarrow> j \<le> b \<Longrightarrow> P j"
  then have "{j. a < j \<and> j \<le> b \<and> \<not> P j} = {}" by auto
  then show ?thesis by (simp only: free_days_def card.empty of_nat_0)
qed

lemma free_days_tail:
  assumes "\<And>j. a < j \<Longrightarrow> j \<le> H \<Longrightarrow> P j" "\<And>j. H < j \<Longrightarrow> \<not> P j" "a \<le> H" "H \<le> b"
  shows "free_days P a b = b - H"
proof -
  have "{j. a < j \<and> j \<le> b \<and> \<not> P j} = {H<..b}"
    using assms by (auto simp: not_le [symmetric])
  with assms(4) show ?thesis by (simp add: free_days_def)
qed

lemma shifted_past_horizon:
  assumes "shifted None P n d r" "0 < n" "d \<le> H"
    and "\<And>j. d < j \<Longrightarrow> j \<le> H \<Longrightarrow> P j" "\<And>j. H < j \<Longrightarrow> \<not> P j"
  shows "r = H + n"
proof -
  from assms(1,2) have r: "d < r" "\<not> P r" "free_days P d r = n" by (simp_all add: shifted_def)
  then have "H < r" using assms(4) [of r] by (meson not_le)
  then have "free_days P d r = r - H" using free_days_tail [where P = P and a = d and b = r and H = H] assms(3-5) by simp
  with r(3) show ?thesis by simp
qed

subsection \<open>Rows after a change\<close>

lemma find_map_ids:
  assumes "\<And>v. vh_ID (f v) = vh_ID v"
  shows "find (\<lambda>v. vh_ID v = w) (map f vs) = map_option f (find (\<lambda>v. vh_ID v = w) vs)"
  by (induction vs) (simp_all add: assms)

lemma ledger_with_ledger [simp]: "yd_ledger (with_ledger L Y) = L"
  by (simp add: with_ledger_def)

lemma find_change_vehicle:
  assumes "\<And>v. vh_ID (f v) = vh_ID v"
  shows "find_vehicle (change_vehicle vid f Y) w = map_option (\<lambda>v. if vh_ID v = vid then f v else v) (find_vehicle Y w)"
  unfolding find_vehicle_def change_vehicle_def with_vehicles_def
  by (simp add: find_map_ids assms)

lemma find_refresh [simp]:
  "find_vehicle (refresh_pauses vid Y) w
     = map_option (\<lambda>v. if vh_ID v = vid then v\<lparr>vh_Pauses := billed_pauses Y vid\<rparr> else v) (find_vehicle Y w)"
  unfolding find_vehicle_def refresh_pauses_def by (simp add: Let_def find_map_ids)

lemma yard_frames [simp]:
  "find_vehicle (Y\<lparr>yd_pauses := ps\<rparr>) w = find_vehicle Y w"
  "find_vehicle (change_card vid g Y) w = find_vehicle Y w"
  "yd_pauses (with_ledger L Y) = yd_pauses Y"
  by (simp_all add: find_vehicle_def change_card_def with_ledger_def)

lemma find_relink [simp]: "find_vehicle (relink_spot vid s Y) w = find_vehicle Y w"
  by (simp add: relink_spot_def split: option.split)

lemma find_vehicle_id: "find_vehicle Y w = Some v \<Longrightarrow> vh_ID v = w"
  by (auto simp: find_vehicle_def find_Some_iff)

lemma listPauses_set [simp]: "set (listPauses Y vid) = {p \<in> set (yd_pauses Y). pa_Vehicle p = vid}"
  by (auto simp: listPauses_def)

lemma find_pause_in: "find_pause Y pid = Some p \<Longrightarrow> p \<in> set (yd_pauses Y) \<and> pa_ID p = pid"
  by (auto simp: find_pause_def find_Some_iff)

end
