(* ===== verification/Yard_Facts.thy ===== *)
theory Yard_Facts
  imports Yard_Shift
begin

text \<open>
  Facts about billed periods and pauses: the end a period key stands for, the entries of the list of
  elapsed periods, and that a slice is billed from the pauses before its end alone.
\<close>

subsection \<open>Period keys as days\<close>

lemma horizon_eq: "horizon = ystart 10000 - 1"
proof -
  have "mstart (119999 + 1) = mstart 119999 + 31"
    unfolding mstart_step by (cases "is_leap 9999") (simp_all add: month_len_def time_simps)
  then show ?thesis
    by (simp add: horizon_def openUntil_def date_utc_def date_days_mstart ystart_mstart)
qed

definition key_years :: "string \<Rightarrow> int \<Rightarrow> bool" where
  "key_years p j \<longleftrightarrow> ystart 0 \<le> grid p j \<and> grid p j \<le> horizon"

lemma key_years_index:
  "key_years p j \<longleftrightarrow> (if p = BillingYearly then 0 \<le> j \<and> j \<le> 9999 else 0 \<le> j div 12 \<and> j div 12 \<le> 9999)"
proof (cases "p = BillingYearly")
  case True
  have "ystart j \<le> ystart 10000 - 1 \<longleftrightarrow> ystart j < ystart 10000" by linarith
  then show ?thesis using True by (auto simp: key_years_def grid_def horizon_eq)
next
  case False
  have "mstart j \<le> ystart 10000 - 1 \<longleftrightarrow> mstart j < mstart 120000" by (simp add: ystart_mstart)
  moreover have "ystart 0 = mstart 0" by (simp add: ystart_mstart)
  moreover have "0 \<le> j div 12 \<longleftrightarrow> 0 \<le> j" "j div 12 \<le> 9999 \<longleftrightarrow> j < 120000" by presburger+
  ultimately show ?thesis using False by (simp add: key_years_def grid_def horizon_eq)
qed

lemma periodKeyEnd_index:
  assumes "key_years p j"
  shows "periodKeyEnd (index_key p j) = utc_midnight (grid p (j + 1))"
proof (cases "p = BillingYearly")
  case True
  then have j: "0 \<le> j" "j \<le> 9999" using assms by (simp_all add: key_years_index)
  have "parse_month (fmt_0d 4 j) = None"
    using take_num_fmt [of j 4 "[]"] j by (simp add: parse_month_def take_char_def)
  then show ?thesis
    using True j by (simp add: index_key_def periodKeyEnd_def parse_format_year date_utc_ystart add_year_ystart grid_def)
next
  case False
  then have y: "0 \<le> j div 12" "j div 12 \<le> 9999" using assms by (simp_all add: key_years_index)
  have "parse_month (index_key p j) = Some (date_utc (j div 12) (j mod 12 + 1) 1)"
    using False y parse_format_month [of "j div 12" "j mod 12 + 1"] pos_mod_bound [of 12 j] by (simp add: index_key_def)
  moreover have "date_utc (j div 12) (j mod 12 + 1) 1 = utc_midnight (mstart j)"
    by (simp add: date_utc_mstart)
  ultimately show ?thesis using False by (simp add: periodKeyEnd_def add_month_mstart grid_def)
qed

lemma utc_not_zero: "ystart 0 \<le> n \<Longrightarrow> n \<noteq> -719162 \<Longrightarrow> \<not> is_zero_time (utc_midnight n)"
  by (simp add: is_zero_time_def same_instant_def zero_time_def)

subsection \<open>Entries of the elapsed periods\<close>

lemma detailed_entry:
  assumes "dated a" "per \<in> set (ElapsedPeriodsDetailed a t)"
  shows "\<exists>s e j. op_Key per = index_key (fp_Period a) j \<and> op_Start per = utc_midnight s
    \<and> op_Cost per = f_div (f_of_int (sliceCents a (utc_midnight s, utc_midnight e,
        utc_midnight (grid (fp_Period a) j), utc_midnight (grid (fp_Period a) (j + 1))))) 100
    \<and> start_day a \<le> s \<and> grid (fp_Period a) j \<le> s \<and> s < e \<and> e \<le> grid (fp_Period a) (j + 1)
    \<and> e \<le> until_day a (local_day t)"
proof -
  from assms(2) obtain x where x: "x \<in> set (elapsed a t)"
    and per: "op_Key per = PeriodKey a (fst (snd (snd x)))" "op_Start per = fst x"
      "op_Cost per = f_div (f_of_int (sliceCents a x)) 100"
    by (auto simp: ElapsedPeriodsDetailed_def subPeriods_elapsed [OF assms(1)] Let_def split: prod.splits)
  have le: "start_day a \<le> until_day a (local_day t)"
    using x by (cases "start_day a \<le> until_day a (local_day t)") (auto simp: elapsed_empty)
  from cal.tiles_slice [OF elapsed_tiled [OF le] x] obtain s e j where
    "x = (utc_midnight s, utc_midnight e, utc_midnight (grid (fp_Period a) j), utc_midnight (grid (fp_Period a) (j + 1)))"
    "start_day a \<le> s" "grid (fp_Period a) j \<le> s" "s < e" "e \<le> grid (fp_Period a) (j + 1)"
    "e \<le> until_day a (local_day t)" by blast
  then show ?thesis using per by (intro exI [of _ s] exI [of _ e] exI [of _ j]) (simp add: PeriodKey_grid)
qed

subsection \<open>Slices and pauses\<close>

text \<open>Two lists of pauses that agree up to day \<open>e\<close>: the same pauses begin before it, and they end alike
  or not before it.\<close>

definition clip :: "int \<Rightarrow> pause list \<Rightarrow> (int \<times> int) list" where
  "clip e ps = map (\<lambda>p. (local_day (ps_From p), min (local_day (ps_Until p)) (e - 1)))
     (filter (\<lambda>p. local_day (ps_From p) < e) ps)"

definition rest_dated :: "pause \<Rightarrow> bool" where
  "rest_dated p \<longleftrightarrow> is_date (ps_From p) \<and> is_date (ps_Until p) \<and> local_day (ps_From p) \<le> local_day (ps_Until p)"

lemma sliceCents_cuts:
  assumes "t_inst s < t_inst e"
  shows "sliceCents a (s, e, p, q) = cut_total a (days p q) (slice_cuts a s e)"
proof (cases "fp_RateChanges a = [] \<and> fp_Pauses a = []")
  case True
  then have "slice_cuts a s e = [s, e]" using assms by (simp add: slice_cuts_def)
  moreover have "\<not> pausedAt a s" "rateAt a s = fp_Amount a" using True by (simp_all add: pausedAt_def rateAt_def)
  moreover have "after e s" using assms by (simp add: after_def)
  ultimately show ?thesis using True by (simp add: sliceCents_def)
next
  case False
  then show ?thesis by (simp only: sliceCents_def prod.case if_False)
qed

lemma cut_total_cong:
  assumes "\<And>t. t \<in> set cs \<Longrightarrow> t \<noteq> e \<Longrightarrow> pausedAt a t = pausedAt b t" "\<And>t. rateAt a t = rateAt b t"
    and "sorted (map t_inst cs)" "\<And>t. t \<in> set cs \<Longrightarrow> t_inst t \<le> t_inst e"
  shows "cut_total a d cs = cut_total b d cs"
  using assms
proof (induction a d cs rule: cut_total.induct)
  case (1 a den ps pe cuts)
  have "ps = e \<Longrightarrow> \<not> after pe ps" using "1.prems"(4) [of pe] by (simp add: after_def)
  then have "(\<not> after pe ps \<or> pausedAt a ps) = (\<not> after pe ps \<or> pausedAt b ps)"
    using "1.prems"(1) [of ps] by auto
  moreover have "cut_total a den (pe # cuts) = cut_total b den (pe # cuts)"
    using "1.prems" by (intro "1.IH") auto
  ultimately show ?case using "1.prems"(2) by simp
qed simp_all

lemma slice_cuts_sorted: "sorted (map t_inst (slice_cuts a s e))"
  by (simp only: slice_cuts_def Let_def sorted_sort_key)

lemma slice_cuts_set:
  "t \<in> set (slice_cuts a s e) \<Longrightarrow> t_inst s < t_inst e \<Longrightarrow> t = e \<or> t_inst t < t_inst e"
  unfolding slice_cuts_def Let_def set_sort by (auto simp: before_def)

lemma clip_Cons:
  "clip e (p # ps) = (if local_day (ps_From p) < e
     then (local_day (ps_From p), min (local_day (ps_Until p)) (e - 1)) # clip e ps else clip e ps)"
  by (simp add: clip_def)

lemma DayAfter_rest: "rest_dated p \<Longrightarrow> DayAfter (ps_Until p) = utc_midnight (local_day (ps_Until p) + 1)"
  by (simp add: DayAfter_eq)

definition clip_bounds :: "int \<Rightarrow> int \<Rightarrow> (int \<times> int) list \<Rightarrow> time list" where
  "clip_bounds s e cs = filter (\<lambda>t. after t (utc_midnight s) \<and> before t (utc_midnight e))
     (concat (map (\<lambda>(f, u). [utc_midnight f, utc_midnight (u + 1)]) cs))"

lemma pause_bounds_clip:
  assumes "\<forall>p \<in> set ps. rest_dated p"
  shows "filter (\<lambda>t. after t (utc_midnight s) \<and> before t (utc_midnight e))
      (concat (map (\<lambda>p. [ps_From p, DayAfter (ps_Until p)]) ps)) = clip_bounds s e (clip e ps)"
  using assms
proof (induction ps)
  case (Cons p ps)
  then obtain f u where fu: "ps_From p = utc_midnight f" "ps_Until p = utc_midnight u" "f \<le> u"
    by (auto simp: rest_dated_def is_date_def)
  have "before (utc_midnight (min u (e - 1) + 1)) (utc_midnight e) \<longleftrightarrow> u + 1 < e" by auto
  moreover have "u + 1 < e \<Longrightarrow> min u (e - 1) + 1 = u + 1" by simp
  ultimately show ?case using Cons fu by (auto simp: clip_Cons clip_bounds_def min_def)
qed (simp add: clip_def clip_bounds_def)

lemma pausedAt_clip:
  assumes "\<forall>p \<in> set (fp_Pauses a). rest_dated p" "t_inst t < e * day_ns"
  shows "pausedAt a t \<longleftrightarrow> (\<exists>(f, u) \<in> set (clip e (fp_Pauses a)). f * day_ns \<le> t_inst t \<and> t_inst t < (u + 1) * day_ns)"
proof -
  have one: "\<not> before t (ps_From p) \<and> before t (DayAfter (ps_Until p)) \<longleftrightarrow>
      local_day (ps_From p) < e \<and> local_day (ps_From p) * day_ns \<le> t_inst t
        \<and> t_inst t < (min (local_day (ps_Until p)) (e - 1) + 1) * day_ns" if p: "p \<in> set (fp_Pauses a)" for p
  proof -
    obtain f u where fu: "ps_From p = utc_midnight f" "ps_Until p = utc_midnight u"
      using p assms(1) by (auto simp: rest_dated_def is_date_def)
    show ?thesis using assms(2) by (auto simp: fu before_def min_def not_less)
  qed
  show ?thesis unfolding pausedAt_def clip_def using one by auto
qed

lemma sliceCents_clip:
  assumes "fp_Amount a = fp_Amount b" "fp_RateChanges a = fp_RateChanges b"
    and ps: "\<forall>p \<in> set (fp_Pauses a). rest_dated p" "\<forall>p \<in> set (fp_Pauses b). rest_dated p"
    and "clip e (fp_Pauses a) = clip e (fp_Pauses b)" "s < e"
  shows "sliceCents a (utc_midnight s, utc_midnight e, p, q) = sliceCents b (utc_midnight s, utc_midnight e, p, q)"
proof -
  have lt: "t_inst (utc_midnight s) < t_inst (utc_midnight e)" using assms(6) by simp
  have cuts: "slice_cuts a (utc_midnight s) (utc_midnight e) = slice_cuts b (utc_midnight s) (utc_midnight e)"
    unfolding slice_cuts_def Let_def using assms(2) ps assms(5) by (simp only: pause_bounds_clip)
  have "pausedAt a t = pausedAt b t" if "t \<in> set (slice_cuts a (utc_midnight s) (utc_midnight e))" "t \<noteq> utc_midnight e" for t
  proof -
    have "t_inst t < e * day_ns" using slice_cuts_set [OF that(1) lt] that(2) by simp
    then show ?thesis using pausedAt_clip [OF ps(1)] pausedAt_clip [OF ps(2)] assms(5) by simp
  qed
  moreover have "rateAt a t = rateAt b t" for t using assms(1,2) by (simp add: rateAt_def)
  ultimately have "cut_total a d (slice_cuts a (utc_midnight s) (utc_midnight e))
      = cut_total b d (slice_cuts a (utc_midnight s) (utc_midnight e))" for d
    by (intro cut_total_cong [where e = "utc_midnight e"] slice_cuts_sorted)
      (use slice_cuts_set [OF _ lt] in \<open>fastforce+\<close>)
  then show ?thesis unfolding sliceCents_cuts [OF lt] cuts .
qed

end
