(* ===== verification/Yard_Pause_Facts.thy ===== *)
theory Yard_Pause_Facts
  imports Yard_Facts
begin

text \<open>
  What pauses leave alone: the books keep their pauses loaded, and every day up to the last billed
  one is billed from the same pauses as before.
\<close>

subsection \<open>The last billed day\<close>

lemma add_date_is_date: "is_date t \<Longrightarrow> is_date (add_date t dy dm dd)"
proof -
  assume "is_date t"
  then obtain n where t: "t = utc_midnight n" by (auto simp: is_date_def)
  obtain y m d where "civil_of_day n = (y, m, d)" by (cases "civil_of_day n")
  then show ?thesis by (simp add: t add_date_midnight)
qed

lemma date_utc_is_date [simp]: "is_date (date_utc y m d)"
  by (simp add: date_utc_def)

lemma parse_is_date:
  "parse_month s = Some t \<Longrightarrow> is_date t" "parse_year s = Some t \<Longrightarrow> is_date t" "parse_date s = Some t \<Longrightarrow> is_date t"
  by (auto simp: parse_month_def parse_year_def parse_date_def split: option.splits list.splits if_splits prod.splits)

lemma zero_time_is_date [simp]: "is_date zero_time"
  by (simp add: zero_time_def)

lemma periodKeyEnd_is_date: "is_date (periodKeyEnd key)"
  by (auto simp: periodKeyEnd_def split: option.split intro: add_date_is_date parse_is_date)

lemma latest_fold:
  assumes "\<And>k d. f k = Some d \<Longrightarrow> is_date d" "is_date a"
  shows "is_date (foldl (\<lambda>lst key. case f key of None \<Rightarrow> lst | Some d \<Rightarrow> if after d lst then d else lst) a ks)
    \<and> local_day a \<le> local_day (foldl (\<lambda>lst key. case f key of None \<Rightarrow> lst | Some d \<Rightarrow> if after d lst then d else lst) a ks)
    \<and> (\<forall>k \<in> set ks. \<forall>d. f k = Some d \<longrightarrow>
      local_day d \<le> local_day (foldl (\<lambda>lst key. case f key of None \<Rightarrow> lst | Some d \<Rightarrow> if after d lst then d else lst) a ks))"
  using assms(2)
proof (induction ks arbitrary: a)
  case (Cons k ks)
  let ?a = "case f k of None \<Rightarrow> a | Some d \<Rightarrow> if after d a then d else a"
  have lt: "after x y \<longleftrightarrow> local_day y < local_day x" if xy: "is_date x" "is_date y" for x y
  proof -
    obtain m n where "x = utc_midnight m" "y = utc_midnight n" using xy by (auto simp: is_date_def)
    then show ?thesis by simp
  qed
  have a: "is_date ?a" using Cons.prems assms(1) by (auto split: option.split)
  have "local_day a \<le> local_day ?a" "\<And>d. f k = Some d \<Longrightarrow> local_day d \<le> local_day ?a"
    using Cons.prems assms(1) by (auto simp: lt split: option.split)
  with Cons.IH [OF a] show ?case by (fastforce simp del: option.case_eq_if)
qed simp

lemma pauseLockedThrough_date: "is_date (pauseLockedThrough L vid)"
  unfolding pauseLockedThrough_def
  by (rule latest_fold [THEN conjunct1])
    (auto simp: key_last_day_def split: if_splits intro: add_date_is_date periodKeyEnd_is_date)

lemma pause_locked_key:
  assumes "index_key p j \<in> set (pause_keys L vid)" "key_years p j" "0 < grid p (j + 1)"
  shows "grid p (j + 1) \<le> local_day (pauseLockedThrough L vid) + 1" "\<not> is_zero_time (pauseLockedThrough L vid)"
proof -
  have nz: "\<not> is_zero_time (utc_midnight (grid p (j + 1)))"
    using assms(3) by (simp add: is_zero_time_def same_instant_def zero_time_def)
  then have k: "key_last_day (index_key p j) = Some (utc_midnight (grid p (j + 1) - 1))"
    by (simp add: key_last_day_def periodKeyEnd_index [OF assms(2)])
  have "local_day (utc_midnight (grid p (j + 1) - 1)) \<le> local_day (pauseLockedThrough L vid)"
    unfolding pauseLockedThrough_def using k assms(1)
    by (intro latest_fold [THEN conjunct2, THEN conjunct2, rule_format])
      (auto simp: key_last_day_def split: if_splits intro: add_date_is_date periodKeyEnd_is_date)
  then show g: "grid p (j + 1) \<le> local_day (pauseLockedThrough L vid) + 1" by simp
  obtain n where n: "pauseLockedThrough L vid = utc_midnight n"
    using pauseLockedThrough_date [of L vid] by (auto simp: is_date_def)
  then have "0 \<le> n" using g assms(3) by simp
  then show "\<not> is_zero_time (pauseLockedThrough L vid)"
    by (simp add: n is_zero_time_def same_instant_def zero_time_def)
qed

subsection \<open>Clipped pauses\<close>

lemma insort_key_map:
  assumes "\<And>x. k (g x) = k x"
  shows "insort_key k (g x) (map g xs) = map g (insort_key k x xs)"
  by (induction xs) (simp_all add: assms)

lemma sort_key_map_same: "(\<And>x. k (g x) = k x) \<Longrightarrow> sort_key k (map g xs) = map g (sort_key k xs)"
  by (induction xs) (simp_all add: insort_key_map)

definition clipped :: "int \<Rightarrow> pause_row \<Rightarrow> int \<times> int" where
  "clipped e p = (local_day (pa_From p), min (end_day p) (e - 1))"

lemma clip_billed:
  "clip e (billed_pauses Y vid) = map (clipped e) (sort_key (\<lambda>p. t_inst (pa_From p))
     (filter (\<lambda>p. pa_Vehicle p = vid \<and> local_day (pa_From p) < e) (yd_pauses Y)))"
proof -
  have "filter (\<lambda>p. local_day (pa_From p) < e) (listPauses Y vid) = sort_key (\<lambda>p. t_inst (pa_From p))
      (filter (\<lambda>p. pa_Vehicle p = vid \<and> local_day (pa_From p) < e) (yd_pauses Y))"
    by (simp add: listPauses_def filter_sort conj_commute)
  then show ?thesis
    by (simp add: clip_def billed_pauses_def filter_map comp_def clipped_def end_day_def)
qed

definition early :: "int \<Rightarrow> int \<Rightarrow> pause_row \<Rightarrow> bool" where
  "early vid e p \<longleftrightarrow> pa_Vehicle p = vid \<and> local_day (pa_From p) < e"

lemma clip_same:
  assumes "filter (early vid e) (yd_pauses Y') = map f (filter (early vid e) (yd_pauses Y))"
    and "\<And>p. pa_From (f p) = pa_From p" "\<And>p. p \<in> set (yd_pauses Y) \<Longrightarrow> early vid e p \<Longrightarrow> clipped e (f p) = clipped e p"
  shows "clip e (billed_pauses Y' vid) = clip e (billed_pauses Y vid)"
proof -
  have "sort_key (\<lambda>p. t_inst (pa_From p)) (map f (filter (early vid e) (yd_pauses Y)))
      = map f (sort_key (\<lambda>p. t_inst (pa_From p)) (filter (early vid e) (yd_pauses Y)))"
    by (rule sort_key_map_same) (simp add: assms(2))
  then show ?thesis using assms(1,3) unfolding clip_billed early_def [symmetric] by simp
qed

lemma clip_add:
  assumes "yd_pauses Y' = yd_pauses Y @ [p]" "pa_Vehicle p = vid \<Longrightarrow> e \<le> local_day (pa_From p)"
  shows "clip e (billed_pauses Y' vid) = clip e (billed_pauses Y vid)"
  by (rule clip_same [where f = id]) (use assms in \<open>auto simp: early_def\<close>)

lemma clip_remove:
  assumes "yd_pauses Y' = filter (\<lambda>q. pa_ID q \<noteq> pid) (yd_pauses Y)"
    and "\<And>q. q \<in> set (yd_pauses Y) \<Longrightarrow> pa_ID q = pid \<Longrightarrow> pa_Vehicle q = vid \<Longrightarrow> e \<le> local_day (pa_From q)"
  shows "clip e (billed_pauses Y' vid) = clip e (billed_pauses Y vid)"
proof (rule clip_same [where f = id])
  have "early vid e q \<and> pa_ID q \<noteq> pid \<longleftrightarrow> early vid e q" if "q \<in> set (yd_pauses Y)" for q
    using assms(2) [OF that] by (auto simp: early_def)
  then show "filter (early vid e) (yd_pauses Y') = map id (filter (early vid e) (yd_pauses Y))"
    by (simp add: assms(1) conj_commute cong: filter_cong)
qed simp_all

lemma clip_change:
  assumes "yd_pauses Y' = map (\<lambda>q. if pa_ID q = pid then f q else q) (yd_pauses Y)"
    and "\<And>p. pa_From (f p) = pa_From p \<and> pa_Vehicle (f p) = pa_Vehicle p"
    and "\<And>q. q \<in> set (yd_pauses Y) \<Longrightarrow> pa_ID q = pid \<Longrightarrow> pa_Vehicle q = vid \<Longrightarrow> min (end_day (f q)) (e - 1) = min (end_day q) (e - 1)"
  shows "clip e (billed_pauses Y' vid) = clip e (billed_pauses Y vid)"
proof (rule clip_same [where f = "\<lambda>q. if pa_ID q = pid then f q else q"])
  show "filter (early vid e) (yd_pauses Y') = map (\<lambda>q. if pa_ID q = pid then f q else q) (filter (early vid e) (yd_pauses Y))"
    using assms(2) by (simp add: assms(1) filter_map early_def [abs_def] comp_def if_distrib cong: if_cong)
qed (use assms(2,3) in \<open>auto simp: early_def clipped_def\<close>)

subsection \<open>Dates that can be written\<close>

lemma digits_value_less: "list_all is_digit s \<Longrightarrow> digits_value s < 10 ^ length s"
proof (induction s rule: rev_induct)
  case (snoc c s)
  then have "digits_value s < 10 ^ length s" "of_char c - 48 < (10::nat)" by (auto simp: is_digit_def)
  moreover have "digits_value (s @ [c]) = 10 * digits_value s + (of_char c - 48)" by (simp add: digits_value_def)
  ultimately show ?case by simp
qed (simp add: digits_value_def)

lemma take_num_range: "take_num n s = Some (k, r) \<Longrightarrow> 0 \<le> k \<and> k < 10 ^ n"
  using digits_value_less [of "take n s"]
  by (auto simp: take_num_def min_def split: if_splits)

lemma parse_date_horizon:
  assumes "parse_date s = Some t" shows "is_date t \<and> local_day t \<le> horizon"
proof -
  obtain y m d where t: "t = date_utc y m d" and b: "1 \<le> m" "m \<le> 12" "1 \<le> d" "d \<le> month_len y m" "y < 10 ^ 4"
    using assms take_num_range [of 4 s]
    by (fastforce simp: parse_date_def split: option.splits list.splits prod.splits if_splits)
  have "year_of_day (date_days y m d) = y"
    using civil_of_day_date [OF b(1-4)] civil_of_day_props(1) by fastforce
  then have "date_days y m d < ystart (y + 1)" by (simp add: year_of_day_iff)
  also have "\<dots> \<le> ystart 10000" using b(5) by simp
  finally show ?thesis by (simp add: t date_utc_def horizon_eq)
qed

lemma given_date_horizon: "given_date msg s = Inr (Some t) \<Longrightarrow> is_date t \<and> local_day t \<le> horizon"
  by (auto simp: given_date_def parseOptDate_def split: option.splits if_splits sum.splits intro: parse_date_horizon
      dest: parse_date_horizon)

lemma startOfDayUTC_eq: "startOfDayUTC t = utc_midnight (local_day t)"
proof -
  obtain y m d where "time_date t = (y, m, d)" by (cases "time_date t")
  then show ?thesis
    using time_date_date by (simp add: startOfDayUTC_def date_utc_def time_year_def time_month_def time_day_def)
qed

subsection \<open>Steps on pauses\<close>

inductive pause_step :: "pay_env \<Rightarrow> yard \<Rightarrow> yard \<Rightarrow> bool" for env where
  start: "createPauseTx env vid i src Y = Inr Y' \<Longrightarrow> pause_step env Y Y'"
| extend: "ExtendPause pid given Y = Inr Y' \<Longrightarrow> pause_step env Y Y'"
| return: "ReturnFromPause env hall pid given Y = Some (Inr Y') \<Longrightarrow> pause_step env Y Y'"
| remove: "DeletePause pid Y = Some (Inr Y') \<Longrightarrow> pause_step env Y Y'"

text \<open>What the tables keep: dated pauses under distinct ids, loaded with their vehicle and with the
  recurring costs bound to it.\<close>

definition pauses_ok :: "yard \<Rightarrow> bool" where
  "pauses_ok Y \<longleftrightarrow>
     (\<forall>p \<in> set (yd_pauses Y). pause_dated p \<and> pa_ID p < yd_next_pause Y) \<and> distinct (map pa_ID (yd_pauses Y))
     \<and> (\<forall>v \<in> set (lg_vehicles (yd_ledger Y)). vh_Pauses v = billed_pauses Y (vh_ID v))
     \<and> (\<forall>r \<in> set (lg_recurring (yd_ledger Y)). rg_Pauses r
          = (case rg_VehicleID r of None \<Rightarrow> [] | Some w \<Rightarrow> billed_pauses Y w))"

text \<open>How a step changes the table of pauses.\<close>

inductive table_step :: "int \<Rightarrow> yard \<Rightarrow> yard \<Rightarrow> bool" where
  added: "pause_dated p \<Longrightarrow> pa_ID p = yd_next_pause Y \<Longrightarrow> yd_next_pause Y' = yd_next_pause Y + 1
     \<Longrightarrow> yd_pauses Y' = yd_pauses Y @ [p] \<Longrightarrow> pa_Vehicle p = vid
     \<Longrightarrow> (\<not> is_zero_time (pauseLockedThrough (yd_ledger Y) vid)
           \<Longrightarrow> local_day (pauseLockedThrough (yd_ledger Y) vid) < local_day (pa_From p))
     \<Longrightarrow> table_step vid Y Y'"
| changed: "q \<in> set (yd_pauses Y) \<Longrightarrow> pa_ID q = pid \<Longrightarrow> pa_Vehicle q = vid \<Longrightarrow> pause_dated (f q)
     \<Longrightarrow> (\<And>p. pa_From (f p) = pa_From p \<and> pa_Vehicle (f p) = pa_Vehicle p \<and> pa_ID (f p) = pa_ID p)
     \<Longrightarrow> yd_next_pause Y' = yd_next_pause Y
     \<Longrightarrow> yd_pauses Y' = map (\<lambda>p. if pa_ID p = pid then f p else p) (yd_pauses Y)
     \<Longrightarrow> (\<not> is_zero_time (pauseLockedThrough (yd_ledger Y) vid)
           \<Longrightarrow> min (end_day (f q)) (local_day (pauseLockedThrough (yd_ledger Y) vid))
             = min (end_day q) (local_day (pauseLockedThrough (yd_ledger Y) vid)))
     \<Longrightarrow> table_step vid Y Y'"
| removed: "q \<in> set (yd_pauses Y) \<Longrightarrow> pa_ID q = pid \<Longrightarrow> pa_Vehicle q = vid \<Longrightarrow> yd_next_pause Y' = yd_next_pause Y
     \<Longrightarrow> yd_pauses Y' = filter (\<lambda>p. pa_ID p \<noteq> pid) (yd_pauses Y)
     \<Longrightarrow> (\<not> is_zero_time (pauseLockedThrough (yd_ledger Y) vid)
           \<Longrightarrow> local_day (pauseLockedThrough (yd_ledger Y) vid) < local_day (pa_From q))
     \<Longrightarrow> table_step vid Y Y'"

definition pause_books :: "int \<Rightarrow> yard \<Rightarrow> yard \<Rightarrow> bool" where
  "pause_books vid Y Y' \<longleftrightarrow>
     (\<exists>pt. yd_ledger Y' = (yd_ledger Y)\<lparr>
        lg_vehicles := map (\<lambda>v. if vh_ID v = vid then v\<lparr>vh_PaidThrough := pt v, vh_Pauses := billed_pauses Y' vid\<rparr> else v)
          (lg_vehicles (yd_ledger Y)),
        lg_recurring := map (\<lambda>r. if rg_VehicleID r = Some vid then r\<lparr>rg_Pauses := billed_pauses Y' vid\<rparr> else r)
          (lg_recurring (yd_ledger Y))\<rparr>)"

lemma billed_pauses_cong: "yd_pauses Y = yd_pauses Z \<Longrightarrow> billed_pauses Y vid = billed_pauses Z vid"
  by (simp add: billed_pauses_def listPauses_def)

lemma yd_pauses_frames [simp]:
  "yd_pauses (refresh_pauses vid Y) = yd_pauses Y" "yd_pauses (change_vehicle vid g Y) = yd_pauses Y"
  "yd_pauses (change_card vid h Y) = yd_pauses Y" "yd_pauses (relink_spot vid sp Y) = yd_pauses Y"
  "yd_next_pause (refresh_pauses vid Y) = yd_next_pause Y" "yd_next_pause (change_vehicle vid g Y) = yd_next_pause Y"
  "yd_next_pause (change_card vid h Y) = yd_next_pause Y" "yd_next_pause (relink_spot vid sp Y) = yd_next_pause Y"
  "yd_ledger (change_card vid h Y) = yd_ledger Y" "yd_ledger (relink_spot vid sp Y) = yd_ledger Y"
  by (simp_all add: refresh_pauses_def change_vehicle_def with_vehicles_def change_card_def relink_spot_def
      with_ledger_def Let_def split: option.split)

lemma books_refresh:
  assumes "yd_ledger Z = yd_ledger Y"
  shows "pause_books vid Y (refresh_pauses vid Z)"
  unfolding pause_books_def
  by (intro exI [of _ vh_PaidThrough])
    (auto simp: refresh_pauses_def Let_def assms billed_pauses_def listPauses_def with_ledger_def)

lemma books_relink: "pause_books vid Y Z \<Longrightarrow> pause_books vid Y (relink_spot w sp Z)"
  unfolding pause_books_def using billed_pauses_cong [of "relink_spot w sp Z" Z vid] by (simp cong: if_cong)

lemma books_paid_after:
  assumes "pause_books vid Y Z" shows "pause_books vid Y (set_paid_through vid t Z)"
proof -
  from assms obtain pt where L: "yd_ledger Z = (yd_ledger Y)\<lparr>
        lg_vehicles := map (\<lambda>v. if vh_ID v = vid then v\<lparr>vh_PaidThrough := pt v, vh_Pauses := billed_pauses Z vid\<rparr> else v)
          (lg_vehicles (yd_ledger Y)),
        lg_recurring := map (\<lambda>r. if rg_VehicleID r = Some vid then r\<lparr>rg_Pauses := billed_pauses Z vid\<rparr> else r)
          (lg_recurring (yd_ledger Y))\<rparr>" by (auto simp: pause_books_def)
  have b: "billed_pauses (set_paid_through vid t Z) vid = billed_pauses Z vid"
    by (rule billed_pauses_cong) (simp add: set_paid_through_def)
  show ?thesis unfolding pause_books_def b
    by (intro exI [of _ "\<lambda>_. Some t"])
      (simp add: set_paid_through_def change_vehicle_def with_vehicles_def L comp_def if_distrib cong: if_cong)
qed

lemma books_paid_before:
  assumes "yd_ledger Z = yd_ledger (set_paid_through vid t Y)"
  shows "pause_books vid Y (refresh_pauses vid Z)"
proof -
  have b: "billed_pauses (refresh_pauses vid Z) vid = billed_pauses Z vid"
    by (rule billed_pauses_cong) simp
  show ?thesis unfolding pause_books_def b
    by (intro exI [of _ "\<lambda>_. Some t"])
      (simp add: refresh_pauses_def Let_def assms set_paid_through_def change_vehicle_def with_vehicles_def comp_def if_distrib cong: if_cong)
qed

lemma dated_option: "is_date t \<Longrightarrow> \<exists>n. t = utc_midnight n"
  by (auto simp: is_date_def)

lemma pause_interval_dates:
  assumes "pause_interval today i = Inr (frm, until)" "is_date today" "local_day today \<le> horizon"
  shows "is_date frm \<and> local_day frm \<le> horizon \<and>
    (case until of None \<Rightarrow> True | Some u \<Rightarrow> is_date u \<and> local_day u \<le> horizon \<and> local_day frm \<le> local_day u)"
proof -
  from assms(1) obtain gf where g: "given_date ''Beginn als JJJJ-MM-TT'' (pi_From i) = Inr gf"
    "frm = (case gf of None \<Rightarrow> today | Some d \<Rightarrow> d)"
    "given_date (''R'' @ utf8_text [195, 188] @ ''ckkehr als JJJJ-MM-TT'') (pi_Until i) = Inr until"
    "\<not> (case until of None \<Rightarrow> False | Some d \<Rightarrow> before d frm)"
    unfolding pause_interval_def Let_def by (auto split: sum.splits if_splits)
  have f: "is_date frm \<and> local_day frm \<le> horizon"
    using g(1) assms(2,3) by (auto simp: g(2) dest: given_date_horizon split: option.split)
  show ?thesis
  proof (cases until)
    case (Some u)
    then have u: "is_date u \<and> local_day u \<le> horizon" using g(3) by (auto dest: given_date_horizon)
    with f obtain m n where "frm = utc_midnight m" "u = utc_midnight n" by (auto simp: is_date_def)
    with f u g(4) Some show ?thesis by simp
  qed (simp add: f)
qed

lemma start_table:
  assumes "createPauseTx env vid i src Y = Inr Y'" "local_day (pe_now env) \<le> horizon"
  shows "table_step vid Y Y' \<and> pause_books vid Y Y'"
proof -
  let ?today = "startOfDayUTC (pe_now env)"
  define hold where "hold = (case pi_HoldSpot i of None \<Rightarrow> True | Some b \<Rightarrow> b)"
  define remark where "remark = trim_space (pi_Remark i)"
  define prev where "prev = (if hold then None else vc_Spot (yd_cards Y vid))"
  from assms(1) obtain frm until where g: "pause_interval ?today i = Inr (frm, until)"
    "pause_refused ?today vid hold remark frm until Y = None"
    and Y': "Y' = add_pause \<lparr>pa_ID = 0, pa_Vehicle = vid, pa_From = frm, pa_Until = until, pa_Ended = False,
        pa_HoldSpot = hold, pa_PrevSpot = prev, pa_Note = remark, pa_Source = src, pa_PaidBefore = None\<rparr>
        (if prev \<noteq> None then free_spot vid Y else Y)"
    unfolding createPauseTx_def Let_def hold_def [symmetric] remark_def [symmetric] prev_def [symmetric]
    by (auto split: sum.splits option.splits simp del: not_None_eq)
  define p where "p = \<lparr>pa_ID = yd_next_pause Y, pa_Vehicle = vid, pa_From = frm, pa_Until = until,
      pa_Ended = False, pa_HoldSpot = hold, pa_PrevSpot = prev, pa_Note = remark, pa_Source = src, pa_PaidBefore = None\<rparr>"
  define Z where "Z = (if prev \<noteq> None then free_spot vid Y else Y)"
  have Z: "yd_ledger Z = yd_ledger Y" "yd_pauses Z = yd_pauses Y" "yd_next_pause Z = yd_next_pause Y"
    by (simp_all add: Z_def free_spot_def)
  have Y2: "Y' = refresh_pauses vid (Z\<lparr>yd_pauses := yd_pauses Y @ [p], yd_next_pause := yd_next_pause Y + 1\<rparr>)"
    unfolding Y' Z_def [symmetric] add_pause_def by (simp add: Z p_def)
  have d: "is_date frm \<and> local_day frm \<le> horizon \<and>
      (case until of None \<Rightarrow> True | Some u \<Rightarrow> is_date u \<and> local_day u \<le> horizon \<and> local_day frm \<le> local_day u)"
    using pause_interval_dates [OF g(1)] assms(2) by (simp add: startOfDayUTC_eq)
  then have "pause_dated p" by (auto simp: p_def pause_dated_def split: option.splits)
  moreover have "local_day (pauseLockedThrough (yd_ledger Y) vid) < local_day frm"
    if nz: "\<not> is_zero_time (pauseLockedThrough (yd_ledger Y) vid)"
  proof -
    have "after frm (pauseLockedThrough (yd_ledger Y) vid)"
      using g(2) nz unfolding pause_refused_def Let_def by (auto split: option.splits if_splits)
    moreover obtain m n where "frm = utc_midnight m" "pauseLockedThrough (yd_ledger Y) vid = utc_midnight n"
      using d pauseLockedThrough_date [of "yd_ledger Y" vid] by (auto simp: is_date_def)
    ultimately show ?thesis by simp
  qed
  ultimately have "table_step vid Y Y'"
    by (intro table_step.added [of p]) (simp_all add: Y2, simp_all add: p_def)
  moreover have "pause_books vid Y Y'" unfolding Y2 by (rule books_refresh) (simp add: Z)
  ultimately show ?thesis by simp
qed

lemma extend_table:
  assumes "ExtendPause pid given Y = Inr Y'" "pauses_ok Y"
  shows "\<exists>vid. table_step vid Y Y' \<and> pause_books vid Y Y'"
proof -
  from assms(1) obtain until q where g:
    "given_date (''R'' @ utf8_text [195, 188] @ ''ckkehr als JJJJ-MM-TT'') given = Inr until"
    "find_pause Y pid = Some q" "\<not> pa_Ended q" "\<not> (case until of None \<Rightarrow> False | Some u \<Rightarrow> before u (pa_From q))"
    and Y': "Y' = change_pause (pa_Vehicle q) pid (\<lambda>q. q\<lparr>pa_Until := until\<rparr>) Y"
    unfolding ExtendPause_def by (auto split: sum.splits option.splits if_splits)
  have q: "q \<in> set (yd_pauses Y)" "pa_ID q = pid" using find_pause_in [OF g(2)] by auto
  then have dq: "pause_dated q" using assms(2) by (simp add: pauses_ok_def)
  have "pause_dated (q\<lparr>pa_Until := until\<rparr>)"
  proof (cases until)
    case (Some u)
    then have u: "is_date u \<and> local_day u \<le> horizon" using g(1) by (auto dest: given_date_horizon)
    with dq obtain m n where "pa_From q = utc_midnight m" "u = utc_midnight n" by (auto simp: is_date_def pause_dated_def)
    with dq u g(4) Some show ?thesis by (simp add: pause_dated_def)
  qed (use dq g(3) in \<open>simp add: pause_dated_def\<close>)
  moreover have "end_day (q\<lparr>pa_Until := until\<rparr>) = end_day q"
    using g(3) by (auto simp: end_day_def billingEnd_def split: option.split)
  ultimately have "table_step (pa_Vehicle q) Y Y'"
    using q by (intro table_step.changed [of q Y pid _ "\<lambda>q. q\<lparr>pa_Until := until\<rparr>"]) (simp_all add: Y' change_pause_def)
  moreover have "pause_books (pa_Vehicle q) Y Y'"
    unfolding Y' change_pause_def by (rule books_refresh) simp
  ultimately show ?thesis by blast
qed

lemma map_sum_Inr [simp]: "map_sum id f z = Inr y \<longleftrightarrow> (\<exists>x. z = Inr x \<and> y = f x)"
  by (cases z) auto

lemma after_locked:
  assumes "is_date t" "after t (pauseLockedThrough L vid)"
  shows "local_day (pauseLockedThrough L vid) < local_day t"
  using assms pauseLockedThrough_date [of L vid] by (auto simp: is_date_def) (metis after_midnight)

lemma remove_table:
  assumes "DeletePause pid Y = Some (Inr Y')" "pauses_ok Y"
  shows "\<exists>vid. table_step vid Y Y' \<and> pause_books vid Y Y'"
proof -
  from assms obtain q v Z where q: "find_pause Y pid = Some q" "find_vehicle Y (pa_Vehicle q) = Some v"
    "undo_shift q v Y = Some (Inr Z)"
    "is_zero_time (pauseLockedThrough (yd_ledger Y) (pa_Vehicle q)) \<or> after (pa_From q) (pauseLockedThrough (yd_ledger Y) (pa_Vehicle q))"
    and Y': "Y' = relink_spot (pa_Vehicle q) (pa_PrevSpot q) (remove_pause (pa_Vehicle q) pid Z)"
    unfolding DeletePause_def Let_def by (auto split: option.splits if_splits)
  have Z: "Z = Y \<or> (\<exists>t. Z = set_paid_through (pa_Vehicle q) t Y)"
    using q(3) by (auto simp: undo_shift_def split: bool.splits option.splits if_splits)
  then have Zp: "yd_pauses Z = yd_pauses Y" "yd_next_pause Z = yd_next_pause Y" by (auto simp: set_paid_through_def)
  have "is_date (pa_From q)" using find_pause_in [OF q(1)] assms(2) by (auto simp: pauses_ok_def pause_dated_def)
  show ?thesis
  proof (intro exI conjI)
    show "pause_books (pa_Vehicle q) Y Y'"
      unfolding Y' remove_pause_def
      by (rule books_relink, use Z in \<open>elim disjE exE\<close>)
        (simp_all add: books_refresh books_paid_before [where Y = Y])
    show "table_step (pa_Vehicle q) Y Y'"
      using find_pause_in [OF q(1)] q(4) \<open>is_date (pa_From q)\<close>
      by (intro table_step.removed [of q Y pid]) (auto simp: Y' remove_pause_def Zp intro: after_locked)
  qed
qed

lemma return_table:
  assumes "ReturnFromPause env hall pid given Y = Some (Inr Y')" "pauses_ok Y" "local_day (pe_now env) \<le> horizon"
  shows "\<exists>vid. table_step vid Y Y' \<and> pause_books vid Y Y'"
proof -
  let ?today = "startOfDayUTC (pe_now env)"
  from assms(1) obtain g q v day Z where g:
    "given_date (''R'' @ utf8_text [195, 188] @ ''ckkehrtag als JJJJ-MM-TT'') given = Inr g"
    "day = (case g of None \<Rightarrow> ?today | Some d \<Rightarrow> d)"
    and q: "find_pause Y pid = Some q" "\<not> pa_Ended q" "\<not> before day (pa_From q)"
      "\<not> locks (pauseLockedThrough (yd_ledger Y) (pa_Vehicle q)) (add_date day 0 0 (- 1))"
      "(if same_instant day (pa_From q) then Some (remove_pause (pa_Vehicle q) pid Y)
        else end_pause q (add_date day 0 0 (- 1)) v Y) = Some Z"
    and Y': "Y' = relink_spot (pa_Vehicle q) (pa_PrevSpot q) Z"
    unfolding ReturnFromPause_def Let_def
    by (auto split: sum.splits option.splits if_splits simp del: locks_def)
  have dq: "pause_dated q" and qi: "q \<in> set (yd_pauses Y)" "pa_ID q = pid"
    using find_pause_in [OF q(1)] assms(2) by (auto simp: pauses_ok_def)
  have "is_date day \<and> local_day day \<le> horizon"
    using g assms(3) by (auto simp: startOfDayUTC_eq dest: given_date_horizon split: option.split)
  then obtain d where d: "day = utc_midnight d" "d \<le> horizon" by (auto simp: is_date_def)
  obtain f where f: "pa_From q = utc_midnight f" using dq by (auto simp: pause_dated_def is_date_def)
  obtain n where n: "pauseLockedThrough (yd_ledger Y) (pa_Vehicle q) = utc_midnight n"
    using pauseLockedThrough_date [of "yd_ledger Y" "pa_Vehicle q"] by (auto simp: is_date_def)
  have fd: "f \<le> d" using q(3) by (simp add: f d)
  have lk: "n \<le> d - 1" if "\<not> is_zero_time (utc_midnight n)" using that q(4) by (simp add: n d locks_def)
  show ?thesis
  proof (cases "d = f")
    case True
    then have Z: "Z = remove_pause (pa_Vehicle q) pid Y" using q(5) by (simp add: f d same_instant_def)
    have "table_step (pa_Vehicle q) Y Y'"
      using qi lk True by (intro table_step.removed [of q Y pid]) (auto simp: Y' Z remove_pause_def n f)
    moreover have "pause_books (pa_Vehicle q) Y Y'"
      unfolding Y' Z remove_pause_def by (intro books_relink books_refresh) simp
    ultimately show ?thesis by blast
  next
    case False
    let ?f = "\<lambda>p. p\<lparr>pa_Until := Some (utc_midnight (d - 1)), pa_Ended := True, pa_PaidBefore := vh_PaidThrough v\<rparr>"
    have "end_pause q (utc_midnight (d - 1)) v Y = Some Z"
      using q(5) False by (simp add: f d same_instant_def)
    then have Z: "Z = change_pause (pa_Vehicle q) pid ?f Y
        \<or> (\<exists>t. Z = set_paid_through (pa_Vehicle q) t (change_pause (pa_Vehicle q) pid ?f Y))"
      unfolding end_pause_def Let_def qi(2) by (auto split: option.splits if_splits)
    have "pause_dated (?f q)" using dq f fd False d by (simp add: pause_dated_def)
    moreover have "min (end_day (?f q)) n = min (end_day q) n" if "\<not> is_zero_time (utc_midnight n)"
    proof -
      have "end_day (?f q) = d - 1" by (simp add: end_day_def billingEnd_def)
      moreover have "end_day q = horizon" using q(2) by (auto simp: end_day_def billingEnd_def horizon_def split: option.split)
      ultimately show ?thesis using lk [OF that] d by simp
    qed
    ultimately have "table_step (pa_Vehicle q) Y Y'"
      using qi Z by (intro table_step.changed [of q Y pid _ ?f]) (auto simp: Y' change_pause_def set_paid_through_def n)
    moreover have "pause_books (pa_Vehicle q) Y Y'"
      unfolding Y' using Z by (auto simp: change_pause_def intro!: books_relink books_paid_after books_refresh)
    ultimately show ?thesis by blast
  qed
qed

lemma pause_step_table:
  assumes "pause_step env Y Y'" "pauses_ok Y" "local_day (pe_now env) \<le> horizon"
  shows "\<exists>vid. table_step vid Y Y' \<and> pause_books vid Y Y'"
  using assms
proof (cases rule: pause_step.cases)
  case (start vid i src)
  then show ?thesis using start_table assms(3) by blast
qed (use assms(2,3) extend_table return_table remove_table in \<open>blast+\<close>)

subsection \<open>What a step leaves alone\<close>

lemma table_step_other:
  assumes "table_step vid Y Y'" "w \<noteq> vid" "pauses_ok Y"
  shows "billed_pauses Y' w = billed_pauses Y w"
proof -
  have u: "p = q" if "p \<in> set (yd_pauses Y)" "q \<in> set (yd_pauses Y)" "pa_ID p = pa_ID q" for p q
    using that assms(3) by (auto simp: pauses_ok_def distinct_map inj_on_def)
  have "filter (\<lambda>p. pa_Vehicle p = w) (yd_pauses Y') = filter (\<lambda>p. pa_Vehicle p = w) (yd_pauses Y)"
    using assms(1)
  proof cases
    case (added p)
    then show ?thesis using assms(2) by simp
  next
    case (changed q pid f)
    have "filter (\<lambda>p. pa_Vehicle p = w) (map (\<lambda>p. if pa_ID p = pid then f p else p) xs) = filter (\<lambda>p. pa_Vehicle p = w) xs"
      if "set xs \<subseteq> set (yd_pauses Y)" for xs
      using that
    proof (induction xs)
      case (Cons x xs)
      have "pa_ID x = pid \<Longrightarrow> x = q" using u [of x q] Cons.prems changed(1,2) by simp
      then have "pa_ID x = pid \<Longrightarrow> pa_Vehicle x \<noteq> w" using changed(3) assms(2) by auto
      with Cons changed(5) show ?case by auto
    qed simp
    then show ?thesis by (simp add: changed)
  next
    case (removed q pid)
    have "pa_ID p \<noteq> pid" if "p \<in> set (yd_pauses Y)" "pa_Vehicle p = w" for p
      using that u [of p q] removed(1-3) assms(2) by auto
    then show ?thesis by (auto simp: removed intro!: filter_cong)
  qed
  then show ?thesis by (simp add: billed_pauses_def listPauses_def)
qed

lemma table_step_clip:
  assumes "table_step vid Y Y'" "pauses_ok Y" "\<not> is_zero_time (pauseLockedThrough (yd_ledger Y) vid)"
    "e \<le> local_day (pauseLockedThrough (yd_ledger Y) vid) + 1"
  shows "clip e (billed_pauses Y' vid) = clip e (billed_pauses Y vid)"
proof -
  have u: "p = q" if "p \<in> set (yd_pauses Y)" "q \<in> set (yd_pauses Y)" "pa_ID p = pa_ID q" for p q
    using that assms(2) by (auto simp: pauses_ok_def distinct_map inj_on_def)
  let ?n = "local_day (pauseLockedThrough (yd_ledger Y) vid)"
  show ?thesis
    using assms(1)
  proof cases
    case (added p)
    then show ?thesis using assms(3,4) by (intro clip_add [of Y' Y p]) auto
  next
    case (changed q pid f)
    show ?thesis
    proof (rule clip_change [of Y' pid f Y])
      fix x assume x: "x \<in> set (yd_pauses Y)" "pa_ID x = pid" "pa_Vehicle x = vid"
      then have "x = q" using u [of x q] changed(1,2) by simp
      moreover have "min (end_day (f q)) ?n = min (end_day q) ?n" using changed(8) assms(3) by simp
      ultimately show "min (end_day (f x)) (e - 1) = min (end_day x) (e - 1)"
        using assms(4) by (auto simp: min_def split: if_splits)
    qed (use changed in auto)
  next
    case (removed q pid)
    show ?thesis
    proof (rule clip_remove [of Y' pid Y])
      fix x assume "x \<in> set (yd_pauses Y)" "pa_ID x = pid"
      then have "x = q" using u [of x q] removed(1,2) by simp
      then show "e \<le> local_day (pa_From x)" using removed(6) assms(3,4) by simp
    qed (simp add: removed)
  qed
qed

lemma rest_dated_billed: "pauses_ok Y \<Longrightarrow> \<forall>p \<in> set (billed_pauses Y vid). rest_dated p"
proof -
  have "rest_dated \<lparr>ps_From = pa_From p, ps_Until = billingEnd p\<rparr>" if "pause_dated p" for p
    using that billingEnd_day [OF that]
    by (auto simp: rest_dated_def pause_dated_def end_day_def billingEnd_def openUntil_eq split: option.splits)
  then show "pauses_ok Y \<Longrightarrow> ?thesis" by (auto simp: billed_pauses_def pauses_ok_def)
qed

lemma pauses_ok_step:
  assumes "table_step vid Y Y'" "pause_books vid Y Y'" "pauses_ok Y"
  shows "pauses_ok Y'"
proof -
  have tb: "\<forall>p \<in> set (yd_pauses Y). pause_dated p \<and> pa_ID p < yd_next_pause Y" "distinct (map pa_ID (yd_pauses Y))"
    using assms(3) by (simp_all add: pauses_ok_def)
  have t: "(\<forall>p \<in> set (yd_pauses Y'). pause_dated p \<and> pa_ID p < yd_next_pause Y') \<and> distinct (map pa_ID (yd_pauses Y'))"
    using assms(1)
  proof cases
    case (added p)
    then show ?thesis using tb by fastforce
  next
    case (changed q pid f)
    have "pause_dated p' \<and> pa_ID p' < yd_next_pause Y" if "p' \<in> set (yd_pauses Y')" for p'
    proof -
      from that obtain p where p: "p \<in> set (yd_pauses Y)" "p' = (if pa_ID p = pid then f p else p)"
        unfolding changed(7) by auto
      have "pa_ID p = pid \<Longrightarrow> p = q" using p(1) changed(1,2) tb(2) by (auto simp: distinct_map inj_on_def)
      moreover have "pa_ID (f p) = pa_ID p" using changed(5) by simp
      ultimately show ?thesis using changed(4) bspec [OF tb(1) p(1)] p(2) by (cases "pa_ID p = pid") auto
    qed
    moreover have "map pa_ID (yd_pauses Y') = map pa_ID (yd_pauses Y)" using changed(5,7) by (auto simp: comp_def)
    ultimately show ?thesis using tb(2) by (simp add: changed(6))
  next
    case (removed q pid)
    then show ?thesis using tb by (auto simp: distinct_map inj_on_def)
  qed
  obtain pt where L: "yd_ledger Y' = (yd_ledger Y)\<lparr>
        lg_vehicles := map (\<lambda>v. if vh_ID v = vid then v\<lparr>vh_PaidThrough := pt v, vh_Pauses := billed_pauses Y' vid\<rparr> else v)
          (lg_vehicles (yd_ledger Y)),
        lg_recurring := map (\<lambda>r. if rg_VehicleID r = Some vid then r\<lparr>rg_Pauses := billed_pauses Y' vid\<rparr> else r)
          (lg_recurring (yd_ledger Y))\<rparr>" using assms(2) by (auto simp: pause_books_def)
  have o: "billed_pauses Y w = billed_pauses Y' w" if "w \<noteq> vid" for w
    using table_step_other [OF assms(1) that assms(3)] by simp
  have "vh_Pauses v = billed_pauses Y' (vh_ID v)" if v: "v \<in> set (lg_vehicles (yd_ledger Y'))" for v
  proof -
    from v obtain w where w: "w \<in> set (lg_vehicles (yd_ledger Y))"
      "v = (if vh_ID w = vid then w\<lparr>vh_PaidThrough := pt w, vh_Pauses := billed_pauses Y' vid\<rparr> else w)"
      by (auto simp: L)
    have "vh_Pauses w = billed_pauses Y (vh_ID w)" using w(1) assms(3) by (simp add: pauses_ok_def)
    with o show ?thesis by (cases "vh_ID w = vid") (simp_all add: w(2))
  qed
  moreover have "rg_Pauses r = (case rg_VehicleID r of None \<Rightarrow> [] | Some w \<Rightarrow> billed_pauses Y' w)"
    if r: "r \<in> set (lg_recurring (yd_ledger Y'))" for r
  proof -
    from r obtain q where q: "q \<in> set (lg_recurring (yd_ledger Y))"
      "r = (if rg_VehicleID q = Some vid then q\<lparr>rg_Pauses := billed_pauses Y' vid\<rparr> else q)"
      by (auto simp: L)
    have "rg_Pauses q = (case rg_VehicleID q of None \<Rightarrow> [] | Some w \<Rightarrow> billed_pauses Y w)"
      using q(1) assms(3) by (simp add: pauses_ok_def)
    with o show ?thesis by (cases "rg_VehicleID q"; cases "rg_VehicleID q = Some vid") (simp_all add: q(2))
  qed
  ultimately show ?thesis using t unfolding pauses_ok_def by blast
qed

end
