(* ===== verification/Yard_Returns.thy ===== *)
theory Yard_Returns
  imports Yard_Pause_Facts
begin

text \<open>
  What the end of a pause does to the day a vehicle is paid through.
\<close>

text \<open>The pauses that count while the shift is worked out are those of the table afterwards.\<close>

lemma paused_on_sorted: "set ps = set qs \<Longrightarrow> paused_on ps = paused_on qs"
  by (auto simp: paused_on_def fun_eq_iff)

lemma paused_on_ended:
  assumes "\<And>q. q \<in> set ps \<Longrightarrow> pa_ID q = pid \<Longrightarrow> pa_From (g q) = pa_From (f q) \<and> billingEnd (g q) = billingEnd (f q)"
  shows "paused_on (map (\<lambda>q. if pa_ID q = pid then g q else q) ps) d = paused_on (map (\<lambda>q. if pa_ID q = pid then f q else q) ps) d"
proof -
  let ?R = "\<lambda>p. \<not> before d (pa_From p) \<and> \<not> after d (billingEnd p)"
  have "?R (if pa_ID q = pid then g q else q) = ?R (if pa_ID q = pid then f q else q)" if "q \<in> set ps" for q
    using assms [OF that] by (cases "pa_ID q = pid") simp_all
  then show ?thesis by (simp only: paused_on_def set_map bex_simps cong: bex_cong)
qed

definition ended :: "pause_row \<Rightarrow> time \<Rightarrow> time option \<Rightarrow> pause_row" where
  "ended p lst pb = p\<lparr>pa_Until := Some lst, pa_Ended := True, pa_PaidBefore := pb\<rparr>"

lemma ended_simps [simp]:
  "pa_From (ended p l b) = pa_From p" "pa_Vehicle (ended p l b) = pa_Vehicle p" "pa_ID (ended p l b) = pa_ID p"
  "billingEnd (ended p l b) = l" "pa_PrevSpot (ended p l b) = pa_PrevSpot p"
  by (simp_all add: ended_def billingEnd_def)

lemma ended_inject [simp]: "ended p l b = ended p l' b \<longleftrightarrow> l = l'"
proof -
  have "pa_Until (ended p l b) = Some l" for l by (simp add: ended_def)
  then show ?thesis by (metis option.inject)
qed

lemma filter_image: "(\<And>q. V (g q) = V q) \<Longrightarrow> {p \<in> g ` S. V p = w} = g ` {p \<in> S. V p = w}"
  by auto

lemma rests_after:
  assumes "yd_pauses Y' = map (\<lambda>q. if pa_ID q = pid then ended q lst pb else q) (yd_pauses Y)"
  shows "paused_on (listPauses Y' vid) d
    = paused_on (map (\<lambda>q. if pa_ID q = pid then q\<lparr>pa_Until := Some lst, pa_Ended := True\<rparr> else q) (listPauses Y vid)) d"
proof -
  let ?g = "\<lambda>q. if pa_ID q = pid then ended q lst pb else q"
  have "pa_Vehicle (?g q) = pa_Vehicle q" for q by simp
  then have "set (listPauses Y' vid) = set (map ?g (listPauses Y vid))"
    unfolding set_map listPauses_set assms by (rule filter_image [where g = ?g and V = pa_Vehicle])
  then have "paused_on (listPauses Y' vid) d = paused_on (map ?g (listPauses Y vid)) d"
    by (rule fun_cong [OF paused_on_sorted])
  also have "\<dots> = paused_on (map (\<lambda>q. if pa_ID q = pid then q\<lparr>pa_Until := Some lst, pa_Ended := True\<rparr> else q) (listPauses Y vid)) d"
    by (rule paused_on_ended) (simp add: billingEnd_def ended_def)
  finally show ?thesis .
qed

text \<open>The rented days after the paid day that the shift passes; the end of the rental cuts it short.\<close>

definition moved_on :: "int option \<Rightarrow> (int \<Rightarrow> bool) \<Rightarrow> int \<Rightarrow> int \<Rightarrow> int \<Rightarrow> bool" where
  "moved_on e rests n paid r \<longleftrightarrow>
     (if n \<le> 0 then r = paid
      else paid < r \<and> \<not> rests r \<and> free_days rests paid r = n \<and> (\<forall>x. e = Some x \<longrightarrow> r \<le> x)
        \<or> e = Some r \<and> free_days rests paid r < n)"

lemma shifted_moved: "shifted e P n d r = moved_on e P n d r"
  by (auto simp: shifted_def moved_on_def)

lemma end_pause_answers:
  assumes "pauses_ok Y" "p \<in> set (yd_pauses Y)" "\<not> pa_Ended p" "find_vehicle Y (pa_Vehicle p) = Some v"
    and "pa_From p = utc_midnight f" "f \<le> lst" "lst \<le> horizon"
    and "vh_PaidThrough v = map_option utc_midnight pt" "vh_EndDate v = map_option utc_midnight e"
    and "\<forall>x. pt = Some x \<longrightarrow> x \<le> f + 100000"
  shows "\<exists>Z v'. end_pause p (utc_midnight lst) v Y = Some Z
    \<and> yd_pauses Z = map (\<lambda>q. if pa_ID q = pa_ID p then ended q (utc_midnight lst) (vh_PaidThrough v) else q) (yd_pauses Y)
    \<and> find_vehicle Z (pa_Vehicle p) = Some v'
    \<and> (case pt of None \<Rightarrow> vh_PaidThrough v' = None
        | Some paid \<Rightarrow> \<exists>r. vh_PaidThrough v' = Some (utc_midnight r)
            \<and> moved_on e (\<lambda>k. paused_on (listPauses Z (pa_Vehicle p)) (utc_midnight k)) (min paid lst - f + 1) paid r)"
proof -
  let ?Z = "change_pause (pa_Vehicle p) (pa_ID p)
      (\<lambda>q. q\<lparr>pa_Until := Some (utc_midnight lst), pa_Ended := True, pa_PaidBefore := vh_PaidThrough v\<rparr>) Y"
  have Zp: "yd_pauses ?Z = map (\<lambda>q. if pa_ID q = pa_ID p then ended q (utc_midnight lst) (vh_PaidThrough v) else q) (yd_pauses Y)"
    by (simp add: change_pause_def ended_def cong: if_cong)
  have id: "vh_ID v = pa_Vehicle p" using find_vehicle_id [OF assms(4)] .
  have Zv: "\<exists>v'. find_vehicle ?Z (pa_Vehicle p) = Some v' \<and> vh_PaidThrough v' = vh_PaidThrough v \<and> vh_ID v' = pa_Vehicle p"
    using assms(4) id by (simp add: change_pause_def)
  show ?thesis
  proof (cases pt)
    case None
    then show ?thesis using Zp Zv assms(8) by (auto simp: end_pause_def Let_def)
  next
    case (Some paid)
    let ?ps = "map (\<lambda>q. if pa_ID q = pa_ID p then q\<lparr>pa_Until := Some (utc_midnight lst), pa_Ended := True\<rparr> else q)
        (listPauses Y (pa_Vehicle p))"
    have one: "q = p" if "q \<in> set (yd_pauses Y)" "pa_ID q = pa_ID p" for q
      using assms(1,2) that by (auto simp: pauses_ok_def distinct_map inj_on_def)
    have dp: "pause_dated q" if "q \<in> set (yd_pauses Y)" for q using assms(1) that by (simp add: pauses_ok_def)
    have ps: "\<forall>q \<in> set ?ps. pause_dated q"
    proof
      fix q assume "q \<in> set ?ps"
      then obtain x where x: "x \<in> set (yd_pauses Y)"
        "q = (if pa_ID x = pa_ID p then x\<lparr>pa_Until := Some (utc_midnight lst), pa_Ended := True\<rparr> else x)" by auto
      show "pause_dated q"
      proof (cases "pa_ID x = pa_ID p")
        case True
        with one [OF x(1)] dp [OF assms(2)] assms(5-7) show ?thesis by (simp add: x(2) pause_dated_def)
      qed (simp add: x dp)
    qed
    have "min paid lst - f \<le> 100000" using assms(10) Some by (simp add: min_def)
    from shiftPaidThrough_returns [OF ps this, of e] obtain r where
      r: "return_shift Y p (utc_midnight lst) v (utc_midnight paid) = Some (utc_midnight r)"
        "if min paid lst < f then r = paid
          else shifted e (\<lambda>k. paused_on ?ps (utc_midnight k)) (min paid lst - f + 1) paid r"
      unfolding return_shift_def assms(5,9) by blast
    define Z where "Z = (if same_instant (utc_midnight r) (utc_midnight paid) then ?Z else set_paid_through (pa_Vehicle p) (utc_midnight r) ?Z)"
    have e: "end_pause p (utc_midnight lst) v Y = Some Z"
      using assms(8) Some r(1) by (simp add: end_pause_def Let_def Z_def)
    have Z: "yd_pauses Z = map (\<lambda>q. if pa_ID q = pa_ID p then ended q (utc_midnight lst) (vh_PaidThrough v) else q) (yd_pauses Y)"
      using Zp by (simp add: Z_def set_paid_through_def)
    have v': "\<exists>v'. find_vehicle Z (pa_Vehicle p) = Some v' \<and> vh_PaidThrough v' = Some (utc_midnight r)"
      using Zv assms(8) Some by (auto simp: Z_def set_paid_through_def find_change_vehicle same_instant_def)
    have "moved_on e (\<lambda>k. paused_on (listPauses Z (pa_Vehicle p)) (utc_midnight k)) (min paid lst - f + 1) paid r"
      unfolding rests_after [OF Z] using r(2) by (auto simp: shifted_moved moved_on_def split: if_splits)
    with e Z v' Some show ?thesis by auto
  qed
qed


lemma find_pause_frames [simp]:
  "find_pause (relink_spot vid sp Y) pid = find_pause Y pid" "find_pause (refresh_pauses vid Y) pid = find_pause Y pid"
  "listPauses (relink_spot vid sp Y) w = listPauses Y w"
  by (simp_all add: find_pause_def listPauses_def)

lemma find_pause_ended:
  assumes "yd_pauses Z = map (\<lambda>q. if pa_ID q = pid then ended q l b else q) (yd_pauses Y)" "find_pause Y pid = Some p"
  shows "find_pause Z pid = Some (ended p l b)"
proof -
  have "find (\<lambda>q. pa_ID q = pid) (map (\<lambda>q. if pa_ID q = pid then ended q l b else q) ps) = Some (ended p l b)"
    if "find (\<lambda>q. pa_ID q = pid) ps = Some p" for ps
    using that by (induction ps) (auto split: if_splits)
  with assms show ?thesis by (simp add: find_pause_def)
qed

lemma find_pause_removed: "find_pause (remove_pause vid pid Y) pid = None"
  by (simp add: remove_pause_def) (simp add: find_pause_def find_None_iff)

text \<open>The two ways a return changes the tables.\<close>

lemma return_cases:
  assumes "pauses_ok Y" "find_pause Y pid = Some p" "find_vehicle Y (pa_Vehicle p) = Some v"
    and "local_day (pe_now env) \<le> horizon"
  shows "(\<exists>err. ReturnFromPause env hall pid given Y = Some (Inl err))
    \<or> ReturnFromPause env hall pid given Y
        = Some (Inr (relink_spot (pa_Vehicle p) (pa_PrevSpot p) (remove_pause (pa_Vehicle p) pid Y)))
    \<or> (\<exists>lst. local_day (pa_From p) \<le> lst \<and> lst \<le> horizon \<and> \<not> pa_Ended p \<and> ReturnFromPause env hall pid given Y
        = map_option (\<lambda>Y. Inr (relink_spot (pa_Vehicle p) (pa_PrevSpot p) Y)) (end_pause p (utc_midnight lst) v Y))"
proof -
  let ?R = "ReturnFromPause env hall pid given Y"
  let ?today = "startOfDayUTC (pe_now env)"
  show ?thesis
  proof (cases "given_date (''R'' @ utf8_text [195, 188] @ ''ckkehrtag als JJJJ-MM-TT'') given")
    case (Inl err)
    then show ?thesis by (simp add: ReturnFromPause_def Let_def)
  next
    case (Inr g)
    define day where "day = (case g of None \<Rightarrow> ?today | Some d \<Rightarrow> d)"
    have "is_date day \<and> local_day day \<le> horizon"
      using Inr assms(4) by (auto simp: day_def startOfDayUTC_eq dest: given_date_horizon split: option.split)
    then obtain d where d: "day = utc_midnight d" "d \<le> horizon" by (auto simp: is_date_def)
    have dp: "pause_dated p" using find_pause_in [OF assms(2)] assms(1) by (simp add: pauses_ok_def)
    then obtain f where f: "pa_From p = utc_midnight f" by (auto simp: pause_dated_def is_date_def)
    have R: "?R = (if hall \<and> after day ?today
         then Some (Inl (Yard_Forbidden (''Der Hallendienst tr'' @ utf8_text [195, 164] @ ''gt eine R''
           @ utf8_text [195, 188] @ ''ckkehr bis heute ein'')))
         else if pa_Ended p then Some (Inl (Yard_Conflict Pause_Ended))
         else if before day (pa_From p)
         then Some (Inl (Yard_Invalid (''Der R'' @ utf8_text [195, 188] @ ''ckkehrtag liegt vor dem Beginn'')))
         else if locks (pauseLockedThrough (yd_ledger Y) (pa_Vehicle p)) (add_date day 0 0 (- 1))
         then Some (Inl (Yard_Conflict (Billed_Through (pauseLockedThrough (yd_ledger Y) (pa_Vehicle p)))))
         else map_option (\<lambda>Y. Inr (relink_spot (pa_Vehicle p) (pa_PrevSpot p) Y))
           (if same_instant day (pa_From p) then Some (remove_pause (pa_Vehicle p) pid Y)
            else end_pause p (add_date day 0 0 (- 1)) v Y))"
      unfolding ReturnFromPause_def Let_def Inr sum.case day_def [symmetric] assms(2) option.case assms(3) by (rule refl)
    show ?thesis
    proof (cases "(hall \<and> after day ?today) \<or> pa_Ended p \<or> before day (pa_From p)
        \<or> locks (pauseLockedThrough (yd_ledger Y) (pa_Vehicle p)) (add_date day 0 0 (- 1))")
      case True
      then have "\<exists>err. ?R = Some (Inl err)" unfolding R by (simp only: split: if_split) blast
      then show ?thesis by blast
    next
      case False
      then have R2: "?R = map_option (\<lambda>Y. Inr (relink_spot (pa_Vehicle p) (pa_PrevSpot p) Y))
           (if same_instant day (pa_From p) then Some (remove_pause (pa_Vehicle p) pid Y)
            else end_pause p (add_date day 0 0 (- 1)) v Y)" unfolding R by (simp only: if_False de_Morgan_disj)
      have "f \<le> d" using False by (simp add: d f)
      show ?thesis
      proof (cases "d = f")
        case True
        then show ?thesis using R2 by (simp add: d f same_instant_def)
      next
        case ne: False
        have "?R = map_option (\<lambda>Y. Inr (relink_spot (pa_Vehicle p) (pa_PrevSpot p) Y)) (end_pause p (utc_midnight (d - 1)) v Y)"
          using R2 ne by (simp add: d f same_instant_def)
        moreover have "local_day (pa_From p) \<le> d - 1" "d - 1 \<le> horizon" "\<not> pa_Ended p" using \<open>f \<le> d\<close> ne d False by (simp_all add: f)
        ultimately show ?thesis by blast
      qed
    qed
  qed
qed

lemma return_answers:
  assumes "pauses_ok Y" "find_pause Y pid = Some p" "find_vehicle Y (pa_Vehicle p) = Some v"
    and "local_day (pe_now env) \<le> horizon"
    and "vh_PaidThrough v = map_option utc_midnight pt" "vh_EndDate v = map_option utc_midnight e"
    and "\<forall>x. pt = Some x \<longrightarrow> x \<le> local_day (pa_From p) + 100000"
  shows "\<exists>answer. ReturnFromPause env hall pid given Y = Some answer \<and> (\<forall>Y'. answer = Inr Y' \<longrightarrow>
    (\<exists>v'. find_vehicle Y' (pa_Vehicle p) = Some v' \<and>
      (if find_pause Y' pid = None then vh_PaidThrough v' = vh_PaidThrough v
       else \<exists>lst. find_pause Y' pid = Some (ended p (utc_midnight lst) (vh_PaidThrough v)) \<and> local_day (pa_From p) \<le> lst \<and>
         (case pt of None \<Rightarrow> vh_PaidThrough v' = None
          | Some paid \<Rightarrow> \<exists>r. vh_PaidThrough v' = Some (utc_midnight r)
              \<and> moved_on e (\<lambda>k. paused_on (listPauses Y' (pa_Vehicle p)) (utc_midnight k))
                  (min paid lst - local_day (pa_From p) + 1) paid r))))"
    (is "\<exists>answer. ?R = Some answer \<and> (\<forall>Y'. answer = Inr Y' \<longrightarrow> ?Q Y')")
proof -
  let ?relink = "relink_spot (pa_Vehicle p) (pa_PrevSpot p)"
  from return_cases [OF assms(1-4), of hall given]
  consider (refused) err where "?R = Some (Inl err)"
    | (dropped) "?R = Some (Inr (?relink (remove_pause (pa_Vehicle p) pid Y)))"
    | (closed) lst where "local_day (pa_From p) \<le> lst" "lst \<le> horizon" "\<not> pa_Ended p"
        "?R = map_option (\<lambda>Y. Inr (?relink Y)) (end_pause p (utc_midnight lst) v Y)" by blast
  then show ?thesis
  proof cases
    case refused
    then show ?thesis by (intro exI [of _ "Inl err"]) simp
  next
    case dropped
    have "\<exists>v'. find_vehicle (remove_pause (pa_Vehicle p) pid Y) (pa_Vehicle p) = Some v' \<and> vh_PaidThrough v' = vh_PaidThrough v"
      using assms(3) by (simp add: remove_pause_def)
    then have "?Q (?relink (remove_pause (pa_Vehicle p) pid Y))" by (simp add: find_pause_removed)
    with dropped show ?thesis by (intro exI [of _ "Inr (?relink (remove_pause (pa_Vehicle p) pid Y))"]) (simp only: sum.inject simp_thms)
  next
    case closed
    have p: "p \<in> set (yd_pauses Y)" "pa_ID p = pid" using find_pause_in [OF assms(2)] by simp_all
    have "pause_dated p" using p(1) assms(1) by (simp add: pauses_ok_def)
    then have f: "pa_From p = utc_midnight (local_day (pa_From p))" by (auto simp: pause_dated_def is_date_def)
    from end_pause_answers [OF assms(1) p(1) closed(3) assms(3) f closed(1,2) assms(5,6,7)]
    obtain Z v' where Z: "end_pause p (utc_midnight lst) v Y = Some Z"
      "yd_pauses Z = map (\<lambda>q. if pa_ID q = pa_ID p then ended q (utc_midnight lst) (vh_PaidThrough v) else q) (yd_pauses Y)"
      "find_vehicle Z (pa_Vehicle p) = Some v'"
      "case pt of None \<Rightarrow> vh_PaidThrough v' = None
        | Some paid \<Rightarrow> \<exists>r. vh_PaidThrough v' = Some (utc_midnight r)
            \<and> moved_on e (\<lambda>k. paused_on (listPauses Z (pa_Vehicle p)) (utc_midnight k))
              (min paid lst - local_day (pa_From p) + 1) paid r" by blast
    have fp: "find_pause Z pid = Some (ended p (utc_midnight lst) (vh_PaidThrough v))"
      using find_pause_ended [OF Z(2) [unfolded p(2)] assms(2)] .
    have "?Q (?relink Z)"
      unfolding find_relink find_pause_frames fp using Z(3,4) closed(1)
      by (simp only: option.simps if_False) blast
    then show ?thesis using closed(4) Z(1) by (intro exI [of _ "Inr (?relink Z)"]) (simp only: option.map sum.inject simp_thms)
  qed
qed


lemma end_pause_table:
  "end_pause p lst v Y = Some Z
    \<Longrightarrow> yd_pauses Z = map (\<lambda>q. if pa_ID q = pa_ID p then ended q lst (vh_PaidThrough v) else q) (yd_pauses Y)"
  by (auto simp: end_pause_def Let_def change_pause_def set_paid_through_def ended_def split: option.splits if_splits)


subsection \<open>A second pause\<close>

lemma start_details:
  assumes "createPauseTx env vid i src Y = Inr Y1" "find_vehicle Y vid = Some v"
  shows "\<exists>p v1. yd_pauses Y1 = yd_pauses Y @ [p] \<and> pa_ID p = yd_next_pause Y \<and> pa_Vehicle p = vid \<and> \<not> pa_Ended p
    \<and> \<not> pauses_overlap Y vid (pa_From p) (pa_Until p)
    \<and> find_vehicle Y1 vid = Some v1 \<and> vh_PaidThrough v1 = vh_PaidThrough v \<and> vh_EndDate v1 = vh_EndDate v"
proof -
  let ?today = "startOfDayUTC (pe_now env)"
  define hold where "hold = (case pi_HoldSpot i of None \<Rightarrow> True | Some b \<Rightarrow> b)"
  define remark where "remark = trim_space (pi_Remark i)"
  define prev where "prev = (if hold then None else vc_Spot (yd_cards Y vid))"
  define Z where "Z = (if prev \<noteq> None then free_spot vid Y else Y)"
  have Z: "yd_ledger Z = yd_ledger Y" "yd_pauses Z = yd_pauses Y" "yd_next_pause Z = yd_next_pause Y"
    "find_vehicle Z vid = Some v" using assms(2) by (simp_all add: Z_def free_spot_def)
  from assms(1) obtain frm until where g: "pause_refused ?today vid hold remark frm until Y = None"
    and Y1: "Y1 = add_pause \<lparr>pa_ID = 0, pa_Vehicle = vid, pa_From = frm, pa_Until = until, pa_Ended = False,
        pa_HoldSpot = hold, pa_PrevSpot = prev, pa_Note = remark, pa_Source = src, pa_PaidBefore = None\<rparr> Z"
    unfolding createPauseTx_def Let_def hold_def [symmetric] remark_def [symmetric] prev_def [symmetric] Z_def [symmetric]
    by (auto split: sum.splits option.splits simp del: not_None_eq)
  have "\<not> pauses_overlap Y vid frm until"
    using g assms(2) unfolding pause_refused_def Let_def by (auto split: if_splits)
  moreover have "find_vehicle (Z\<lparr>yd_pauses := ps, yd_next_pause := n\<rparr>) vid = Some v" for ps n
    using Z(4) by (simp add: find_vehicle_def)
  then have "\<exists>v1. find_vehicle Y1 vid = Some v1 \<and> vh_PaidThrough v1 = vh_PaidThrough v \<and> vh_EndDate v1 = vh_EndDate v"
    by (simp add: Y1 add_pause_def)
  ultimately show ?thesis by (auto simp: Y1 add_pause_def Z)
qed

lemma moved_past_horizon:
  "moved_on None P n d r \<Longrightarrow> 0 < n \<Longrightarrow> d \<le> H \<Longrightarrow> (\<And>j. d < j \<Longrightarrow> j \<le> H \<Longrightarrow> P j) \<Longrightarrow> (\<And>j. H < j \<Longrightarrow> \<not> P j) \<Longrightarrow> r = H + n"
  using shifted_past_horizon by (simp add: shifted_moved)

text \<open>The day before another pause that is not ended: nothing after it is rented.\<close>

lemma end_pause_past_horizon:
  assumes "pauses_ok Y" "p \<in> set (yd_pauses Y)" "\<not> pa_Ended p" "find_vehicle Y (pa_Vehicle p) = Some v"
    and "pa_From p = utc_midnight f" "f \<le> lst" "lst \<le> horizon" "f \<le> pt"
    and "vh_PaidThrough v = Some (utc_midnight pt)" "vh_EndDate v = None" "pt \<le> f + 100000" "pt \<le> horizon"
    and "q \<in> set (yd_pauses Y)" "pa_ID q \<noteq> pa_ID p" "pa_Vehicle q = pa_Vehicle p" "\<not> pa_Ended q"
    "local_day (pa_From q) \<le> pt + 1" "end_pause p (utc_midnight lst) v Y = Some Z" "pauses_ok Z"
  shows "\<exists>v'. find_vehicle Z (pa_Vehicle p) = Some v' \<and> vh_PaidThrough v' = Some (utc_midnight (horizon + (min pt lst - f + 1)))"
proof -
  have pe: "vh_PaidThrough v = map_option utc_midnight (Some pt)" "vh_EndDate v = map_option utc_midnight None"
    using assms(9,10) by simp_all
  have le: "\<forall>x. Some pt = Some x \<longrightarrow> x \<le> f + 100000" using assms(11) by simp
  from end_pause_answers [OF assms(1-7) pe le] assms(18) obtain v' r where
    v': "find_vehicle Z (pa_Vehicle p) = Some v'" "vh_PaidThrough v' = Some (utc_midnight r)"
    "moved_on None (\<lambda>k. paused_on (listPauses Z (pa_Vehicle p)) (utc_midnight k)) (min pt lst - f + 1) pt r"
    and Z: "yd_pauses Z = map (\<lambda>q. if pa_ID q = pa_ID p then ended q (utc_midnight lst) (vh_PaidThrough v) else q) (yd_pauses Y)"
    by auto
  have d: "\<forall>x \<in> set (listPauses Z (pa_Vehicle p)). pause_dated x" using assms(19) by (simp add: pauses_ok_def)
  have "q \<in> set (yd_pauses Z)" using assms(13,14) unfolding Z set_map by (intro image_eqI [of _ _ q]) simp_all
  then have q: "q \<in> set (listPauses Z (pa_Vehicle p))" using assms(15) by simp
  have "end_day q = horizon" using assms(16) by (auto simp: end_day_def billingEnd_def horizon_def split: option.split)
  then have rests: "paused_on (listPauses Z (pa_Vehicle p)) (utc_midnight j)" if "pt < j" "j \<le> horizon" for j
    unfolding paused_on_midnight [OF d] using q that assms(17) by (intro bexI [of _ q]) simp_all
  have "r = horizon + (min pt lst - f + 1)"
    using assms(6,8,12) rests not_paused_after [OF d] by (intro moved_past_horizon [OF v'(3)]) simp_all
  with v' show ?thesis by simp
qed


lemma planned_before:
  assumes "\<not> pauses_overlap Y vid (pa_From n) (pa_Until n)" "q \<in> set (yd_pauses Y)" "pa_Vehicle q = vid" "\<not> pa_Ended q"
    and "pause_dated n" "pause_dated q"
  shows "\<exists>f a u. pa_From n = utc_midnight f \<and> pa_From q = utc_midnight a \<and> pa_Until n = Some (utc_midnight u) \<and> f \<le> u \<and> u < a"
proof -
  obtain f a where fa: "pa_From n = utc_midnight f" "pa_From q = utc_midnight a"
    using assms(5,6) by (auto simp: pause_dated_def is_date_def)
  have "case pa_Until n of None \<Rightarrow> False | Some u \<Rightarrow> after (pa_From q) u"
    using assms(1-4) by (auto simp: pauses_overlap_def split: option.splits)
  then obtain t where t: "pa_Until n = Some t" "after (pa_From q) t" by (cases "pa_Until n") simp_all
  then obtain u where "t = utc_midnight u" "f \<le> u" using assms(5) fa by (auto simp: pause_dated_def is_date_def)
  then show ?thesis using t fa by simp
qed

lemma pauses_ok_relink: "pauses_ok (relink_spot vid sp Y) = pauses_ok Y"
  by (simp add: relink_spot_def pauses_ok_def change_card_def billed_pauses_def listPauses_def split: option.split)

end
