(* ===== verification/Yard_Billed.thy ===== *)
theory Yard_Billed
  imports Yard_Pause_Facts
begin

text \<open>
  What an invoice has billed, read off the books again: the entries of a position under the billed
  key in the list of elapsed periods. They do not move when pauses are changed.
\<close>

subsection \<open>Entries\<close>

definition entry :: "flat_rate_period \<Rightarrow> time \<Rightarrow> slice \<Rightarrow> open_period" where
  "entry a t sl = (case sl of (s, e, p, q) \<Rightarrow>
     (let end' = (case fp_EndDate a of None \<Rightarrow> q | Some ed \<Rightarrow> (let i = DayAfter ed in if before i q then i else q))
      in \<lparr>op_Key = PeriodKey a p, op_Start = s, op_Cost = f_div (f_of_int (sliceCents a sl)) 100,
          op_Complete = before end' (DayAfter t)\<rparr>))"

lemma detailed_entries: "dated a \<Longrightarrow> ElapsedPeriodsDetailed a t = map (entry a t) (elapsed a t)"
  by (simp add: ElapsedPeriodsDetailed_def subPeriods_elapsed entry_def comp_def case_prod_unfold
      cong: option.case_cong if_cong)

lemma elapsed_slice:
  assumes "x \<in> set (elapsed a t)"
  shows "\<exists>s e j. x = (utc_midnight s, utc_midnight e, utc_midnight (grid (fp_Period a) j), utc_midnight (grid (fp_Period a) (j + 1)))
    \<and> start_day a \<le> s \<and> grid (fp_Period a) j \<le> s \<and> s < e \<and> e \<le> grid (fp_Period a) (j + 1) \<and> e \<le> until_day a (local_day t)"
proof -
  have le: "start_day a \<le> until_day a (local_day t)"
    using assms by (cases "start_day a \<le> until_day a (local_day t)") (auto simp: elapsed_empty)
  from cal.tiles_slice [OF elapsed_tiled [OF le] assms] show ?thesis by blast
qed

definition billed_under :: "flat_rate_period \<Rightarrow> string \<Rightarrow> time \<Rightarrow> open_period list" where
  "billed_under a key now = filter (\<lambda>per. op_Key per = key) (ElapsedPeriodsDetailed a now)"

text \<open>Two accruals with the same window whose slices under the key cost the same have the same entries.\<close>

lemma billed_under_cong:
  assumes "dated a" "dated b" "fp_Period b = fp_Period a" "fp_EndDate b = fp_EndDate a" "elapsed b t = elapsed a t"
    and "\<And>s e j. key = index_key (fp_Period a) j \<Longrightarrow> start_day a \<le> s \<Longrightarrow> s < e \<Longrightarrow> grid (fp_Period a) j \<le> s
      \<Longrightarrow> e \<le> grid (fp_Period a) (j + 1) \<Longrightarrow> e \<le> until_day a (local_day t)
      \<Longrightarrow> sliceCents b (utc_midnight s, utc_midnight e, utc_midnight (grid (fp_Period a) j), utc_midnight (grid (fp_Period a) (j + 1)))
        = sliceCents a (utc_midnight s, utc_midnight e, utc_midnight (grid (fp_Period a) j), utc_midnight (grid (fp_Period a) (j + 1)))"
  shows "billed_under b key t = billed_under a key t"
proof -
  have k: "op_Key (entry b t x) = op_Key (entry a t x)" for x
    by (simp add: entry_def Let_def PeriodKey_def assms(3) split: prod.split)
  have "entry b t x = entry a t x" if x: "x \<in> set (elapsed a t)" "op_Key (entry a t x) = key" for x
  proof -
    obtain s e j where sl: "x = (utc_midnight s, utc_midnight e, utc_midnight (grid (fp_Period a) j), utc_midnight (grid (fp_Period a) (j + 1)))"
      and b: "start_day a \<le> s" "s < e" "grid (fp_Period a) j \<le> s" "e \<le> grid (fp_Period a) (j + 1)" "e \<le> until_day a (local_day t)"
      using elapsed_slice [OF x(1)] by blast
    have "key = index_key (fp_Period a) j" using x(2) by (simp add: entry_def sl Let_def PeriodKey_grid)
    from assms(6) [OF this b] show ?thesis
      by (simp add: entry_def sl Let_def PeriodKey_def assms(3,4))
  qed
  then have "filter (\<lambda>per. op_Key per = key) (map (entry b t) xs) = filter (\<lambda>per. op_Key per = key) (map (entry a t) xs)"
    if "set xs \<subseteq> set (elapsed a t)" for xs using that k by (induction xs) auto
  then show ?thesis
    unfolding billed_under_def detailed_entries [OF assms(1)] detailed_entries [OF assms(2)] assms(5) by simp
qed

subsection \<open>Positions\<close>

definition accrual :: "ledger \<Rightarrow> string \<Rightarrow> int \<Rightarrow> flat_rate_period option" where
  "accrual L kind ref =
     (if kind = ''vehicle''
      then map_option (\<lambda>v. vehicle_AsPeriod v (lg_cats L (vh_CategoryID v))) (find (\<lambda>v. vh_ID v = ref) (lg_vehicles L))
      else if kind = ''agreement'' then find (\<lambda>a. fp_ID a = ref) (lg_agreements L)
      else if kind = ''recurring'' then map_option recurring_AsPeriod (find (\<lambda>r. rg_ID r = ref) (lg_recurring L))
      else None)"

definition billed_entry :: "ledger \<Rightarrow> string \<Rightarrow> int \<Rightarrow> string \<Rightarrow> time \<Rightarrow> open_period list option" where
  "billed_entry L kind ref key now = map_option (\<lambda>a. billed_under a key now) (accrual L kind ref)"

text \<open>Rentals of the calendar in use: dates from 1970 on.\<close>

definition in_calendar :: "flat_rate_period \<Rightarrow> bool" where
  "in_calendar a \<longleftrightarrow> dated a \<and> 0 \<le> start_day a"

lemma key_years_slice:
  assumes "in_calendar a" "start_day a \<le> s" "grid (fp_Period a) j \<le> s" "s < e" "e \<le> grid (fp_Period a) (j + 1)"
    "e \<le> until_day a n" "n < horizon"
  shows "key_years (fp_Period a) j" "0 < grid (fp_Period a) (j + 1)"
proof -
  show "0 < grid (fp_Period a) (j + 1)" using assms by (simp add: in_calendar_def)
  have "until_day a n \<le> n + 1" by (auto simp: until_day_def split: option.split)
  then have "grid (fp_Period a) j \<le> horizon" using assms(3,4,6,7) by simp
  moreover have "ystart 0 \<le> grid (fp_Period a) j"
  proof -
    have "grid (fp_Period a) (j + 1) \<le> grid (fp_Period a) j + 366" by (rule cal.g_len)
    moreover have "ystart 0 \<le> - 366" by (simp add: ystart_eq days_before_year_def)
    ultimately show ?thesis using assms(1,2,4,5) by (simp add: in_calendar_def)
  qed
  ultimately show "key_years (fp_Period a) j" by (simp add: key_years_def)
qed

lemma repaused_same:
  assumes "in_calendar a" "b = a\<lparr>fp_Pauses := ps\<rparr>" "local_day now < horizon"
    and "\<forall>p \<in> set (fp_Pauses a). rest_dated p" "\<forall>p \<in> set ps. rest_dated p"
    and "\<And>j e. key = index_key (fp_Period a) j \<Longrightarrow> key_years (fp_Period a) j \<Longrightarrow> 0 < grid (fp_Period a) (j + 1)
      \<Longrightarrow> e \<le> grid (fp_Period a) (j + 1) \<Longrightarrow> clip e ps = clip e (fp_Pauses a)"
  shows "billed_under b key now = billed_under a key now"
proof (rule billed_under_cong)
  show "dated a" "dated b" using assms(1,2) by (simp_all add: in_calendar_def dated_def)
  show "fp_Period b = fp_Period a" "fp_EndDate b = fp_EndDate a" using assms(2) by simp_all
  show "elapsed b now = elapsed a now" using assms(2) by (simp add: elapsed_def start_day_def until_day_def)
  fix s e j
  assume j: "key = index_key (fp_Period a) j" "start_day a \<le> s" "s < e" "grid (fp_Period a) j \<le> s"
    "e \<le> grid (fp_Period a) (j + 1)" "e \<le> until_day a (local_day now)"
  note ky = key_years_slice [OF assms(1) j(2,4,3,5,6) assms(3)]
  show "sliceCents b (utc_midnight s, utc_midnight e, utc_midnight (grid (fp_Period a) j), utc_midnight (grid (fp_Period a) (j + 1)))
      = sliceCents a (utc_midnight s, utc_midnight e, utc_midnight (grid (fp_Period a) j), utc_midnight (grid (fp_Period a) (j + 1)))"
    using assms(2,4,5) assms(6) [OF j(1) ky j(5)] j(3) by (intro sliceCents_clip) simp_all
qed

end
