(* ===== verification/Yard_Examples.thy ===== *)
theory Yard_Examples
  imports Yard_Returns Yard_Billed Invoice_Examples
begin

text \<open>
  A hall with one stored vehicle, paid through the end of 2024, to which the properties of vehicles
  and pauses are applied.
\<close>

definition example_card :: vehicle_card where
  "example_card = \<lparr>vc_Notes = [], vc_ReservedFrom = None, vc_ReservedUntil = None, vc_NeedsPower = False, vc_Symbol = None,
     vc_Spot = None, vc_CopiedFrom = None\<rparr>"

definition camper :: vehicle where
  "camper = parked\<lparr>vh_ID := 5, vh_StartDate := utc_midnight 19723, vh_Paid := False, vh_PaidThrough := Some (utc_midnight 20088)\<rparr>"

definition hall_ledger :: ledger where
  "hall_ledger = example_ledger\<lparr>lg_vehicles := [camper],
     lg_invoices := [\<lparr>iv_ID = 1, iv_PersonID = 3, iv_Canceled = False, iv_Cancels = None, iv_Total = 8000, iv_Paid = 0\<rparr>],
     lg_sources := [\<lparr>so_Invoice = 1, so_Kind = ''vehicle'', so_Ref = 5, so_Period = index_key BillingMonthly 24292\<rparr>]\<rparr>"

definition example_yard :: yard where
  "example_yard = \<lparr>yd_office = example_office\<lparr>of_ledger := hall_ledger\<rparr>, yd_cats = [0], yd_cards = (\<lambda>_. example_card), yd_spots = [1],
     yd_icons = [], yd_handovers = [], yd_attachments = [], yd_pauses = [],
     yd_history = [\<lparr>se_Vehicle = 5, se_Old = [], se_New = ''stored'', se_Note = ''angelegt''\<rparr>], yd_frozen = [],
     yd_next_vehicle = 6, yd_next_pause = 1, yd_next_agreement = 1\<rparr>"

definition on_day :: "int \<Rightarrow> pay_env" where
  "on_day n = example_env\<lparr>pe_now := utc_midnight n, pe_today := utc_midnight n\<rparr>"

lemmas hall_defs = example_yard_def hall_ledger_def camper_def parked_def example_office_def example_ledger_def

lemma on_day_simps [simp]: "pe_now (on_day n) = utc_midnight n" "pe_today (on_day n) = utc_midnight n"
  by (simp_all add: on_day_def)

lemma horizon_days: "horizon = 2932896"
  by (simp add: horizon_eq ystart_eq days_before_year_def time_simps)

lemma ledger_hall: "yd_ledger example_yard = hall_ledger"
  by (simp add: example_yard_def)

lemma find_camper: "find_vehicle example_yard 5 = Some camper"
  by (simp add: find_vehicle_def hall_defs)

lemma hall_keys: "pause_keys hall_ledger 5 = [index_key BillingMonthly 24292]"
  "invoiced_keys hall_ledger ''vehicle'' 5 = [index_key BillingMonthly 24292]"
  by (simp_all add: pause_keys_def bound_recurring_def invoiced_keys_def hall_defs)
    (simp_all add: index_key_def fmt_0d_def zero_pad_def digits.simps)

lemma example_locked: "pauseLockedThrough hall_ledger 5 = utc_midnight 19874"
proof -
  have "key_years BillingMonthly 24292" by (simp add: key_years_index BillingMonthly_def BillingYearly_def)
  from periodKeyEnd_index [OF this] have e: "periodKeyEnd (index_key BillingMonthly 24292) = utc_midnight 19875"
    by (simp add: cal_eval BillingMonthly_def BillingYearly_def)
  have z: "\<not> is_zero_time (utc_midnight 19875)" "after (utc_midnight 19874) zero_time"
    by (simp_all add: is_zero_time_def same_instant_def zero_time_def)
  show ?thesis by (simp add: pauseLockedThrough_def hall_keys key_last_day_def e z)
qed

lemma example_pauses_ok: "pauses_ok example_yard"
  by (simp add: pauses_ok_def hall_defs billed_pauses_def listPauses_def)

lemma example_texts: "trim_space [] = []" "trim_space ''2024-06-14'' = ''2024-06-14''"
proof -
  have plain: "list_all (\<lambda>w. w \<noteq> [] \<longrightarrow> \<not> starts_with s w) white_space"
    "list_all (\<lambda>w. w \<noteq> [] \<longrightarrow> \<not> starts_with (rev s) w) (map rev white_space)"
    if "s \<in> {[], ''2024-06-14''}" for s
    using that by (auto simp: white_space_def starts_with_def utf8_text_def char_of_def upt_rec)
  then have "trim_space s = s" if "s \<in> {[], ''2024-06-14''}" for s
    using that by (simp add: trim_space_def trim_plain)
  from this [of "[]"] this [of "''2024-06-14''"]
  show "trim_space [] = []" "trim_space ''2024-06-14'' = ''2024-06-14''" by simp_all
qed

lemma example_date: "parse_date ''2024-06-14'' = Some (utc_midnight 19888)"
proof -
  have "fmt_0d 4 2024 @ ''-'' @ fmt_0d 2 6 @ ''-'' @ fmt_0d 2 14 = ''2024-06-14''"
    by (simp add: fmt_0d_def zero_pad_def digits.simps)
  moreover have "date_utc 2024 6 14 = utc_midnight 19888"
    by (simp add: date_utc_def date_days_mstart cal_eval)
  ultimately show ?thesis using parse_format_date [of 2024 6 14] by (simp add: is_leap_def month_len_def time_simps)
qed

definition example_in :: pauseIn where
  "example_in = \<lparr>pi_From = None, pi_Until = None, pi_HoldSpot = None, pi_Remark = []\<rparr>"

lemma example_start: "\<exists>Y'. createPauseTx (on_day 19875) 5 example_in ''betreiber'' example_yard = Inr Y'"
proof -
  have t: "startOfDayUTC (utc_midnight 19875) = utc_midnight 19875" by (simp add: startOfDayUTC_eq)
  have "pause_interval (utc_midnight 19875) example_in = Inr (utc_midnight 19875, None)"
    by (simp add: pause_interval_def example_in_def given_date_def)
  moreover have "pause_refused (utc_midnight 19875) 5 True [] (utc_midnight 19875) None example_yard = None"
    using example_locked
    unfolding pause_refused_def validNoteLength_def pauses_overlap_def find_camper ledger_hall option.case Let_def
    by (simp add: camper_def parked_def StatusStored_def example_yard_def)
  ultimately show ?thesis by (simp add: createPauseTx_def t example_in_def Let_def example_texts)
qed


subsection \<open>The hall with a pause\<close>

definition example_pause :: "int \<Rightarrow> pause_row" where
  "example_pause f = \<lparr>pa_ID = 1, pa_Vehicle = 5, pa_From = utc_midnight f, pa_Until = None, pa_Ended = False, pa_HoldSpot = True,
     pa_PrevSpot = None, pa_Note = [], pa_Source = ''betreiber'', pa_PaidBefore = None\<rparr>"

definition resting_yard :: "int \<Rightarrow> yard" where
  "resting_yard f = refresh_pauses 5 (example_yard\<lparr>yd_pauses := [example_pause f], yd_next_pause := 2\<rparr>)"

definition resting_camper :: "int \<Rightarrow> vehicle" where
  "resting_camper f = camper\<lparr>vh_Pauses := [\<lparr>ps_From = utc_midnight f, ps_Until = openUntil\<rparr>]\<rparr>"

lemma resting_pauses [simp]: "yd_pauses (resting_yard f) = [example_pause f]" "yd_next_pause (resting_yard f) = 2"
  by (simp_all add: resting_yard_def)

lemma billed_example: "billed_pauses Y 5 = [\<lparr>ps_From = utc_midnight f, ps_Until = openUntil\<rparr>]"
  if "yd_pauses Y = [example_pause f]"
  using that by (simp add: billed_pauses_def listPauses_def example_pause_def billingEnd_def)

lemma resting_find: "find_vehicle (resting_yard f) 5 = Some (resting_camper f)" "find_pause (resting_yard f) 1 = Some (example_pause f)"
proof -
  have "vh_ID camper = 5" by (simp add: camper_def)
  moreover have "find_vehicle (example_yard\<lparr>yd_pauses := [example_pause f], yd_next_pause := 2\<rparr>) 5 = Some camper"
    using find_camper by (simp add: find_vehicle_def)
  ultimately show "find_vehicle (resting_yard f) 5 = Some (resting_camper f)"
    by (simp add: resting_yard_def billed_example [of _ f] resting_camper_def)
  show "find_pause (resting_yard f) 1 = Some (example_pause f)"
    by (simp add: find_pause_def example_pause_def)
qed

lemma resting_ledger: "yd_ledger (resting_yard f) = hall_ledger\<lparr>lg_vehicles := [resting_camper f]\<rparr>"
proof -
  have "vh_ID camper = 5" by (simp add: camper_def)
  then show ?thesis
    by (simp add: resting_yard_def refresh_pauses_def Let_def billed_example [of _ f] with_ledger_def ledger_hall resting_camper_def)
      (simp add: hall_ledger_def example_ledger_def)
qed

lemma resting_ok: "f \<le> 100000 \<Longrightarrow> pauses_ok (resting_yard f)"
  using billed_example [of "resting_yard f" f]
  by (simp add: pauses_ok_def resting_ledger resting_camper_def hall_ledger_def example_ledger_def camper_def)
    (simp add: example_pause_def pause_dated_def horizon_days)

lemma resting_locked: "pauseLockedThrough (yd_ledger (resting_yard f)) 5 = utc_midnight 19874"
proof -
  have "invoiced_keys (hall_ledger\<lparr>lg_vehicles := vs\<rparr>) = invoiced_keys hall_ledger" for vs
    by (simp add: invoiced_keys_def fun_eq_iff)
  then have "pause_keys (yd_ledger (resting_yard f)) 5 = pause_keys hall_ledger 5"
    unfolding resting_ledger by (simp add: pause_keys_def bound_recurring_def)
  then show ?thesis using example_locked by (simp add: pauseLockedThrough_def)
qed

lemma example_return:
  assumes "find_pause Y pid = Some p" "\<not> pa_Ended p" "pa_Vehicle p = 5" "pa_PrevSpot p = None" "pa_From p = utc_midnight f" "f \<le> n"
    and "find_vehicle Y 5 = Some v" "pauseLockedThrough (yd_ledger Y) 5 = utc_midnight 19874" "19875 \<le> n"
  shows "ReturnFromPause (on_day n) True pid None Y = map_option Inr
    (if n = f then Some (remove_pause 5 pid Y) else end_pause p (utc_midnight (n - 1)) v Y)"
proof -
  have t: "startOfDayUTC (utc_midnight n) = utc_midnight n" by (simp add: startOfDayUTC_eq)
  have "\<not> locks (utc_midnight 19874) (utc_midnight (n - 1))" using assms(9) by (simp add: locks_def)
  then show ?thesis
    using assms
    by (simp add: ReturnFromPause_def given_date_def t same_instant_def relink_spot_def option.map_comp comp_def)
qed


lemma locked_refresh: "pauseLockedThrough (yd_ledger (refresh_pauses vid Y)) w = pauseLockedThrough (yd_ledger Y) w"
proof -
  let ?L = "yd_ledger Y" and ?L' = "yd_ledger (refresh_pauses vid Y)"
  have "lg_sources ?L' = lg_sources ?L" "lg_invoices ?L' = lg_invoices ?L" by (simp_all add: refresh_pauses_def Let_def)
  then have "invoiced_keys ?L' = invoiced_keys ?L" by (simp add: invoiced_keys_def fun_eq_iff)
  moreover have "bound_recurring ?L' w = bound_recurring ?L w"
    by (simp add: bound_recurring_def refresh_pauses_def Let_def filter_map comp_def)
      (rule map_cong, rule filter_cong, auto)
  ultimately show ?thesis by (simp add: pauseLockedThrough_def pause_keys_def)
qed

text \<open>A pause planned for December, and one in June that is ended before it begins.\<close>

definition june_in :: pauseIn where
  "june_in = \<lparr>pi_From = None, pi_Until = Some ''2024-06-14'', pi_HoldSpot = None, pi_Remark = []\<rparr>"

definition june_pause :: pause_row where
  "june_pause = (example_pause 19875)\<lparr>pa_ID := 2, pa_Until := Some (utc_midnight 19888)\<rparr>"

definition june_yard :: yard where
  "june_yard = refresh_pauses 5 ((resting_yard 20058)\<lparr>yd_pauses := [example_pause 20058, june_pause], yd_next_pause := 3\<rparr>)"

lemma june_start: "createPauseTx (on_day 19875) 5 june_in ''betreiber'' (resting_yard 20058) = Inr june_yard"
proof -
  have t: "startOfDayUTC (utc_midnight 19875) = utc_midnight 19875" by (simp add: startOfDayUTC_eq)
  have "pause_interval (utc_midnight 19875) june_in = Inr (utc_midnight 19875, Some (utc_midnight 19888))"
    by (simp add: pause_interval_def june_in_def given_date_def example_texts parseOptDate_def validDateLength_def example_date)
  moreover have "pauses_overlap (resting_yard 20058) 5 (utc_midnight 19875) (Some (utc_midnight 19888)) = False"
    by (simp add: pauses_overlap_def example_pause_def)
  then have "pause_refused (utc_midnight 19875) 5 True [] (utc_midnight 19875) (Some (utc_midnight 19888)) (resting_yard 20058) = None"
    unfolding pause_refused_def validNoteLength_def resting_find option.case Let_def resting_locked
    by (simp add: resting_camper_def camper_def parked_def StatusStored_def)
  ultimately show ?thesis
    by (simp add: createPauseTx_def t june_in_def Let_def example_texts add_pause_def june_yard_def june_pause_def example_pause_def)
qed

lemma june_find:
  "find_pause june_yard 2 = Some june_pause"
  "find_vehicle june_yard 5 = Some (camper\<lparr>vh_Pauses := billed_pauses june_yard 5\<rparr>)"
proof -
  let ?Z = "(resting_yard 20058)\<lparr>yd_pauses := [example_pause 20058, june_pause], yd_next_pause := 3\<rparr>"
  show "find_pause june_yard 2 = Some june_pause"
    by (simp add: june_yard_def) (simp add: find_pause_def june_pause_def example_pause_def)
  have "find_vehicle ?Z 5 = Some (resting_camper 20058)" using resting_find(1) [of 20058] by (simp add: find_vehicle_def)
  moreover have "vh_ID (resting_camper 20058) = 5" by (simp add: resting_camper_def camper_def)
  moreover have "billed_pauses june_yard 5 = billed_pauses ?Z 5" by (rule billed_pauses_cong) (simp add: june_yard_def)
  ultimately show "find_vehicle june_yard 5 = Some (camper\<lparr>vh_Pauses := billed_pauses june_yard 5\<rparr>)"
    by (simp add: june_yard_def resting_camper_def)
qed

lemma june_return:
  "ReturnFromPause (on_day 19889) True 2 None june_yard
    = map_option Inr (end_pause june_pause (utc_midnight 19888) (camper\<lparr>vh_Pauses := billed_pauses june_yard 5\<rparr>) june_yard)"
proof -
  let ?Z = "(resting_yard 20058)\<lparr>yd_pauses := [example_pause 20058, june_pause], yd_next_pause := 3\<rparr>"
  have p: "\<not> pa_Ended june_pause" "pa_Vehicle june_pause = 5" "pa_PrevSpot june_pause = None" "pa_From june_pause = utc_midnight 19875"
    by (simp_all add: june_pause_def example_pause_def)
  have "yd_ledger ?Z = yd_ledger (resting_yard 20058)" by simp
  then have "pauseLockedThrough (yd_ledger june_yard) 5 = utc_midnight 19874"
    unfolding june_yard_def locked_refresh using resting_locked [of 20058] by simp
  from example_return [OF june_find(1) p _ june_find(2) this, of 19889] show ?thesis by simp
qed

end
