(* ===== verification/Yard_Pause_Properties.thy ===== *)
theory Yard_Pause_Properties
  imports Yard_Examples
begin

text \<open>
  The properties of pauses: what an invoice has billed stays, the paid day moves on by the days
  rested, and what a second planned pause does to it.
\<close>

subsection \<open>Billed periods\<close>

lemma find_vehicle_L: "find (\<lambda>v. vh_ID v = ref) (lg_vehicles (yd_ledger Y)) = find_vehicle Y ref"
  by (simp add: find_vehicle_def)

lemma invoiced_in_pause_keys:
  "key \<in> set (invoiced_keys L ''vehicle'' vid) \<Longrightarrow> key \<in> set (pause_keys L vid)"
  "r \<in> set (lg_recurring L) \<Longrightarrow> rg_VehicleID r = Some vid \<Longrightarrow> key \<in> set (invoiced_keys L ''recurring'' (rg_ID r))
    \<Longrightarrow> key \<in> set (pause_keys L vid)"
  by (auto simp: pause_keys_def bound_recurring_def)

lemma locked_clip:
  assumes "table_step vid Y Y'" "pauses_ok Y" "index_key p j \<in> set (pause_keys (yd_ledger Y) vid)"
    "key_years p j" "0 < grid p (j + 1)" "e \<le> grid p (j + 1)"
  shows "clip e (billed_pauses Y' vid) = clip e (billed_pauses Y vid)"
  using pause_locked_key [OF assms(3-5)] assms(6) by (intro table_step_clip [OF assms(1,2)]) simp_all

lemma step_keeps_vehicle:
  assumes "table_step vid Y Y'" "pause_books vid Y Y'" "pauses_ok Y" "find_vehicle Y ref = Some v"
    and "in_calendar (vehicle_AsPeriod v c)" "local_day now < horizon" "key \<in> set (invoiced_keys (yd_ledger Y) ''vehicle'' ref)"
  shows "\<exists>v'. find_vehicle Y' ref = Some v' \<and> vh_CategoryID v' = vh_CategoryID v
    \<and> billed_under (vehicle_AsPeriod v' c) key now = billed_under (vehicle_AsPeriod v c) key now"
proof -
  obtain pt where L: "yd_ledger Y' = (yd_ledger Y)\<lparr>
        lg_vehicles := map (\<lambda>v. if vh_ID v = vid then v\<lparr>vh_PaidThrough := pt v, vh_Pauses := billed_pauses Y' vid\<rparr> else v)
          (lg_vehicles (yd_ledger Y)),
        lg_recurring := map (\<lambda>r. if rg_VehicleID r = Some vid then r\<lparr>rg_Pauses := billed_pauses Y' vid\<rparr> else r)
          (lg_recurring (yd_ledger Y))\<rparr>" using assms(2) by (auto simp: pause_books_def)
  have id: "vh_ID v = ref" by (rule find_vehicle_id [OF assms(4)])
  have pv: "vh_Pauses v = billed_pauses Y ref"
    using assms(3,4) id by (auto simp: pauses_ok_def find_vehicle_def find_Some_iff)
  define v' where "v' = (if ref = vid then v\<lparr>vh_PaidThrough := pt v, vh_Pauses := billed_pauses Y' vid\<rparr> else v)"
  have "find_vehicle Y' ref = Some v'"
    using assms(4) unfolding find_vehicle_def L by (simp add: find_map_ids v'_def id)
  moreover have "billed_under (vehicle_AsPeriod v' c) key now = billed_under (vehicle_AsPeriod v c) key now"
  proof (cases "ref = vid")
    case True
    show ?thesis
    proof (rule repaused_same [OF assms(5) _ assms(6)])
      show "vehicle_AsPeriod v' c = vehicle_AsPeriod v c\<lparr>fp_Pauses := billed_pauses Y' vid\<rparr>"
        using True by (simp add: vehicle_AsPeriod_def v'_def EffectiveRateFor_def)
      show "\<forall>p \<in> set (fp_Pauses (vehicle_AsPeriod v c)). rest_dated p"
        using rest_dated_billed [OF assms(3)] by (simp add: vehicle_AsPeriod_def pv)
      show "\<forall>p \<in> set (billed_pauses Y' vid). rest_dated p"
        by (rule rest_dated_billed [OF pauses_ok_step [OF assms(1-3)]])
      fix j e
      assume "key = index_key (fp_Period (vehicle_AsPeriod v c)) j" "key_years (fp_Period (vehicle_AsPeriod v c)) j"
        "0 < grid (fp_Period (vehicle_AsPeriod v c)) (j + 1)" "e \<le> grid (fp_Period (vehicle_AsPeriod v c)) (j + 1)"
      then show "clip e (billed_pauses Y' vid) = clip e (fp_Pauses (vehicle_AsPeriod v c))"
        using locked_clip [OF assms(1,3)] invoiced_in_pause_keys(1) [OF assms(7)] True
        by (simp add: vehicle_AsPeriod_def pv)
    qed
  next
    case False
    then show ?thesis by (simp add: v'_def)
  qed
  ultimately show ?thesis by (intro exI [of _ v']) (simp add: v'_def)
qed

lemma step_keeps_recurring:
  assumes "table_step vid Y Y'" "pause_books vid Y Y'" "pauses_ok Y"
    and "find (\<lambda>r. rg_ID r = ref) (lg_recurring (yd_ledger Y)) = Some rc"
    and "in_calendar (recurring_AsPeriod rc)" "local_day now < horizon" "key \<in> set (invoiced_keys (yd_ledger Y) ''recurring'' ref)"
  shows "\<exists>rc'. find (\<lambda>r. rg_ID r = ref) (lg_recurring (yd_ledger Y')) = Some rc'
    \<and> billed_under (recurring_AsPeriod rc') key now = billed_under (recurring_AsPeriod rc) key now"
proof -
  obtain pt where L: "yd_ledger Y' = (yd_ledger Y)\<lparr>
        lg_vehicles := map (\<lambda>v. if vh_ID v = vid then v\<lparr>vh_PaidThrough := pt v, vh_Pauses := billed_pauses Y' vid\<rparr> else v)
          (lg_vehicles (yd_ledger Y)),
        lg_recurring := map (\<lambda>r. if rg_VehicleID r = Some vid then r\<lparr>rg_Pauses := billed_pauses Y' vid\<rparr> else r)
          (lg_recurring (yd_ledger Y))\<rparr>" using assms(2) by (auto simp: pause_books_def)
  have rc: "rc \<in> set (lg_recurring (yd_ledger Y))" "rg_ID rc = ref" using assms(4) by (auto simp: find_Some_iff)
  have fm: "find (\<lambda>r. rg_ID r = ref) (map (\<lambda>r. if rg_VehicleID r = Some vid then r\<lparr>rg_Pauses := ps\<rparr> else r) rs)
      = map_option (\<lambda>r. if rg_VehicleID r = Some vid then r\<lparr>rg_Pauses := ps\<rparr> else r) (find (\<lambda>r. rg_ID r = ref) rs)" for ps rs
    by (induction rs) simp_all
  define rc' where "rc' = (if rg_VehicleID rc = Some vid then rc\<lparr>rg_Pauses := billed_pauses Y' vid\<rparr> else rc)"
  have "find (\<lambda>r. rg_ID r = ref) (lg_recurring (yd_ledger Y')) = Some rc'"
    using assms(4) by (simp add: L fm rc'_def)
  moreover have "billed_under (recurring_AsPeriod rc') key now = billed_under (recurring_AsPeriod rc) key now"
  proof (cases "rg_VehicleID rc = Some vid")
    case True
    have pv: "rg_Pauses rc = billed_pauses Y vid" using assms(3) rc True by (simp add: pauses_ok_def)
    show ?thesis
    proof (rule repaused_same [OF assms(5) _ assms(6)])
      show "recurring_AsPeriod rc' = recurring_AsPeriod rc\<lparr>fp_Pauses := billed_pauses Y' vid\<rparr>"
        using True by (simp add: recurring_AsPeriod_def rc'_def)
      show "\<forall>p \<in> set (fp_Pauses (recurring_AsPeriod rc)). rest_dated p"
        using rest_dated_billed [OF assms(3)] by (simp add: recurring_AsPeriod_def pv)
      show "\<forall>p \<in> set (billed_pauses Y' vid). rest_dated p"
        by (rule rest_dated_billed [OF pauses_ok_step [OF assms(1-3)]])
      fix j e
      assume "key = index_key (fp_Period (recurring_AsPeriod rc)) j" "key_years (fp_Period (recurring_AsPeriod rc)) j"
        "0 < grid (fp_Period (recurring_AsPeriod rc)) (j + 1)" "e \<le> grid (fp_Period (recurring_AsPeriod rc)) (j + 1)"
      moreover have "key \<in> set (pause_keys (yd_ledger Y) vid)"
        using invoiced_in_pause_keys(2) [OF rc(1) True] assms(7) rc(2) by simp
      ultimately show "clip e (billed_pauses Y' vid) = clip e (fp_Pauses (recurring_AsPeriod rc))"
        using locked_clip [OF assms(1,3)] by (simp add: recurring_AsPeriod_def pv)
    qed
  next
    case False
    then show ?thesis by (simp add: rc'_def)
  qed
  ultimately show ?thesis by blast
qed

text \<open>C35: pauses never change what an invoice has billed. Starting, extending, ending and removing a
  pause leave the entry under every billed key of every rental, agreement and recurring cost as it
  was: same start, same cost, same completeness on every day; the tables stay in order.\<close>

theorem pauses_keep_what_is_billed:
  assumes "pause_step env Y Y'" "pauses_ok Y" "local_day (pe_now env) \<le> horizon"
    and "key \<in> set (invoiced_keys (yd_ledger Y) kind ref)" "accrual (yd_ledger Y) kind ref = Some a" "in_calendar a"
    and "local_day now < horizon"
  shows "pauses_ok Y' \<and> billed_entry (yd_ledger Y') kind ref key now = billed_entry (yd_ledger Y) kind ref key now"
proof -
  obtain vid where st: "table_step vid Y Y'" "pause_books vid Y Y'"
    using pause_step_table [OF assms(1-3)] by blast
  then have same: "lg_agreements (yd_ledger Y') = lg_agreements (yd_ledger Y)" "lg_cats (yd_ledger Y') = lg_cats (yd_ledger Y)"
    by (auto simp: pause_books_def)
  consider "kind = ''vehicle''" | "kind = ''agreement''" | "kind = ''recurring''"
    using assms(5) by (auto simp: accrual_def split: if_splits)
  then have "billed_entry (yd_ledger Y') kind ref key now = billed_entry (yd_ledger Y) kind ref key now"
  proof cases
    case 1
    then obtain v where v: "find_vehicle Y ref = Some v" "a = vehicle_AsPeriod v (lg_cats (yd_ledger Y) (vh_CategoryID v))"
      using assms(5) by (auto simp: accrual_def find_vehicle_L)
    from step_keeps_vehicle [OF st assms(2) v(1) _ assms(7)] assms(4,6) v 1 show ?thesis
      by (fastforce simp: billed_entry_def accrual_def find_vehicle_L same)
  next
    case 2
    then show ?thesis by (simp add: billed_entry_def accrual_def same)
  next
    case 3
    then obtain rc where rc: "find (\<lambda>r. rg_ID r = ref) (lg_recurring (yd_ledger Y)) = Some rc" "a = recurring_AsPeriod rc"
      using assms(5) by (auto simp: accrual_def)
    from step_keeps_recurring [OF st assms(2) rc(1) _ assms(7)] assms(4,6) rc 3 show ?thesis
      by (fastforce simp: billed_entry_def accrual_def)
  qed
  with pauses_ok_step [OF st assms(2)] show ?thesis by simp
qed


theorem pauses_keep_what_is_billed_witness:
  "\<exists>Y'. createPauseTx (on_day 19875) 5 example_in ''betreiber'' example_yard = Inr Y' \<and> pauses_ok Y'
    \<and> billed_entry (yd_ledger Y') ''vehicle'' 5 (index_key BillingMonthly 24292) (utc_midnight 20000)
      = billed_entry (yd_ledger example_yard) ''vehicle'' 5 (index_key BillingMonthly 24292) (utc_midnight 20000)"
proof -
  obtain Y' where s: "createPauseTx (on_day 19875) 5 example_in ''betreiber'' example_yard = Inr Y'"
    using example_start by blast
  have k: "index_key BillingMonthly 24292 \<in> set (invoiced_keys (yd_ledger example_yard) ''vehicle'' 5)"
    by (simp add: ledger_hall hall_keys(2))
  have a: "accrual (yd_ledger example_yard) ''vehicle'' 5
      = Some (vehicle_AsPeriod camper (lg_cats (yd_ledger example_yard) (vh_CategoryID camper)))"
    using find_camper by (simp add: accrual_def find_vehicle_L)
  have c: "in_calendar (vehicle_AsPeriod camper x)" for x
    by (simp add: in_calendar_def dated_def start_day_def vehicle_AsPeriod_def camper_def parked_def)
  from pauses_keep_what_is_billed [OF pause_step.start [OF s] example_pauses_ok _ k a c, of "utc_midnight 20000"] s
  show ?thesis by (simp add: horizon_days)
qed

subsection \<open>Coming back\<close>

text \<open>C36: ending a pause always answers, and it moves the prepaid rent on: the paid day advances until
  exactly as many rented days have passed as prepaid days were rested, or it stops at the end of the
  rental. A pause ended on the day it began is dropped and moves nothing.\<close>

theorem prepaid_rent_moves_on:
  assumes "pauses_ok Y" "find_pause Y pid = Some p" "find_vehicle Y (pa_Vehicle p) = Some v"
    and "local_day (pe_now env) \<le> horizon"
    and "vh_PaidThrough v = map_option utc_midnight pt" "vh_EndDate v = map_option utc_midnight e"
    and "\<forall>x. pt = Some x \<longrightarrow> x \<le> local_day (pa_From p) + 100000"
  shows "\<exists>answer. ReturnFromPause env hall pid given Y = Some answer \<and> (\<forall>Y'. answer = Inr Y' \<longrightarrow>
    (\<exists>v'. find_vehicle Y' (pa_Vehicle p) = Some v' \<and>
      (if find_pause Y' pid = None then vh_PaidThrough v' = vh_PaidThrough v
       else \<exists>lst. find_pause Y' pid = Some (ended p (utc_midnight lst) (vh_PaidThrough v)) \<and> local_day (pa_From p) \<le> lst \<and>
         (case pt of None \<Rightarrow> vh_PaidThrough v' = None
          | Some paid \<Rightarrow> \<exists>r. vh_PaidThrough v' = Some (utc_midnight r)
              \<and> moved_on e (\<lambda>k. paused_on (listPauses Y' (pa_Vehicle p)) (utc_midnight k))
                  (min paid lst - local_day (pa_From p) + 1) paid r))))"
  using return_answers [OF assms] by blast


theorem prepaid_rent_moves_on_witness:
  "\<exists>Y' v'. ReturnFromPause (on_day 19889) True 1 None (resting_yard 19875) = Some (Inr Y')
    \<and> find_vehicle Y' 5 = Some v' \<and> vh_PaidThrough v' = Some (utc_midnight 20102)"
proof -
  let ?Y = "resting_yard 19875" and ?v = "resting_camper 19875" and ?p = "example_pause 19875"
  let ?R = "ReturnFromPause (on_day 19889) True 1 None ?Y"
  have p: "pa_Vehicle ?p = 5" "pa_From ?p = utc_midnight 19875" "pa_ID ?p = 1" "\<not> pa_Ended ?p" "pa_PrevSpot ?p = None"
    by (simp_all add: example_pause_def)
  have v: "vh_PaidThrough ?v = map_option utc_midnight (Some 20088)" "vh_EndDate ?v = map_option utc_midnight None"
    by (simp_all add: resting_camper_def camper_def parked_def)
  have "find_vehicle ?Y (pa_Vehicle ?p) = Some ?v" using resting_find(1) p(1) by simp
  note prepaid_rent_moves_on [OF resting_ok resting_find(2) this _ v, of "on_day 19889" True None, unfolded p option.case]
  moreover have "19875 \<le> (100000 :: int)" "local_day (pe_now (on_day 19889)) \<le> horizon"
    "\<forall>x. Some 20088 = Some x \<longrightarrow> x \<le> local_day (utc_midnight 19875) + 100000" by (simp_all add: horizon_days)
  ultimately obtain z where z: "?R = Some z" "\<forall>Y'. z = Inr Y' \<longrightarrow> (\<exists>v'. find_vehicle Y' 5 = Some v' \<and>
      (if find_pause Y' 1 = None then vh_PaidThrough v' = vh_PaidThrough ?v
       else \<exists>lst. find_pause Y' 1 = Some (ended ?p (utc_midnight lst) (vh_PaidThrough ?v)) \<and> 19875 \<le> lst \<and>
         (\<exists>r. vh_PaidThrough v' = Some (utc_midnight r)
              \<and> moved_on None (\<lambda>k. paused_on (listPauses Y' 5) (utc_midnight k)) (min 20088 lst - 19875 + 1) 20088 r)))"
    unfolding local_day_midnight by blast
  have R: "?R = map_option Inr (end_pause ?p (utc_midnight 19888) ?v ?Y)"
    using example_return [OF resting_find(2) p(4,1,5,2) _ resting_find(1) resting_locked, of 19889] by simp
  obtain Z where Z: "end_pause ?p (utc_midnight 19888) ?v ?Y = Some Z" using z(1) R by auto
  from end_pause_table [OF Z] have Zp: "yd_pauses Z = [ended ?p (utc_midnight 19888) (vh_PaidThrough ?v)]" by simp
  then have f: "find_pause Z 1 = Some (ended ?p (utc_midnight 19888) (vh_PaidThrough ?v))" by (simp add: find_pause_def p)
  have "z = Inr Z" using z(1) R Z by simp
  have "utc_midnight m = utc_midnight n \<longleftrightarrow> m = n" for m n by (metis local_day_midnight)
  with z(2) [rule_format, OF \<open>z = Inr Z\<close>] f obtain v' r where
    r: "find_vehicle Z 5 = Some v'" "vh_PaidThrough v' = Some (utc_midnight r)"
    "moved_on None (\<lambda>k. paused_on (listPauses Z 5) (utc_midnight k)) 14 20088 r"
    by auto
  have "\<not> paused_on (listPauses Z 5) (utc_midnight k)" if "19888 < k" for k
    using that by (simp add: paused_on_def Zp p)
  then have "free_days (\<lambda>k. paused_on (listPauses Z 5) (utc_midnight k)) 20088 r = r - 20088" if "20088 \<le> r"
    using that by (intro free_days_tail) simp_all
  then have "r = 20102" using r(3) by (simp add: moved_on_def)
  with R Z r show ?thesis by auto
qed


subsection \<open>Two open pauses\<close>

text \<open>C37: with a pause planned for later, a new one that ends before it is accepted, and coming back
  from the new one moves the paid day behind the end of the calendar: the planned pause rests the
  vehicle until 9999-12-31 while it is not ended, so no rented day is found before.\<close>

theorem planned_pause_prepays_forever:
  assumes "pauses_ok Y" "q \<in> set (yd_pauses Y)" "pa_Vehicle q = vid" "\<not> pa_Ended q"
    and "find_vehicle Y vid = Some v" "vh_PaidThrough v = Some (utc_midnight pt)" "vh_EndDate v = None"
    and "local_day (pa_From q) \<le> pt + 1" "pt \<le> horizon"
    and "createPauseTx env vid i src Y = Inr Y1" "find_pause Y1 (yd_next_pause Y) = Some p" "pt \<le> local_day (pa_From p) + 100000"
    and "ReturnFromPause env' hall (yd_next_pause Y) given Y1 = Some (Inr Y2)" "find_pause Y2 (yd_next_pause Y) = Some p'"
    and "local_day (pe_now env) \<le> horizon" "local_day (pe_now env') \<le> horizon"
  shows "\<exists>v' r. find_vehicle Y2 vid = Some v' \<and> vh_PaidThrough v' = Some (utc_midnight r) \<and> horizon < r"
proof -
  obtain n v1 where n: "yd_pauses Y1 = yd_pauses Y @ [n]" "pa_ID n = yd_next_pause Y" "pa_Vehicle n = vid" "\<not> pa_Ended n"
    "\<not> pauses_overlap Y vid (pa_From n) (pa_Until n)"
    and v1: "find_vehicle Y1 vid = Some v1" "vh_PaidThrough v1 = vh_PaidThrough v" "vh_EndDate v1 = vh_EndDate v"
    using start_details [OF assms(10,5)] by blast
  have q: "pa_ID q < yd_next_pause Y" "pause_dated q" using assms(1,2) by (auto simp: pauses_ok_def)
  have "find (\<lambda>x. pa_ID x = yd_next_pause Y) (yd_pauses Y) = None"
    using assms(1) by (auto simp: pauses_ok_def find_None_iff)
  moreover have "find P (xs @ [x]) = (if P x then Some x else None)" if "find P xs = None" for P :: "pause_row \<Rightarrow> bool" and xs x
    using that by (induction xs) (auto split: if_splits)
  ultimately have "p = n" using assms(11) n(1,2) by (simp add: find_pause_def)
  have st: "table_step vid Y Y1" "pause_books vid Y Y1" using start_table [OF assms(10,15)] by simp_all
  have ok1: "pauses_ok Y1" by (rule pauses_ok_step [OF st assms(1)])
  obtain w where "table_step w Y1 Y2" "pause_books w Y1 Y2" using return_table [OF assms(13) ok1 assms(16)] by blast
  then have ok2: "pauses_ok Y2" by (rule pauses_ok_step [OF _ _ ok1])
  have nd: "pause_dated n" using ok1 n(1) by (simp add: pauses_ok_def)
  obtain f a u where f: "pa_From n = utc_midnight f" "pa_From q = utc_midnight a" "pa_Until n = Some (utc_midnight u)" "f \<le> u" "u < a"
    using planned_before [OF n(5) assms(2-4) nd q(2)] by blast
  have fp: "find_vehicle Y1 (pa_Vehicle n) = Some v1" using v1(1) n(3) by simp
  from return_cases [OF ok1 assms(11) fp [folded \<open>p = n\<close>] assms(16), of hall given] assms(13)
  obtain lst Z where lst: "f \<le> lst" "lst \<le> horizon" "end_pause n (utc_midnight lst) v1 Y1 = Some Z"
    "Y2 = relink_spot (pa_Vehicle n) (pa_PrevSpot n) Z"
    using assms(14) by (auto simp: \<open>p = n\<close> f find_pause_removed dest!: sym [where t = "map_option _ _"])
  have okZ: "pauses_ok Z" using ok2 by (simp add: pauses_ok_relink lst(4))
  have "\<exists>v'. find_vehicle Z (pa_Vehicle n) = Some v' \<and> vh_PaidThrough v' = Some (utc_midnight (horizon + (min pt lst - f + 1)))"
  proof (rule end_pause_past_horizon [OF ok1 _ n(4) fp f(1) lst(1,2)])
    show "local_day (pa_From q) \<le> pt + 1" by (rule assms(8))
  qed (use assms(2-4,6-9,12) n q(1) f lst(3) v1(2,3) \<open>p = n\<close> okZ in simp_all)
  with f assms(8) lst(1) show ?thesis by (auto simp: lst(4) n(3) min_def)
qed


theorem planned_pause_prepays_forever_witness:
  "\<exists>Y2 v' r. createPauseTx (on_day 19875) 5 june_in ''betreiber'' (resting_yard 20058) = Inr june_yard
    \<and> ReturnFromPause (on_day 19889) True 2 None june_yard = Some (Inr Y2)
    \<and> find_vehicle Y2 5 = Some v' \<and> vh_PaidThrough v' = Some (utc_midnight r) \<and> 2932896 < r"
proof -
  let ?v = "camper\<lparr>vh_Pauses := billed_pauses june_yard 5\<rparr>"
  have ok: "pauses_ok (resting_yard 20058)" by (rule resting_ok) simp
  have p: "june_pause \<in> set (yd_pauses june_yard)" "pa_ID june_pause = 2" using find_pause_in [OF june_find(1)] by simp_all
  have jp: "pa_Vehicle june_pause = 5" "\<not> pa_Ended june_pause" "pa_From june_pause = utc_midnight 19875"
    by (simp_all add: june_pause_def example_pause_def)
  have ok1: "pauses_ok june_yard" using start_table [OF june_start] ok by (auto intro: pauses_ok_step simp: horizon_days)
  have v: "vh_PaidThrough ?v = map_option utc_midnight (Some 20088)" "vh_EndDate ?v = map_option utc_midnight None"
    by (simp_all add: camper_def parked_def)
  have "find_vehicle june_yard (pa_Vehicle june_pause) = Some ?v" using june_find(2) jp(1) by simp
  from end_pause_answers [OF ok1 p(1) jp(2) this jp(3) _ _ v, of 19888] obtain Y2 where
    e: "end_pause june_pause (utc_midnight 19888) ?v june_yard = Some Y2" by (auto simp: horizon_days)
  then have r: "ReturnFromPause (on_day 19889) True 2 None june_yard = Some (Inr Y2)" by (simp add: june_return)
  have two: "yd_next_pause (resting_yard 20058) = 2" by simp
  from find_pause_ended [OF end_pause_table [OF e, unfolded p(2)] june_find(1)]
  have f: "find_pause Y2 2 = Some (ended june_pause (utc_midnight 19888) (vh_PaidThrough ?v))" .
  have a: "example_pause 20058 \<in> set (yd_pauses (resting_yard 20058))" "pa_Vehicle (example_pause 20058) = 5"
    "\<not> pa_Ended (example_pause 20058)" "local_day (pa_From (example_pause 20058)) = 20058"
    by (simp, simp_all add: example_pause_def)
  have c: "vh_PaidThrough (resting_camper 20058) = Some (utc_midnight 20088)" "vh_EndDate (resting_camper 20058) = None"
    by (simp_all add: resting_camper_def camper_def parked_def)
  from planned_pause_prepays_forever [OF ok a(1-3) resting_find(1) c _ _ june_start, unfolded two, OF _ _ june_find(1) _ r f]
  have "\<exists>v' r. find_vehicle Y2 5 = Some v' \<and> vh_PaidThrough v' = Some (utc_midnight r) \<and> horizon < r"
    by (simp add: a(4) jp(3) horizon_days)
  with r june_start show ?thesis by (auto simp: horizon_days)
qed

end
