(* ===== verification/Yard_Window.thy ===== *)
theory Yard_Window
  imports Yard_Billed
begin

text \<open>
  What is billed under a key when the rental's end moves: the one slice of its sub-period. And the
  keys of a rental are ordered as their sub-periods are, so that the greatest key is the last one.
\<close>

subsection \<open>The order of keys\<close>

lemma digits_value_Cons:
  "digits_value (c # s) = (of_char c - 48) * 10 ^ length s + digits_value s"
proof -
  have "foldl (\<lambda>a c. 10 * a + (of_char c - 48)) x s = x * 10 ^ length s + foldl (\<lambda>a c. 10 * a + (of_char c - 48)) 0 s" for x :: nat
  proof (induction s rule: rev_induct)
    case (snoc d s)
    then show ?case by (simp add: algebra_simps)
  qed simp
  from this [of "of_char c - 48"] show ?thesis by (simp add: digits_value_def)
qed

lemma digits_value_lex:
  assumes "length xs = length ys" "list_all is_digit xs" "list_all is_digit ys" "digits_value xs < digits_value ys"
  shows "xs < (ys :: string)"
  using assms
proof (induction xs ys rule: list_induct2)
  case (Cons x xs y ys)
  let ?n = "10 ^ length ys :: nat"
  have d: "48 \<le> (of_char x :: nat)" "48 \<le> (of_char y :: nat)" using Cons.prems by (simp_all add: is_digit_def)
  have b: "digits_value xs < ?n" "digits_value ys < ?n"
    using digits_value_less [of xs] digits_value_less [of ys] Cons.prems Cons.hyps by simp_all
  show ?case
  proof (cases "of_char x < (of_char y :: nat)")
    case True
    then show ?thesis by (simp add: less_char_def)
  next
    case False
    have "(of_char x - 48) * ?n + digits_value xs < (of_char y - 48) * ?n + digits_value ys"
      using Cons.prems(3) Cons.hyps by (simp add: digits_value_Cons)
    then have le: "of_char x \<le> (of_char y :: nat)"
    proof (rule contrapos_pp)
      assume "\<not> of_char x \<le> (of_char y :: nat)"
      then have "of_char y - 48 + 1 \<le> (of_char x - 48 :: nat)" using d by simp
      then have "(of_char y - 48 + 1) * ?n \<le> (of_char x - 48) * ?n" by (rule mult_le_mono1)
      then show "\<not> (of_char x - 48) * ?n + digits_value xs < (of_char y - 48) * ?n + digits_value ys"
        using b(2) by simp
    qed
    with False have "(of_char x :: nat) = of_char y" by simp
    then have "x = y" by (simp add: of_char_eq_iff)
    with Cons show ?thesis by (simp add: digits_value_Cons)
  qed
qed simp

lemma fmt_0d_less: "0 \<le> i \<Longrightarrow> i < j \<Longrightarrow> j < 10 ^ w \<Longrightarrow> 0 < w \<Longrightarrow> fmt_0d w i < fmt_0d w j"
  using fmt_0d_shape [of i w] fmt_0d_shape [of j w] by (intro digits_value_lex) simp_all

lemma append_lex: "length xs = length ys \<Longrightarrow> xs < ys \<Longrightarrow> xs @ us < ys @ (vs :: string)"
  by (induction xs ys rule: list_induct2) auto

lemma index_key_less:
  assumes "key_years p i" "key_years p j" "i < j"
  shows "index_key p i < index_key p j"
proof (cases "p = BillingYearly")
  case True
  with assms show ?thesis by (simp add: index_key_def key_years_index fmt_0d_less)
next
  case False
  then have y: "0 \<le> i div 12" "j div 12 < 10 ^ 4" "0 \<le> j div 12" using assms by (simp_all add: key_years_index)
  show ?thesis
  proof (cases "i div 12 = j div 12")
    case True
    then have "i mod 12 < j mod 12" using assms(3) by (metis div_mult_mod_eq add_less_cancel_left)
    then have "fmt_0d 2 (i mod 12 + 1) < fmt_0d 2 (j mod 12 + 1)"
      using pos_mod_bound [of 12 j] by (intro fmt_0d_less) simp_all
    then have "zs @ fmt_0d 2 (i mod 12 + 1) < zs @ fmt_0d 2 (j mod 12 + 1)" for zs by (induction zs) simp_all
    from this [of "fmt_0d 4 (j div 12) @ ''-''"] False True show ?thesis by (simp add: index_key_def)
  next
    case ne: False
    then have "i div 12 < j div 12" using assms(3) by (simp add: zdiv_mono1 order.strict_iff_order)
    then have "fmt_0d 4 (i div 12) < fmt_0d 4 (j div 12)" using y by (intro fmt_0d_less) simp_all
    moreover have "length (fmt_0d 4 (i div 12)) = length (fmt_0d 4 (j div 12))"
      using fmt_0d_shape [of "i div 12" 4] fmt_0d_shape [of "j div 12" 4] y \<open>i div 12 < j div 12\<close> by simp
    ultimately show ?thesis using False by (simp add: index_key_def append_lex)
  qed
qed

lemma index_key_le: "key_years p i \<Longrightarrow> key_years p j \<Longrightarrow> index_key p i \<le> index_key p j \<Longrightarrow> i \<le> j"
  using index_key_less [of p j i] by (meson leD not_le)

lemma foldl_max: "foldl max k ks \<in> insert k (set ks) \<and> (\<forall>x \<in> insert k (set ks). x \<le> foldl max k ks)"
  for k :: "'a :: linorder"
  by (induction ks arbitrary: k) (auto simp: max_def split: if_splits, force+)

subsection \<open>The slice of a sub-period\<close>

context calendar_grid begin

lemma tiles_slice_at:
  "tiles g i a b xs \<Longrightarrow> filter (\<lambda>x. fst (snd (snd x)) = utc_midnight (g j)) xs
    = (if i \<le> j \<and> max a (g j) < min b (g (j + 1))
       then [(utc_midnight (max a (g j)), utc_midnight (min b (g (j + 1))), utc_midnight (g j), utc_midnight (g (j + 1)))] else [])"
proof (induction xs arbitrary: i a)
  case (Cons x xs)
  then have h: "g i \<le> a" "a < g (i + 1)" "a < b" "tiles g (i + 1) (min b (g (i + 1))) b xs"
    and x: "x = (utc_midnight a, utc_midnight (min b (g (i + 1))), utc_midnight (g i), utc_midnight (g (i + 1)))" by simp_all
  note IH = Cons.IH [OF h(4)]
  consider "j < i" | "j = i" | "i < j" by linarith
  then show ?case
  proof cases
    case 1
    then show ?thesis using IH by (simp add: x g_inj)
  next
    case 2
    then show ?thesis using IH h by (simp add: x max_absorb1 g_inj)
  next
    case 3
    then have le: "g (i + 1) \<le> g j" by (simp add: g_le_iff)
    have "max (min b (g (i + 1))) (g j) < min b (g (j + 1)) \<longleftrightarrow> max a (g j) < min b (g (j + 1))"
      "max (min b (g (i + 1))) (g j) = g j" "max a (g j) = g j"
      using le h by auto
    then show ?thesis using IH 3 by (simp add: x g_inj)
  qed
qed simp

end

lemma billed_under_slice:
  assumes "dated a"
  shows "billed_under a (index_key (fp_Period a) j) now =
    (let s = max (start_day a) (grid (fp_Period a) j); e = min (until_day a (local_day now)) (grid (fp_Period a) (j + 1))
     in if s < e then [entry a now (utc_midnight s, utc_midnight e, utc_midnight (grid (fp_Period a) j),
          utc_midnight (grid (fp_Period a) (j + 1)))] else [])"
proof -
  let ?g = "grid (fp_Period a)" and ?b = "until_day a (local_day now)"
  have k: "op_Key (entry a now x) = index_key (fp_Period a) j \<longleftrightarrow> fst (snd (snd x)) = utc_midnight (?g j)"
    if "x \<in> set (elapsed a now)" for x
    using elapsed_slice [OF that] by (auto simp: entry_def Let_def PeriodKey_grid index_key_inj)
  have f: "billed_under a (index_key (fp_Period a) j) now
      = map (entry a now) (filter (\<lambda>x. fst (snd (snd x)) = utc_midnight (?g j)) (elapsed a now))"
    using k by (simp add: billed_under_def detailed_entries [OF assms] filter_map comp_def cong: filter_cong)
  show ?thesis
  proof (cases "start_day a < ?b")
    case True
    from cal.tiles_slice_at [OF elapsed_tiled, of a now j] True
    have "filter (\<lambda>x. fst (snd (snd x)) = utc_midnight (?g j)) (elapsed a now)
      = (if grid_index (fp_Period a) (start_day a) \<le> j \<and> max (start_day a) (?g j) < min ?b (?g (j + 1))
         then [(utc_midnight (max (start_day a) (?g j)), utc_midnight (min ?b (?g (j + 1))), utc_midnight (?g j), utc_midnight (?g (j + 1)))]
         else [])" by simp
    moreover have "grid_index (fp_Period a) (start_day a) \<le> j" if "max (start_day a) (?g j) < min ?b (?g (j + 1))"
    proof -
      have "?g (grid_index (fp_Period a) (start_day a)) < ?g (j + 1)"
        using that cal.idx_le [of "fp_Period a" "start_day a"] by simp
      then show ?thesis by (simp add: cal.g_less_iff)
    qed
    ultimately show ?thesis by (auto simp: f Let_def)
  next
    case False
    then show ?thesis by (simp add: f Let_def elapsed_empty)
  qed
qed

text \<open>The day after the end of a rental, as far as a sub-period sees it.\<close>

definition end_within :: "flat_rate_period \<Rightarrow> int \<Rightarrow> int" where
  "end_within a q = (case fp_EndDate a of None \<Rightarrow> q | Some e \<Rightarrow> min (local_day e + 1) q)"

lemma billed_under_same:
  assumes "dated a" "dated b" "fp_Period b = fp_Period a" "start_day b = start_day a"
    and "end_within b (grid (fp_Period a) (j + 1)) = end_within a (grid (fp_Period a) (j + 1))"
    and "\<And>x. sliceCents b x = sliceCents a x"
  shows "billed_under b (index_key (fp_Period a) j) now = billed_under a (index_key (fp_Period a) j) now"
proof -
  let ?g = "grid (fp_Period a)"
  have e: "min (until_day x n) (?g (j + 1)) = min (n + 1) (end_within x (?g (j + 1)))" for x n
    by (auto simp: until_day_def end_within_def split: option.split)
  have fin: "(case fp_EndDate x of None \<Rightarrow> utc_midnight (?g (j + 1))
      | Some ed \<Rightarrow> let i = DayAfter ed in if before i (utc_midnight (?g (j + 1))) then i else utc_midnight (?g (j + 1)))
      = utc_midnight (end_within x (?g (j + 1)))" if "dated x" for x
    using that by (auto simp: end_within_def dated_def is_date_def DayAfter_eq Let_def min_def split: option.splits)
  have "entry b now (utc_midnight s, utc_midnight t, utc_midnight (?g j), utc_midnight (?g (j + 1)))
      = entry a now (utc_midnight s, utc_midnight t, utc_midnight (?g j), utc_midnight (?g (j + 1)))" for s t
    unfolding entry_def prod.case assms(5,6) PeriodKey_def fin [OF assms(1)] fin [OF assms(2)]
    by (simp only: assms(3,5))
  then show ?thesis
    using billed_under_slice [OF assms(1), of j now] billed_under_slice [OF assms(2), of j now] e [of a] e [of b] assms(3-5)
    by (simp add: Let_def)
qed

end
