(* ===== verification/Yard_Rent.thy ===== *)
theory Yard_Rent
  imports Yard_Window
begin

text \<open>
  The guards that let the end of a rental move: together they leave every billed sub-period as long
  as it was.
\<close>

subsection \<open>The last day of a sub-period\<close>

lemma date_in_period:
  assumes "grid p j \<le> n" "n < grid p (j + 1)"
  shows "last_day_of_period p (utc_midnight n) = utc_midnight (grid p (j + 1) - 1)"
    and "(if p = BillingYearly then format_year (utc_midnight n) else format_month (utc_midnight n)) = index_key p j"
proof -
  obtain y m d where c: "civil_of_day n = (y, m, d)" by (cases "civil_of_day n")
  note y = civil_of_day_props [OF c]
  have t: "time_year (utc_midnight n) = y" "time_month (utc_midnight n) = m"
    by (simp_all add: time_year_def time_month_def time_date_def c)
  show "last_day_of_period p (utc_midnight n) = utc_midnight (grid p (j + 1) - 1)"
  proof (cases "p = BillingYearly")
    case True
    then have "y = j" using assms y(1) year_of_day_iff [of n j] by (simp add: grid_def)
    moreover have "mstart (12 * j + 11 + 1) = mstart (12 * j + 11) + 31"
      unfolding mstart_step by (simp add: month_len_def time_simps)
    ultimately show ?thesis using True
      by (simp add: last_day_of_period_def t grid_def date_utc_def date_days_mstart ystart_mstart algebra_simps)
  next
    case False
    then have "month_index n = j" using assms by (simp add: grid_def month_index_iff)
    then have "12 * y + m = j + 1" by (simp add: month_index_def c)
    then show ?thesis using False
      by (simp add: last_day_of_period_def t grid_def date_utc_def date_days_mstart)
  qed
  show "(if p = BillingYearly then format_year (utc_midnight n) else format_month (utc_midnight n)) = index_key p j"
  proof (cases "p = BillingYearly")
    case True
    then have "y = j" using assms y(1) year_of_day_iff [of n j] by (simp add: grid_def)
    then show ?thesis using True by (simp add: index_key_def format_year_def t)
  next
    case False
    then have "month_index n = j" using assms by (simp add: grid_def month_index_iff)
    then have j: "j = 12 * y + (m - 1)" by (simp add: month_index_def c)
    then have "j div 12 = y" "j mod 12 + 1 = m" using y(2,3) by simp_all
    then show ?thesis using False by (simp add: index_key_def format_month_def t)
  qed
qed

lemma sameTaxDay_midnight [simp]: "sameTaxDay (utc_midnight m) (utc_midnight n) \<longleftrightarrow> m = n"
proof -
  have "m = n" if "civil_of_day m = civil_of_day n"
    using civil_of_day_props(6) that by (metis prod_cases3)
  then show ?thesis by (auto simp: sameTaxDay_def time_date_def)
qed

subsection \<open>Billed keys\<close>

definition rent :: "yard \<Rightarrow> vehicle \<Rightarrow> flat_rate_period" where
  "rent Y v = vehicle_AsPeriod v (lg_cats (yd_ledger Y) (vh_CategoryID v))"

lemma rent_simps [simp]:
  "fp_Period (rent Y v) = vh_BillingPeriod v" "fp_StartDate (rent Y v) = vh_StartDate v" "fp_EndDate (rent Y v) = vh_EndDate v"
  "fp_Pauses (rent Y v) = vh_Pauses v" "fp_RateChanges (rent Y v) = vh_RateChanges v"
  "fp_Amount (rent Y v) = EffectiveRateFor v (lg_cats (yd_ledger Y) (vh_CategoryID v))"
  by (simp_all add: rent_def vehicle_AsPeriod_def)

lemma billed_entry_rent:
  "billed_entry (yd_ledger Y) ''vehicle'' vid key now = map_option (\<lambda>v. billed_under (rent Y v) key now) (find_vehicle Y vid)"
  by (simp add: billed_entry_def accrual_def find_vehicle_def rent_def option.map_comp comp_def)

text \<open>The keys an invoice claims for a rental are those of its own sub-periods.\<close>

definition keys_fit :: "ledger \<Rightarrow> string \<Rightarrow> int \<Rightarrow> bool" where
  "keys_fit L p ref \<longleftrightarrow> (\<forall>k \<in> set (invoiced_keys L ''vehicle'' ref). \<exists>j. k = index_key p j \<and> key_years p j)"

lemma periodInvoiced_key:
  "key \<in> set (invoiced_keys L kind ref) \<Longrightarrow> periodInvoicedTx L kind ref key"
  by (auto simp: invoiced_keys_def periodInvoicedTx_def active_source_def)

lemma retract_bound:
  assumes "keys_fit L p ref" "index_key p j \<in> set (invoiced_keys L ''vehicle'' ref)" "key_years p j"
    and "\<not> endDateRetractsBelowInvoiced L ''vehicle'' ref (Some (utc_midnight e))"
  shows "grid p (j + 1) \<le> e + 1"
proof -
  obtain k ks where K: "invoiced_keys L ''vehicle'' ref = k # ks" using assms(2) by (cases "invoiced_keys L ''vehicle'' ref") auto
  let ?m = "foldl max k ks"
  have m: "?m \<in> set (invoiced_keys L ''vehicle'' ref)" "index_key p j \<le> ?m"
    using foldl_max [of k ks] assms(2) K by auto
  then obtain i where i: "?m = index_key p i" "key_years p i" using assms(1) unfolding keys_fit_def by blast
  have "j \<le> i" using index_key_le [OF assms(3) i(2)] m(2) i(1) by simp
  then have "grid p (j + 1) \<le> grid p (i + 1)" by (simp add: cal.g_le_iff)
  moreover have "\<not> before (utc_midnight (e + 1)) (utc_midnight (grid p (i + 1)))"
    using assms(4) periodKeyEnd_index [OF i(2)] by (simp add: endDateRetractsBelowInvoiced_def K i(1))
  ultimately show ?thesis by simp
qed

lemma end_moves:
  assumes "in_calendar a" "fp_Period a = p" "keys_fit L p ref" "index_key p j \<in> set (invoiced_keys L ''vehicle'' ref)" "key_years p j"
    and "billed_under a (index_key p j) now \<noteq> []"
    and "newEnd = map_option utc_midnight e" "\<not> endDateRetractsBelowInvoiced L ''vehicle'' ref newEnd"
    and "guardInvoicedPartialExtension L ''vehicle'' ref (fp_EndDate a) newEnd p"
    and "fp_EndDate b = newEnd"
  shows "end_within b (grid p (j + 1)) = end_within a (grid p (j + 1))"
proof -
  let ?q = "grid p (j + 1)"
  have new: "?q \<le> x + 1" if "e = Some x" for x
    using retract_bound [OF assms(3-5)] assms(7,8) that by simp
  then have b: "end_within b ?q = ?q"
    using assms(7,10) by (cases e) (simp_all add: end_within_def min_absorb2)
  have "?q \<le> local_day oe + 1" if oe: "fp_EndDate a = Some oe" for oe
  proof (rule ccontr)
    assume "\<not> ?q \<le> local_day oe + 1"
    then have lt: "local_day oe + 1 < ?q" by simp
    obtain n where n: "oe = utc_midnight n" using assms(1) oe by (auto simp: in_calendar_def dated_def is_date_def)
    have d: "dated a" using assms(1) by (simp add: in_calendar_def)
    have "max (start_day a) (grid p j) < min (until_day a (local_day now)) ?q"
      using assms(6) billed_under_slice [OF d, of j now] assms(2) by (auto simp: Let_def split: if_splits)
    then have "grid p j \<le> n" using oe n by (simp add: until_day_def)
    have in_j: "grid p j \<le> n" "n < grid p (j + 1)" using \<open>grid p j \<le> n\<close> lt n by simp_all
    have "\<not> (case newEnd of None \<Rightarrow> False | Some ne \<Rightarrow> \<not> after ne oe)"
      using new lt assms(7) n by (cases e) auto
    moreover have "\<not> sameTaxDay oe (last_day_of_period p oe)"
      using lt by (simp add: n date_in_period(1) [OF in_j])
    ultimately have "\<not> periodInvoicedTx L ''vehicle'' ref (if p = BillingYearly then format_year oe else format_month oe)"
      using assms(9) oe by (simp add: guardInvoicedPartialExtension_def)
    then show False using periodInvoiced_key [OF assms(4)] unfolding n date_in_period(2) [OF in_j] by blast
  qed
  then have "end_within a ?q = ?q" by (cases "fp_EndDate a") (simp_all add: end_within_def min_absorb2)
  with b show ?thesis by simp
qed

end
