(* ===== verification/Yard_Steps.thy ===== *)
theory Yard_Steps
  imports Yard_Rent Yard_Returns
begin

text \<open>
  Everything the handlers of vehicles, places and pauses do to the hall, one step per handler, and
  what a step leaves of the rent of a billed vehicle.
\<close>

subsection \<open>Steps\<close>

inductive yard_step :: "(float64 \<Rightarrow> int) \<Rightarrow> yard \<Rightarrow> yard \<Rightarrow> bool" for num where
  create: "CreateVehicle env q Y = Inr (vid, Y') \<Longrightarrow> yard_step num Y Y'"
| edit: "UpdateVehicle env vid q Y = Inr Y' \<Longrightarrow> pe_numeric env = num \<Longrightarrow> yard_step num Y Y'"
| plan: "UpdateVehiclePlanner vid charging symbol Y = Inr Y' \<Longrightarrow> yard_step num Y Y'"
| delete: "DeleteVehicle vid Y = Inr Y' \<Longrightarrow> yard_step num Y Y'"
| change_status: "ChangeVehicleStatus env vid sq Y = Inr Y' \<Longrightarrow> local_day (pe_now env) \<le> horizon \<Longrightarrow> yard_step num Y Y'"
| reactivate: "ReactivateVehicle vid Y = Inr Y' \<Longrightarrow> yard_step num Y Y'"
| copy: "DuplicateVehicle env vid start tariff reserve Y = Inr (new, Y') \<Longrightarrow> yard_step num Y Y'"
| place: "AssignSpotVehicle spot vid Y = Inr Y' \<Longrightarrow> yard_step num Y Y'"
| clear: "yard_step num Y (UnassignSpotVehicle spot Y)"
| rest: "pause_step env Y Y' \<Longrightarrow> local_day (pe_now env) \<le> horizon \<Longrightarrow> yard_step num Y Y'"
| collect: "CollectFromPause env pid Y = Inr Y' \<Longrightarrow> local_day (pe_now env) \<le> horizon \<Longrightarrow> yard_step num Y Y'"

subsection \<open>The books behind the rent\<close>

definition same_books :: "yard \<Rightarrow> yard \<Rightarrow> bool" where
  "same_books Y Y' \<longleftrightarrow> lg_sources (yd_ledger Y') = lg_sources (yd_ledger Y)
     \<and> lg_invoices (yd_ledger Y') = lg_invoices (yd_ledger Y) \<and> lg_cats (yd_ledger Y') = lg_cats (yd_ledger Y)"

lemma same_books_refl [simp]: "same_books Y Y"
  by (simp add: same_books_def)

lemma same_books_trans: "same_books X Y \<Longrightarrow> same_books Y Z \<Longrightarrow> same_books X Z"
  by (simp add: same_books_def)

lemma same_books_keys: "same_books Y Y' \<Longrightarrow> invoiced_keys (yd_ledger Y') kind ref = invoiced_keys (yd_ledger Y) kind ref"
  by (simp add: same_books_def invoiced_keys_def)

lemma same_books_ops [simp]:
  "same_books Y (with_vehicles vs Y)" "same_books Y (change_vehicle vid f Y)" "same_books Y (change_card vid g Y)"
  "same_books Y (recordStatusTx vid a b c Y)" "same_books Y (auto_archive env vid Y)" "same_books Y (refresh_pauses vid Y)"
  "same_books Y (free_spot vid Y)" "same_books Y (relink_spot vid sp Y)" "same_books Y (drop_vehicles P Y)"
  by (simp_all add: same_books_def with_vehicles_def with_ledger_def change_vehicle_def change_card_def recordStatusTx_def
      auto_archive_def autoArchiveIfClosed_def archive_if_def refresh_pauses_def Let_def free_spot_def relink_spot_def
      drop_vehicles_def split: option.split)

lemma books_same: "pause_books vid Y Y' \<Longrightarrow> same_books Y Y'"
  by (auto simp: pause_books_def same_books_def)

subsection \<open>A billed rent\<close>

text \<open>The entry \<open>es\<close> under a billed key of a rental, with what makes it stay: dates of the calendar, keys
  of its own sub-periods, and a price in whole cents.\<close>

definition rent_stands :: "(float64 \<Rightarrow> int) \<Rightarrow> time \<Rightarrow> int \<Rightarrow> string \<Rightarrow> open_period list \<Rightarrow> yard \<Rightarrow> bool" where
  "rent_stands num now vid key es Y \<longleftrightarrow>
     key \<in> set (invoiced_keys (yd_ledger Y) ''vehicle'' vid)
     \<and> (\<exists>v. find_vehicle Y vid = Some v \<and> in_calendar (rent Y v) \<and> keys_fit (yd_ledger Y) (vh_BillingPeriod v) vid
          \<and> euros (num (fp_Amount (rent Y v))) = fp_Amount (rent Y v) \<and> billed_under (rent Y v) key now = es)"

lemma stands_same:
  assumes "rent_stands num now vid key es Y" "same_books Y Y'"
    and "\<And>v. find_vehicle Y vid = Some v \<Longrightarrow> \<exists>v'. find_vehicle Y' vid = Some v' \<and> rent Y' v' = rent Y v"
  shows "rent_stands num now vid key es Y'"
proof -
  obtain v where v: "find_vehicle Y vid = Some v" "in_calendar (rent Y v)" "keys_fit (yd_ledger Y) (vh_BillingPeriod v) vid"
    "euros (num (fp_Amount (rent Y v))) = fp_Amount (rent Y v)" "billed_under (rent Y v) key now = es"
    using assms(1) by (auto simp: rent_stands_def)
  obtain v' where v': "find_vehicle Y' vid = Some v'" "rent Y' v' = rent Y v" using assms(3) [OF v(1)] by blast
  have "vh_BillingPeriod v' = vh_BillingPeriod v" using arg_cong [OF v'(2), of fp_Period] by simp
  then have "keys_fit (yd_ledger Y') (vh_BillingPeriod v') vid"
    using v(3) by (simp add: keys_fit_def same_books_keys [OF assms(2)])
  with v v' assms(1) show ?thesis by (simp add: rent_stands_def same_books_keys [OF assms(2)] del: rent_simps)
qed

lemma sliceCents_end: "sliceCents (a\<lparr>fp_EndDate := e\<rparr>) x = sliceCents a x"
proof -
  have "pausedAt (a\<lparr>fp_EndDate := e\<rparr>) t = pausedAt a t" "rateAt (a\<lparr>fp_EndDate := e\<rparr>) t = rateAt a t" for a t
    by (simp_all add: pausedAt_def rateAt_def)
  then have "cut_total (a\<lparr>fp_EndDate := e\<rparr>) den cs = cut_total a den cs" for den cs
    by (induction a den cs rule: cut_total.induct) simp_all
  moreover have "slice_cuts (a\<lparr>fp_EndDate := e\<rparr>) s t = slice_cuts a s t" for s t
  proof -
    have "fp_RateChanges (a\<lparr>fp_EndDate := e\<rparr>) = fp_RateChanges a" "fp_Pauses (a\<lparr>fp_EndDate := e\<rparr>) = fp_Pauses a" by simp_all
    then show ?thesis by (simp only: slice_cuts_def)
  qed
  ultimately show ?thesis by (cases x) (simp add: sliceCents_def)
qed

lemma stands_moved:
  assumes "rent_stands num now vid key es Y" "es \<noteq> []" "same_books Y Y'" "local_day now < horizon"
    and "find_vehicle Y vid = Some v" "find_vehicle Y' vid = Some v'"
    and "rent Y' v' = (rent Y v)\<lparr>fp_EndDate := newEnd\<rparr>" "newEnd = map_option utc_midnight e"
    and "\<not> endDateRetractsBelowInvoiced (yd_ledger Y) ''vehicle'' vid newEnd"
    and "guardInvoicedPartialExtension (yd_ledger Y) ''vehicle'' vid (vh_EndDate v) newEnd (vh_BillingPeriod v)"
  shows "rent_stands num now vid key es Y'"
proof -
  let ?p = "vh_BillingPeriod v"
  from assms(1,5) have v: "in_calendar (rent Y v)" "keys_fit (yd_ledger Y) ?p vid"
    "euros (num (fp_Amount (rent Y v))) = fp_Amount (rent Y v)" "billed_under (rent Y v) key now = es"
    and key: "key \<in> set (invoiced_keys (yd_ledger Y) ''vehicle'' vid)"
    by (auto simp: rent_stands_def)
  obtain j where j: "key = index_key ?p j" "key_years ?p j" using v(2) key unfolding keys_fit_def by blast
  have p: "vh_BillingPeriod v' = ?p" using arg_cong [OF assms(7), of fp_Period] by simp
  have c: "in_calendar (rent Y' v')" using v(1) by (cases e) (simp_all add: assms(7,8) in_calendar_def dated_def start_day_def)
  have "end_within (rent Y' v') (grid ?p (j + 1)) = end_within (rent Y v) (grid ?p (j + 1))"
  proof (rule end_moves [OF v(1) _ v(2) _ j(2), where now = now])
    show "guardInvoicedPartialExtension (yd_ledger Y) ''vehicle'' vid (fp_EndDate (rent Y v)) newEnd ?p"
      using assms(10) by simp
  qed (use key j v(4) assms(2,7,8,9) in simp_all)
  then have "billed_under (rent Y' v') (index_key (fp_Period (rent Y v)) j) now = billed_under (rent Y v) (index_key (fp_Period (rent Y v)) j) now"
    using v(1) c by (intro billed_under_same) (simp_all add: in_calendar_def assms(7) start_day_def sliceCents_end)
  then have "billed_under (rent Y' v') key now = es" using v(4) j by simp
  moreover have "keys_fit (yd_ledger Y') (vh_BillingPeriod v') vid" using v(2) by (simp add: p keys_fit_def same_books_keys [OF assms(3)])
  moreover have "fp_Amount (rent Y' v') = fp_Amount (rent Y v)" by (simp add: assms(7))
  ultimately show ?thesis using v(3) c key assms(6) by (simp add: rent_stands_def same_books_keys [OF assms(3)] del: rent_simps)
qed


subsection \<open>Edits\<close>

lemma find_auto_archive:
  "\<exists>b. find_vehicle (auto_archive env vid Y) w = map_option (\<lambda>v. v\<lparr>vh_Archived := b\<rparr>) (find_vehicle Y w)"
proof -
  let ?P = "\<lambda>v. vh_ID v = vid \<and> \<not> vh_Archived v \<and> vehicleArchivePredicate (yd_ledger Y) (businessDay (pe_now env)) v = Some True"
  let ?f = "\<lambda>v. if ?P v then v\<lparr>vh_Archived := True\<rparr> else v"
  have "find_vehicle (auto_archive env vid Y) w = map_option ?f (find_vehicle Y w)"
    unfolding find_vehicle_def auto_archive_def autoArchiveIfClosed_def archive_if_def
    by (simp add: find_map_ids)
  moreover have "\<exists>b. ?f v = v\<lparr>vh_Archived := b\<rparr>" for v
  proof (cases "?P v")
    case False
    then have "?f v = v\<lparr>vh_Archived := vh_Archived v\<rparr>" by simp
    then show ?thesis by blast
  qed auto
  ultimately show ?thesis by (cases "find_vehicle Y w") auto
qed

lemma rent_archived [simp]: "rent Y (v\<lparr>vh_Archived := b\<rparr>) = rent Y v"
  by (simp add: rent_def vehicle_AsPeriod_def EffectiveRateFor_def)

lemma rent_cats: "same_books Y Y' \<Longrightarrow> rent Y' v = rent Y v"
  by (simp add: rent_def same_books_def)

lemma stands_archive: "rent_stands num now vid key es Y \<Longrightarrow> rent_stands num now vid key es (auto_archive env w Y)"
proof (rule stands_same)
  fix v assume "find_vehicle Y vid = Some v"
  then obtain b where "find_vehicle (auto_archive env w Y) vid = Some (v\<lparr>vh_Archived := b\<rparr>)"
    using find_auto_archive [of env w Y vid] by auto
  then show "\<exists>v'. find_vehicle (auto_archive env w Y) vid = Some v' \<and> rent (auto_archive env w Y) v' = rent Y v"
    using rent_cats [OF same_books_ops(5)] by auto
qed simp_all

lemma stands_history [simp]: "rent_stands num now vid key es (recordStatusTx w a b c Y) = rent_stands num now vid key es Y"
  by (simp add: recordStatusTx_def rent_stands_def find_vehicle_def rent_def)

lemma stands_card [simp]: "rent_stands num now vid key es (change_card w g Y) = rent_stands num now vid key es Y"
  by (simp add: change_card_def rent_stands_def find_vehicle_def rent_def)

lemma stands_free [simp]: "rent_stands num now vid key es (free_spot w Y) = rent_stands num now vid key es Y"
  by (simp add: free_spot_def)

lemma stands_relink [simp]: "rent_stands num now vid key es (relink_spot w sp Y) = rent_stands num now vid key es Y"
  by (simp add: relink_spot_def split: option.split)

lemma stands_change_other:
  assumes "rent_stands num now vid key es Y" "w \<noteq> vid" "\<And>v. vh_ID (f v) = vh_ID v"
  shows "rent_stands num now vid key es (change_vehicle w f Y)"
  using assms(1)
proof (rule stands_same)
  fix v assume v: "find_vehicle Y vid = Some v"
  then have "find_vehicle (change_vehicle w f Y) vid = Some v"
    using assms(2) find_vehicle_id [OF v] by (simp add: find_change_vehicle assms(3))
  then show "\<exists>v'. find_vehicle (change_vehicle w f Y) vid = Some v' \<and> rent (change_vehicle w f Y) v' = rent Y v"
    using rent_cats [OF same_books_ops(2)] by auto
qed simp

lemma stands_change_same:
  assumes "rent_stands num now vid key es Y" "\<And>v. vh_ID (f v) = vh_ID v" "\<And>v. rent Y (f v) = rent Y v"
  shows "rent_stands num now vid key es (change_vehicle w f Y)"
  using assms(1)
proof (rule stands_same)
  fix v assume v: "find_vehicle Y vid = Some v"
  then show "\<exists>v'. find_vehicle (change_vehicle w f Y) vid = Some v' \<and> rent (change_vehicle w f Y) v' = rent Y v"
    using rent_cats [OF same_books_ops(2)] assms(3) by (auto simp: find_change_vehicle assms(2))
qed simp

text \<open>A billed rent is locked against changes of price, period and start.\<close>

lemma stands_locked: "rent_stands num now vid key es Y \<Longrightarrow> refFinanciallyLocked (yd_ledger Y) ''vehicle'' vid"
  by (auto simp: rent_stands_def invoiced_keys_def refFinanciallyLocked_def refInvoiced_def active_source_def)

lemma stored_rate:
  "storedEffectiveRate Y (vh_CategoryID v) (vh_BillingPeriod v) (vh_Rate v) (vh_CostOverride v) = Some r
    \<Longrightarrow> fp_Amount (rent Y v) = r"
  by (auto simp: storedEffectiveRate_def categoryDefaultRate_def EffectiveRateFor_def split: if_splits option.splits)

lemma EffectiveRate_cong:
  "vh_Rate u = vh_Rate v \<Longrightarrow> vh_CostOverride u = vh_CostOverride v \<Longrightarrow> vh_BillingPeriod u = vh_BillingPeriod v
    \<Longrightarrow> EffectiveRateFor u c = EffectiveRateFor v c"
  by (simp add: EffectiveRateFor_def)

lemma edited_rate:
  assumes "storedEffectiveRate Y cat p rate (markZeroRate rate ov) = Some r" "euros (pe_numeric env r) = r" "pe_numeric env 0 = 0"
  shows "EffectiveRateFor (v\<lparr>vh_Rate := stored_money env rate, vh_CostOverride := map_option (stored_money env) (markZeroRate rate ov)\<rparr>) c = r"
proof (cases "rate = 0")
  case True
  then obtain x where x: "markZeroRate rate ov = Some x" by (cases ov) (simp_all add: markZeroRate_def)
  then have "x = r" using assms(1) True by (simp add: storedEffectiveRate_def)
  then show ?thesis using assms(2,3) x True by (simp add: EffectiveRateFor_def stored_money_def euros_0)
next
  case False
  then have "r = rate" using assms(1) by (simp add: storedEffectiveRate_def)
  then show ?thesis using False assms(2) by (simp add: EffectiveRateFor_def stored_money_def)
qed


definition edited_yard :: "pay_env \<Rightarrow> int \<Rightarrow> parsedVehicle \<Rightarrow> float64 \<Rightarrow> float64 option \<Rightarrow> yard \<Rightarrow> yard" where
  "edited_yard env w pv rate override Y =
     change_card w (edited_card pv) (change_vehicle w (edited_vehicle env Y pv rate override) Y)"

lemma update_parts:
  assumes "update_vehicle_tx env w pv Y = Inr Y'"
  obtains v oldRate newRate msg where "find_vehicle Y w = Some v"
    "guardInvoicedPartialExtension (yd_ledger Y) ''vehicle'' w (vh_EndDate v) (pv_endDate pv) (vh_BillingPeriod v)"
    "storedEffectiveRate Y (vh_CategoryID v) (vh_BillingPeriod v) (vh_Rate v) (vh_CostOverride v) = Some oldRate"
    "storedEffectiveRate Y (vq_CategoryID (pv_req pv)) (vq_BillingPeriod (pv_req pv)) (effectiveRate (pv_req pv) oldRate)
        (markZeroRate (effectiveRate (pv_req pv) oldRate) (persistedCostOverride (pv_req pv) (vh_CostOverride v))) = Some newRate"
    "refFinanciallyLocked (yd_ledger Y) ''vehicle'' w \<Longrightarrow> newRate = oldRate \<and> vq_BillingPeriod (pv_req pv) = vh_BillingPeriod v
        \<and> same_instant (pv_startDate pv) (vh_StartDate v) \<and> vq_PersonID (pv_req pv) = vh_PersonID v"
    "\<not> endDateRetractsBelowInvoiced (yd_ledger Y) ''vehicle'' w (pv_endDate pv)"
    "Y' = (let Z = edited_yard env w pv (effectiveRate (pv_req pv) oldRate)
             (markZeroRate (effectiveRate (pv_req pv) oldRate) (persistedCostOverride (pv_req pv) (vh_CostOverride v))) Y
           in if vh_Status v \<noteq> vq_Status (pv_req pv) then recordStatusTx w (vh_Status v) (vq_Status (pv_req pv)) msg Z else Z)"
proof -
  let ?q = "pv_req pv" and ?L = "yd_ledger Y"
  obtain v where v: "find_vehicle Y w = Some v"
    using assms by (cases "find_vehicle Y w") (simp_all add: update_vehicle_tx_def Let_def)
  obtain oldRate where o: "storedEffectiveRate Y (vh_CategoryID v) (vh_BillingPeriod v) (vh_Rate v) (vh_CostOverride v) = Some oldRate"
    using assms v by (cases "storedEffectiveRate Y (vh_CategoryID v) (vh_BillingPeriod v) (vh_Rate v) (vh_CostOverride v)")
      (simp_all add: update_vehicle_tx_def Let_def split: if_splits)
  let ?rate = "effectiveRate ?q oldRate" and ?ov = "markZeroRate (effectiveRate ?q oldRate) (persistedCostOverride ?q (vh_CostOverride v))"
  obtain newRate where n: "storedEffectiveRate Y (vq_CategoryID ?q) (vq_BillingPeriod ?q) ?rate ?ov = Some newRate"
    using assms v o by (cases "storedEffectiveRate Y (vq_CategoryID ?q) (vq_BillingPeriod ?q) ?rate ?ov")
      (simp_all add: update_vehicle_tx_def Let_def split: if_splits)
  note assms [unfolded update_vehicle_tx_def Let_def v option.case o n, folded edited_yard_def]
  then show ?thesis
    by (intro that [OF v _ o n, of "utf8_text [195, 188] @ ''ber Bearbeitung ge'' @ utf8_text [195, 164] @ ''ndert''"])
      (simp_all only: Let_def split: if_splits, auto)
qed

lemma stands_edit:
  assumes "rent_stands num now vid key es Y" "es \<noteq> []" "local_day now < horizon" "pe_numeric env = num" "num 0 = 0"
    and "update_vehicle_tx env w pv Y = Inr Y'"
    and "case pv_endDate pv of None \<Rightarrow> True | Some e \<Rightarrow> is_date e" "is_date (pv_startDate pv)"
  shows "rent_stands num now vid key es Y'"
  using assms(6)
proof (rule update_parts)
  fix v :: vehicle and oldRate newRate msg
  let ?L = "yd_ledger Y" and ?q = "pv_req pv"
  let ?rate = "effectiveRate ?q oldRate" and ?ov = "persistedCostOverride ?q (vh_CostOverride v)"
  let ?f = "edited_vehicle env Y pv ?rate (markZeroRate ?rate ?ov)"
  assume f: "find_vehicle Y w = Some v"
    and g: "guardInvoicedPartialExtension ?L ''vehicle'' w (vh_EndDate v) (pv_endDate pv) (vh_BillingPeriod v)"
    and r: "storedEffectiveRate Y (vh_CategoryID v) (vh_BillingPeriod v) (vh_Rate v) (vh_CostOverride v) = Some oldRate"
    and n: "storedEffectiveRate Y (vq_CategoryID ?q) (vq_BillingPeriod ?q) ?rate (markZeroRate ?rate ?ov) = Some newRate"
    and l: "refFinanciallyLocked ?L ''vehicle'' w \<Longrightarrow> newRate = oldRate \<and> vq_BillingPeriod ?q = vh_BillingPeriod v
        \<and> same_instant (pv_startDate pv) (vh_StartDate v) \<and> vq_PersonID ?q = vh_PersonID v"
    and e: "\<not> endDateRetractsBelowInvoiced ?L ''vehicle'' w (pv_endDate pv)"
    and Y': "Y' = (let Z = edited_yard env w pv ?rate (markZeroRate ?rate ?ov) Y
           in if vh_Status v \<noteq> vq_Status ?q then recordStatusTx w (vh_Status v) (vq_Status ?q) msg Z else Z)"
  have id: "vh_ID (?f u) = vh_ID u" for u by (simp add: edited_vehicle_def Let_def)
  have "rent_stands num now vid key es (change_vehicle w ?f Y)"
  proof (cases "w = vid")
    case False
    then show ?thesis using stands_change_other [OF assms(1) _ id] by blast
  next
    case True
    have am: "fp_Amount (rent Y v) = oldRate" by (rule stored_rate [OF r])
    have w: "euros (num oldRate) = oldRate" "in_calendar (rent Y v)"
      using assms(1) f am True by (auto simp: rent_stands_def)
    have same: "newRate = oldRate" "vq_BillingPeriod ?q = vh_BillingPeriod v" "same_instant (pv_startDate pv) (vh_StartDate v)"
      using l stands_locked [OF assms(1)] True by auto
    obtain m k where mk: "pv_startDate pv = utc_midnight m" "vh_StartDate v = utc_midnight k"
      using assms(8) w(2) by (auto simp: in_calendar_def dated_def is_date_def)
    have st: "pv_startDate pv = vh_StartDate v"
      using same(3) by (simp add: mk same_instant_def)
    obtain x where x: "pv_endDate pv = map_option utc_midnight x"
    proof (cases "pv_endDate pv")
      case None
      then show ?thesis using that [of None] by simp
    next
      case (Some d)
      then obtain k where "d = utc_midnight k" using assms(7) by (auto simp: is_date_def)
      then show ?thesis using that [of "Some k"] Some by simp
    qed
    have "EffectiveRateFor (?f v) c = oldRate" for c
    proof -
      have "EffectiveRateFor (?f v) c = EffectiveRateFor (v\<lparr>vh_Rate := stored_money env ?rate,
          vh_CostOverride := map_option (stored_money env) (markZeroRate ?rate ?ov)\<rparr>) c"
        by (rule EffectiveRate_cong) (simp_all add: edited_vehicle_def Let_def same(2))
      also have "\<dots> = newRate" using n same(1) w(1) assms(4,5) by (intro edited_rate) simp_all
      finally show ?thesis using same(1) by simp
    qed
    then have rent: "rent (change_vehicle w ?f Y) (?f v) = (rent Y v)\<lparr>fp_EndDate := pv_endDate pv\<rparr>"
      using am by (simp add: rent_def vehicle_AsPeriod_def) (simp add: edited_vehicle_def Let_def same(2) st)
    have "find_vehicle (change_vehicle w ?f Y) vid = Some (?f v)"
      using f True find_vehicle_id [OF f] by (simp add: find_change_vehicle id)
    from stands_moved [OF assms(1,2) _ assms(3) f [unfolded True] this rent x] g e True show ?thesis by simp
  qed
  then show ?thesis by (simp add: Y' Let_def edited_yard_def)
qed

end
