(* ===== verification/Yard_Hall.thy ===== *)
theory Yard_Hall
  imports Yard_Steps Yard_Pause_Properties
begin

text \<open>
  Every step leaves a billed rent as it was: the handlers one by one, then their runs.
\<close>

subsection \<open>Status\<close>

lemma businessDay_is_date: "is_date (businessDay t)"
  by (simp add: businessDay_def DayAfter_eq)

lemma status_parts:
  assumes "changeVehicleStatusTx env w q Y = Inr Y'"
  obtains (closed) v e where "find_vehicle Y w = Some v" "\<not> vh_Archived v" "closing (sr_Status q)" "\<not> before e (vh_StartDate v)"
      "\<not> endDateRetractsBelowInvoiced (yd_ledger Y) ''vehicle'' w (Some e)"
      "\<exists>d. guardInvoicedPartialExtension (yd_ledger Y) ''vehicle'' w (vh_EndDate v) (Some d) (vh_BillingPeriod v)
        \<and> (e = d \<or> e = vh_StartDate v \<and> before d e \<and> (\<forall>oe. vh_EndDate v = Some oe \<longrightarrow> d = oe))"
      "is_date e \<or> vh_EndDate v = Some e \<or> e = vh_StartDate v"
      "Y' = recordStatusTx w (vh_Status v) (sr_Status q) (trim_space (sr_Note q)) (free_spot w (change_vehicle w (closed_at (sr_Status q) e) Y))"
  | (reopened) v where "find_vehicle Y w = Some v" "\<not> vh_Archived v" "\<not> closing (sr_Status q)"
      "guardInvoicedPartialExtension (yd_ledger Y) ''vehicle'' w (vh_EndDate v) None (vh_BillingPeriod v)"
      "Y' = recordStatusTx w (vh_Status v) (sr_Status q) (trim_space (sr_Note q))
        (change_vehicle w (\<lambda>v. v\<lparr>vh_Status := sr_Status q, vh_EndDate := None\<rparr>) Y)"
proof -
  obtain v where v: "find_vehicle Y w = Some v" "\<not> vh_Archived v"
    using assms by (auto simp: changeVehicleStatusTx_def split: option.splits if_splits)
  obtain p where p: "proposed_end env v q = Inr p"
    using assms v by (cases "proposed_end env v q") (simp_all add: changeVehicleStatusTx_def)
  note a = assms [unfolded changeVehicleStatusTx_def v(1) option.case p sum.case]
  have g: "guardInvoicedPartialExtension (yd_ledger Y) ''vehicle'' w (vh_EndDate v) p (vh_BillingPeriod v)"
    using a v(2) by (simp split: if_splits)
  show thesis
  proof (cases p)
    case None
    then have "\<not> closing (sr_Status q)" using p by (auto simp: proposed_end_def Let_def split: if_splits option.splits)
    with None v g a show thesis by (intro reopened) (simp_all add: eq_commute [of Y'])
  next
    case (Some d)
    then have c: "closing (sr_Status q)" using p by (auto simp: proposed_end_def Let_def split: if_splits)
    define e where "e = (if trim_space (sr_Date q) = [] \<and> before d (vh_StartDate v) \<and> sr_Status q = StatusCancelled
        then vh_StartDate v else d)"
    have cl: "map_sum id (recordStatusTx w (vh_Status v) (sr_Status q) (trim_space (sr_Note q)))
        (close_vehicle_tx w (sr_Status q) (vh_StartDate v) e Y) = Inr Y'"
      using a g v(2) by (simp add: Some e_def)
    have dd: "is_date d \<or> vh_EndDate v = Some d"
      using p Some c by (auto simp: proposed_end_def Let_def businessDay_is_date split: if_splits option.splits dest: parse_is_date)
    have kept: "d = oe" if "trim_space (sr_Date q) = []" "vh_EndDate v = Some oe" for oe
      using p Some c that by (simp add: proposed_end_def)
    from cl have "\<not> before e (vh_StartDate v)" "\<not> endDateRetractsBelowInvoiced (yd_ledger Y) ''vehicle'' w (Some e)"
      "Y' = recordStatusTx w (vh_Status v) (sr_Status q) (trim_space (sr_Note q)) (free_spot w (change_vehicle w (closed_at (sr_Status q) e) Y))"
      by (simp_all add: close_vehicle_tx_def split: if_splits)
    moreover have "e = d \<or> e = vh_StartDate v \<and> before d e \<and> (\<forall>oe. vh_EndDate v = Some oe \<longrightarrow> d = oe)"
      using kept by (simp add: e_def)
    ultimately show thesis using v c g Some dd by (intro closed [of v e]) (auto simp: e_def)
  qed
qed

lemma stands_status:
  assumes "rent_stands num now vid key es Y" "es \<noteq> []" "local_day now < horizon" "changeVehicleStatusTx env w q Y = Inr Y'"
  shows "rent_stands num now vid key es Y'"
proof (cases "w = vid")
  case False
  from assms(4) show ?thesis
  proof (cases rule: status_parts)
    case (closed v e)
    have "rent_stands num now vid key es (change_vehicle w (closed_at (sr_Status q) e) Y)"
      by (rule stands_change_other [OF assms(1) False]) (simp add: closed_at_def)
    then show ?thesis by (simp add: closed(8))
  next
    case (reopened v)
    have "rent_stands num now vid key es (change_vehicle w (\<lambda>v. v\<lparr>vh_Status := sr_Status q, vh_EndDate := None\<rparr>) Y)"
      by (rule stands_change_other [OF assms(1) False]) simp
    then show ?thesis by (simp add: reopened(5))
  qed
next
  case True
  have moved: "rent_stands num now vid key es (change_vehicle w f Y)"
    if f: "find_vehicle Y w = Some v" "\<And>u. vh_ID (f u) = vh_ID u" "rent Y (f v) = (rent Y v)\<lparr>fp_EndDate := newEnd\<rparr>"
      and g: "guardInvoicedPartialExtension (yd_ledger Y) ''vehicle'' w (vh_EndDate v) newEnd (vh_BillingPeriod v)"
      and r: "\<not> endDateRetractsBelowInvoiced (yd_ledger Y) ''vehicle'' w newEnd" and x: "newEnd = map_option utc_midnight x"
    for f v newEnd x
  proof -
    have "find_vehicle (change_vehicle w f Y) vid = Some (f v)"
      using f(1) True find_vehicle_id [OF f(1)] by (simp add: find_change_vehicle f(2))
    moreover have "rent (change_vehicle w f Y) (f v) = (rent Y v)\<lparr>fp_EndDate := newEnd\<rparr>"
      using rent_cats [OF same_books_ops(2)] f(3) by simp
    ultimately show ?thesis using stands_moved [OF assms(1,2) _ assms(3) f(1) [unfolded True] _ _ x] g r True by simp
  qed
  from assms(4) show ?thesis
  proof (cases rule: status_parts)
    case (closed v e)
    obtain d where d: "guardInvoicedPartialExtension (yd_ledger Y) ''vehicle'' w (vh_EndDate v) (Some d) (vh_BillingPeriod v)"
      "e = d \<or> e = vh_StartDate v \<and> before d e \<and> (\<forall>oe. vh_EndDate v = Some oe \<longrightarrow> d = oe)" using closed(6) by blast
    have v: "in_calendar (rent Y v)" "billed_under (rent Y v) key now = es" "keys_fit (yd_ledger Y) (vh_BillingPeriod v) vid"
      "key \<in> set (invoiced_keys (yd_ledger Y) ''vehicle'' vid)"
      using assms(1) closed(1) True by (auto simp: rent_stands_def)
    obtain s where s: "vh_StartDate v = utc_midnight s" using v(1) by (auto simp: in_calendar_def dated_def is_date_def)
    have open': "vh_EndDate v = None" if "e = vh_StartDate v" "before d e" "\<forall>oe. vh_EndDate v = Some oe \<longrightarrow> d = oe"
    proof (cases "vh_EndDate v")
      case (Some oe)
      then obtain n where n: "oe = utc_midnight n" using v(1) by (auto simp: in_calendar_def dated_def is_date_def)
      have "n < s" using that Some n s by simp
      obtain j where j: "key = index_key (fp_Period (rent Y v)) j" using v(3,4) unfolding keys_fit_def by auto
      have "max (start_day (rent Y v)) (grid (fp_Period (rent Y v)) j) < min (until_day (rent Y v) (local_day now)) (grid (fp_Period (rent Y v)) (j + 1))"
        using v(1,2) assms(2) billed_under_slice [of "rent Y v" j now] j by (auto simp: in_calendar_def Let_def split: if_splits)
      then have "s < n + 1" using Some n s by (simp add: start_day_def until_day_def)
      with \<open>n < s\<close> show ?thesis by simp
    qed
    have "guardInvoicedPartialExtension (yd_ledger Y) ''vehicle'' w (vh_EndDate v) (Some e) (vh_BillingPeriod v)"
    proof (cases "e = d")
      case False
      then have "vh_EndDate v = None" using d(2) open' by blast
      then show ?thesis by (simp add: guardInvoicedPartialExtension_def)
    qed (use d(1) in simp)
    moreover obtain x where x: "Some e = map_option utc_midnight (Some x)"
      using closed(7) v(1) s by (auto simp: in_calendar_def dated_def is_date_def)
    moreover have "rent Y (closed_at (sr_Status q) e v) = (rent Y v)\<lparr>fp_EndDate := Some e\<rparr>"
      by (simp add: rent_def vehicle_AsPeriod_def closed_at_def EffectiveRateFor_def)
    ultimately have "rent_stands num now vid key es (change_vehicle w (closed_at (sr_Status q) e) Y)"
      using closed(1,5) by (intro moved [where newEnd = "Some e" and x = "Some x"]) (simp_all add: closed_at_def)
    then show ?thesis by (simp add: closed(8))
  next
    case (reopened v)
    have "rent_stands num now vid key es (change_vehicle w (\<lambda>v. v\<lparr>vh_Status := sr_Status q, vh_EndDate := None\<rparr>) Y)"
      using reopened(1,4)
      by (intro moved [where newEnd = None and x = None]) (simp_all add: rent_def vehicle_AsPeriod_def EffectiveRateFor_def
          endDateRetractsBelowInvoiced_def)
    then show ?thesis by (simp add: reopened(5))
  qed
qed


subsection \<open>The other handlers\<close>

lemma request_dates:
  assumes "validateVehicleRequest icons q = Inr pv"
  shows "is_date (pv_startDate pv) \<and> local_day (pv_startDate pv) \<le> horizon
    \<and> (case pv_endDate pv of None \<Rightarrow> True | Some e \<Rightarrow> is_date e \<and> \<not> before e (pv_startDate pv))"
  using assms
  by (auto simp: validateVehicleRequest_def Let_def parseOptDate_def dest: parse_date_horizon
      split: option.splits sum.splits if_splits)

lemma insert_parts:
  assumes "insert_vehicle v c Y = Inr (new, Y')"
  shows "new = yd_next_vehicle Y" "yd_next_vehicle Y' = yd_next_vehicle Y + 1"
    "lg_vehicles (yd_ledger Y') = lg_vehicles (yd_ledger Y) @ [v\<lparr>vh_ID := new\<rparr>]" "same_books Y Y'"
    "yd_cards Y' = (yd_cards Y)(new := c)" "yd_history Y' = yd_history Y" "yd_pauses Y' = yd_pauses Y"
    "yd_next_pause Y' = yd_next_pause Y" "lg_recurring (yd_ledger Y') = lg_recurring (yd_ledger Y)"
  using assms
  by (auto simp: insert_vehicle_def Let_def with_vehicles_def with_ledger_def same_books_def split: if_splits)

lemma find_snoc: "find P xs = Some x \<Longrightarrow> find P (xs @ ys) = Some x"
  by (induction xs) (auto split: if_splits)

lemma stands_insert:
  assumes "rent_stands num now vid key es Y" "insert_vehicle v c Y = Inr (new, Y')"
  shows "rent_stands num now vid key es Y'"
  using assms(1) insert_parts(4) [OF assms(2)]
proof (rule stands_same)
  fix u assume "find_vehicle Y vid = Some u"
  then have "find_vehicle Y' vid = Some u" by (simp add: find_vehicle_def insert_parts(3) [OF assms(2)] find_snoc)
  then show "\<exists>v'. find_vehicle Y' vid = Some v' \<and> rent Y' v' = rent Y u"
    using rent_cats [OF insert_parts(4) [OF assms(2)]] by auto
qed

lemma find_filter: "find (\<lambda>v. vh_ID v = w) (filter (\<lambda>v. \<not> P (vh_ID v)) vs)
    = (if P w then None else find (\<lambda>v. vh_ID v = w) vs)"
  by (induction vs) auto

lemma stands_delete:
  assumes "rent_stands num now vid key es Y" "DeleteVehicle w Y = Inr Y'"
  shows "rent_stands num now vid key es Y'"
proof -
  from assms(2) have Y': "Y' = drop_vehicles (\<lambda>x. x = w) Y" and "\<not> refFinanciallyLocked (yd_ledger Y) ''vehicle'' w"
    by (auto simp: DeleteVehicle_def split: option.splits if_splits)
  then have "w \<noteq> vid" using stands_locked [OF assms(1)] by auto
  show ?thesis
    using assms(1)
  proof (rule stands_same)
    show b: "same_books Y Y'" by (simp add: Y')
    fix u assume "find_vehicle Y vid = Some u"
    then have "find_vehicle Y' vid = Some u"
      using \<open>w \<noteq> vid\<close> by (simp add: Y' find_vehicle_def drop_vehicles_def Let_def with_ledger_def find_filter [of vid "\<lambda>x. x = w"])
    then show "\<exists>v'. find_vehicle Y' vid = Some v' \<and> rent Y' v' = rent Y u" using rent_cats [OF b] by auto
  qed
qed

lemma stands_table:
  assumes "table_step w Y Y'" "pause_books w Y Y'" "pauses_ok Y" "rent_stands num now vid key es Y" "local_day now < horizon"
  shows "rent_stands num now vid key es Y'"
proof -
  obtain v where v: "find_vehicle Y vid = Some v" "in_calendar (rent Y v)" "keys_fit (yd_ledger Y) (vh_BillingPeriod v) vid"
    "euros (num (fp_Amount (rent Y v))) = fp_Amount (rent Y v)" "billed_under (rent Y v) key now = es"
    and key: "key \<in> set (invoiced_keys (yd_ledger Y) ''vehicle'' vid)"
    using assms(4) by (auto simp: rent_stands_def)
  obtain v' where v': "find_vehicle Y' vid = Some v'" "vh_CategoryID v' = vh_CategoryID v"
    "billed_under (vehicle_AsPeriod v' (lg_cats (yd_ledger Y) (vh_CategoryID v))) key now = es"
    using step_keeps_vehicle [OF assms(1-3) v(1) v(2) [unfolded rent_def] assms(5) key] v(5) by (auto simp: rent_def)
  have b: "same_books Y Y'" by (rule books_same [OF assms(2)])
  have "vh_BillingPeriod v' = vh_BillingPeriod v \<and> vh_StartDate v' = vh_StartDate v \<and> vh_EndDate v' = vh_EndDate v
      \<and> vh_Rate v' = vh_Rate v \<and> vh_CostOverride v' = vh_CostOverride v"
    using assms(2) v(1) v'(1) by (auto simp: pause_books_def find_vehicle_def find_map_ids split: if_splits)
  then have "EffectiveRateFor v' c = EffectiveRateFor v c" "vh_BillingPeriod v' = vh_BillingPeriod v" "vh_StartDate v' = vh_StartDate v"
    "vh_EndDate v' = vh_EndDate v" for c by (simp_all add: EffectiveRateFor_def)
  moreover have "rent Y' v' = rent Y v'" "lg_cats (yd_ledger Y') = lg_cats (yd_ledger Y)"
    using rent_cats [OF b] b by (simp_all add: same_books_def)
  ultimately show ?thesis
    using v v' key by (auto simp: rent_stands_def same_books_keys [OF b] keys_fit_def in_calendar_def dated_def start_day_def
        rent_def [of Y v'])
qed


subsection \<open>The hall in order\<close>

text \<open>Beside the pauses: ids in use are below the next ones.\<close>

definition hall_ok :: "yard \<Rightarrow> bool" where
  "hall_ok Y \<longleftrightarrow> pauses_ok Y \<and> (\<forall>v \<in> set (lg_vehicles (yd_ledger Y)). vh_ID v < yd_next_vehicle Y)
     \<and> (\<forall>p \<in> set (yd_pauses Y). pa_Vehicle p < yd_next_vehicle Y)
     \<and> (\<forall>r \<in> set (lg_recurring (yd_ledger Y)). \<forall>w. rg_VehicleID r = Some w \<longrightarrow> w < yd_next_vehicle Y)"

definition card_of :: "vehicle \<Rightarrow> int \<times> pause list" where
  "card_of v = (vh_ID v, vh_Pauses v)"

text \<open>A step that leaves ids, pauses and recurring costs alone keeps the order.\<close>

lemma hall_ok_frame:
  assumes "hall_ok Y" "map card_of (lg_vehicles (yd_ledger Y')) = map card_of (lg_vehicles (yd_ledger Y))"
    and "lg_recurring (yd_ledger Y') = lg_recurring (yd_ledger Y)" "yd_pauses Y' = yd_pauses Y"
    and "yd_next_pause Y' = yd_next_pause Y" "yd_next_vehicle Y' = yd_next_vehicle Y"
  shows "hall_ok Y'"
proof -
  have b: "billed_pauses Y' w = billed_pauses Y w" for w by (rule billed_pauses_cong [OF assms(4)])
  have "set (map card_of (lg_vehicles (yd_ledger Y'))) = set (map card_of (lg_vehicles (yd_ledger Y)))" using assms(2) by simp
  then have v: "\<exists>u \<in> set (lg_vehicles (yd_ledger Y)). card_of v = card_of u" if "v \<in> set (lg_vehicles (yd_ledger Y'))" for v
    using that by auto
  have "vh_Pauses v = billed_pauses Y (vh_ID v) \<and> vh_ID v < yd_next_vehicle Y" if "v \<in> set (lg_vehicles (yd_ledger Y'))" for v
    using v [OF that] assms(1) by (auto simp: card_of_def hall_ok_def pauses_ok_def)
  then show ?thesis using assms(1,3-6) by (simp add: hall_ok_def pauses_ok_def b cong: option.case_cong)
qed

lemma hall_ok_history [simp]: "hall_ok (recordStatusTx w a b c Y) = hall_ok Y"
  by (rule iffI; erule hall_ok_frame) (simp_all add: recordStatusTx_def)

lemma hall_ok_card [simp]: "hall_ok (change_card w g Y) = hall_ok Y"
  by (rule iffI; erule hall_ok_frame) (simp_all add: change_card_def)

lemma hall_ok_change:
  assumes "hall_ok Y" "\<And>v. card_of (f v) = card_of v"
  shows "hall_ok (change_vehicle w f Y)"
  using assms(1)
proof (rule hall_ok_frame)
  show "map card_of (lg_vehicles (yd_ledger (change_vehicle w f Y))) = map card_of (lg_vehicles (yd_ledger Y))"
    using assms(2) by (simp add: change_vehicle_def with_vehicles_def)
qed (simp_all add: change_vehicle_def with_vehicles_def with_ledger_def)

lemma hall_ok_archive: "hall_ok Y \<Longrightarrow> hall_ok (auto_archive env w Y)"
proof (erule hall_ok_frame)
  show "map card_of (lg_vehicles (yd_ledger (auto_archive env w Y))) = map card_of (lg_vehicles (yd_ledger Y))"
    by (simp add: auto_archive_def autoArchiveIfClosed_def archive_if_def card_of_def)
qed (simp_all add: auto_archive_def autoArchiveIfClosed_def archive_if_def with_ledger_def)

lemma hall_ok_insert:
  assumes "hall_ok Y" "insert_vehicle v c Y = Inr (new, Y')" "vh_Pauses v = []"
  shows "hall_ok Y'"
proof -
  note i = insert_parts [OF assms(2)]
  have b: "billed_pauses Y' w = billed_pauses Y w" for w by (rule billed_pauses_cong [OF i(7)])
  have "filter (\<lambda>p. pa_Vehicle p = new) (yd_pauses Y) = []"
    using assms(1) by (auto simp: hall_ok_def i(1) filter_empty_conv)
  then have "billed_pauses Y new = []" by (simp add: billed_pauses_def listPauses_def)
  moreover have "vh_ID v' < yd_next_vehicle Y' \<and> vh_Pauses v' = billed_pauses Y (vh_ID v')"
    if v': "v' \<in> set (lg_vehicles (yd_ledger Y'))" for v'
  proof (cases "v' \<in> set (lg_vehicles (yd_ledger Y))")
    case True
    then have "vh_ID v' < yd_next_vehicle Y" "vh_Pauses v' = billed_pauses Y (vh_ID v')"
      using assms(1) by (simp_all add: hall_ok_def pauses_ok_def)
    then show ?thesis by (simp add: i(2))
  next
    case False
    then have "v' = v\<lparr>vh_ID := new\<rparr>" using v' by (simp add: i(3))
    then show ?thesis using calculation assms(3) by (simp add: i(1,2))
  qed
  moreover have "pa_Vehicle p < yd_next_vehicle Y'" if "p \<in> set (yd_pauses Y')" for p
    using that assms(1) by (fastforce simp: hall_ok_def i(2,7))
  moreover have "w < yd_next_vehicle Y'" if "r \<in> set (lg_recurring (yd_ledger Y'))" "rg_VehicleID r = Some w" for r w
    using that assms(1) by (fastforce simp: hall_ok_def i(2,9))
  ultimately show ?thesis using assms(1) by (simp add: hall_ok_def pauses_ok_def b i(7-9) cong: option.case_cong)
qed

lemma drop_parts [simp]:
  "lg_vehicles (yd_ledger (drop_vehicles P Y)) = filter (\<lambda>v. \<not> P (vh_ID v)) (lg_vehicles (yd_ledger Y))"
  "yd_pauses (drop_vehicles P Y) = filter (\<lambda>p. \<not> P (pa_Vehicle p)) (yd_pauses Y)"
  "yd_history (drop_vehicles P Y) = filter (\<lambda>h. \<not> P (se_Vehicle h)) (yd_history Y)"
  "yd_cards (drop_vehicles P Y) = yd_cards Y" "yd_next_pause (drop_vehicles P Y) = yd_next_pause Y"
  "yd_next_vehicle (drop_vehicles P Y) = yd_next_vehicle Y"
  "lg_recurring (yd_ledger (drop_vehicles P Y)) = map (\<lambda>r. case rg_VehicleID r of None \<Rightarrow> r
     | Some w \<Rightarrow> if P w then r\<lparr>rg_VehicleID := None, rg_Pauses := []\<rparr> else r) (lg_recurring (yd_ledger Y))"
  by (simp_all add: drop_vehicles_def Let_def with_ledger_def)

lemma hall_ok_drop:
  assumes "hall_ok Y" shows "hall_ok (drop_vehicles P Y)"
proof -
  let ?Y = "drop_vehicles P Y"
  have b: "billed_pauses ?Y w = billed_pauses Y w" if "\<not> P w" for w
    unfolding billed_pauses_def listPauses_def drop_parts filter_filter using that by (metis (mono_tags, lifting))
  have rec: "rg_Pauses r = (case rg_VehicleID r of None \<Rightarrow> [] | Some w \<Rightarrow> billed_pauses ?Y w) \<and> (\<forall>w. rg_VehicleID r = Some w \<longrightarrow> w < yd_next_vehicle Y)"
    if "r \<in> set (lg_recurring (yd_ledger ?Y))" for r
  proof -
    from that obtain q where q: "q \<in> set (lg_recurring (yd_ledger Y))" "r = (case rg_VehicleID q of None \<Rightarrow> q
        | Some w \<Rightarrow> if P w then q\<lparr>rg_VehicleID := None, rg_Pauses := []\<rparr> else q)" by auto
    have "rg_Pauses q = (case rg_VehicleID q of None \<Rightarrow> [] | Some w \<Rightarrow> billed_pauses Y w)" "\<forall>w. rg_VehicleID q = Some w \<longrightarrow> w < yd_next_vehicle Y"
      using assms q(1) by (auto simp: hall_ok_def pauses_ok_def)
    then show ?thesis using q(2) b by (cases "rg_VehicleID q") (auto split: if_splits)
  qed
  have "distinct (map pa_ID (filter (\<lambda>p. \<not> P (pa_Vehicle p)) (yd_pauses Y)))"
    using assms by (simp add: hall_ok_def pauses_ok_def distinct_map_filter)
  moreover have "\<forall>v \<in> set (lg_vehicles (yd_ledger ?Y)). vh_Pauses v = billed_pauses ?Y (vh_ID v) \<and> vh_ID v < yd_next_vehicle Y"
    using assms b by (auto simp: hall_ok_def pauses_ok_def)
  moreover have "\<forall>p \<in> set (yd_pauses ?Y). pause_dated p \<and> pa_ID p < yd_next_pause Y \<and> pa_Vehicle p < yd_next_vehicle Y"
    using assms by (auto simp: hall_ok_def pauses_ok_def)
  ultimately show ?thesis using rec unfolding hall_ok_def pauses_ok_def drop_parts(5,6) by (simp del: drop_parts(7))
qed


subsection \<open>Runs\<close>

lemma new_vehicle_simps [simp]:
  "vh_Pauses (new_vehicle env Y pe cat lb pl per ra ov st en status) = []"
  "vh_Status (new_vehicle env Y pe cat lb pl per ra ov st en status) = status"
  by (simp_all add: new_vehicle_def)

lemma vehicle_inserted:
  assumes "insertVehicleTx env pv Y = Inr (new, Y')"
  obtains v c Z msg where "vh_Pauses v = []" "insert_vehicle v c Y = Inr (new, Z)" "vc_Spot c = None"
    "Y' = recordStatusTx new [] (vh_Status v) msg Z"
proof -
  let ?q = "pv_req pv"
  from assms obtain fb Z where ins: "insert_vehicle (new_vehicle env Y (vq_PersonID ?q) (vq_CategoryID ?q) (vq_Label ?q) (vq_LicensePlate ?q)
      (vq_BillingPeriod ?q) (effectiveRate ?q fb) (markZeroRate (effectiveRate ?q fb) (persistedCostOverride ?q None)) (pv_startDate pv)
      (pv_endDate pv) (vq_Status ?q)) (request_card pv) Y = Inr (new, Z)"
    "Y' = recordStatusTx new [] (vq_Status ?q) ''angelegt'' Z"
    by (auto simp: insertVehicleTx_def Let_def split: option.splits sum.splits)
  have "vc_Spot (request_card pv) = None" by (simp add: request_card_def)
  then show thesis by (intro that [OF _ ins(1) _, of "''angelegt''"]) (simp_all add: ins(2))
qed

lemma vehicle_copied:
  assumes "DuplicateVehicle env vid start tariff reserve Y = Inr (new, Y')"
  obtains v c Z msg where "vh_Pauses v = []" "insert_vehicle v c Y = Inr (new, Z)" "vc_Spot c = None"
    "Y' = recordStatusTx new [] (vh_Status v) msg Z"
proof -
  let ?given = "trim_space start"
  obtain st where st: "(if ?given = [] then Inr (businessDay (pe_now env))
      else if \<not> validDateLength ?given then Inl ''start_date is too long''
      else case parse_date ?given of None \<Rightarrow> Inl ''start_date must be YYYY-MM-DD'' | Some t \<Rightarrow> Inr t) = Inr st"
    using assms unfolding DuplicateVehicle_def Let_def by (auto split: sum.splits)
  note d1 = assms [unfolded DuplicateVehicle_def Let_def st sum.case]
  obtain v where v: "find_vehicle Y vid = Some v" using d1 by (auto split: option.splits)
  note d2 = d1 [unfolded v option.case]
  obtain rate override where p: "duplicate_price Y v st tariff = Some (rate, override)" using d2 by (auto split: option.splits)
  note d3 = d2 [unfolded p option.case prod.case]
  then show thesis by (auto split: sum.splits intro!: that)
qed

lemma table_hall_ok:
  assumes "table_step w Y Y'" "pause_books w Y Y'" "hall_ok Y" "yd_next_vehicle Y' = yd_next_vehicle Y"
    and "\<And>p. p \<in> set (yd_pauses Y') \<Longrightarrow> pa_Vehicle p < yd_next_vehicle Y"
  shows "hall_ok Y'"
proof -
  have "pauses_ok Y'" using pauses_ok_step [OF assms(1,2)] assms(3) by (simp add: hall_ok_def)
  moreover have "vh_ID v < yd_next_vehicle Y" if "v \<in> set (lg_vehicles (yd_ledger Y'))" for v
    using that assms(2,3) by (auto simp: pause_books_def hall_ok_def)
  moreover have "w < yd_next_vehicle Y" if "r \<in> set (lg_recurring (yd_ledger Y'))" "rg_VehicleID r = Some w" for r w
    using that assms(2,3) by (auto simp: pause_books_def hall_ok_def split: if_splits)
  ultimately show ?thesis using assms(4,5) by (simp add: hall_ok_def)
qed

end
