(* ===== verification/Yard_Order.thy ===== *)
theory Yard_Order
  imports Yard_Hall
begin

text \<open>
  What the operations on pauses and places leave in order: the vehicles and their status, the status
  history, one vehicle on a place.
\<close>

subsection \<open>One vehicle on a place\<close>

definition one_each :: "yard \<Rightarrow> bool" where
  "one_each Y \<longleftrightarrow> (\<forall>v \<in> set (lg_vehicles (yd_ledger Y)). \<forall>w \<in> set (lg_vehicles (yd_ledger Y)).
     vc_Spot (yd_cards Y (vh_ID v)) \<noteq> None \<longrightarrow> vc_Spot (yd_cards Y (vh_ID v)) = vc_Spot (yd_cards Y (vh_ID w)) \<longrightarrow> vh_ID v = vh_ID w)"

definition parked_ids :: "yard \<Rightarrow> (int \<times> string) list" where
  "parked_ids Y = map (\<lambda>v. (vh_ID v, vh_Status v)) (lg_vehicles (yd_ledger Y))"

lemma one_each_ids:
  "one_each Y \<longleftrightarrow> (\<forall>x \<in> set (map fst (parked_ids Y)). \<forall>y \<in> set (map fst (parked_ids Y)).
     vc_Spot (yd_cards Y x) \<noteq> None \<longrightarrow> vc_Spot (yd_cards Y x) = vc_Spot (yd_cards Y y) \<longrightarrow> x = y)"
  by (simp add: one_each_def parked_ids_def)

lemma occupants_ids: "set (occupants Y s) = {x \<in> set (map fst (parked_ids Y)). vc_Spot (yd_cards Y x) = Some s}"
  by (auto simp: occupants_def parked_ids_def)

subsection \<open>Calm steps\<close>

text \<open>The vehicles keep their ids and their status, the history stays, no place is shared that was not,
  and only vehicles of the hall rest.\<close>

definition calm :: "yard \<Rightarrow> yard \<Rightarrow> bool" where
  "calm Y Y' \<longleftrightarrow> yd_next_vehicle Y' = yd_next_vehicle Y \<and> yd_history Y' = yd_history Y \<and> parked_ids Y' = parked_ids Y
     \<and> (one_each Y \<longrightarrow> one_each Y')
     \<and> pa_Vehicle ` set (yd_pauses Y') \<subseteq> pa_Vehicle ` set (yd_pauses Y) \<union> set (map fst (parked_ids Y))"

lemma calm_refl [simp, intro]: "calm Y Y"
  by (simp add: calm_def)

lemma calm_trans: "calm X Y \<Longrightarrow> calm Y Z \<Longrightarrow> calm X Z"
  unfolding calm_def by (elim conjE, intro conjI) (simp, simp, simp, blast, (simp only:, blast))

lemma calm_frame:
  assumes "yd_next_vehicle Y' = yd_next_vehicle Y" "yd_history Y' = yd_history Y" "parked_ids Y' = parked_ids Y"
    "yd_cards Y' = yd_cards Y" "pa_Vehicle ` set (yd_pauses Y') \<subseteq> pa_Vehicle ` set (yd_pauses Y) \<union> set (map fst (parked_ids Y))"
  shows "calm Y Y'"
  using assms by (simp add: calm_def one_each_ids)

lemma calm_vehicle: "(\<And>v. vh_ID (f v) = vh_ID v \<and> vh_Status (f v) = vh_Status v) \<Longrightarrow> calm Y (change_vehicle vid f Y)"
  by (rule calm_frame) (simp_all add: change_vehicle_def with_vehicles_def with_ledger_def parked_ids_def)

lemma calm_refresh: "calm Y (refresh_pauses vid Y)"
  by (rule calm_frame) (simp_all add: refresh_pauses_def Let_def with_ledger_def parked_ids_def)

lemma calm_archive: "calm Y (auto_archive env vid Y)"
  by (rule calm_frame) (simp_all add: auto_archive_def autoArchiveIfClosed_def archive_if_def with_ledger_def parked_ids_def)

lemma calm_card:
  assumes "\<And>c. vc_Spot (g c) = vc_Spot c \<or> vc_Spot (g c) = None"
  shows "calm Y (change_card vid g Y)"
proof -
  have s: "vc_Spot (yd_cards (change_card vid g Y) x) = vc_Spot (yd_cards Y x) \<or> vc_Spot (yd_cards (change_card vid g Y) x) = None" for x
    using assms by (auto simp: change_card_def)
  have p: "parked_ids (change_card vid g Y) = parked_ids Y" by (simp add: change_card_def parked_ids_def)
  have "one_each (change_card vid g Y)" if "one_each Y"
    using that s unfolding one_each_ids p by metis
  then show ?thesis using p by (auto simp: calm_def change_card_def)
qed

lemma calm_free: "calm Y (free_spot vid Y)"
  unfolding free_spot_def by (rule calm_card) simp

lemma calm_settle:
  assumes "\<And>x. x \<in> set (occupants Y s) \<Longrightarrow> x = vid"
  shows "calm Y (change_card vid (\<lambda>c. c\<lparr>vc_Spot := Some s\<rparr>) Y)"
proof -
  let ?Y = "change_card vid (\<lambda>c. c\<lparr>vc_Spot := Some s\<rparr>) Y"
  have p: "parked_ids ?Y = parked_ids Y" by (simp add: change_card_def parked_ids_def)
  have c: "vc_Spot (yd_cards ?Y x) = (if x = vid then Some s else vc_Spot (yd_cards Y x))" for x by (simp add: change_card_def)
  have "one_each ?Y" if "one_each Y"
    using that assms unfolding one_each_ids p c occupants_ids by (smt (verit) mem_Collect_eq)
  then show ?thesis using p by (auto simp: calm_def change_card_def)
qed

lemma calm_relink: "calm Y (relink_spot vid sp Y)"
  by (auto simp: relink_spot_def intro!: calm_settle split: option.split)

lemma calm_add: "find_vehicle Y (pa_Vehicle p) \<noteq> None \<Longrightarrow> calm Y (add_pause p Y)"
proof -
  assume "find_vehicle Y (pa_Vehicle p) \<noteq> None"
  then obtain v where "v \<in> set (lg_vehicles (yd_ledger Y))" "vh_ID v = pa_Vehicle p"
    by (auto simp: find_vehicle_def find_None_iff)
  then have "pa_Vehicle p \<in> set (map fst (parked_ids Y))" by (force simp: parked_ids_def)
  then show ?thesis
    unfolding add_pause_def by (intro calm_trans [OF calm_frame calm_refresh]) (auto simp: parked_ids_def)
qed

lemma calm_change: "(\<And>p. pa_Vehicle (f p) = pa_Vehicle p) \<Longrightarrow> calm Y (change_pause vid pid f Y)"
  unfolding change_pause_def by (intro calm_trans [OF calm_frame calm_refresh]) (auto simp: parked_ids_def)

lemma calm_remove: "calm Y (remove_pause vid pid Y)"
  unfolding remove_pause_def by (intro calm_trans [OF calm_frame calm_refresh]) (auto simp: parked_ids_def)

lemma calm_paid: "calm Y (set_paid_through vid t Y)"
  unfolding set_paid_through_def by (rule calm_vehicle) simp

lemma calm_end: "end_pause p lst v Y = Some Z \<Longrightarrow> calm Y Z"
  unfolding end_pause_def Let_def
  by (auto split: option.splits if_splits intro: calm_change calm_trans [OF calm_change calm_paid])

lemma calm_start: "createPauseTx env vid i src Y = Inr Y' \<Longrightarrow> calm Y Y'"
proof -
  assume "createPauseTx env vid i src Y = Inr Y'"
  then obtain p Z where p: "Y' = add_pause p Z" "pa_Vehicle p = vid" "Z = Y \<or> Z = free_spot vid Y" "find_vehicle Y vid \<noteq> None"
    unfolding createPauseTx_def Let_def
    by (auto simp: pause_refused_def split: sum.splits option.splits if_splits prod.splits)
  then have "find_vehicle Z (pa_Vehicle p) \<noteq> None" by (auto simp: free_spot_def)
  with p(1,3) show ?thesis by (auto intro: calm_add calm_trans [OF calm_free calm_add])
qed

lemma calm_return: "ReturnFromPause env hall pid given Y = Some (Inr Y') \<Longrightarrow> calm Y Y'"
proof -
  assume "ReturnFromPause env hall pid given Y = Some (Inr Y')"
  then obtain p Z where "Y' = relink_spot (pa_Vehicle p) (pa_PrevSpot p) Z"
    "Z = remove_pause (pa_Vehicle p) pid Y \<or> (\<exists>l v. end_pause p l v Y = Some Z)"
    unfolding ReturnFromPause_def Let_def by (auto split: sum.splits option.splits if_splits)
  then show ?thesis by (auto intro: calm_trans [OF calm_remove calm_relink] calm_trans [OF calm_end calm_relink])
qed

lemma calm_extend: "ExtendPause pid given Y = Inr Y' \<Longrightarrow> calm Y Y'"
  unfolding ExtendPause_def by (auto split: sum.splits option.splits if_splits intro: calm_change)

lemma calm_delete: "DeletePause pid Y = Some (Inr Y') \<Longrightarrow> calm Y Y'"
proof -
  assume "DeletePause pid Y = Some (Inr Y')"
  then obtain p v Z where p: "Y' = relink_spot (pa_Vehicle p) (pa_PrevSpot p) (remove_pause (pa_Vehicle p) pid Z)"
    "undo_shift p v Y = Some (Inr Z)"
    unfolding DeletePause_def Let_def by (auto split: option.splits if_splits)
  have "calm Y Z" using p(2) by (auto simp: undo_shift_def intro: calm_paid split: option.splits bool.splits if_splits)
  then show ?thesis unfolding p(1) by (blast intro: calm_trans calm_remove calm_relink)
qed

lemma pause_step_calm: "pause_step env Y Y' \<Longrightarrow> calm Y Y'"
  by (cases rule: pause_step.cases) (auto intro: calm_start calm_return calm_extend calm_delete)

end
