(* ===== verification/Yard_Properties.thy ===== *)
theory Yard_Properties
  imports Yard_Order Yard_Examples
begin

text \<open>
  The properties of the vehicles: whatever is edited, closed, copied or rested, a billed rent stays as
  billed, and the hall stays in order.
\<close>

subsection \<open>Status history\<close>

fun follow :: "string \<Rightarrow> status_entry list \<Rightarrow> string option" where
  "follow s [] = Some s"
| "follow s (h # hs) = (if se_Old h = s then follow (se_New h) hs else None)"

lemma follow_snoc:
  "follow s (hs @ [h]) = (case follow s hs of None \<Rightarrow> None | Some t \<Rightarrow> if se_Old h = t then Some (se_New h) else None)"
  by (induction s hs rule: follow.induct) simp_all

definition told :: "yard \<Rightarrow> bool" where
  "told Y \<longleftrightarrow> distinct (map fst (parked_ids Y)) \<and> (\<forall>x \<in> set (map fst (parked_ids Y)). x < yd_next_vehicle Y)
     \<and> (\<forall>h \<in> set (yd_history Y). se_Vehicle h < yd_next_vehicle Y)
     \<and> (\<forall>x st. (x, st) \<in> set (parked_ids Y) \<longrightarrow> follow [] (filter (\<lambda>h. se_Vehicle h = x) (yd_history Y)) = Some st)"

lemma told_calm: "calm Y Y' \<Longrightarrow> told Y \<Longrightarrow> told Y'"
  by (simp add: calm_def told_def)

lemma find_in: "find P xs = Some x \<Longrightarrow> x \<in> set xs"
  by (induction xs) (auto split: if_splits)

lemma told_set:
  assumes "told Y" "find_vehicle Y w = Some v"
    and "parked_ids Z = map (\<lambda>(x, s). (x, if x = w then st else s)) (parked_ids Y)" "yd_history Z = yd_history Y"
    "yd_next_vehicle Z = yd_next_vehicle Y"
  shows "told (recordStatusTx w (vh_Status v) st msg Z)"
proof -
  have "v \<in> set (lg_vehicles (yd_ledger Y))" "vh_ID v = w"
    using assms(2) find_vehicle_id [OF assms(2)] by (auto simp: find_vehicle_def dest: find_in)
  then have w: "(w, vh_Status v) \<in> set (parked_ids Y)" by (force simp: parked_ids_def)
  let ?Z = "recordStatusTx w (vh_Status v) st msg Z"
  have p: "parked_ids ?Z = map (\<lambda>(x, s). (x, if x = w then st else s)) (parked_ids Y)"
    "yd_history ?Z = yd_history Y @ [\<lparr>se_Vehicle = w, se_Old = vh_Status v, se_New = st, se_Note = msg\<rparr>]"
    "yd_next_vehicle ?Z = yd_next_vehicle Y"
    using assms(3-5) by (simp_all add: recordStatusTx_def parked_ids_def)
  have f: "map fst (parked_ids ?Z) = map fst (parked_ids Y)" by (simp add: p comp_def case_prod_beta)
  have h: "follow [] (filter (\<lambda>h. se_Vehicle h = x) (yd_history Y)) = Some s" if "(x, s) \<in> set (parked_ids Y)" for x s
    using assms(1) that by (auto simp: told_def)
  have "follow [] (filter (\<lambda>h. se_Vehicle h = x) (yd_history ?Z)) = Some s" if xs: "(x, s) \<in> set (parked_ids ?Z)" for x s
  proof -
    from xs obtain s0 where s0: "(x, s0) \<in> set (parked_ids Y)" "s = (if x = w then st else s0)" by (auto simp: p)
    show ?thesis
      unfolding p(2) filter_append using h [OF s0(1)] h [OF w] s0(2) by (cases "x = w") (simp_all add: follow_snoc)
  qed
  moreover have "\<forall>h \<in> set (yd_history ?Z). se_Vehicle h < yd_next_vehicle ?Z"
    using assms(1) w by (force simp: told_def p)
  moreover have "distinct (map fst (parked_ids ?Z))" "\<forall>x \<in> set (map fst (parked_ids ?Z)). x < yd_next_vehicle ?Z"
    using assms(1) by (simp_all add: told_def f p(3))
  ultimately show ?thesis unfolding told_def by blast
qed


lemma told_new:
  assumes "told Y" "insert_vehicle v c Y = Inr (new, Z)"
  shows "told (recordStatusTx new [] (vh_Status v) msg Z)"
proof -
  note i = insert_parts [OF assms(2)]
  let ?Z = "recordStatusTx new [] (vh_Status v) msg Z"
  have p: "parked_ids ?Z = parked_ids Y @ [(new, vh_Status v)]"
    "yd_history ?Z = yd_history Y @ [\<lparr>se_Vehicle = new, se_Old = [], se_New = vh_Status v, se_Note = msg\<rparr>]"
    "yd_next_vehicle ?Z = new + 1" "new = yd_next_vehicle Y"
    using i by (simp_all add: recordStatusTx_def parked_ids_def)
  have "filter (\<lambda>h. se_Vehicle h = new) (yd_history Y) = []"
    using assms(1) by (auto simp: told_def p(4) filter_empty_conv)
  moreover have "x \<noteq> new" if "(x, s) \<in> set (parked_ids Y)" for x s
    using assms(1) that by (force simp: told_def p(4))
  ultimately show ?thesis
    using assms(1) unfolding told_def p(1-3) by (auto simp: p(4))
qed

lemma told_drop:
  assumes "told Y" shows "told (drop_vehicles P Y)"
proof -
  have p: "parked_ids (drop_vehicles P Y) = filter (\<lambda>x. \<not> P (fst x)) (parked_ids Y)"
    by (simp add: parked_ids_def filter_map comp_def)
  have f: "filter (\<lambda>h. se_Vehicle h = x) (filter (\<lambda>h. \<not> P (se_Vehicle h)) hs) = filter (\<lambda>h. se_Vehicle h = x) hs" if "\<not> P x" for x hs
    using that by (induction hs) auto
  have "follow [] (filter (\<lambda>h. se_Vehicle h = x) (filter (\<lambda>h. \<not> P (se_Vehicle h)) (yd_history Y))) = Some st"
    if "(x, st) \<in> set (filter (\<lambda>x. \<not> P (fst x)) (parked_ids Y))" for x st
    using that assms by (subst f) (auto simp: told_def)
  then show ?thesis
    using assms unfolding told_def p drop_parts by (simp add: distinct_map_filter del: filter_filter)
qed

lemma one_each_new:
  assumes "one_each Y" "told Y" "insert_vehicle v c Y = Inr (new, Z)" "vc_Spot c = None"
  shows "one_each (recordStatusTx new a b msg Z)"
proof -
  note i = insert_parts [OF assms(3)]
  have p: "map fst (parked_ids (recordStatusTx new a b msg Z)) = map fst (parked_ids Y) @ [new]"
    "yd_cards (recordStatusTx new a b msg Z) = (yd_cards Y)(new := c)"
    using i by (simp_all add: recordStatusTx_def parked_ids_def)
  have "x \<noteq> new" if "x \<in> set (map fst (parked_ids Y))" for x
    using assms(2) that by (force simp: told_def i(1))
  then show ?thesis using assms(1,4) unfolding one_each_ids p by (auto simp: Ball_def)
qed

lemma one_each_drop: "one_each Y \<Longrightarrow> one_each (drop_vehicles P Y)"
  unfolding one_each_def drop_parts set_filter by blast

lemma one_each_history [simp]: "one_each (recordStatusTx w a b msg Y) = one_each Y"
  by (simp add: recordStatusTx_def one_each_def)

lemma one_each_same_ids:
  "one_each Y \<Longrightarrow> map fst (parked_ids Z) = map fst (parked_ids Y) \<Longrightarrow> yd_cards Z = yd_cards Y \<Longrightarrow> one_each Z"
  unfolding one_each_ids by (simp only:)

text \<open>A change of one vehicle's columns and its status.\<close>

definition tidy :: "yard \<Rightarrow> bool" where
  "tidy Y \<longleftrightarrow> hall_ok Y \<and> told Y \<and> one_each Y"

lemma tidy_status:
  assumes "tidy Y" "find_vehicle Y w = Some v" "\<And>u. card_of (f u) = card_of u" "\<And>u. vh_Status (f u) = st"
  shows "tidy (recordStatusTx w (vh_Status v) st msg (change_vehicle w f Y))"
proof -
  have c: "parked_ids (change_vehicle w f Y) = map (\<lambda>(x, s). (x, if x = w then st else s)) (parked_ids Y)"
    "yd_history (change_vehicle w f Y) = yd_history Y" "yd_next_vehicle (change_vehicle w f Y) = yd_next_vehicle Y"
    "yd_cards (change_vehicle w f Y) = yd_cards Y"
    using assms(3,4) by (auto simp: change_vehicle_def with_vehicles_def with_ledger_def parked_ids_def card_of_def)
  have "one_each (change_vehicle w f Y)"
  proof (rule one_each_same_ids)
    show "one_each Y" using assms(1) by (simp add: tidy_def)
    show "map fst (parked_ids (change_vehicle w f Y)) = map fst (parked_ids Y)"
      unfolding c(1) map_map by (rule map_cong) auto
  qed (rule c(4))
  moreover have "hall_ok (change_vehicle w f Y)" using assms(1) by (intro hall_ok_change assms(3)) (simp add: tidy_def)
  moreover have "told (recordStatusTx w (vh_Status v) st msg (change_vehicle w f Y))"
    using assms(1) by (intro told_set [OF _ assms(2) c(1-3)]) (simp add: tidy_def)
  ultimately show ?thesis by (simp add: tidy_def)
qed

lemma tidy_calm: "tidy Y \<Longrightarrow> calm Y Y' \<Longrightarrow> hall_ok Y' \<Longrightarrow> tidy Y'"
  by (auto simp: tidy_def told_calm calm_def told_def)

lemma tidy_card: "tidy Y \<Longrightarrow> calm Y (change_card w g Y) \<Longrightarrow> tidy (change_card w g Y)"
  by (rule tidy_calm) (simp_all add: tidy_def)

lemma tidy_archive: "tidy Y \<Longrightarrow> tidy (auto_archive env w Y)"
  using tidy_calm [OF _ calm_archive] hall_ok_archive by (auto simp: tidy_def)

lemma tidy_new:
  assumes "tidy Y" "insert_vehicle v c Y = Inr (new, Z)" "vh_Pauses v = []" "vc_Spot c = None"
  shows "tidy (recordStatusTx new [] (vh_Status v) msg Z)"
  using assms hall_ok_insert [OF _ assms(2,3)] told_new [OF _ assms(2)] one_each_new [OF _ _ assms(2,4)] by (simp add: tidy_def)


subsection \<open>Steps\<close>

lemma tidy_free: "tidy Y \<Longrightarrow> tidy (free_spot w Y)"
  unfolding free_spot_def by (rule tidy_card) (auto intro: calm_card)

lemma status_free: "recordStatusTx w a b msg (free_spot w Y) = free_spot w (recordStatusTx w a b msg Y)"
  by (simp add: recordStatusTx_def free_spot_def change_card_def)

lemma status_card: "recordStatusTx w a b msg (change_card w g Y) = change_card w g (recordStatusTx w a b msg Y)"
  by (simp add: recordStatusTx_def change_card_def)

lemma tidy_change_status: "tidy Y \<Longrightarrow> changeVehicleStatusTx env w q Y = Inr Y' \<Longrightarrow> tidy Y'"
proof -
  assume t: "tidy Y" "changeVehicleStatusTx env w q Y = Inr Y'"
  from t(2) show ?thesis
  proof (cases rule: status_parts)
    case (closed v e)
    have "tidy (recordStatusTx w (vh_Status v) (sr_Status q) (trim_space (sr_Note q)) (change_vehicle w (closed_at (sr_Status q) e) Y))"
      by (rule tidy_status [OF t(1) closed(1)]) (simp_all add: closed_at_def card_of_def)
    then show ?thesis unfolding closed(8) status_free by (rule tidy_free)
  next
    case (reopened v)
    show ?thesis unfolding reopened(5) by (rule tidy_status [OF t(1) reopened(1)]) (simp_all add: card_of_def)
  qed
qed

lemma tidy_edit: "tidy Y \<Longrightarrow> update_vehicle_tx env w pv Y = Inr Y' \<Longrightarrow> tidy Y'"
proof -
  assume t: "tidy Y" "update_vehicle_tx env w pv Y = Inr Y'"
  show ?thesis
    using t(2)
  proof (rule update_parts)
    fix v :: vehicle and oldRate newRate msg
    let ?q = "pv_req pv"
    let ?rate = "effectiveRate ?q oldRate" and ?ov = "markZeroRate (effectiveRate ?q oldRate) (persistedCostOverride ?q (vh_CostOverride v))"
    let ?f = "edited_vehicle env Y pv ?rate ?ov"
    assume v: "find_vehicle Y w = Some v"
      and Y': "Y' = (let Z = edited_yard env w pv ?rate ?ov Y
           in if vh_Status v \<noteq> vq_Status ?q then recordStatusTx w (vh_Status v) (vq_Status ?q) msg Z else Z)"
    have f: "card_of (?f u) = card_of u" "vh_Status (?f u) = vq_Status ?q" for u
      by (simp_all add: edited_vehicle_def Let_def card_of_def)
    have c: "calm Z (change_card w (edited_card pv) Z)" for Z by (rule calm_card) (simp add: edited_card_def)
    show ?thesis
    proof (cases "vh_Status v = vq_Status ?q")
      case False
      have "tidy (recordStatusTx w (vh_Status v) (vq_Status ?q) msg (change_vehicle w ?f Y))"
        by (rule tidy_status [OF t(1) v f])
      then show ?thesis using False tidy_card [OF _ c] by (simp add: Y' Let_def edited_yard_def status_card)
    next
      case True
      have m: "v' = v" if "v' \<in> set (lg_vehicles (yd_ledger Y))" "vh_ID v' = w" for v'
      proof -
        have "distinct (map vh_ID (lg_vehicles (yd_ledger Y)))" using t(1) by (simp add: tidy_def told_def parked_ids_def comp_def)
        moreover have "v \<in> set (lg_vehicles (yd_ledger Y))" "vh_ID v = w"
          using v find_vehicle_id [OF v] by (auto simp: find_vehicle_def dest: find_in)
        ultimately show ?thesis using that by (auto simp: distinct_map inj_on_def)
      qed
      have "calm Y (change_vehicle w ?f Y)"
        using m f True
        by (intro calm_frame) (auto simp: change_vehicle_def with_vehicles_def with_ledger_def parked_ids_def card_of_def)
      moreover have "hall_ok (change_vehicle w ?f Y)" using t(1) by (intro hall_ok_change f) (simp add: tidy_def)
      ultimately have "tidy (change_vehicle w ?f Y)" using t(1) tidy_calm by blast
      then show ?thesis using True tidy_card [OF _ c] by (simp add: Y' Let_def edited_yard_def)
    qed
  qed
qed

lemma tidy_rest:
  assumes "tidy Y" "table_step w Y Y'" "pause_books w Y Y'" "calm Y Y'"
  shows "tidy Y'"
proof (rule tidy_calm [OF assms(1,4)])
  have t: "hall_ok Y" "told Y" using assms(1) by (simp_all add: tidy_def)
  have "pa_Vehicle p < yd_next_vehicle Y" if p: "p \<in> set (yd_pauses Y')" for p
  proof -
    have "pa_Vehicle p \<in> pa_Vehicle ` set (yd_pauses Y) \<union> set (map fst (parked_ids Y))"
      using assms(4) p unfolding calm_def by blast
    then show ?thesis using t by (auto simp: hall_ok_def told_def)
  qed
  moreover have "yd_next_vehicle Y' = yd_next_vehicle Y" using assms(4) by (simp add: calm_def)
  ultimately show "hall_ok Y'" by (intro table_hall_ok [OF assms(2,3) t(1)])
qed


lemma collect_parts:
  assumes "CollectFromPause env pid Y = Inr Y'" "pauses_ok Y"
  obtains q Z where "table_step (pa_Vehicle q) Y (remove_pause (pa_Vehicle q) pid Y)"
    "pause_books (pa_Vehicle q) Y (remove_pause (pa_Vehicle q) pid Y)"
    "changeVehicleStatusTx env (pa_Vehicle q) (collect_request q) (remove_pause (pa_Vehicle q) pid Y) = Inr Z"
    "Y' = auto_archive env (pa_Vehicle q) Z"
proof -
  from assms(1) obtain q Z where q: "find_pause Y pid = Some q"
    "is_zero_time (pauseLockedThrough (yd_ledger Y) (pa_Vehicle q)) \<or> after (pa_From q) (pauseLockedThrough (yd_ledger Y) (pa_Vehicle q))"
    "changeVehicleStatusTx env (pa_Vehicle q) (collect_request q) (remove_pause (pa_Vehicle q) pid Y) = Inr Z"
    "Y' = auto_archive env (pa_Vehicle q) Z"
    unfolding CollectFromPause_def Let_def by (auto split: option.splits if_splits)
  have d: "is_date (pa_From q)" using find_pause_in [OF q(1)] assms(2) by (auto simp: pauses_ok_def pause_dated_def)
  show thesis
  proof (rule that [OF _ _ q(3,4)])
    show "table_step (pa_Vehicle q) Y (remove_pause (pa_Vehicle q) pid Y)"
      using find_pause_in [OF q(1)] q(2) d
      by (intro table_step.removed [of q Y pid]) (auto simp: remove_pause_def intro: after_locked)
    show "pause_books (pa_Vehicle q) Y (remove_pause (pa_Vehicle q) pid Y)"
      unfolding remove_pause_def by (rule books_refresh) simp
  qed
qed

lemma calm_unassign: "calm Y (fold free_spot vs Y)"
proof (induction vs arbitrary: Y)
  case (Cons x vs)
  from calm_trans [OF calm_free Cons] show ?case by simp
qed simp

lemma hall_ok_unassign: "hall_ok (fold free_spot vs Y) = hall_ok Y"
  by (induction vs arbitrary: Y) (simp_all add: free_spot_def)

lemma tidy_step:
  assumes "yard_step num Y Y'" "tidy Y" shows "tidy Y'"
  using assms(1)
proof cases
  case (create env q vid)
  then obtain pv where "insertVehicleTx env pv Y = Inr (vid, Y')" by (auto simp: CreateVehicle_def split: sum.splits)
  then show ?thesis by (rule vehicle_inserted) (use tidy_new [OF assms(2)] in blast)
next
  case (edit env vid q)
  then show ?thesis using assms(2) by (auto simp: UpdateVehicle_def intro: tidy_archive tidy_edit split: sum.splits)
next
  case (plan vid charging symbol)
  then obtain s where Y': "Y' = change_card vid (\<lambda>c. c\<lparr>vc_NeedsPower := charging, vc_Symbol := s\<rparr>) Y"
    by (auto simp: UpdateVehiclePlanner_def split: sum.splits option.splits if_splits)
  show ?thesis unfolding Y' by (rule tidy_card [OF assms(2) calm_card]) simp
next
  case (delete vid)
  then have "Y' = drop_vehicles (\<lambda>w. w = vid) Y" by (auto simp: DeleteVehicle_def split: option.splits if_splits)
  then show ?thesis using assms(2) by (simp add: tidy_def hall_ok_drop told_drop one_each_drop)
next
  case (change_status env vid sq)
  then show ?thesis using assms(2) by (auto simp: ChangeVehicleStatus_def intro: tidy_archive tidy_change_status split: if_splits)
next
  case (reactivate vid)
  then have Y': "Y' = change_vehicle vid (\<lambda>v. v\<lparr>vh_Archived := False\<rparr>) Y" by (auto simp: ReactivateVehicle_def split: option.splits)
  have "hall_ok Y'" unfolding Y' using assms(2) by (intro hall_ok_change) (simp_all add: tidy_def card_of_def)
  moreover have "calm Y Y'" unfolding Y' by (rule calm_vehicle) simp
  ultimately show ?thesis using tidy_calm assms(2) by blast
next
  case (copy env vid start tariff reserve new)
  from copy(1) show ?thesis by (rule vehicle_copied) (use tidy_new [OF assms(2)] in blast)
next
  case (place spot vid)
  then have Y': "Y' = change_card vid (\<lambda>c. c\<lparr>vc_Spot := Some spot\<rparr>) Y" "\<forall>x \<in> set (occupants Y spot). x = vid"
    by (auto simp: AssignSpotVehicle_def split: if_splits)
  show ?thesis unfolding Y'(1) using Y'(2) by (intro tidy_card [OF assms(2) calm_settle]) simp
next
  case (clear spot)
  show ?thesis unfolding clear UnassignSpotVehicle_def
    using assms(2) by (intro tidy_calm [OF assms(2) calm_unassign]) (simp add: hall_ok_unassign tidy_def)
next
  case (rest env)
  obtain w where "table_step w Y Y'" "pause_books w Y Y'"
    using pause_step_table [OF rest(1) _ rest(2)] assms(2) by (auto simp: tidy_def hall_ok_def)
  then show ?thesis using tidy_rest [OF assms(2)] pause_step_calm [OF rest(1)] by blast
next
  case (collect env pid)
  have "pauses_ok Y" using assms(2) by (simp add: tidy_def hall_ok_def)
  from collect(1) this show ?thesis
  proof (rule collect_parts)
    fix q Z
    assume c: "table_step (pa_Vehicle q) Y (remove_pause (pa_Vehicle q) pid Y)"
      "pause_books (pa_Vehicle q) Y (remove_pause (pa_Vehicle q) pid Y)"
      "changeVehicleStatusTx env (pa_Vehicle q) (collect_request q) (remove_pause (pa_Vehicle q) pid Y) = Inr Z"
      "Y' = auto_archive env (pa_Vehicle q) Z"
    have "tidy (remove_pause (pa_Vehicle q) pid Y)" by (rule tidy_rest [OF assms(2) c(1,2) calm_remove])
    then show ?thesis unfolding c(4) by (intro tidy_archive tidy_change_status [OF _ c(3)])
  qed
qed

lemma stands_step:
  assumes "yard_step num Y Y'" "hall_ok Y" "num 0 = 0" "rent_stands num now vid key es Y" "es \<noteq> []" "local_day now < horizon"
  shows "rent_stands num now vid key es Y'"
  using assms(1)
proof cases
  case (create env q new)
  then obtain pv where "insertVehicleTx env pv Y = Inr (new, Y')" by (auto simp: CreateVehicle_def split: sum.splits)
  then show ?thesis by (rule vehicle_inserted) (use stands_insert [OF assms(4)] in auto)
next
  case (edit env w q)
  then obtain pv Z where p: "validateVehicleRequest (yd_icons Y) q = Inr pv" "update_vehicle_tx env w pv Y = Inr Z" "Y' = auto_archive env w Z"
    by (auto simp: UpdateVehicle_def split: sum.splits)
  have "rent_stands num now vid key es Z"
    using request_dates [OF p(1)] by (intro stands_edit [OF assms(4-6) edit(2) assms(3) p(2)]) (auto split: option.splits)
  then show ?thesis unfolding p(3) by (rule stands_archive)
next
  case (plan w charging symbol)
  then show ?thesis using assms(4) by (auto simp: UpdateVehiclePlanner_def split: sum.splits option.splits if_splits)
next
  case (delete w)
  show ?thesis by (rule stands_delete [OF assms(4) delete])
next
  case (change_status env w sq)
  then show ?thesis using stands_status [OF assms(4-6)]
    by (auto simp: ChangeVehicleStatus_def intro: stands_archive split: if_splits)
next
  case (reactivate w)
  then have Y': "Y' = change_vehicle w (\<lambda>v. v\<lparr>vh_Archived := False\<rparr>) Y" by (auto simp: ReactivateVehicle_def split: option.splits)
  show ?thesis unfolding Y' by (rule stands_change_same [OF assms(4)]) simp_all
next
  case (copy env w start tariff reserve new)
  from copy(1) show ?thesis by (rule vehicle_copied) (use stands_insert [OF assms(4)] in auto)
next
  case (place spot w)
  then show ?thesis using assms(4) by (auto simp: AssignSpotVehicle_def split: if_splits)
next
  case (clear spot)
  have "rent_stands num now vid key es (fold free_spot vs Z) = rent_stands num now vid key es Z" for vs Z
    by (induction vs arbitrary: Z) simp_all
  then show ?thesis unfolding clear UnassignSpotVehicle_def using assms(4) by simp
next
  case (rest env)
  obtain w where "table_step w Y Y'" "pause_books w Y Y'"
    using pause_step_table [OF rest(1) _ rest(2)] assms(2) by (auto simp: hall_ok_def)
  then show ?thesis using stands_table [OF _ _ _ assms(4,6)] assms(2) by (simp add: hall_ok_def)
next
  case (collect env pid)
  have ok: "pauses_ok Y" using assms(2) by (simp add: hall_ok_def)
  from collect(1) ok show ?thesis
  proof (rule collect_parts)
    fix q Z
    assume c: "table_step (pa_Vehicle q) Y (remove_pause (pa_Vehicle q) pid Y)"
      "pause_books (pa_Vehicle q) Y (remove_pause (pa_Vehicle q) pid Y)"
      "changeVehicleStatusTx env (pa_Vehicle q) (collect_request q) (remove_pause (pa_Vehicle q) pid Y) = Inr Z"
      "Y' = auto_archive env (pa_Vehicle q) Z"
    have "rent_stands num now vid key es (remove_pause (pa_Vehicle q) pid Y)" by (rule stands_table [OF c(1,2) ok assms(4,6)])
    then show ?thesis unfolding c(4) by (intro stands_archive stands_status [OF _ assms(5,6) c(3)])
  qed
qed


subsection \<open>Properties\<close>

text \<open>C38: what an invoice has billed of a rent is never re-priced: after any run of the handlers of
  vehicles, places and pauses the vehicle is still there, and the entry under the billed key has the
  start, the cost and the completeness it had.\<close>

theorem billed_rent_stands:
  assumes "(yard_step num)\<^sup>*\<^sup>* Y Y'" "tidy Y" "num 0 = 0"
    and "rent_stands num now vid key es Y" "es \<noteq> []" "local_day now < horizon"
  shows "billed_entry (yd_ledger Y') ''vehicle'' vid key now = Some es
    \<and> key \<in> set (invoiced_keys (yd_ledger Y') ''vehicle'' vid)"
proof -
  have "tidy Y' \<and> rent_stands num now vid key es Y'"
    using assms(1)
  proof (induction rule: rtranclp_induct)
    case (step Y1 Y2)
    then have "hall_ok Y1" by (simp add: tidy_def)
    with step tidy_step [OF step.hyps(2)] stands_step [OF step.hyps(2) _ assms(3) _ assms(5,6)] show ?case by blast
  qed (use assms in simp)
  then show ?thesis by (auto simp: rent_stands_def billed_entry_rent)
qed

lemma pick_up:
  "\<exists>Y'. ChangeVehicleStatus (on_day 19900) 5 \<lparr>sr_Status = ''collected'', sr_Note = [], sr_Date = []\<rparr> example_yard = Inr Y'"
proof -
  have "\<not> endDateRetractsBelowInvoiced hall_ledger ''vehicle'' 5 (Some (utc_midnight 19900))"
    using periodKeyEnd_index [of BillingMonthly 24292]
    by (simp add: endDateRetractsBelowInvoiced_def hall_keys key_years_index BillingMonthly_def BillingYearly_def cal_eval)
  moreover have "find_vehicle example_yard 5 = Some camper" by (rule find_camper)
  moreover have "businessDay (utc_midnight 19900) = utc_midnight 19900" by (simp add: businessDay_def DayAfter_eq)
  ultimately show ?thesis
    by (simp add: ChangeVehicleStatus_def changeVehicleStatusTx_def proposed_end_def close_vehicle_tx_def Let_def example_texts
        ledger_hall guardInvoicedPartialExtension_def camper_def parked_def closing_def ValidStatuses_def validNoteLength_def
        StatusReserved_def StatusStored_def StatusCollected_def StatusCancelled_def)
qed

lemma example_tidy: "tidy example_yard"
  using example_pauses_ok
  by (simp add: tidy_def hall_ok_def told_def one_each_def parked_ids_def hall_defs)

lemma example_stands:
  "\<exists>es. rent_stands (\<lambda>x. go_round (f_mul x 100)) (utc_midnight 20000) 5 (index_key BillingMonthly 24292) es example_yard \<and> es \<noteq> []"
proof -
  let ?a = "rent example_yard camper"
  have d: "in_calendar ?a" by (simp add: in_calendar_def dated_def start_day_def camper_def parked_def)
  have "billed_under ?a (index_key BillingMonthly 24292) (utc_midnight 20000) \<noteq> []"
    using billed_under_slice [of ?a 24292 "utc_midnight 20000"] d
    by (simp add: in_calendar_def start_day_def until_day_def camper_def parked_def cal_eval)
  moreover have "keys_fit (yd_ledger example_yard) BillingMonthly 5"
    by (auto simp: keys_fit_def ledger_hall hall_keys key_years_index BillingMonthly_def BillingYearly_def)
  moreover have "euros (go_round (f_mul 80 100)) = 80"
    using f_mul_ints [of 80 100] fl_of_int [of 80] fl_of_int [of 8000] go_round_of_int [of 8000] by (simp add: euros_def f_div_def f_of_int_def)
  ultimately show ?thesis using d
    by (simp add: rent_stands_def find_camper ledger_hall hall_keys) (simp add: camper_def parked_def EffectiveRateFor_def BillingMonthly_def)
qed

theorem billed_rent_stands_witness:
  "\<exists>Y' es. ChangeVehicleStatus (on_day 19900) 5 \<lparr>sr_Status = ''collected'', sr_Note = [], sr_Date = []\<rparr> example_yard = Inr Y'
    \<and> es \<noteq> [] \<and> billed_entry (yd_ledger Y') ''vehicle'' 5 (index_key BillingMonthly 24292) (utc_midnight 20000) = Some es"
proof -
  obtain Y' where Y: "ChangeVehicleStatus (on_day 19900) 5 \<lparr>sr_Status = ''collected'', sr_Note = [], sr_Date = []\<rparr> example_yard = Inr Y'"
    using pick_up by blast
  obtain es where es: "rent_stands (\<lambda>x. go_round (f_mul x 100)) (utc_midnight 20000) 5 (index_key BillingMonthly 24292) es example_yard" "es \<noteq> []"
    using example_stands by blast
  have "yard_step (\<lambda>x. go_round (f_mul x 100)) example_yard Y'" using Y by (rule change_status) (simp add: horizon_days)
  then have "(yard_step (\<lambda>x. go_round (f_mul x 100)))\<^sup>*\<^sup>* example_yard Y'" by (rule r_into_rtranclp)
  from billed_rent_stands [OF this example_tidy _ es] es(2) Y show ?thesis
    by (auto simp: horizon_days f_mul_def)
qed


text \<open>C39: the hall stays in order: vehicles have ids of their own, every status is what the history of
  its vehicle tells step by step from its creation, no place holds two vehicles, and rents and
  recurring costs rest on exactly the pauses of the table.\<close>

theorem hall_stays_in_order:
  assumes "(yard_step num)\<^sup>*\<^sup>* Y Y'" "tidy Y"
  shows "distinct (map vh_ID (lg_vehicles (yd_ledger Y')))
    \<and> (\<forall>v \<in> set (lg_vehicles (yd_ledger Y')). vh_Pauses v = billed_pauses Y' (vh_ID v)
        \<and> follow [] (filter (\<lambda>h. se_Vehicle h = vh_ID v) (yd_history Y')) = Some (vh_Status v))
    \<and> (\<forall>spot. \<forall>v \<in> set (occupants Y' spot). \<forall>w \<in> set (occupants Y' spot). v = w)"
proof -
  have "tidy Y'"
    using assms by (induction rule: rtranclp_induct) (auto intro: tidy_step)
  then have t: "hall_ok Y'" "told Y'" "one_each Y'" by (simp_all add: tidy_def)
  have "distinct (map vh_ID (lg_vehicles (yd_ledger Y')))" using t(2) by (simp add: told_def parked_ids_def comp_def)
  moreover have "vh_Pauses v = billed_pauses Y' (vh_ID v)
      \<and> follow [] (filter (\<lambda>h. se_Vehicle h = vh_ID v) (yd_history Y')) = Some (vh_Status v)"
    if "v \<in> set (lg_vehicles (yd_ledger Y'))" for v
    using t(1,2) that by (force simp: hall_ok_def pauses_ok_def told_def parked_ids_def)
  moreover have "v = w" if "v \<in> set (occupants Y' spot)" "w \<in> set (occupants Y' spot)" for spot v w
    using t(3) that unfolding one_each_ids occupants_ids by (metis (mono_tags, lifting) mem_Collect_eq option.distinct(1))
  ultimately show ?thesis by blast
qed

theorem hall_stays_in_order_witness:
  "\<exists>Y'. ChangeVehicleStatus (on_day 19900) 5 \<lparr>sr_Status = ''collected'', sr_Note = [], sr_Date = []\<rparr> example_yard = Inr Y'
    \<and> (\<forall>v \<in> set (lg_vehicles (yd_ledger Y')). follow [] (filter (\<lambda>h. se_Vehicle h = vh_ID v) (yd_history Y')) = Some (vh_Status v))"
proof -
  obtain Y' where Y: "ChangeVehicleStatus (on_day 19900) 5 \<lparr>sr_Status = ''collected'', sr_Note = [], sr_Date = []\<rparr> example_yard = Inr Y'"
    using pick_up by blast
  have "yard_step (\<lambda>_. 0) example_yard Y'" using Y by (rule change_status) (simp add: horizon_days)
  then have "(yard_step (\<lambda>_. 0))\<^sup>*\<^sup>* example_yard Y'" by (rule r_into_rtranclp)
  from hall_stays_in_order [OF this example_tidy] Y show ?thesis by blast
qed


text \<open>C40: once the last, partial period of a rental is invoiced, the vehicle can be neither edited nor
  given another status, whatever is asked for: every request is refused, one that leaves the end as it
  is and one that only records that the vehicle was collected too.\<close>

theorem billed_partial_period_blocks_pickup:
  assumes "find_vehicle Y w = Some v" "vh_EndDate v = Some (utc_midnight n)" "vh_StartDate v = utc_midnight s" "s \<le> n"
    and "grid (vh_BillingPeriod v) j \<le> n" "n + 1 < grid (vh_BillingPeriod v) (j + 1)" "key_years (vh_BillingPeriod v) j"
    and "keys_fit (yd_ledger Y) (vh_BillingPeriod v) w"
    and "index_key (vh_BillingPeriod v) j \<in> set (invoiced_keys (yd_ledger Y) ''vehicle'' w)"
  shows "(\<exists>e. UpdateVehicle env w q Y = Inl e) \<and> (\<exists>e. ChangeVehicleStatus env w sq Y = Inl e)"
proof -
  let ?p = "vh_BillingPeriod v" and ?L = "yd_ledger Y"
  have n: "grid ?p j \<le> n" "n < grid ?p (j + 1)" using assms(5,6) by simp_all
  have blocked: False
    if g: "guardInvoicedPartialExtension ?L ''vehicle'' w (Some (utc_midnight n)) newEnd ?p"
      and r: "\<not> endDateRetractsBelowInvoiced ?L ''vehicle'' w newEnd" and x: "newEnd = map_option utc_midnight x" for newEnd x
  proof -
    have "\<not> (case newEnd of None \<Rightarrow> False | Some ne \<Rightarrow> \<not> after ne (utc_midnight n))"
    proof (cases x)
      case (Some m)
      then have "grid ?p (j + 1) \<le> m + 1" using retract_bound [OF assms(8,9,7)] r x by simp
      then show ?thesis using assms(6) x Some by simp
    qed (simp add: x)
    moreover have "\<not> sameTaxDay (utc_midnight n) (last_day_of_period ?p (utc_midnight n))"
      using assms(6) by (simp add: date_in_period(1) [OF n])
    ultimately have "\<not> periodInvoicedTx ?L ''vehicle'' w (if ?p = BillingYearly then format_year (utc_midnight n) else format_month (utc_midnight n))"
      using g by (simp add: guardInvoicedPartialExtension_def)
    then show False using periodInvoiced_key [OF assms(9)] unfolding date_in_period(2) [OF n] by blast
  qed
  have "update_vehicle_tx env w pv Y \<noteq> Inr Y'" if p: "validateVehicleRequest (yd_icons Y) q = Inr pv" for pv Y'
  proof
    assume "update_vehicle_tx env w pv Y = Inr Y'"
    then show False
    proof (rule update_parts)
      fix v' :: vehicle
      assume v': "find_vehicle Y w = Some v'" "guardInvoicedPartialExtension ?L ''vehicle'' w (vh_EndDate v') (pv_endDate pv) (vh_BillingPeriod v')"
        "\<not> endDateRetractsBelowInvoiced ?L ''vehicle'' w (pv_endDate pv)"
      have "pv_endDate pv = map_option utc_midnight (map_option local_day (pv_endDate pv))"
        using request_dates [OF p] by (cases "pv_endDate pv") (simp_all add: is_date_def)
      from blocked [OF _ v'(3) this] v' assms(1,2) show False by simp
    qed
  qed
  then have "\<exists>e. UpdateVehicle env w q Y = Inl e"
    unfolding UpdateVehicle_def by (cases "validateVehicleRequest (yd_icons Y) q"; cases "update_vehicle_tx env w (projr (validateVehicleRequest (yd_icons Y) q)) Y") auto
  moreover have "changeVehicleStatusTx env w sq Y \<noteq> Inr Y'" for Y'
  proof
    assume "changeVehicleStatusTx env w sq Y = Inr Y'"
    then show False
    proof (cases rule: status_parts)
      case (closed v' e)
      have v': "v' = v" using closed(1) assms(1) by simp
      obtain d where d: "guardInvoicedPartialExtension ?L ''vehicle'' w (vh_EndDate v) (Some d) ?p"
        "e = d \<or> e = vh_StartDate v \<and> before d e \<and> (\<forall>oe. vh_EndDate v = Some oe \<longrightarrow> d = oe)" using closed(6) v' by blast
      have e: "e = d" using d(2) assms(2-4) by auto
      have m: "Some d = map_option utc_midnight (Some (local_day d))"
        using closed(7) assms(2,3) v' e by (auto simp: is_date_def)
      have "guardInvoicedPartialExtension ?L ''vehicle'' w (Some (utc_midnight n)) (Some d) ?p" using d(1) assms(2) by simp
      moreover have "\<not> endDateRetractsBelowInvoiced ?L ''vehicle'' w (Some d)" using closed(5) e by simp
      ultimately show False using m by (rule blocked)
    next
      case (reopened v')
      then have "guardInvoicedPartialExtension ?L ''vehicle'' w (Some (utc_midnight n)) None ?p" using assms(1,2) by simp
      from blocked [OF this, of None] show False by (simp add: endDateRetractsBelowInvoiced_def)
    qed
  qed
  then have "\<exists>e. ChangeVehicleStatus env w sq Y = Inl e"
    unfolding ChangeVehicleStatus_def by (cases "changeVehicleStatusTx env w sq Y") auto
  ultimately show ?thesis by blast
qed

definition leaving_yard :: yard where
  "leaving_yard = change_vehicle 5 (\<lambda>v. v\<lparr>vh_EndDate := Some (utc_midnight 19860)\<rparr>) example_yard"

theorem billed_partial_period_blocks_pickup_witness:
  "\<exists>e. ChangeVehicleStatus (on_day 19860) 5 \<lparr>sr_Status = ''collected'', sr_Note = [], sr_Date = []\<rparr> leaving_yard = Inl e"
proof -
  let ?v = "camper\<lparr>vh_EndDate := Some (utc_midnight 19860)\<rparr>"
  have v: "find_vehicle leaving_yard 5 = Some ?v"
    using find_camper by (simp add: leaving_yard_def find_change_vehicle) (simp add: camper_def)
  have L: "invoiced_keys (yd_ledger leaving_yard) ''vehicle'' 5 = [index_key BillingMonthly 24292]"
    using hall_keys(2) by (simp add: leaving_yard_def ledger_hall change_vehicle_def with_vehicles_def with_ledger_def invoiced_keys_def)
  then have f: "keys_fit (yd_ledger leaving_yard) BillingMonthly 5"
    by (auto simp: keys_fit_def key_years_index BillingMonthly_def BillingYearly_def)
  have p: "vh_BillingPeriod ?v = BillingMonthly" "vh_StartDate ?v = utc_midnight 19723" by (simp_all add: camper_def parked_def BillingMonthly_def)
  have "key_years BillingMonthly 24292" by (simp add: key_years_index BillingMonthly_def BillingYearly_def)
  with billed_partial_period_blocks_pickup [OF v _ p(2), of 19860 24292] L f show ?thesis
    by (simp add: p(1) cal_eval)
qed

end
