(* ===== verification/Spec2Isabelle.thy ===== *)
theory Spec2Isabelle
  imports Billing_Properties Auth_Properties Settlement_Periods Payment_Years Invoice_Properties
    Yard_Pause_Properties Yard_Properties
begin

text \<open>
  \<^bold>\<open>Parkrr: a verification development\<close>

  Parkrr is a Go server that administers stored vehicles: who owns them, what storing them costs,
  what has been paid, which invoices were issued, and who may look at it. This development models
  the parts of the server that carry its own logic and proves what makes them correct. Code that is
  not part of the repository (bcrypt, the TOTP library, PostgreSQL's rounding of NUMERIC columns,
  request hashes, randomness) is an argument of the definitions that use it.

  \<^bold>\<open>How the parts interact.\<close> A request passes the access middleware (\<^verbatim>\<open>internal/auth\<close>), reaches a
  handler (\<^verbatim>\<open>internal/handlers\<close>), which checks it and runs one database transaction. What a rental,
  an agreement or a recurring cost has accrued is computed by the domain model
  (\<^verbatim>\<open>internal/models\<close>); the balance, the open positions and the invoice lines are all views of that
  accrual minus what has been settled. Payments claim positions, invoices claim positions, and the
  two kinds of claim exclude each other.

  \<^bold>\<open>Theories.\<close>

  \<^item> \<open>Prelude\<close>: shared arithmetic and list facts. \<open>Go_Float\<close>, \<open>Go_Calendar\<close>, \<open>Go_Time\<close>,
    \<open>Go_String\<close>, \<open>Go_Date_Text\<close>: what the code uses of Go and its standard library. A float64 is
    the rational it denotes, and every operation rounds its exact result to 53 bits, ties to even;
    overflow and NaN are outside, as no amount the code admits comes near them. A time is an instant
    in nanoseconds with a zone offset; a string is its bytes.
  \<^item> \<open>Billing_Model\<close>, \<open>Billing_Accrual\<close>, \<open>Billing_Facts\<close>, \<open>Billing_Properties\<close>:
    \<^verbatim>\<open>internal/models/models.go\<close>. Proration by calendar sub-period, rate changes and pauses, settled
    periods. A Go callback loop over sub-periods is the list of the calls' arguments. The locale
    \<open>calendar_grid\<close> states what months and years have in common; it is interpreted on both walks.
  \<^item> \<open>Settlement_Model\<close>, \<open>Settlement_Facts\<close>, \<open>Settlement_Properties\<close>, \<open>Settlement_Periods\<close>:
    \<^verbatim>\<open>stats.go\<close>, \<^verbatim>\<open>recurring.go\<close> and the ownership rule of \<^verbatim>\<open>agreements.go\<close>. The balance is refined to
    an exact integer sum of cents, for at most \<open>10000\<close> additions of at most \<open>10 ^ 11\<close> cents (predicate
    \<open>near\<close>): below these bounds the float64 additions stay within half a cent.
  \<^item> \<open>Payment_Model\<close>, \<open>Payment_Flow\<close>: the tables of \<^verbatim>\<open>payments.go\<close> as a record \<open>ledger\<close> and its
    transactions as functions that return an error, which rolls the transaction back, or the new
    tables. A handler reads some rows before its transaction; what other requests change between is
    an argument (\<open>mid\<close>), so every interleaving at transaction level is covered.
    \<open>Payment_Ledger\<close>, \<open>Payment_Steps\<close>, \<open>Payment_Relations\<close>, \<open>Payment_Years\<close>, \<open>Payment_Properties\<close>:
    the invariant of the claims, its preservation by every transaction, the frozen closed years
    (\<^verbatim>\<open>payment_year_guard.go\<close>, \<^verbatim>\<open>period_history_guard.go\<close>). The locale \<open>kept\<close> carries an invariant
    from single steps to runs.
  \<^item> \<open>Invoice_Model\<close>: \<^verbatim>\<open>billing.go\<close>. The record \<open>office\<close> adds settings, documents and people to the
    ledger. \<open>Invoice_Books\<close>, \<open>Invoice_Steps\<close>, \<open>Invoice_Amounts\<close>, \<open>Invoice_Office\<close>, \<open>Invoice_Runs\<close>,
    \<open>Invoice_Examples\<close>, \<open>Invoice_Properties\<close>: the paid column of an invoice, its counter documents,
    exact amounts, consecutive numbers (against \<open>desk_run\<close>, a run with what each step did), that what is
    billed is not offered again, and that a storno restores the tables. The bounds on
    lines and amounts (\<open>billable\<close>: at most 4000 lines of at most \<open>4 * 10 ^ 10\<close> cents together;
    \<open>payable_books\<close>: at most 4900 invoices) keep the float64 sums of the code exact to the cent.
  \<^item> \<open>Yard_Model\<close>, \<open>Yard_Pauses\<close>: \<^verbatim>\<open>vehicles.go\<close>, \<^verbatim>\<open>vehicle_closure.go\<close>, \<^verbatim>\<open>pause.go\<close> and who stands on a place
    (\<^verbatim>\<open>stellplatz.go\<close>). The record \<open>yard\<close> adds the vehicles' other columns, places, pauses and status
    history to the office. \<open>Yard_Shift\<close>, \<open>Yard_Facts\<close>, \<open>Yard_Pause_Facts\<close>, \<open>Yard_Returns\<close>, \<open>Yard_Billed\<close>,
    \<open>Yard_Examples\<close>, \<open>Yard_Pause_Properties\<close>: billed periods are not touched by pauses, and the paid
    day moves on by the days rested. \<open>horizon\<close> is 9999-12-31, where the code ends an open pause.
    \<open>Yard_Window\<close>, \<open>Yard_Rent\<close>, \<open>Yard_Steps\<close>, \<open>Yard_Hall\<close>, \<open>Yard_Order\<close>, \<open>Yard_Properties\<close>: every handler of
    vehicles, places and pauses as a step of \<open>yard_step\<close>; over any run of steps a billed rent keeps what
    was billed, and the status history, the places and the pauses of the rents stay consistent.
  \<^item> \<open>Login_Limiter\<close>, \<open>Login_Throttle\<close>: \<^verbatim>\<open>internal/auth/ratelimit.go\<close> and the throttles of
    \<^verbatim>\<open>internal/handlers/auth.go\<close>; each operation is one step, as the code holds a mutex.
  \<^item> \<open>Auth_Store\<close>, \<open>Auth_Session\<close>, \<open>Auth_Flow\<close>, \<open>Auth_Properties\<close>: users, sessions, second factor,
    recovery codes and the login, password and second-factor handlers. Every statement may fail (an
    oracle argument says which) and other requests may act between the statements. What a login must
    have spent (\<open>factor_proven\<close>) is stated on the tables of that login, store by store.

  \<^bold>\<open>Loops.\<close> A loop of the modelled code is a structural recursion or a \<^verbatim>\<open>function\<close> with its
  termination proof; no fuel is used. The loop of \<^verbatim>\<open>shiftPaidThrough\<close>, which ends only when the pauses
  do, is a \<^verbatim>\<open>partial_function\<close> into options, and that it returns is proved.

  \<^bold>\<open>Not modelled.\<close> Decoding of requests, response bodies, logging and the audit trail; SQL text
  (a query is the list expression it denotes); the wiring of the server, mail, PDF, image, OCR,
  S3 and file handling; WebAuthn ceremonies (a library); backup and restore, which orchestrate
  external programs; the single-page frontend in JavaScript. Deposits, indexation, bank import,
  the tax book and the planner are handlers of the repository that this development does not
  reach; the list of components in the manifest names each file.
\<close>

end
